(* ===== verification/Prelude.thy ===== *)
theory Prelude
  imports Main "HOL-Library.Word"
begin

text \<open>
  Shared vocabulary of the development: the machine integers of the Rust sources, byte
  strings, \<open>std::io::Error\<close> as a value, the result of a fallible stateful call
  (\<open>('s, 'a) io\<close>, the shape of every \<open>fn(&mut self) -> io::Result<T>\<close>), the standard
  library's little-endian conversions and decimal display, and generic lemmas on them.
\<close>

unbundle bit_operations_syntax

type_synonym u8 = "8 word"
type_synonym u16 = "16 word"
type_synonym u32 = "32 word"
type_synonym u64 = "64 word"
type_synonym bytes = "u8 list"

text \<open>\<open>usize\<close> values are naturals; where the sources check for overflow the bound is explicit.\<close>

definition usize_max :: nat where
  "usize_max = 18446744073709551615"

definition checked_add :: "nat \<Rightarrow> nat \<Rightarrow> nat option" where
  "checked_add a b = (if a + b \<le> usize_max then Some (a + b) else None)"

definition saturating_add :: "nat \<Rightarrow> nat \<Rightarrow> nat" where
  "saturating_add a b = min (a + b) usize_max"

named_theorems io_simps
named_theorems wire_simps

subsection \<open>Errors and fallible stateful calls\<close>

datatype io_kind =
    InvalidData | InvalidInput | UnexpectedEof | TimedOut | ConnectionAborted
  | ConnectionReset | PermissionDenied | WriteZero | BrokenPipe | OtherKind

datatype io_error = IoError (err_kind: io_kind) (err_msg: bytes)

type_synonym 'a io_result = "io_error + 'a"
type_synonym ('s, 'a) io = "'s \<Rightarrow> 'a io_result \<times> 's"

definition ok_io :: "'a \<Rightarrow> ('s, 'a) io" where
  "ok_io x s = (Inr x, s)"

definition err_io :: "io_error \<Rightarrow> ('s, 'a) io" where
  "err_io e s = (Inl e, s)"

text \<open>\<open>and_then m f\<close> is \<open>let x = m?; f(x)\<close>: an error returns at once with the state reached.\<close>

definition and_then :: "('s, 'a) io \<Rightarrow> ('a \<Rightarrow> ('s, 'b) io) \<Rightarrow> ('s, 'b) io" where
  "and_then m f s = (case m s of (Inl e, s') \<Rightarrow> (Inl e, s') | (Inr x, s') \<Rightarrow> f x s')"

definition then_io :: "('s, unit) io \<Rightarrow> ('s, 'b) io \<Rightarrow> ('s, 'b) io" where
  "then_io m k = and_then m (\<lambda>_. k)"

fun seq_io :: "('s, unit) io list \<Rightarrow> ('s, unit) io" where
  "seq_io [] = ok_io ()"
| "seq_io (m # ms) = then_io m (seq_io ms)"

lemma ok_io_apply [simp, io_simps]: "ok_io x s = (Inr x, s)"
  by (simp add: ok_io_def)

lemma err_io_apply [simp, io_simps]: "err_io e s = (Inl e, s)"
  by (simp add: err_io_def)

lemma and_then_Inr [io_simps]: "m s = (Inr x, s') \<Longrightarrow> and_then m f s = f x s'"
  by (simp add: and_then_def)

lemma and_then_Inl [io_simps]: "m s = (Inl e, s') \<Longrightarrow> and_then m f s = (Inl e, s')"
  by (simp add: and_then_def)

lemma then_io_Inr [io_simps]: "m s = (Inr (), s') \<Longrightarrow> then_io m k s = k s'"
  by (simp add: then_io_def and_then_def)

lemma then_io_Inl [io_simps]: "m s = (Inl e, s') \<Longrightarrow> then_io m k s = (Inl e, s')"
  by (simp add: then_io_def and_then_def)

lemma and_then_eq_Inr:
  "and_then m f s = (Inr y, t) \<longleftrightarrow> (\<exists>x s'. m s = (Inr x, s') \<and> f x s' = (Inr y, t))"
  by (auto simp: and_then_def split: prod.splits sum.splits)

lemma and_then_eq_Inl:
  "and_then m f s = (Inl e, t) \<longleftrightarrow>
     m s = (Inl e, t) \<or> (\<exists>x s'. m s = (Inr x, s') \<and> f x s' = (Inl e, t))"
  by (auto simp: and_then_def split: prod.splits sum.splits)

lemma then_io_eq_Inr:
  "then_io m k s = (Inr y, t) \<longleftrightarrow> (\<exists>s'. m s = (Inr (), s') \<and> k s' = (Inr y, t))"
  by (simp add: then_io_def and_then_eq_Inr)

text \<open>
  A relation between the state before and after a call that every step keeps is kept by
  the composed call, whatever the result: the rule behind the frame and invariant lemmas.
\<close>

definition preserves :: "('s \<Rightarrow> bool) \<Rightarrow> ('s, 'a) io \<Rightarrow> bool" where
  "preserves P m \<longleftrightarrow> (\<forall>s. P s \<longrightarrow> P (snd (m s)))"

lemma preservesD: "preserves P m \<Longrightarrow> P s \<Longrightarrow> P (snd (m s))"
  by (simp add: preserves_def)

lemma preserves_ok [intro]: "preserves P (ok_io x)"
  by (simp add: preserves_def)

lemma preserves_err [intro]: "preserves P (err_io e)"
  by (simp add: preserves_def)

lemma preserves_and_then [intro]:
  assumes "preserves P m" and "\<And>x. preserves P (f x)"
  shows "preserves P (and_then m f)"
  unfolding preserves_def
proof (intro allI impI)
  fix s assume "P s"
  with assms(1) have "P (snd (m s))" by (rule preservesD)
  then show "P (snd (and_then m f s))"
    using assms(2) by (auto simp: and_then_def preserves_def split: prod.splits sum.splits)
qed

lemma preserves_then [intro]: "preserves P m \<Longrightarrow> preserves P k \<Longrightarrow> preserves P (then_io m k)"
  by (auto simp: then_io_def)

lemma preserves_seq [intro]: "(\<And>m. m \<in> set ms \<Longrightarrow> preserves P m) \<Longrightarrow> preserves P (seq_io ms)"
  by (induction ms) auto

text \<open>A computation that may panic.\<close>

datatype 'a rust = Panicked | Ret 'a

subsection \<open>Byte strings\<close>

definition ascii :: "string \<Rightarrow> bytes" where
  "ascii s = map of_char s"

text \<open>The \<open>Display\<close> of an unsigned integer.\<close>

fun dec :: "nat \<Rightarrow> bytes" where
  "dec n = (if n < 10 then [word_of_nat (48 + n)] else dec (n div 10) @ [word_of_nat (48 + n mod 10)])"

declare dec.simps [simp del]

text \<open>The hexadecimal display of a byte, without and with padding to two digits.\<close>

definition hex_digit :: "nat \<Rightarrow> u8" where
  "hex_digit d = word_of_nat (if d < 10 then 48 + d else 87 + d)"

definition hex :: "u8 \<Rightarrow> bytes" where
  "hex b = (if unat b < 16 then [hex_digit (unat b)] else [hex_digit (unat b div 16), hex_digit (unat b mod 16)])"

definition hex2 :: "u8 \<Rightarrow> bytes" where
  "hex2 b = [hex_digit (unat b div 16), hex_digit (unat b mod 16)]"

lemma dec_small [simp]: "n < 10 \<Longrightarrow> dec n = [word_of_nat (48 + n)]"
  by (subst dec.simps) simp

lemma dec_nonempty [simp]: "dec n \<noteq> []"
  by (subst dec.simps) simp

subsection \<open>Little-endian integers\<close>

text \<open>
  \<open>le_bytes n v\<close> is the \<open>n\<close>-byte \<open>to_le_bytes\<close> of \<open>v\<close>, \<open>of_le bs\<close> the value
  \<open>from_le_bytes\<close> reads.
\<close>

fun le_bytes :: "nat \<Rightarrow> nat \<Rightarrow> bytes" where
  "le_bytes 0 v = []"
| "le_bytes (Suc n) v = word_of_nat (v mod 256) # le_bytes n (v div 256)"

fun of_le :: "bytes \<Rightarrow> nat" where
  "of_le [] = 0"
| "of_le (b # bs) = unat b + 256 * of_le bs"

lemma length_le_bytes [simp]: "length (le_bytes n v) = n"
  by (induction n arbitrary: v) auto

lemma unat_byte_mod: "unat (word_of_nat (v mod 256) :: u8) = v mod 256"
  by (simp add: unat_of_nat)

lemma of_le_le_bytes: "of_le (le_bytes n v) = v mod 256 ^ n"
proof (induction n arbitrary: v)
  case 0
  then show ?case by simp
next
  case (Suc n)
  have "of_le (le_bytes (Suc n) v) = v mod 256 + 256 * (v div 256 mod 256 ^ n)"
    by (simp add: Suc unat_byte_mod)
  also have "\<dots> = v mod (256 * 256 ^ n)"
    by (simp add: mod_mult2_eq)
  finally show ?case by simp
qed

lemma of_le_bound: "of_le bs < 256 ^ length bs"
proof (induction bs)
  case Nil
  then show ?case by simp
next
  case (Cons b bs)
  have "unat b < 256" using unsigned_less [of b] by simp
  moreover have "256 * of_le bs + 256 \<le> 256 * 256 ^ length bs"
    using Cons by linarith
  ultimately show ?case by simp
qed

lemma le_bytes_of_le: "le_bytes (length bs) (of_le bs) = bs"
proof (induction bs)
  case Nil
  then show ?case by simp
next
  case (Cons b bs)
  have b: "unat b < 256" using unsigned_less [of b] by simp
  then have "(unat b + 256 * of_le bs) mod 256 = unat b"
    and "(unat b + 256 * of_le bs) div 256 = of_le bs"
    by simp_all
  with Cons show ?case by simp
qed

lemma le_bytes_inject:
  "v < 256 ^ n \<Longrightarrow> w < 256 ^ n \<Longrightarrow> le_bytes n v = le_bytes n w \<longleftrightarrow> v = w"
  by (metis mod_less of_le_le_bytes)

definition le16 :: "u16 \<Rightarrow> bytes" where "le16 w = le_bytes 2 (unat w)"
definition le32 :: "u32 \<Rightarrow> bytes" where "le32 w = le_bytes 4 (unat w)"
definition le64 :: "u64 \<Rightarrow> bytes" where "le64 w = le_bytes 8 (unat w)"

lemma length_le_words [simp]: "length (le16 a) = 2" "length (le32 b) = 4" "length (le64 c) = 8"
  by (simp_all add: le16_def le32_def le64_def)

lemma of_le_words [simp]:
  "word_of_nat (of_le (le16 a)) = a" "word_of_nat (of_le (le32 b)) = b"
  "word_of_nat (of_le (le64 c)) = c"
  using unsigned_less [of a, where ?'a = nat] unsigned_less [of b, where ?'a = nat] unsigned_less [of c, where ?'a = nat]
  by (simp_all add: le16_def le32_def le64_def of_le_le_bytes)

lemma unat_ucast_byte: "unat w < 256 \<Longrightarrow> unat (ucast w :: u8) = unat w"
  by (simp add: unsigned_ucast_eq unsigned_take_bit_eq take_bit_nat_eq_self_iff)

subsection \<open>Lists\<close>

lemma append_eq_prefix_cases:
  assumes "xs @ ys = us @ vs"
  obtains (shorter) ws where "us = xs @ ws" "ws \<noteq> []" "ys = ws @ vs"
        | (longer) ws where "xs = us @ ws" "vs = ws @ ys"
proof (cases "length xs < length us")
  case True
  with assms obtain ws where "us = xs @ ws" "ys = ws @ vs"
    by (auto simp: append_eq_append_conv2)
  with True show ?thesis by (intro shorter) auto
next
  case False
  with assms obtain ws where "xs = us @ ws" "vs = ws @ ys"
    by (auto simp: append_eq_append_conv2)
  then show ?thesis by (rule longer)
qed

end
