(* ===== verification/External.thy ===== *)
theory External
  imports Prelude
begin

text \<open>
  The third-party code the sources call is not part of the repository: \<open>nom\<close> (parsers),
  \<open>byteorder\<close> (integer reads and writes) and \<open>mysql_common\<close> (\<open>myc\<close>: protocol constants,
  length-encoded integers and strings). Each crate is a record of its operations that the
  model's definitions take as an argument. The predicates \<open>nom_spec\<close>, \<open>byteorder_spec\<close> and
  \<open>myc_spec\<close> state the documented behaviour the sources rely on; the \<open>_ref\<close> records are
  concrete instances showing that the predicates can hold. Enumerations and bit sets of
  \<open>mysql_common\<close> appear as datatypes with the variants the sources name.
\<close>

subsection \<open>nom\<close>

text \<open>
  \<open>nom::Err\<close>; \<open>Failure\<close> keeps the input the reported error refers to. \<open>NomStuck\<close> is not a
  value of the code: it marks a loop of the model that ran out of fuel, and is shown not
  to occur.
\<close>

datatype nom_err = NomIncomplete | NomError | NomFailure bytes | NomStuck

type_synonym 'a iresult = "nom_err + bytes \<times> 'a"

text \<open>\<open>p_bind r f\<close> is \<open>let (i, x) = r?; f(i, x)\<close>.\<close>

definition p_bind :: "'a iresult \<Rightarrow> (bytes \<Rightarrow> 'a \<Rightarrow> 'b iresult) \<Rightarrow> 'b iresult" where
  "p_bind r f = (case r of Inl e \<Rightarrow> Inl e | Inr (i, x) \<Rightarrow> f i x)"

lemma p_bind_simps [simp]: "p_bind (Inl e) f = Inl e" "p_bind (Inr (i, x)) f = f i x"
  by (simp_all add: p_bind_def)

lemma p_bind_assoc: "p_bind (p_bind r f) g = p_bind r (\<lambda>i x. p_bind (f i x) g)"
  by (auto simp: p_bind_def split: sum.splits prod.splits)

lemma p_bind_eq_Inr:
  "p_bind r f = Inr y \<longleftrightarrow> (\<exists>i x. r = Inr (i, x) \<and> f i x = Inr y)"
  by (auto simp: p_bind_def split: sum.splits prod.splits)

record 'c nom_ops =
  nom_le_u8 :: "bytes \<Rightarrow> u8 iresult"
  nom_le_u16 :: "bytes \<Rightarrow> u16 iresult"
  nom_le_u24 :: "bytes \<Rightarrow> u32 iresult"
  nom_le_u32 :: "bytes \<Rightarrow> u32 iresult"
  nom_take :: "nat \<Rightarrow> bytes \<Rightarrow> bytes iresult"
  nom_take_until :: "bytes \<Rightarrow> bytes \<Rightarrow> bytes iresult"
  nom_tag :: "bytes \<Rightarrow> bytes \<Rightarrow> bytes iresult"
  nom_rest :: "bytes \<Rightarrow> bytes iresult"
  nom_alt :: "(bytes \<Rightarrow> 'c iresult) list \<Rightarrow> bytes \<Rightarrow> 'c iresult"
  nom_all_consuming :: "(bytes \<Rightarrow> 'c iresult) \<Rightarrow> bytes \<Rightarrow> 'c iresult"
  nom_debug :: "bytes \<Rightarrow> bytes"

definition ref_le :: "nat \<Rightarrow> bytes \<Rightarrow> 'a::len word iresult" where
  "ref_le n i = (if length i < n then Inl NomError
     else Inr (drop n i, word_of_nat (of_le (take n i))))"

definition ref_take :: "nat \<Rightarrow> bytes \<Rightarrow> bytes iresult" where
  "ref_take n i = (if length i < n then Inl NomError else Inr (drop n i, take n i))"

definition ref_tag :: "bytes \<Rightarrow> bytes \<Rightarrow> bytes iresult" where
  "ref_tag t i = (if take (length t) i = t then Inr (drop (length t) i, t) else Inl NomError)"

definition ref_take_until :: "u8 \<Rightarrow> bytes \<Rightarrow> bytes iresult" where
  "ref_take_until c i = (if c \<in> set i then Inr (dropWhile (\<lambda>b. b \<noteq> c) i, takeWhile (\<lambda>b. b \<noteq> c) i)
     else Inl NomError)"

fun ref_alt :: "(bytes \<Rightarrow> 'c iresult) list \<Rightarrow> bytes \<Rightarrow> 'c iresult" where
  "ref_alt [] i = Inl NomError"
| "ref_alt (p # ps) i = (case p i of Inl NomError \<Rightarrow> ref_alt ps i | r \<Rightarrow> r)"

definition ref_all_consuming :: "(bytes \<Rightarrow> 'c iresult) \<Rightarrow> bytes \<Rightarrow> 'c iresult" where
  "ref_all_consuming p i = p_bind (p i) (\<lambda>r x. if r = [] then Inr (r, x) else Inl NomError)"

text \<open>
  The documented behaviour of \<open>nom::number::complete\<close>, \<open>nom::bytes::complete\<close>,
  \<open>nom::combinator::{rest, all_consuming}\<close> and \<open>nom::branch::alt\<close>.
\<close>

definition nom_spec :: "'c nom_ops \<Rightarrow> bool" where
  "nom_spec N \<longleftrightarrow>
     nom_le_u8 N = ref_le 1 \<and> nom_le_u16 N = ref_le 2 \<and> nom_le_u24 N = ref_le 3 \<and>
     nom_le_u32 N = ref_le 4 \<and> nom_take N = ref_take \<and> nom_tag N = ref_tag \<and>
     (\<forall>c. nom_take_until N [c] = ref_take_until c) \<and>
     nom_rest N = (\<lambda>i. Inr ([], i)) \<and> nom_alt N = ref_alt \<and>
     nom_all_consuming N = ref_all_consuming"

lemma nom_specD:
  assumes "nom_spec N"
  shows "nom_le_u8 N = ref_le 1" "nom_le_u16 N = ref_le 2" "nom_le_u24 N = ref_le 3"
    "nom_le_u32 N = ref_le 4" "nom_take N = ref_take" "nom_tag N = ref_tag"
    "nom_take_until N [c] = ref_take_until c" "nom_rest N = (\<lambda>i. Inr ([], i))"
    "nom_alt N = ref_alt" "nom_all_consuming N = ref_all_consuming"
  using assms by (simp_all add: nom_spec_def)

definition nom_ref :: "'c nom_ops" where
  "nom_ref = \<lparr>nom_le_u8 = ref_le 1, nom_le_u16 = ref_le 2, nom_le_u24 = ref_le 3,
     nom_le_u32 = ref_le 4, nom_take = ref_take,
     nom_take_until = (\<lambda>t. ref_take_until (hd t)), nom_tag = ref_tag,
     nom_rest = (\<lambda>i. Inr ([], i)), nom_alt = ref_alt,
     nom_all_consuming = ref_all_consuming, nom_debug = (\<lambda>_. [])\<rparr>"

lemma nom_ref_spec [simp]: "nom_spec nom_ref"
  by (simp add: nom_spec_def nom_ref_def)

lemma ref_le_append: "length b = n \<Longrightarrow> ref_le n (b @ i) = Inr (i, word_of_nat (of_le b))"
  by (simp add: ref_le_def)

lemma ref_take_append: "length b = n \<Longrightarrow> ref_take n (b @ i) = Inr (i, b)"
  by (simp add: ref_take_def)

lemma ref_take_0 [simp]: "ref_take 0 i = Inr (i, [])"
  by (simp add: ref_take_def)

lemma ref_tag_append [simp]: "ref_tag t (t @ i) = Inr (i, t)"
  by (simp add: ref_tag_def)

lemma ref_take_until_append:
  assumes "c \<notin> set b"
  shows "ref_take_until c (b @ c # i) = Inr (c # i, b)"
proof -
  have "takeWhile (\<lambda>x. x \<noteq> c) (b @ c # i) = b"
    using assms by (subst takeWhile_append2) auto
  moreover have "dropWhile (\<lambda>x. x \<noteq> c) (b @ c # i) = c # i"
    using assms by (subst dropWhile_append2) auto
  ultimately show ?thesis by (simp add: ref_take_until_def)
qed

subsection \<open>byteorder\<close>

text \<open>
  \<open>ReadBytesExt\<close> on \<open>&[u8]\<close> and \<open>WriteBytesExt\<close> / \<open>ByteOrder\<close> with \<open>LittleEndian\<close>. Signed
  reads return the bits of the value. \<open>f32\<close> and \<open>f64\<close> are their bit patterns.
\<close>

record byteorder_ops =
  bo_write_u16 :: "u16 \<Rightarrow> bytes"
  bo_write_u24 :: "u32 \<Rightarrow> bytes"
  bo_write_u32 :: "u32 \<Rightarrow> bytes"
  bo_write_u64 :: "u64 \<Rightarrow> bytes"
  bo_write_i16 :: "u16 \<Rightarrow> bytes"
  bo_write_i32 :: "u32 \<Rightarrow> bytes"
  bo_write_i64 :: "u64 \<Rightarrow> bytes"
  bo_write_f32 :: "u32 \<Rightarrow> bytes"
  bo_write_f64 :: "u64 \<Rightarrow> bytes"
  bo_read_u8 :: "bytes \<Rightarrow> (u8 \<times> bytes) io_result"
  bo_read_i8 :: "bytes \<Rightarrow> (u8 \<times> bytes) io_result"
  bo_read_u16 :: "bytes \<Rightarrow> (u16 \<times> bytes) io_result"
  bo_read_i16 :: "bytes \<Rightarrow> (u16 \<times> bytes) io_result"
  bo_read_u32 :: "bytes \<Rightarrow> (u32 \<times> bytes) io_result"
  bo_read_i32 :: "bytes \<Rightarrow> (u32 \<times> bytes) io_result"
  bo_read_u64 :: "bytes \<Rightarrow> (u64 \<times> bytes) io_result"
  bo_read_i64 :: "bytes \<Rightarrow> (u64 \<times> bytes) io_result"
  bo_read_f32 :: "bytes \<Rightarrow> (u32 \<times> bytes) io_result"
  bo_read_f64 :: "bytes \<Rightarrow> (u64 \<times> bytes) io_result"

definition eof_error :: io_error where
  "eof_error = IoError UnexpectedEof (ascii ''failed to fill whole buffer'')"

definition ref_read :: "nat \<Rightarrow> bytes \<Rightarrow> ('a::len word \<times> bytes) io_result" where
  "ref_read n i = (if length i < n then Inl eof_error
     else Inr (word_of_nat (of_le (take n i)), drop n i))"

definition byteorder_ref :: byteorder_ops where
  "byteorder_ref = \<lparr>bo_write_u16 = le16, bo_write_u24 = (\<lambda>w. le_bytes 3 (unat w)),
     bo_write_u32 = le32, bo_write_u64 = le64, bo_write_i16 = le16, bo_write_i32 = le32,
     bo_write_i64 = le64, bo_write_f32 = le32, bo_write_f64 = le64,
     bo_read_u8 = ref_read 1, bo_read_i8 = ref_read 1, bo_read_u16 = ref_read 2,
     bo_read_i16 = ref_read 2, bo_read_u32 = ref_read 4, bo_read_i32 = ref_read 4,
     bo_read_u64 = ref_read 8, bo_read_i64 = ref_read 8, bo_read_f32 = ref_read 4,
     bo_read_f64 = ref_read 8\<rparr>"

definition byteorder_spec :: "byteorder_ops \<Rightarrow> bool" where
  "byteorder_spec B \<longleftrightarrow>
     bo_write_u16 B = le16 \<and> (\<forall>w. unat w < 256 ^ 3 \<longrightarrow> bo_write_u24 B w = le_bytes 3 (unat w)) \<and>
     bo_write_u32 B = le32 \<and> bo_write_u64 B = le64 \<and> bo_write_i16 B = le16 \<and>
     bo_write_i32 B = le32 \<and> bo_write_i64 B = le64 \<and> bo_write_f32 B = le32 \<and>
     bo_write_f64 B = le64 \<and>
     bo_read_u8 B = ref_read 1 \<and> bo_read_i8 B = ref_read 1 \<and> bo_read_u16 B = ref_read 2 \<and>
     bo_read_i16 B = ref_read 2 \<and> bo_read_u32 B = ref_read 4 \<and> bo_read_i32 B = ref_read 4 \<and>
     bo_read_u64 B = ref_read 8 \<and> bo_read_i64 B = ref_read 8 \<and> bo_read_f32 B = ref_read 4 \<and>
     bo_read_f64 B = ref_read 8"

lemma byteorder_specD:
  assumes "byteorder_spec B"
  shows "bo_write_u16 B = le16" "unat w < 256 ^ 3 \<Longrightarrow> bo_write_u24 B w = le_bytes 3 (unat w)"
    "bo_write_u32 B = le32" "bo_write_u64 B = le64" "bo_write_i16 B = le16"
    "bo_write_i32 B = le32" "bo_write_i64 B = le64" "bo_write_f32 B = le32" "bo_write_f64 B = le64"
    "bo_read_u8 B = ref_read 1" "bo_read_i8 B = ref_read 1" "bo_read_u16 B = ref_read 2"
    "bo_read_i16 B = ref_read 2" "bo_read_u32 B = ref_read 4" "bo_read_i32 B = ref_read 4"
    "bo_read_u64 B = ref_read 8" "bo_read_i64 B = ref_read 8" "bo_read_f32 B = ref_read 4"
    "bo_read_f64 B = ref_read 8"
  using assms by (simp_all add: byteorder_spec_def)

lemma byteorder_ref_spec [simp]: "byteorder_spec byteorder_ref"
  by (simp add: byteorder_spec_def byteorder_ref_def)

lemma ref_read_append: "length b = n \<Longrightarrow> ref_read n (b @ i) = Inr (word_of_nat (of_le b), i)"
  by (simp add: ref_read_def)

subsection \<open>chrono\<close>

text \<open>
  The calendar types of \<open>chrono\<close>: \<open>'d\<close> is \<open>NaiveDate\<close>, \<open>'dt\<close> is \<open>NaiveDateTime\<close>. The constructors
  check their fields; \<open>chrono_spec\<close> says that a constructed value has the fields it was
  constructed from, and \<open>real_date\<close> and \<open>real_datetime\<close> that a value is one the constructors
  yield.
\<close>

record ('d, 'dt) chrono_ops =
  from_ymd_opt :: "int \<Rightarrow> nat \<Rightarrow> nat \<Rightarrow> 'd option"
  and_hms_opt :: "'d \<Rightarrow> nat \<Rightarrow> nat \<Rightarrow> nat \<Rightarrow> 'dt option"
  and_hms_micro_opt :: "'d \<Rightarrow> nat \<Rightarrow> nat \<Rightarrow> nat \<Rightarrow> nat \<Rightarrow> 'dt option"
  d_year :: "'d \<Rightarrow> int"
  d_month :: "'d \<Rightarrow> nat"
  d_day :: "'d \<Rightarrow> nat"
  dt_date :: "'dt \<Rightarrow> 'd"
  dt_hour :: "'dt \<Rightarrow> nat"
  dt_minute :: "'dt \<Rightarrow> nat"
  dt_second :: "'dt \<Rightarrow> nat"
  dt_nanosecond :: "'dt \<Rightarrow> nat"

definition chrono_spec :: "('d, 'dt) chrono_ops \<Rightarrow> bool" where
  "chrono_spec C \<longleftrightarrow>
     (\<forall>y m d x. from_ymd_opt C y m d = Some x \<longrightarrow>
        1 \<le> m \<and> m \<le> 12 \<and> 1 \<le> d \<and> d \<le> 31 \<and> d_year C x = y \<and> d_month C x = m \<and> d_day C x = d) \<and>
     (\<forall>x h m s u dt. and_hms_micro_opt C x h m s u = Some dt \<longrightarrow>
        h < 24 \<and> m < 60 \<and> s < 60 \<and> dt_date C dt = x \<and> dt_hour C dt = h \<and> dt_minute C dt = m \<and>
        dt_second C dt = s \<and> dt_nanosecond C dt = u * 1000) \<and>
     (\<forall>x h m s. and_hms_opt C x h m s = and_hms_micro_opt C x h m s 0)"

definition real_date :: "('d, 'dt) chrono_ops \<Rightarrow> 'd \<Rightarrow> bool" where
  "real_date C x \<longleftrightarrow> from_ymd_opt C (d_year C x) (d_month C x) (d_day C x) = Some x"

definition real_datetime :: "('d, 'dt) chrono_ops \<Rightarrow> 'dt \<Rightarrow> bool" where
  "real_datetime C dt \<longleftrightarrow> real_date C (dt_date C dt) \<and>
     and_hms_micro_opt C (dt_date C dt) (dt_hour C dt) (dt_minute C dt) (dt_second C dt)
       (dt_nanosecond C dt div 1000) = Some dt"

lemma chrono_specD:
  assumes "chrono_spec C"
  shows "real_date C x \<Longrightarrow> d_month C x \<le> 12" "real_date C x \<Longrightarrow> d_day C x \<le> 31"
    "real_datetime C t \<Longrightarrow> dt_hour C t < 24" "real_datetime C t \<Longrightarrow> dt_minute C t < 60"
    "real_datetime C t \<Longrightarrow> dt_second C t < 60" "real_datetime C t \<Longrightarrow> real_date C (dt_date C t)"
    "and_hms_opt C x h m s = and_hms_micro_opt C x h m s 0"
  using assms unfolding chrono_spec_def real_date_def real_datetime_def by blast+

definition ref_month_days :: "int \<Rightarrow> nat \<Rightarrow> nat" where
  "ref_month_days y m = (if m = 2 then (if y mod 4 = 0 \<and> (y mod 100 \<noteq> 0 \<or> y mod 400 = 0) then 29 else 28)
     else if m \<in> {4, 6, 9, 11} then 30 else 31)"

definition chrono_ref :: "(int \<times> nat \<times> nat, (int \<times> nat \<times> nat) \<times> nat \<times> nat \<times> nat \<times> nat) chrono_ops" where
  "chrono_ref = \<lparr>
     from_ymd_opt = (\<lambda>y m d. if 1 \<le> m \<and> m \<le> 12 \<and> 1 \<le> d \<and> d \<le> ref_month_days y m then Some (y, m, d) else None),
     and_hms_opt = (\<lambda>x h m s. if h < 24 \<and> m < 60 \<and> s < 60 then Some (x, h, m, s, 0) else None),
     and_hms_micro_opt = (\<lambda>x h m s u. if h < 24 \<and> m < 60 \<and> s < 60 \<and> u < 1000000
       then Some (x, h, m, s, u * 1000) else None),
     d_year = fst, d_month = (\<lambda>(y, m, d). m), d_day = (\<lambda>(y, m, d). d),
     dt_date = fst, dt_hour = (\<lambda>(x, h, m, s, n). h), dt_minute = (\<lambda>(x, h, m, s, n). m),
     dt_second = (\<lambda>(x, h, m, s, n). s), dt_nanosecond = (\<lambda>(x, h, m, s, n). n)\<rparr>"

lemma chrono_ref_spec [simp]: "chrono_spec chrono_ref"
  by (auto simp: chrono_spec_def chrono_ref_def ref_month_days_def split: if_splits)

end
