(* ===== verification/ErrorCodes.thy ===== *)
theory ErrorCodes
  imports Prelude
begin

text \<open>
  \<open>errorcodes.rs\<close>: the MySQL error kinds. The Rust \<open>enum\<close> is \<open>repr(u16)\<close>; its 886
  variants have the discriminants 1000 to 1885 without a gap, so a kind is its
  discriminant and \<open>is_variant\<close> says which discriminants the enum has. \<open>sqlstate\<close> is the
  \<open>match\<close> of the source by discriminant; its arm for HY000 lists every remaining variant.
\<close>

datatype ErrorKind = ErrorKind (error_code: u16)

definition is_variant :: "ErrorKind \<Rightarrow> bool" where
  "is_variant e \<longleftrightarrow> 1000 \<le> error_code e \<and> error_code e \<le> 1885"

definition ER_DBACCESS_DENIED_ERROR :: ErrorKind where "ER_DBACCESS_DENIED_ERROR = ErrorKind 1044"
definition ER_ACCESS_DENIED_ERROR :: ErrorKind where "ER_ACCESS_DENIED_ERROR = ErrorKind 1045"
definition ER_UNKNOWN_COM_ERROR :: ErrorKind where "ER_UNKNOWN_COM_ERROR = ErrorKind 1047"
definition ER_UNKNOWN_ERROR :: ErrorKind where "ER_UNKNOWN_ERROR = ErrorKind 1105"
definition ER_UNKNOWN_CHARACTER_SET :: ErrorKind where "ER_UNKNOWN_CHARACTER_SET = ErrorKind 1115"
definition ER_NET_PACKET_TOO_LARGE :: ErrorKind where "ER_NET_PACKET_TOO_LARGE = ErrorKind 1153"
definition ER_WRONG_ARGUMENTS :: ErrorKind where "ER_WRONG_ARGUMENTS = ErrorKind 1210"
definition ER_UNKNOWN_STMT_HANDLER :: ErrorKind where "ER_UNKNOWN_STMT_HANDLER = ErrorKind 1243"
definition ER_NOT_SUPPORTED_AUTH_MODE :: ErrorKind where "ER_NOT_SUPPORTED_AUTH_MODE = ErrorKind 1251"
definition ER_UNKNOWN_COLLATION :: ErrorKind where "ER_UNKNOWN_COLLATION = ErrorKind 1273"
definition ER_UNSUPPORTED_PS :: ErrorKind where "ER_UNSUPPORTED_PS = ErrorKind 1295"
definition ER_STMT_HAS_NO_OPEN_CURSOR :: ErrorKind where "ER_STMT_HAS_NO_OPEN_CURSOR = ErrorKind 1421"
definition ER_MAX_PREPARED_STMT_COUNT_REACHED :: ErrorKind where
  "ER_MAX_PREPARED_STMT_COUNT_REACHED = ErrorKind 1461"
definition ER_DATABASE_NAME :: ErrorKind where "ER_DATABASE_NAME = ErrorKind 1631"
definition ER_MALFORMED_PACKET :: ErrorKind where "ER_MALFORMED_PACKET = ErrorKind 1835"

text \<open>\<open>impl From<u16> for ErrorKind\<close>: one arm per variant, any other code is the unknown error.\<close>

definition error_kind_from :: "u16 \<Rightarrow> ErrorKind" where
  "error_kind_from x = (if 1000 \<le> x \<and> x \<le> 1885 then ErrorKind x else ER_UNKNOWN_ERROR)"

text \<open>The arms of \<open>ErrorKind::sqlstate\<close> other than HY000, in the source's order.\<close>

definition sqlstate_arms :: "(nat list \<times> string) list" where
  "sqlstate_arms = [
    ([1042, 1043, 1047, 1053, 1080, 1081, 1152, 1153, 1154, 1155, 1156, 1157, 1158, 1159, 1160, 1161, 1184, 1189, 1190, 1218], ''08S01''),
    ([1046], ''3D000''),
    ([1758], ''35000''),
    ([1050], ''42S01''),
    ([1329, 1643], ''02000''),
    ([1051, 1109, 1146], ''42S02''),
    ([1292, 1367], ''22007''),
    ([1613], ''XA106''),
    ([1440], ''XAE08''),
    ([1614], ''XA102''),
    ([1400], ''XAE09''),
    ([1441], ''22008''),
    ([1264, 1416, 1690], ''22003''),
    ([1179, 1207], ''25000''),
    ([1037, 1038], ''HY001''),
    ([1303], ''2F003''),
    ([1022, 1048, 1052, 1062, 1169, 1216, 1217, 1451, 1452, 1557, 1586, 1761, 1762, 1859], ''23000''),
    ([1060], ''42S21''),
    ([1249, 1261, 1262, 1265, 1311, 1642], ''01000''),
    ([1401], ''XAE03''),
    ([1399], ''XAE07''),
    ([1082], ''42S12''),
    ([1792], ''25006''),
    ([1312, 1314, 1335, 1336, 1415, 1845, 1846], ''0A000''),
    ([1058, 1136], ''21S01''),
    ([1045, 1698, 1873], ''28000''),
    ([1325, 1326], ''24000''),
    ([1317], ''70100''),
    ([1321], ''2F005''),
    ([1040, 1251], ''08004''),
    ([1044, 1049, 1055, 1056, 1057, 1059, 1061, 1063, 1064, 1065, 1066, 1067, 1068, 1069, 1070, 1071, 1072, 1073, 1074, 1075, 1083, 1084, 1090, 1091, 1101, 1102, 1103, 1104, 1106, 1107, 1110, 1112, 1113, 1115, 1118, 1120, 1121, 1131, 1132, 1133, 1139, 1140, 1141, 1142, 1143, 1144, 1145, 1147, 1148, 1149, 1162, 1163, 1164, 1166, 1167, 1170, 1171, 1172, 1173, 1176, 1177, 1178, 1203, 1211, 1226, 1227, 1230, 1231, 1232, 1234, 1235, 1239, 1248, 1250, 1252, 1253, 1280, 1281, 1286, 1304, 1305, 1308, 1309, 1310, 1313, 1315, 1316, 1318, 1319, 1320, 1322, 1323, 1324, 1327, 1330, 1331, 1332, 1333, 1337, 1338, 1370, 1403, 1407, 1410, 1413, 1414, 1425, 1426, 1427, 1437, 1439, 1453, 1458, 1460, 1461, 1463, 1582, 1583, 1584, 1630, 1641, 1687, 1701], ''42000''),
    ([1645], ''0K000''),
    ([1568], ''25001''),
    ([1138, 1263], ''22004''),
    ([1339], ''20000''),
    ([1365], ''22012''),
    ([1054, 1247], ''42S22''),
    ([1398], ''XAE05''),
    ([1397], ''XAE04''),
    ([1402], ''XA100''),
    ([1406], ''22001''),
    ([1213], ''40001''),
    ([1222, 1241, 1242], ''21000'')]"

definition sqlstate :: "ErrorKind \<Rightarrow> bytes" where
  "sqlstate e = (case find (\<lambda>(codes, _). unat (error_code e) \<in> set codes) sqlstate_arms of
     Some (_, state) \<Rightarrow> ascii state | None \<Rightarrow> ascii ''HY000'')"

lemma sqlstate_arms_lengths: "list_all (\<lambda>(_, state). length state = 5) sqlstate_arms"
  by (simp add: sqlstate_arms_def)

lemma sqlstate_length [simp]: "length (sqlstate e) = 5"
proof (cases "find (\<lambda>(codes, _). unat (error_code e) \<in> set codes) sqlstate_arms")
  case None
  then show ?thesis by (simp add: sqlstate_def ascii_def)
next
  case (Some arm)
  then have "arm \<in> set sqlstate_arms" by (auto simp: find_Some_iff in_set_conv_nth)
  with sqlstate_arms_lengths have "length (snd arm) = 5" by (auto simp: list_all_iff)
  with Some show ?thesis by (auto simp: sqlstate_def ascii_def split: prod.splits)
qed

lemma error_kind_from_variant: "is_variant (error_kind_from x)"
  by (simp add: error_kind_from_def is_variant_def ER_UNKNOWN_ERROR_def)

lemma error_kind_from_code: "is_variant e \<Longrightarrow> error_kind_from (error_code e) = e"
  by (simp add: error_kind_from_def is_variant_def)

text \<open>No discriminant is in two arms, so the order of the arms does not matter.\<close>

lemma sqlstate_arms_distinct: "distinct (concat (map fst sqlstate_arms))"
  by (simp add: sqlstate_arms_def)

end
