(* ===== verification/Protocol.thy ===== *)
theory Protocol
  imports External ErrorCodes
begin

text \<open>
  Protocol data shared by the components: the flag sets, column types and command bytes
  of \<open>mysql_common\<close> that the sources name (their numeric values are parameters, in the
  record \<open>myc_ops\<close>), and the structures of \<open>lib.rs\<close> that describe columns and responses.
\<close>

subsection \<open>Names from \<open>mysql_common::constants\<close>\<close>

datatype capability =
    CLIENT_LONG_FLAG | CLIENT_CONNECT_WITH_DB | CLIENT_PROTOCOL_41 | CLIENT_SSL
  | CLIENT_TRANSACTIONS | CLIENT_SECURE_CONNECTION | CLIENT_MULTI_RESULTS
  | CLIENT_PS_MULTI_RESULTS | CLIENT_PLUGIN_AUTH | CLIENT_PLUGIN_AUTH_LENENC_CLIENT_DATA
  | CLIENT_SESSION_TRACK | CLIENT_DEPRECATE_EOF

datatype status_flag =
    SERVER_STATUS_IN_TRANS | SERVER_STATUS_AUTOCOMMIT | SERVER_MORE_RESULTS_EXISTS
  | SERVER_STATUS_CURSOR_EXISTS | SERVER_STATUS_LAST_ROW_SENT
  | SERVER_STATUS_NO_BACKSLASH_ESCAPES | SERVER_STATUS_IN_TRANS_READONLY
  | SERVER_SESSION_STATE_CHANGED

datatype column_flag = NOT_NULL_FLAG | BLOB_FLAG | UNSIGNED_FLAG | BINARY_FLAG

datatype command_byte =
    COM_QUIT | COM_INIT_DB | COM_QUERY | COM_FIELD_LIST | COM_PING | COM_STMT_PREPARE
  | COM_STMT_EXECUTE | COM_STMT_SEND_LONG_DATA | COM_STMT_CLOSE | COM_STMT_RESET
  | COM_STMT_FETCH | COM_RESET_CONNECTION

text \<open>\<open>MYSQL_TYPE_OTHER\<close> stands for the variants of \<open>ColumnType\<close> that the sources do not name.\<close>

datatype ColumnType =
    MYSQL_TYPE_DECIMAL | MYSQL_TYPE_TINY | MYSQL_TYPE_SHORT | MYSQL_TYPE_LONG
  | MYSQL_TYPE_FLOAT | MYSQL_TYPE_DOUBLE | MYSQL_TYPE_NULL | MYSQL_TYPE_TIMESTAMP
  | MYSQL_TYPE_LONGLONG | MYSQL_TYPE_INT24 | MYSQL_TYPE_DATE | MYSQL_TYPE_TIME
  | MYSQL_TYPE_DATETIME | MYSQL_TYPE_YEAR | MYSQL_TYPE_VARCHAR | MYSQL_TYPE_BIT
  | MYSQL_TYPE_JSON | MYSQL_TYPE_NEWDECIMAL | MYSQL_TYPE_ENUM | MYSQL_TYPE_SET
  | MYSQL_TYPE_TINY_BLOB | MYSQL_TYPE_MEDIUM_BLOB | MYSQL_TYPE_LONG_BLOB | MYSQL_TYPE_BLOB
  | MYSQL_TYPE_VAR_STRING | MYSQL_TYPE_STRING | MYSQL_TYPE_GEOMETRY
  | MYSQL_TYPE_OTHER u8

text \<open>
  The operations and constants of \<open>mysql_common\<close>. \<open>coltype_try_from\<close> and
  \<open>read_lenenc_int\<close> report their own errors; the two writers of length-encoded values issue
  a run of \<open>write\<close> calls, here the list of slices written. \<open>collation_charset\<close> is the character
  set of a collation id, \<open>None\<close> for an unknown id.
\<close>

record myc_ops =
  cap_bits :: "capability \<Rightarrow> u32"
  all_caps :: u32
  status_bits :: "status_flag \<Rightarrow> u16"
  colflag_bits :: "column_flag \<Rightarrow> u16"
  command_u8 :: "command_byte \<Rightarrow> u8"
  coltype_u8 :: "ColumnType \<Rightarrow> u8"
  coltype_try_from :: "u8 \<Rightarrow> bytes + ColumnType"
  coltype_debug :: "ColumnType \<Rightarrow> bytes"
  UTF8MB4_GENERAL_CI :: u16
  write_lenenc_int :: "u64 \<Rightarrow> bytes list"
  write_lenenc_str :: "bytes \<Rightarrow> bytes list"
  read_lenenc_int :: "bytes \<Rightarrow> (u64 \<times> bytes) io_result"
  collation_charset :: "u16 \<Rightarrow> bytes option"

subsection \<open>Bit sets\<close>

definition contains :: "'a::len word \<Rightarrow> 'a word \<Rightarrow> bool" where
  "contains flags f \<longleftrightarrow> flags AND f = f"

definition intersects :: "'a::len word \<Rightarrow> 'a word \<Rightarrow> bool" where
  "intersects flags f \<longleftrightarrow> flags AND f \<noteq> 0"

definition set_flag :: "'a::len word \<Rightarrow> 'a word \<Rightarrow> bool \<Rightarrow> 'a word" where
  "set_flag flags f on = (if on then flags OR f else flags AND NOT f)"

subsection \<open>Structures of \<open>lib.rs\<close>\<close>

record Column =
  table :: bytes
  column :: bytes
  collen :: u32
  coltype :: ColumnType
  colflags :: u16

record ColumnMetadata =
  collation :: "u16 option"
  decimals :: u8

definition default_metadata :: ColumnMetadata where
  "default_metadata = \<lparr>collation = None, decimals = 0\<rparr>"

record OkResponse =
  header :: u8
  affected_rows :: u64
  last_insert_id :: u64
  ok_status_flags :: u16
  warnings :: u16
  info :: bytes
  session_state_info :: bytes

definition default_ok :: OkResponse where
  "default_ok = \<lparr>header = 0, affected_rows = 0, last_insert_id = 0, ok_status_flags = 0,
     warnings = 0, info = [], session_state_info = []\<rparr>"

text \<open>The largest payload of one wire frame.\<close>

definition U24_MAX :: nat where
  "U24_MAX = 16777215"

subsection \<open>What the sources rely on\<close>

text \<open>
  The length-encoded integer of the protocol: one byte up to 250, otherwise a marker
  byte and 2, 3 or 8 little-endian bytes.
\<close>

definition lenenc_int :: "u64 \<Rightarrow> bytes" where
  "lenenc_int n = (if n < 251 then [ucast n]
     else if n < 65536 then 0xFC # le_bytes 2 (unat n)
     else if n < 16777216 then 0xFD # le_bytes 3 (unat n)
     else 0xFE # le_bytes 8 (unat n))"

definition lenenc_str :: "bytes \<Rightarrow> bytes" where
  "lenenc_str s = lenenc_int (word_of_nat (length s)) @ s"

definition disjoint_bits :: "('f \<Rightarrow> 'a::len word) \<Rightarrow> bool" where
  "disjoint_bits bits \<longleftrightarrow>
     (\<forall>f. bits f \<noteq> 0) \<and> (\<forall>f g. f \<noteq> g \<longrightarrow> bits f AND bits g = 0)"

lemma disjoint_bitsI:
  "(\<And>f. bits f \<noteq> 0) \<Longrightarrow> (\<And>f g. f \<noteq> g \<Longrightarrow> bits f AND bits g = 0) \<Longrightarrow> disjoint_bits bits"
  by (simp add: disjoint_bits_def)

definition myc_spec :: "myc_ops \<Rightarrow> bool" where
  "myc_spec M \<longleftrightarrow>
     disjoint_bits (cap_bits M) \<and> disjoint_bits (status_bits M) \<and> disjoint_bits (colflag_bits M) \<and>
     (\<forall>c. contains (all_caps M) (cap_bits M c)) \<and>
     cap_bits M CLIENT_PROTOCOL_41 AND 0xFFFF = cap_bits M CLIENT_PROTOCOL_41 \<and>
     inj (command_u8 M) \<and>
     (\<forall>b. coltype_u8 M (MYSQL_TYPE_OTHER b) = b) \<and>
     (\<forall>t. (\<forall>b. t \<noteq> MYSQL_TYPE_OTHER b) \<longrightarrow> coltype_try_from M (coltype_u8 M t) = Inr t) \<and>
     (\<forall>n. concat (write_lenenc_int M n) = lenenc_int n) \<and>
     (\<forall>s. concat (write_lenenc_str M s) = lenenc_str s) \<and>
     (\<forall>n rest. read_lenenc_int M (lenenc_int n @ rest) = Inr (n, rest))"

lemma myc_specD:
  assumes "myc_spec M"
  shows "disjoint_bits (cap_bits M)" "disjoint_bits (status_bits M)" "disjoint_bits (colflag_bits M)"
    "contains (all_caps M) (cap_bits M c)" "inj (command_u8 M)"
    "cap_bits M CLIENT_PROTOCOL_41 AND 0xFFFF = cap_bits M CLIENT_PROTOCOL_41"
    "concat (write_lenenc_int M n) = lenenc_int n" "concat (write_lenenc_str M s) = lenenc_str s"
    "read_lenenc_int M (lenenc_int n @ rest) = Inr (n, rest)"
    "(\<And>b. t \<noteq> MYSQL_TYPE_OTHER b) \<Longrightarrow> coltype_try_from M (coltype_u8 M t) = Inr t"
  using assms unfolding myc_spec_def by blast+

lemma command_u8_eq [simp]:
  "myc_spec M \<Longrightarrow> command_u8 M c = command_u8 M d \<longleftrightarrow> c = d"
  by (metis injD myc_specD(5))

lemma word_and_all_or: "contains a c \<Longrightarrow> contains (a OR b) c"
  by (auto simp: contains_def bit_eq_iff bit_simps)

text \<open>Bits named by different flags do not interfere with each other.\<close>

lemma disjoint_contains_or:
  assumes "disjoint_bits bits" and "f \<noteq> g"
  shows "contains (flags OR bits g) (bits f) \<longleftrightarrow> contains flags (bits f)"
proof -
  have "bits g AND bits f = 0" using assms by (simp add: disjoint_bits_def)
  then have "(flags OR bits g) AND bits f = flags AND bits f"
    by (simp add: bit.conj_disj_distrib2)
  then show ?thesis by (simp add: contains_def)
qed

lemma disjoint_contains_self [simp]: "contains (flags OR b) b"
  by (simp add: contains_def bit_eq_iff bit_simps)

subsection \<open>A concrete instance\<close>

text \<open>The published values of the protocol, showing that \<open>myc_spec\<close> can hold.\<close>

definition ref_cap :: "capability \<Rightarrow> u32" where
  "ref_cap c = (case c of
     CLIENT_LONG_FLAG \<Rightarrow> 0x4 | CLIENT_CONNECT_WITH_DB \<Rightarrow> 0x8 | CLIENT_PROTOCOL_41 \<Rightarrow> 0x200
   | CLIENT_SSL \<Rightarrow> 0x800 | CLIENT_TRANSACTIONS \<Rightarrow> 0x2000 | CLIENT_SECURE_CONNECTION \<Rightarrow> 0x8000
   | CLIENT_MULTI_RESULTS \<Rightarrow> 0x20000 | CLIENT_PS_MULTI_RESULTS \<Rightarrow> 0x40000
   | CLIENT_PLUGIN_AUTH \<Rightarrow> 0x80000 | CLIENT_PLUGIN_AUTH_LENENC_CLIENT_DATA \<Rightarrow> 0x200000
   | CLIENT_SESSION_TRACK \<Rightarrow> 0x800000 | CLIENT_DEPRECATE_EOF \<Rightarrow> 0x1000000)"

definition ref_status :: "status_flag \<Rightarrow> u16" where
  "ref_status f = (case f of
     SERVER_STATUS_IN_TRANS \<Rightarrow> 0x1 | SERVER_STATUS_AUTOCOMMIT \<Rightarrow> 0x2
   | SERVER_MORE_RESULTS_EXISTS \<Rightarrow> 0x8 | SERVER_STATUS_CURSOR_EXISTS \<Rightarrow> 0x40
   | SERVER_STATUS_LAST_ROW_SENT \<Rightarrow> 0x80 | SERVER_STATUS_NO_BACKSLASH_ESCAPES \<Rightarrow> 0x200
   | SERVER_STATUS_IN_TRANS_READONLY \<Rightarrow> 0x2000 | SERVER_SESSION_STATE_CHANGED \<Rightarrow> 0x4000)"

definition ref_colflag :: "column_flag \<Rightarrow> u16" where
  "ref_colflag f = (case f of
     NOT_NULL_FLAG \<Rightarrow> 0x1 | BLOB_FLAG \<Rightarrow> 0x10 | UNSIGNED_FLAG \<Rightarrow> 0x20 | BINARY_FLAG \<Rightarrow> 0x80)"

definition ref_command :: "command_byte \<Rightarrow> u8" where
  "ref_command c = (case c of
     COM_QUIT \<Rightarrow> 0x01 | COM_INIT_DB \<Rightarrow> 0x02 | COM_QUERY \<Rightarrow> 0x03 | COM_FIELD_LIST \<Rightarrow> 0x04
   | COM_PING \<Rightarrow> 0x0E | COM_STMT_PREPARE \<Rightarrow> 0x16 | COM_STMT_EXECUTE \<Rightarrow> 0x17
   | COM_STMT_SEND_LONG_DATA \<Rightarrow> 0x18 | COM_STMT_CLOSE \<Rightarrow> 0x19 | COM_STMT_RESET \<Rightarrow> 0x1A
   | COM_STMT_FETCH \<Rightarrow> 0x1C | COM_RESET_CONNECTION \<Rightarrow> 0x1F)"

definition ref_coltype_table :: "(ColumnType \<times> u8) list" where
  "ref_coltype_table = [
     (MYSQL_TYPE_DECIMAL, 0), (MYSQL_TYPE_TINY, 1), (MYSQL_TYPE_SHORT, 2), (MYSQL_TYPE_LONG, 3),
     (MYSQL_TYPE_FLOAT, 4), (MYSQL_TYPE_DOUBLE, 5), (MYSQL_TYPE_NULL, 6),
     (MYSQL_TYPE_TIMESTAMP, 7), (MYSQL_TYPE_LONGLONG, 8), (MYSQL_TYPE_INT24, 9),
     (MYSQL_TYPE_DATE, 10), (MYSQL_TYPE_TIME, 11), (MYSQL_TYPE_DATETIME, 12),
     (MYSQL_TYPE_YEAR, 13), (MYSQL_TYPE_VARCHAR, 15), (MYSQL_TYPE_BIT, 16),
     (MYSQL_TYPE_JSON, 245), (MYSQL_TYPE_NEWDECIMAL, 246), (MYSQL_TYPE_ENUM, 247),
     (MYSQL_TYPE_SET, 248), (MYSQL_TYPE_TINY_BLOB, 249), (MYSQL_TYPE_MEDIUM_BLOB, 250),
     (MYSQL_TYPE_LONG_BLOB, 251), (MYSQL_TYPE_BLOB, 252), (MYSQL_TYPE_VAR_STRING, 253),
     (MYSQL_TYPE_STRING, 254), (MYSQL_TYPE_GEOMETRY, 255)]"

definition ref_coltype_u8 :: "ColumnType \<Rightarrow> u8" where
  "ref_coltype_u8 t = (case t of MYSQL_TYPE_OTHER b \<Rightarrow> b
     | _ \<Rightarrow> the (map_of ref_coltype_table t))"

definition ref_coltype_try_from :: "u8 \<Rightarrow> bytes + ColumnType" where
  "ref_coltype_try_from b = (case map_of (map (\<lambda>(t, c). (c, t)) ref_coltype_table) b of
     Some t \<Rightarrow> Inr t
   | None \<Rightarrow> if b \<in> {14, 17, 18, 19, 20, 242, 243} then Inr (MYSQL_TYPE_OTHER b)
      else Inl (ascii ''Unknown column type''))"

definition ref_read_lenenc :: "bytes \<Rightarrow> (u64 \<times> bytes) io_result" where
  "ref_read_lenenc i = (case i of [] \<Rightarrow> Inl eof_error
     | b # r \<Rightarrow>
        (if b < 251 then Inr (ucast b, r)
         else if b = 0xFC then ref_read 2 r
         else if b = 0xFD then ref_read 3 r
         else if b = 0xFE then ref_read 8 r
         else Inl (IoError InvalidData (ascii ''invalid length-encoded integer''))))"

definition myc_ref :: myc_ops where
  "myc_ref = \<lparr>cap_bits = ref_cap, all_caps = 0x1FFFFFF, status_bits = ref_status,
     colflag_bits = ref_colflag, command_u8 = ref_command, coltype_u8 = ref_coltype_u8,
     coltype_try_from = ref_coltype_try_from, coltype_debug = (\<lambda>_. ascii ''ColumnType''),
     UTF8MB4_GENERAL_CI = 45, write_lenenc_int = (\<lambda>n. [lenenc_int n]),
     write_lenenc_str = (\<lambda>s. [lenenc_int (word_of_nat (length s)), s]),
     read_lenenc_int = ref_read_lenenc,
     collation_charset = (\<lambda>id. if id \<in> {33, 45, 46, 255} then Some (ascii ''utf8mb4'')
       else if id = 8 then Some (ascii ''latin1'') else None)\<rparr>"

lemma ref_read_lenenc_int: "ref_read_lenenc (lenenc_int n @ rest) = Inr (n, rest)"
proof -
  have small: "(ucast n :: u8) < 251" and cast: "ucast (ucast n :: u8) = n" if "n < 251"
  proof -
    have "unat n < 251" using that by (simp add: word_less_nat_alt)
    then have "unat (ucast n :: u8) = unat n" by (simp add: unsigned_ucast_eq take_bit_eq_mod)
    then show "(ucast n :: u8) < 251" and "ucast (ucast n :: u8) = n"
      using \<open>unat n < 251\<close> by (simp_all add: word_less_nat_alt word_unat_eq_iff unsigned_ucast_eq take_bit_eq_mod unat_mod_distrib)
  qed
  have wide: "word_of_nat (of_le (le_bytes k (unat n))) = n" if "unat n < 256 ^ k" for k
    using that by (simp add: of_le_le_bytes)
  show ?thesis
    using small cast wide [of 2] wide [of 3] wide [of 8] unsigned_less [of n, where ?'a = nat]
    by (simp add: ref_read_lenenc_def lenenc_int_def ref_read_append word_less_nat_alt)
qed

lemma myc_ref_spec [simp]: "myc_spec myc_ref"
proof -
  have "disjoint_bits ref_cap"
  proof (rule disjoint_bitsI)
    show "ref_cap f \<noteq> 0" for f by (cases f) (simp_all add: ref_cap_def)
    show "ref_cap f AND ref_cap g = 0" if "f \<noteq> g" for f g
      using that by (cases f; cases g) (simp_all add: ref_cap_def)
  qed
  moreover have "disjoint_bits ref_status"
  proof (rule disjoint_bitsI)
    show "ref_status f \<noteq> 0" for f by (cases f) (simp_all add: ref_status_def)
    show "ref_status f AND ref_status g = 0" if "f \<noteq> g" for f g
      using that by (cases f; cases g) (simp_all add: ref_status_def)
  qed
  moreover have "disjoint_bits ref_colflag"
  proof (rule disjoint_bitsI)
    show "ref_colflag f \<noteq> 0" for f by (cases f) (simp_all add: ref_colflag_def)
    show "ref_colflag f AND ref_colflag g = 0" if "f \<noteq> g" for f g
      using that by (cases f; cases g) (simp_all add: ref_colflag_def)
  qed
  moreover have "contains 0x1FFFFFF (ref_cap c)" for c
    by (cases c) (simp_all add: ref_cap_def contains_def)
  moreover have "inj ref_command"
    by (rule injI) (simp add: ref_command_def split: command_byte.splits)
  moreover have "ref_coltype_try_from (ref_coltype_u8 t) = Inr t"
    if "\<And>b. t \<noteq> MYSQL_TYPE_OTHER b" for t
    using that by (cases t) (auto simp: ref_coltype_u8_def ref_coltype_try_from_def ref_coltype_table_def)
  ultimately show ?thesis
    by (auto simp: myc_spec_def myc_ref_def ref_read_lenenc_int ref_coltype_u8_def ref_cap_def
        lenenc_str_def)
qed

end
