(* ===== verification/PacketWriter.thy ===== *)
theory PacketWriter
  imports Protocol
begin

text \<open>
  \<open>packet_writer.rs\<close>: the packet builder, which collects one logical packet in memory under
  a size limit, and the packet writer, which cuts it into frames of at most \<open>U24_MAX\<close>
  payload bytes and sends each frame with its length and sequence number. The transport
  (\<open>tokio::io::AsyncWrite\<close>) is a script of what each write and flush does: accept some bytes,
  fail, or stall until the timer fires; an exhausted script accepts everything. \<open>flushed\<close> is how much
  of what has been written the last successful flush has pushed out.
\<close>

subsection \<open>The transport\<close>

datatype wr_event = WAccept nat | WError io_error | WStall
datatype fl_event = FAccept | FError io_error | FStall

record sink =
  written :: bytes
  flushes :: nat
  flushed :: nat
  write_script :: "wr_event list"
  flush_script :: "fl_event list"

definition timed_out_writing :: io_error where
  "timed_out_writing = IoError TimedOut (ascii ''timed out writing MySQL packet'')"

definition timed_out_flushing :: io_error where
  "timed_out_flushing = IoError TimedOut (ascii ''timed out flushing MySQL packet'')"

text \<open>Awaiting one write of \<open>n\<close> bytes, with a timer (\<open>timed\<close>) or without.\<close>

fun await_write :: "bool \<Rightarrow> nat \<Rightarrow> wr_event list \<Rightarrow> nat io_result \<times> wr_event list" where
  "await_write timed n [] = (Inr n, [])"
| "await_write timed n (WAccept k # es) = (Inr (min k n), es)"
| "await_write timed n (WError e # es) = (Inl e, es)"
| "await_write timed n (WStall # es) =
     (if timed then (Inl timed_out_writing, es) else await_write timed n es)"

definition write_vectored :: "bool \<Rightarrow> bytes \<Rightarrow> (sink, nat) io" where
  "write_vectored timed slices s =
     (case await_write timed (length slices) (write_script s) of
        (Inl e, es) \<Rightarrow> (Inl e, s\<lparr>write_script := es\<rparr>)
      | (Inr n, es) \<Rightarrow> (Inr n, s\<lparr>write_script := es, written := written s @ take n slices\<rparr>))"

fun await_flush :: "bool \<Rightarrow> fl_event list \<Rightarrow> unit io_result \<times> fl_event list" where
  "await_flush timed [] = (Inr (), [])"
| "await_flush timed (FAccept # es) = (Inr (), es)"
| "await_flush timed (FError e # es) = (Inl e, es)"
| "await_flush timed (FStall # es) =
     (if timed then (Inl timed_out_flushing, es) else await_flush timed es)"

definition sink_flush :: "bool \<Rightarrow> (sink, unit) io" where
  "sink_flush timed s =
     (case await_flush timed (flush_script s) of
        (Inl e, es) \<Rightarrow> (Inl e, s\<lparr>flush_script := es\<rparr>)
      | (Inr _, es) \<Rightarrow> (Inr (), s\<lparr>flush_script := es, flushes := Suc (flushes s), flushed := length (written s)\<rparr>))"

subsection \<open>The packet builder\<close>

record PacketBuilder =
  buffer :: bytes
  seq :: u8
  max_packet_size :: nat

definition new_builder :: PacketBuilder where
  "new_builder = \<lparr>buffer = [], seq = 0, max_packet_size = usize_max\<rparr>"

definition limit_error :: "nat \<Rightarrow> nat \<Rightarrow> io_error" where
  "limit_error n limit = IoError InvalidData
     (ascii ''outgoing MySQL packet exceeds configured limit: '' @ dec n @ ascii '' bytes > '' @
      dec limit @ ascii '' bytes'')"

text \<open>\<open>impl Write for PacketBuilder\<close>: all bytes or none.\<close>

definition builder_write :: "bytes \<Rightarrow> (PacketBuilder, nat) io" where
  "builder_write buf b =
     (case checked_add (length (buffer b)) (length buf) of
        None \<Rightarrow> (Inl (IoError InvalidData (ascii ''packet size overflow'')), b)
      | Some new_len \<Rightarrow>
          if new_len > max_packet_size b then (Inl (limit_error new_len (max_packet_size b)), b)
          else (Inr (length buf), b\<lparr>buffer := buffer b @ buf\<rparr>))"

definition builder_is_empty :: "PacketBuilder \<Rightarrow> bool" where
  "builder_is_empty b \<longleftrightarrow> buffer b = []"

definition take_buffer :: "PacketBuilder \<Rightarrow> bytes \<times> PacketBuilder" where
  "take_buffer b = (buffer b, b\<lparr>buffer := []\<rparr>)"

definition increase_seq :: "PacketBuilder \<Rightarrow> PacketBuilder" where
  "increase_seq b = b\<lparr>seq := seq b + 1\<rparr>"

subsection \<open>The packet writer\<close>

record PacketWriter =
  packet_builder :: PacketBuilder
  output_stream :: sink
  flush_threshold :: nat
  write_timeout :: "nat option"

definition new_writer :: "sink \<Rightarrow> PacketWriter" where
  "new_writer s = \<lparr>packet_builder = new_builder, output_stream = s,
     flush_threshold = 64 * 1024, write_timeout = None\<rparr>"

definition set_seq :: "u8 \<Rightarrow> PacketWriter \<Rightarrow> PacketWriter" where
  "set_seq n w = w\<lparr>packet_builder := (packet_builder w)\<lparr>seq := n\<rparr>\<rparr>"

definition set_flush_threshold :: "nat \<Rightarrow> PacketWriter \<Rightarrow> PacketWriter" where
  "set_flush_threshold n w = w\<lparr>flush_threshold := n\<rparr>"

definition set_max_packet_size :: "nat \<Rightarrow> PacketWriter \<Rightarrow> PacketWriter" where
  "set_max_packet_size n w = w\<lparr>packet_builder := (packet_builder w)\<lparr>max_packet_size := n\<rparr>\<rparr>"

definition set_write_timeout :: "nat option \<Rightarrow> PacketWriter \<Rightarrow> PacketWriter" where
  "set_write_timeout t w = w\<lparr>write_timeout := t\<rparr>"

definition writer_max_packet_size :: "PacketWriter \<Rightarrow> nat" where
  "writer_max_packet_size w = max_packet_size (packet_builder w)"

definition remaining_packet_capacity :: "PacketWriter \<Rightarrow> nat" where
  "remaining_packet_capacity w =
     max_packet_size (packet_builder w) - length (buffer (packet_builder w))"

text \<open>
  \<open>impl Write for PacketWriter\<close>, called through \<open>write_all\<close>: the builder takes the whole
  slice in one call or fails, and an empty slice needs no call.
\<close>

definition write_all :: "bytes \<Rightarrow> (PacketWriter, unit) io" where
  "write_all buf w =
     (if buf = [] then (Inr (), w)
      else case builder_write buf (packet_builder w) of
        (Inl e, b) \<Rightarrow> (Inl e, w\<lparr>packet_builder := b\<rparr>)
      | (Inr _, b) \<Rightarrow> (Inr (), w\<lparr>packet_builder := b\<rparr>))"

definition write_zero :: io_error where
  "write_zero = IoError WriteZero (ascii ''failed to write packet chunk'')"

definition has_timeout :: "PacketWriter \<Rightarrow> bool" where
  "has_timeout w \<longleftrightarrow> write_timeout w \<noteq> None"

lemma has_timeout_update [simp]:
  "has_timeout (w\<lparr>packet_builder := b\<rparr>) = has_timeout w"
  "has_timeout (w\<lparr>output_stream := s\<rparr>) = has_timeout w"
  by (simp_all add: has_timeout_def)

text \<open>The loop of \<open>write_chunk\<close>: \<open>ho\<close> and \<open>co\<close> are \<open>header_offset\<close> and \<open>chunk_offset\<close>.\<close>

function write_chunk_loop ::
    "bool \<Rightarrow> bytes \<Rightarrow> bytes \<Rightarrow> nat \<Rightarrow> nat \<Rightarrow> sink \<Rightarrow> unit io_result \<times> sink" where
  "write_chunk_loop timed hdr chunk ho co s =
     (if ho < length hdr \<or> co < length chunk then
        (let slices = (if ho < length hdr then drop ho hdr @ drop co chunk else drop co chunk)
         in case write_vectored timed slices s of
              (Inl e, s') \<Rightarrow> (Inl e, s')
            | (Inr n, s') \<Rightarrow>
                if n = 0 then (Inl write_zero, s')
                else let header_remaining = length hdr - ho in
                  if n < header_remaining then write_chunk_loop timed hdr chunk (ho + n) co s'
                  else write_chunk_loop timed hdr chunk (length hdr) (co + (n - header_remaining)) s')
      else (Inr (), s))"
  by pat_completeness auto
termination
  by (relation "measure (\<lambda>(timed, hdr, chunk, ho, co, s). (length hdr - ho) + (length chunk - co))") auto

declare write_chunk_loop.simps [simp del]

definition write_chunk :: "byteorder_ops \<Rightarrow> bytes \<Rightarrow> (PacketWriter, unit) io" where
  "write_chunk B chunk w =
     (let hdr = bo_write_u24 B (word_of_nat (length chunk)) @ [seq (packet_builder w)];
          w' = w\<lparr>packet_builder := increase_seq (packet_builder w)\<rparr>
      in case write_chunk_loop (has_timeout w) hdr chunk 0 0 (output_stream w') of
           (r, s) \<Rightarrow> (r, w'\<lparr>output_stream := s\<rparr>))"

definition flush_output :: "(PacketWriter, unit) io" where
  "flush_output w = (case sink_flush (has_timeout w) (output_stream w) of
     (r, s) \<Rightarrow> (r, w\<lparr>output_stream := s\<rparr>))"

definition flush_all :: "(PacketWriter, unit) io" where
  "flush_all = flush_output"

text \<open>\<open>payload.chunks(n)\<close>.\<close>

function chunks :: "nat \<Rightarrow> bytes \<Rightarrow> bytes list" where
  "chunks n xs = (if xs = [] \<or> n = 0 then [] else take n xs # chunks n (drop n xs))"
  by pat_completeness auto
termination by (relation "measure (\<lambda>(n, xs). length xs)") auto

declare chunks.simps [simp del]

definition not_empty_error :: io_error where
  "not_empty_error = IoError InvalidInput
     (ascii ''cannot send a complete packet while a packet is being built'')"

definition packet_limit_error :: io_error where
  "packet_limit_error = IoError InvalidData (ascii ''outgoing MySQL packet exceeds configured limit'')"

definition write_packet :: "byteorder_ops \<Rightarrow> bytes \<Rightarrow> (PacketWriter, unit) io" where
  "write_packet B payload w =
     (if \<not> builder_is_empty (packet_builder w) then (Inl not_empty_error, w)
      else if length payload > writer_max_packet_size w then (Inl packet_limit_error, w)
      else if payload = [] then (Inr (), w)
      else then_io (seq_io (map (write_chunk B) (chunks U24_MAX payload)))
        (then_io (if length payload mod U24_MAX = 0 then write_chunk B [] else ok_io ())
          (\<lambda>w'. if flush_threshold w' > 0 \<and> length payload \<ge> flush_threshold w'
                then flush_output w' else (Inr (), w'))) w)"

text \<open>
  The allocation kept for the next packet is not modelled: both branches of the capacity
  test leave an empty buffer.
\<close>

definition end_packet :: "byteorder_ops \<Rightarrow> (PacketWriter, unit) io" where
  "end_packet B w =
     (if builder_is_empty (packet_builder w) then (Inr (), w)
      else case take_buffer (packet_builder w) of
        (raw_packet, b) \<Rightarrow> write_packet B raw_packet (w\<lparr>packet_builder := b\<rparr>))"

subsection \<open>The wire format\<close>

text \<open>
  Specification: a logical packet is a run of frames, all but the last with exactly
  \<open>U24_MAX\<close> payload bytes and the last with fewer, with consecutive sequence numbers.
\<close>

definition frame :: "u8 \<Rightarrow> bytes \<Rightarrow> bytes" where
  "frame s chunk = le_bytes 3 (length chunk) @ s # chunk"

function frames :: "u8 \<Rightarrow> bytes \<Rightarrow> bytes" where
  "frames s p = (if length p < U24_MAX then frame s p
     else frame s (take U24_MAX p) @ frames (s + 1) (drop U24_MAX p))"
  by pat_completeness auto
termination by (relation "measure (\<lambda>(s, p). length p)") (auto simp: U24_MAX_def)

declare frames.simps [simp del]

definition frame_count :: "bytes \<Rightarrow> nat" where
  "frame_count p = length p div U24_MAX + 1"

text \<open>A transport that only fragments: every write makes progress and nothing fails.\<close>

fun wr_ok :: "bool \<Rightarrow> wr_event \<Rightarrow> bool" where
  "wr_ok timed (WAccept k) = (0 < k)"
| "wr_ok timed (WError e) = False"
| "wr_ok timed WStall = (\<not> timed)"

fun fl_ok :: "bool \<Rightarrow> fl_event \<Rightarrow> bool" where
  "fl_ok timed FAccept = True"
| "fl_ok timed (FError e) = False"
| "fl_ok timed FStall = (\<not> timed)"

definition reliable :: "bool \<Rightarrow> sink \<Rightarrow> bool" where
  "reliable timed s \<longleftrightarrow>
     list_all (wr_ok timed) (write_script s) \<and>
     list_all (fl_ok timed) (flush_script s)"

definition writer_reliable :: "PacketWriter \<Rightarrow> bool" where
  "writer_reliable w \<longleftrightarrow> reliable (has_timeout w) (output_stream w)"

subsection \<open>The builder keeps its limit\<close>

lemma builder_write_cases:
  "builder_write buf b = (Inr n, b') \<Longrightarrow>
     n = length buf \<and> b' = b\<lparr>buffer := buffer b @ buf\<rparr> \<and>
     length (buffer b') \<le> max_packet_size b"
  "builder_write buf b = (Inl e, b') \<Longrightarrow> b' = b \<and> err_kind e = InvalidData"
  by (auto simp: builder_write_def checked_add_def limit_error_def split: option.splits if_splits)

lemma write_all_cases:
  "write_all buf w = (Inr (), w') \<Longrightarrow>
     w' = w\<lparr>packet_builder := (packet_builder w)\<lparr>buffer := buffer (packet_builder w) @ buf\<rparr>\<rparr>"
  "write_all buf w = (Inl e, w') \<Longrightarrow> w' = w \<and> err_kind e = InvalidData"
  by (auto simp: write_all_def split: prod.splits sum.splits if_splits dest!: builder_write_cases)

lemma write_all_fits:
  assumes "length (buffer (packet_builder w)) + length buf \<le> max_packet_size (packet_builder w)"
    and "max_packet_size (packet_builder w) \<le> usize_max"
  shows "write_all buf w =
     (Inr (), w\<lparr>packet_builder := (packet_builder w)\<lparr>buffer := buffer (packet_builder w) @ buf\<rparr>\<rparr>)"
  using assms by (simp add: write_all_def builder_write_def checked_add_def)

subsection \<open>One frame under any fragmentation\<close>

lemma await_write_bound: "await_write t n es = (Inr k, es') \<Longrightarrow> k \<le> n"
  by (induction t n es rule: await_write.induct) (auto split: if_splits)

lemma write_vectored_frame:
  assumes "write_vectored t sl s = (r, s')"
  shows "flushes s' = flushes s" "flush_script s' = flush_script s"
    "\<exists>k. written s' = written s @ take k sl"
    "r = Inr n \<Longrightarrow> n \<le> length sl \<and> written s' = written s @ take n sl"
    "r = Inl e \<Longrightarrow> written s' = written s"
  using assms await_write_bound [of t "length sl" "write_script s"]
  by (auto simp: write_vectored_def split: prod.splits sum.splits intro: exI [of _ 0])

text \<open>What is still to be sent.\<close>

definition unsent :: "bytes \<Rightarrow> bytes \<Rightarrow> nat \<Rightarrow> nat \<Rightarrow> bytes" where
  "unsent hdr chunk ho co = drop ho hdr @ drop co chunk"

lemma unsent_slices:
  "(if ho < length hdr then drop ho hdr @ drop co chunk else drop co chunk) = unsent hdr chunk ho co"
  by (simp add: unsent_def)

lemma unsent_drop:
  "n < length hdr - ho \<Longrightarrow> unsent hdr chunk (ho + n) co = drop n (unsent hdr chunk ho co)"
  "\<not> n < length hdr - ho \<Longrightarrow>
     unsent hdr chunk (length hdr) (co + (n - (length hdr - ho))) = drop n (unsent hdr chunk ho co)"
  by (auto simp: unsent_def add.commute)

lemma write_chunk_loop_outcome:
  "write_chunk_loop t hdr chunk ho co s = (r, s') \<Longrightarrow>
     flushes s' = flushes s \<and> flush_script s' = flush_script s \<and>
     (\<exists>sent rest. unsent hdr chunk ho co = sent @ rest \<and> written s' = written s @ sent \<and>
        (r = Inr () \<longrightarrow> rest = []))"
proof (induction t hdr chunk ho co s arbitrary: r s' rule: write_chunk_loop.induct)
  case (1 t hdr chunk ho co s)
  show ?case
  proof (cases "ho < length hdr \<or> co < length chunk")
    case False
    with "1.prems" have "r = Inr ()" "s' = s"
      by (simp_all add: write_chunk_loop.simps [of t hdr chunk ho co s])
    with False show ?thesis by (auto simp: unsent_def)
  next
    case more: True
    obtain r1 s1 where w: "write_vectored t (unsent hdr chunk ho co) s = (r1, s1)" by fastforce
    note keep = write_vectored_frame [OF w]
    show ?thesis
    proof (cases r1)
      case (Inl e)
      with w more "1.prems" have "r = Inl e" "s' = s1"
        by (simp_all add: write_chunk_loop.simps [of t hdr chunk ho co s] unsent_slices Let_def)
      with keep Inl show ?thesis by auto
    next
      case (Inr n)
      with keep(4) have n: "n \<le> length (unsent hdr chunk ho co)"
        and sent: "written s1 = written s @ take n (unsent hdr chunk ho co)" by auto
      show ?thesis
      proof (cases "n = 0")
        case True
        with Inr w more "1.prems" have "r = Inl write_zero" "s' = s1"
          by (simp_all add: write_chunk_loop.simps [of t hdr chunk ho co s] unsent_slices Let_def)
        with keep sent True show ?thesis by auto
      next
        case False
        have step: "write_chunk_loop t hdr chunk ho co s =
            (if n < length hdr - ho then write_chunk_loop t hdr chunk (ho + n) co s1
             else write_chunk_loop t hdr chunk (length hdr) (co + (n - (length hdr - ho))) s1)"
          using more Inr w False
          by (simp add: write_chunk_loop.simps [of t hdr chunk ho co s] unsent_slices Let_def)
        have wv: "(Inr n, s1) = write_vectored t (if ho < length hdr then drop ho hdr @ drop co chunk
            else drop co chunk) s"
          using w Inr by (simp add: unsent_slices)
        have "flushes s' = flushes s1 \<and> flush_script s' = flush_script s1 \<and>
          (\<exists>sent rest. drop n (unsent hdr chunk ho co) = sent @ rest \<and>
             written s' = written s1 @ sent \<and> (r = Inr () \<longrightarrow> rest = []))"
        proof (cases "n < length hdr - ho")
          case True
          with step "1.prems" have nxt: "write_chunk_loop t hdr chunk (ho + n) co s1 = (r, s')"
            by simp
          from "1.IH"(1) [OF more refl wv refl False refl True nxt]
          show ?thesis by (simp only: unsent_drop(1) [OF True])
        next
          case lt: False
          with step "1.prems" have nxt: "write_chunk_loop t hdr chunk (length hdr)
              (co + (n - (length hdr - ho))) s1 = (r, s')" by simp
          from "1.IH"(2) [OF more refl wv refl False refl lt nxt]
          show ?thesis by (simp only: unsent_drop(2) [OF lt])
        qed
        then obtain sent' rest where "flushes s' = flushes s1" "flush_script s' = flush_script s1"
          "drop n (unsent hdr chunk ho co) = sent' @ rest" "written s' = written s1 @ sent'"
          "r = Inr () \<longrightarrow> rest = []" by blast
        moreover have "unsent hdr chunk ho co = (take n (unsent hdr chunk ho co) @ sent') @ rest"
          using \<open>drop n (unsent hdr chunk ho co) = sent' @ rest\<close> by (metis append_take_drop_id append.assoc)
        moreover have "written s' = written s @ (take n (unsent hdr chunk ho co) @ sent')"
          using sent \<open>written s' = written s1 @ sent'\<close> by simp
        ultimately show ?thesis using keep(1,2) by metis
      qed
    qed
  qed
qed

text \<open>A transport that only fragments never makes the loop fail.\<close>

lemma write_vectored_reliable:
  assumes "reliable t s" and "sl \<noteq> []"
  obtains n s' where "write_vectored t sl s = (Inr n, s')" "0 < n" "reliable t s'"
proof -
  have "\<exists>n es'. await_write t (length sl) es = (Inr n, es') \<and> 0 < n \<and>
     list_all (wr_ok t) es'"
    if "list_all (wr_ok t) es" for es
    using that assms(2) by (induction t "length sl" es rule: await_write.induct) auto
  from this [of "write_script s"] assms(1) that show thesis
    by (auto simp: write_vectored_def reliable_def)
qed

lemma write_chunk_loop_reliable:
  "reliable t s \<Longrightarrow> \<exists>s'. write_chunk_loop t hdr chunk ho co s = (Inr (), s') \<and> reliable t s'"
proof (induction t hdr chunk ho co s rule: write_chunk_loop.induct)
  case (1 t hdr chunk ho co s)
  show ?case
  proof (cases "ho < length hdr \<or> co < length chunk")
    case False
    with "1.prems" show ?thesis by (simp add: write_chunk_loop.simps [of t hdr chunk ho co s])
  next
    case more: True
    then have "unsent hdr chunk ho co \<noteq> []" by (auto simp: unsent_def)
    with "1.prems" obtain n s1 where w: "write_vectored t (unsent hdr chunk ho co) s = (Inr n, s1)"
      and n: "n \<noteq> 0" and rel: "reliable t s1"
      by (auto elim: write_vectored_reliable)
    have wv: "(Inr n, s1) = write_vectored t (if ho < length hdr then drop ho hdr @ drop co chunk
        else drop co chunk) s"
      using w by (simp add: unsent_slices)
    have step: "write_chunk_loop t hdr chunk ho co s =
        (if n < length hdr - ho then write_chunk_loop t hdr chunk (ho + n) co s1
         else write_chunk_loop t hdr chunk (length hdr) (co + (n - (length hdr - ho))) s1)"
      using more w n
      by (simp add: write_chunk_loop.simps [of t hdr chunk ho co s] unsent_slices Let_def)
    show ?thesis
      using step "1.IH"(1) [OF more refl wv refl n refl _ rel]
        "1.IH"(2) [OF more refl wv refl n refl _ rel] by auto
  qed
qed

subsection \<open>Runs of frames\<close>

text \<open>The frames of a list of chunks, numbered from \<open>s\<close>.\<close>

fun framed :: "u8 \<Rightarrow> bytes list \<Rightarrow> bytes" where
  "framed s [] = []"
| "framed s (c # cs) = frame s c @ framed (s + 1) cs"

lemma framed_append: "framed s (cs @ ds) = framed s cs @ framed (s + word_of_nat (length cs)) ds"
  by (induction cs arbitrary: s) (auto simp: algebra_simps)

definition terminated_chunks :: "bytes \<Rightarrow> bytes list" where
  "terminated_chunks p = chunks U24_MAX p @ (if length p mod U24_MAX = 0 then [[]] else [])"

lemma U24_MAX_pos [simp]: "0 < U24_MAX"
  by (simp add: U24_MAX_def)

lemma U24_MAX_not_0 [simp]: "U24_MAX \<noteq> 0"
  by (simp add: U24_MAX_def)

lemma chunks_Nil [simp]: "chunks n [] = []"
  by (simp add: chunks.simps)

lemma terminated_chunks_short: "length p < U24_MAX \<Longrightarrow> terminated_chunks p = [p]"
  by (cases "p = []") (simp_all add: terminated_chunks_def chunks.simps [of U24_MAX p])

lemma terminated_chunks_long:
  assumes "U24_MAX \<le> length p"
  shows "terminated_chunks p = take U24_MAX p # terminated_chunks (drop U24_MAX p)"
proof -
  have "p \<noteq> []" using assms U24_MAX_pos by fastforce
  then have "chunks U24_MAX p = take U24_MAX p # chunks U24_MAX (drop U24_MAX p)"
    by (subst chunks.simps) simp
  moreover have "(length p - U24_MAX) mod U24_MAX = length p mod U24_MAX"
    using assms by (simp add: le_mod_geq)
  ultimately show ?thesis by (simp add: terminated_chunks_def)
qed

lemma frames_framed: "frames s p = framed s (terminated_chunks p)"
proof (induction s p rule: frames.induct)
  case (1 s p)
  then show ?case
    by (cases "length p < U24_MAX")
      (simp_all add: frames.simps [of s p] terminated_chunks_short terminated_chunks_long)
qed

lemma length_terminated_chunks: "length (terminated_chunks p) = frame_count p"
proof (induction "length p" arbitrary: p rule: less_induct)
  case less
  show ?case
  proof (cases "length p < U24_MAX")
    case True
    then show ?thesis by (simp add: terminated_chunks_short frame_count_def)
  next
    case False
    then have "length (drop U24_MAX p) < length p" using U24_MAX_pos by (simp del: U24_MAX_pos)
    from less [OF this] False show ?thesis
      by (simp add: terminated_chunks_long frame_count_def le_div_geq)
  qed
qed

lemma chunks_bound: "c \<in> set (chunks n p) \<Longrightarrow> length c \<le> n"
proof (induction n p rule: chunks.induct)
  case (1 n p)
  show ?case
  proof (cases "p = [] \<or> n = 0")
    case True
    with "1.prems" show ?thesis by (simp add: chunks.simps [of n p])
  next
    case False
    with "1.prems" have "c = take n p \<or> c \<in> set (chunks n (drop n p))"
      by (simp add: chunks.simps [of n p])
    with "1.IH" [OF False] show ?thesis by auto
  qed
qed

subsection \<open>Sending a packet\<close>

definition same_config :: "PacketWriter \<Rightarrow> PacketWriter \<Rightarrow> bool" where
  "same_config w w' \<longleftrightarrow>
     buffer (packet_builder w') = buffer (packet_builder w) \<and>
     max_packet_size (packet_builder w') = max_packet_size (packet_builder w) \<and>
     flush_threshold w' = flush_threshold w \<and> write_timeout w' = write_timeout w"

lemma same_config_refl [simp]: "same_config w w"
  by (simp add: same_config_def)

lemma same_config_trans: "same_config u v \<Longrightarrow> same_config v w \<Longrightarrow> same_config u w"
  by (simp add: same_config_def)

abbreviation wire :: "PacketWriter \<Rightarrow> bytes" where
  "wire w \<equiv> written (output_stream w)"

text \<open>\<open>sends w r w' data\<close>: a prefix of \<open>data\<close> went out, all of it when the call succeeded.\<close>

definition sends :: "PacketWriter \<Rightarrow> unit io_result \<Rightarrow> PacketWriter \<Rightarrow> bytes \<Rightarrow> bool" where
  "sends w r w' data \<longleftrightarrow>
     (\<exists>sent rest. data = sent @ rest \<and> wire w' = wire w @ sent \<and> (r = Inr () \<longrightarrow> rest = []))"

lemma sends_done: "sends w (Inr ()) w' data \<longleftrightarrow> wire w' = wire w @ data"
  by (auto simp: sends_def)

lemma sends_append:
  assumes "wire v = wire w @ d" and "sends v r w' e"
  shows "sends w r w' (d @ e)"
proof -
  from assms(2) obtain sent rest where "e = sent @ rest" "wire w' = wire v @ sent"
    "r = Inr () \<longrightarrow> rest = []" by (auto simp: sends_def)
  with assms(1) show ?thesis
    unfolding sends_def by (intro exI [of _ "d @ sent"] exI [of _ rest]) simp
qed

lemma sends_error_append: "sends w (Inl e) w' d \<Longrightarrow> sends w (Inl e) w' (d @ d')"
  by (auto simp: sends_def)

lemma write_chunk_outcome:
  assumes B: "byteorder_spec B" and len: "length chunk \<le> U24_MAX"
    and run: "write_chunk B chunk w = (r, w')"
  shows "sends w r w' (frame (seq (packet_builder w)) chunk)"
    "same_config w w'" "seq (packet_builder w') = seq (packet_builder w) + 1"
    "flushes (output_stream w') = flushes (output_stream w)"
    "flush_script (output_stream w') = flush_script (output_stream w)"
proof -
  have "unat (word_of_nat (length chunk) :: u32) = length chunk"
    using len by (simp add: unat_of_nat U24_MAX_def)
  with B len have hdr: "bo_write_u24 B (word_of_nat (length chunk)) = le_bytes 3 (length chunk)"
    by (simp add: byteorder_specD U24_MAX_def)
  obtain s where loop: "write_chunk_loop (has_timeout w)
      (le_bytes 3 (length chunk) @ [seq (packet_builder w)]) chunk 0 0 (output_stream w) = (r, s)"
    and w': "w' = w\<lparr>packet_builder := increase_seq (packet_builder w), output_stream := s\<rparr>"
    using run by (auto simp: write_chunk_def hdr Let_def split: prod.splits)
  from write_chunk_loop_outcome [OF loop] w'
  show "sends w r w' (frame (seq (packet_builder w)) chunk)"
    "flushes (output_stream w') = flushes (output_stream w)"
    "flush_script (output_stream w') = flush_script (output_stream w)"
    by (auto simp: sends_def frame_def unsent_def)
  from w' show "same_config w w'" "seq (packet_builder w') = seq (packet_builder w) + 1"
    by (simp_all add: same_config_def increase_seq_def)
qed

lemma write_chunks_outcome:
  assumes B: "byteorder_spec B"
  shows "\<forall>c \<in> set cs. length c \<le> U24_MAX \<Longrightarrow>
     seq_io (map (write_chunk B) cs) w = (r, w') \<Longrightarrow>
     sends w r w' (framed (seq (packet_builder w)) cs) \<and> same_config w w' \<and>
     flushes (output_stream w') = flushes (output_stream w) \<and>
     flush_script (output_stream w') = flush_script (output_stream w) \<and>
     (r = Inr () \<longrightarrow> seq (packet_builder w') = seq (packet_builder w) + word_of_nat (length cs))"
proof (induction cs arbitrary: w)
  case Nil
  then show ?case by (auto simp: sends_def)
next
  case (Cons c cs)
  obtain r1 v where v: "write_chunk B c w = (r1, v)" by fastforce
  from Cons.prems(1) have c: "length c \<le> U24_MAX" and cs: "\<forall>c \<in> set cs. length c \<le> U24_MAX" by auto
  note out = write_chunk_outcome [OF B c v]
  show ?case
  proof (cases r1)
    case (Inl e)
    with v Cons.prems(2) have "r = Inl e" "w' = v" by (simp_all add: then_io_Inl)
    with out Inl show ?thesis by (auto intro: sends_error_append)
  next
    case (Inr u)
    with v Cons.prems(2) have run: "seq_io (map (write_chunk B) cs) v = (r, w')"
      by (simp add: then_io_Inr)
    from out Inr have "wire v = wire w @ frame (seq (packet_builder w)) c"
      by (simp add: sends_done)
    with Cons.IH [OF cs run] out show ?thesis
      by (auto simp: sends_append intro: same_config_trans)
  qed
qed

lemma write_chunk_reliable:
  assumes "writer_reliable w"
  shows "\<exists>w'. write_chunk B c w = (Inr (), w') \<and> writer_reliable w'"
proof -
  obtain s where "write_chunk_loop (has_timeout w) (bo_write_u24 B (word_of_nat (length c)) @
      [seq (packet_builder w)]) c 0 0 (output_stream w) = (Inr (), s)" "reliable (has_timeout w) s"
    using write_chunk_loop_reliable assms unfolding writer_reliable_def by blast
  then show ?thesis
    by (simp add: write_chunk_def Let_def writer_reliable_def)
qed

lemma write_chunks_reliable:
  "writer_reliable w \<Longrightarrow> \<exists>w'. seq_io (map (write_chunk B) cs) w = (Inr (), w') \<and> writer_reliable w'"
proof (induction cs arbitrary: w)
  case Nil
  then show ?case by simp
next
  case (Cons c cs)
  then obtain v where "write_chunk B c w = (Inr (), v)" "writer_reliable v"
    using write_chunk_reliable by blast
  with Cons.IH [of v] show ?case by (simp add: then_io_Inr)
qed

lemma flush_output_frame:
  assumes "flush_output w = (r, w')"
  shows "wire w' = wire w" "packet_builder w' = packet_builder w" "same_config w w'"
    "flushes (output_stream w') = flushes (output_stream w) + (if r = Inr () then 1 else 0)"
  using assms
  by (auto simp: flush_output_def sink_flush_def same_config_def split: prod.splits sum.splits)

lemma flush_output_reliable:
  assumes "writer_reliable w"
  shows "\<exists>w'. flush_output w = (Inr (), w') \<and> writer_reliable w'"
proof -
  have "\<exists>es'. await_flush t es = (Inr (), es') \<and>
      list_all (fl_ok t) es'"
    if "list_all (fl_ok t) es" for t es
    using that by (induction t es rule: await_flush.induct) auto
  from this [of "has_timeout w" "flush_script (output_stream w)"] assms
  obtain es' where "await_flush (has_timeout w) (flush_script (output_stream w)) = (Inr (), es')"
    and "list_all (fl_ok (has_timeout w)) es'"
    by (auto simp: writer_reliable_def reliable_def)
  then show ?thesis using assms
    by (simp add: flush_output_def sink_flush_def writer_reliable_def reliable_def)
qed

text \<open>Sending the chunks and the terminator is sending \<open>terminated_chunks\<close>.\<close>

lemma seq_io_append: "seq_io (ms @ ns) = then_io (seq_io ms) (seq_io ns)"
  by (induction ms) (auto simp: fun_eq_iff then_io_def and_then_def split: prod.splits sum.splits)

lemma seq_io_single: "seq_io [m] = m"
  by (auto simp: fun_eq_iff then_io_def and_then_def split: prod.splits sum.splits)

lemma then_io_assoc: "then_io (then_io a b) c = then_io a (then_io b c)"
  by (auto simp: fun_eq_iff then_io_def and_then_def split: prod.splits sum.splits)

definition flush_if_large :: "bytes \<Rightarrow> (PacketWriter, unit) io" where
  "flush_if_large payload w =
     (if flush_threshold w > 0 \<and> length payload \<ge> flush_threshold w then flush_output w else (Inr (), w))"

lemma write_packet_terminated:
  assumes "buffer (packet_builder w) = []" and "payload \<noteq> []"
    and "length payload \<le> max_packet_size (packet_builder w)"
  shows "write_packet B payload w =
     then_io (seq_io (map (write_chunk B) (terminated_chunks payload))) (flush_if_large payload) w"
  using assms
  by (simp add: write_packet_def builder_is_empty_def writer_max_packet_size_def
      terminated_chunks_def seq_io_append then_io_assoc seq_io_single flush_if_large_def [abs_def]
      del: seq_io.simps(2))

lemma terminated_chunks_bound: "\<forall>c \<in> set (terminated_chunks p). length c \<le> U24_MAX"
  by (auto simp: terminated_chunks_def chunks_bound)

lemma flush_if_large_frame:
  assumes "flush_if_large p w = (r, w')"
  shows "wire w' = wire w" "packet_builder w' = packet_builder w" "same_config w w'"
    "r = Inr () \<Longrightarrow> flushes (output_stream w') = flushes (output_stream w) +
       (if flush_threshold w > 0 \<and> length p \<ge> flush_threshold w then 1 else 0)"
  using assms flush_output_frame by (auto simp: flush_if_large_def split: if_splits)

lemma write_packet_outcome:
  assumes B: "byteorder_spec B" and ready: "buffer (packet_builder w) = []" "p \<noteq> []"
    "length p \<le> max_packet_size (packet_builder w)"
    and run: "write_packet B p w = (r, w')"
  shows "sends w r w' (frames (seq (packet_builder w)) p)" "same_config w w'"
    "r = Inr () \<Longrightarrow> seq (packet_builder w') = seq (packet_builder w) + word_of_nat (frame_count p)"
    "r = Inr () \<Longrightarrow> flushes (output_stream w') = flushes (output_stream w) +
       (if flush_threshold w > 0 \<and> length p \<ge> flush_threshold w then 1 else 0)"
proof -
  obtain r1 v where v: "seq_io (map (write_chunk B) (terminated_chunks p)) w = (r1, v)" by fastforce
  note out = write_chunks_outcome [OF B terminated_chunks_bound v]
  have "sends w r w' (frames (seq (packet_builder w)) p) \<and> same_config w w' \<and>
     (r = Inr () \<longrightarrow> seq (packet_builder w') = seq (packet_builder w) + word_of_nat (frame_count p) \<and>
        flushes (output_stream w') = flushes (output_stream w) +
          (if flush_threshold w > 0 \<and> length p \<ge> flush_threshold w then 1 else 0))"
  proof (cases r1)
    case (Inl e)
    with run v have "r = Inl e" "w' = v"
      by (simp_all add: write_packet_terminated [OF ready] then_io_Inl)
    with out Inl show ?thesis by (simp add: frames_framed)
  next
    case (Inr u)
    with run v have f: "flush_if_large p v = (r, w')"
      by (simp add: write_packet_terminated [OF ready] then_io_Inr)
    from flush_if_large_frame [OF f] out Inr show ?thesis
      by (auto simp: frames_framed sends_def length_terminated_chunks same_config_def)
  qed
  then show "sends w r w' (frames (seq (packet_builder w)) p)" "same_config w w'"
    "r = Inr () \<Longrightarrow> seq (packet_builder w') = seq (packet_builder w) + word_of_nat (frame_count p)"
    "r = Inr () \<Longrightarrow> flushes (output_stream w') = flushes (output_stream w) +
       (if flush_threshold w > 0 \<and> length p \<ge> flush_threshold w then 1 else 0)"
    by blast+
qed

lemma write_packet_reliable:
  assumes ready: "buffer (packet_builder w) = []" "p \<noteq> []"
    "length p \<le> max_packet_size (packet_builder w)" and rel: "writer_reliable w"
  shows "\<exists>w'. write_packet B p w = (Inr (), w') \<and> writer_reliable w'"
proof -
  obtain v where "seq_io (map (write_chunk B) (terminated_chunks p)) w = (Inr (), v)"
    and "writer_reliable v"
    using write_chunks_reliable [OF rel] by blast
  moreover from \<open>writer_reliable v\<close> have "\<exists>w'. flush_if_large p v = (Inr (), w') \<and> writer_reliable w'"
    using flush_output_reliable by (auto simp: flush_if_large_def)
  ultimately show ?thesis by (simp add: write_packet_terminated [OF ready] then_io_Inr)
qed

text \<open>A call that cannot send leaves the writer as it was.\<close>

lemma write_packet_rejects:
  "buffer (packet_builder w) \<noteq> [] \<Longrightarrow> write_packet B p w = (Inl not_empty_error, w)"
  "buffer (packet_builder w) = [] \<Longrightarrow> length p > max_packet_size (packet_builder w) \<Longrightarrow>
     write_packet B p w = (Inl packet_limit_error, w)"
  "buffer (packet_builder w) = [] \<Longrightarrow> write_packet B [] w = (Inr (), w)"
  by (simp_all add: write_packet_def builder_is_empty_def writer_max_packet_size_def)

lemma end_packet_unfold:
  "end_packet B w = (if buffer (packet_builder w) = [] then (Inr (), w)
     else write_packet B (buffer (packet_builder w))
            (w\<lparr>packet_builder := (packet_builder w)\<lparr>buffer := []\<rparr>\<rparr>))"
  by (simp add: end_packet_def builder_is_empty_def take_buffer_def)

lemma end_packet_empties:
  assumes "byteorder_spec B"
  shows "buffer (packet_builder (snd (end_packet B w))) = []"
proof (cases "buffer (packet_builder w) = []")
  case True
  then show ?thesis by (simp add: end_packet_unfold)
next
  case False
  define v where "v = w\<lparr>packet_builder := (packet_builder w)\<lparr>buffer := []\<rparr>\<rparr>"
  obtain r w' where run: "write_packet B (buffer (packet_builder w)) v = (r, w')" by fastforce
  have "buffer (packet_builder w') = []"
  proof (cases "length (buffer (packet_builder w)) \<le> max_packet_size (packet_builder v)")
    case True
    from write_packet_outcome(2) [OF assms _ False True run] show ?thesis
      by (simp add: same_config_def v_def)
  next
    case lt: False
    with run have "w' = v" by (simp add: write_packet_rejects v_def)
    then show ?thesis by (simp add: v_def)
  qed
  with False run show ?thesis by (simp add: end_packet_unfold v_def)
qed

text \<open>How a packet that was built within the limit leaves the writer.\<close>

lemma end_packet_outcome:
  assumes B: "byteorder_spec B" and run: "end_packet B w = (r, w')"
    and built: "buffer (packet_builder w) \<noteq> []"
      "length (buffer (packet_builder w)) \<le> max_packet_size (packet_builder w)"
  shows "sends w r w' (frames (seq (packet_builder w)) (buffer (packet_builder w)))"
    "buffer (packet_builder w') = []"
    "max_packet_size (packet_builder w') = max_packet_size (packet_builder w)"
    "flush_threshold w' = flush_threshold w" "write_timeout w' = write_timeout w"
    "r = Inr () \<Longrightarrow> seq (packet_builder w') =
       seq (packet_builder w) + word_of_nat (frame_count (buffer (packet_builder w)))"
    "r = Inr () \<Longrightarrow> flushes (output_stream w') = flushes (output_stream w) +
       (if flush_threshold w > 0 \<and> length (buffer (packet_builder w)) \<ge> flush_threshold w then 1 else 0)"
proof -
  define v where "v = w\<lparr>packet_builder := (packet_builder w)\<lparr>buffer := []\<rparr>\<rparr>"
  have run': "write_packet B (buffer (packet_builder w)) v = (r, w')"
    using run built by (simp add: end_packet_unfold v_def)
  have "buffer (packet_builder v) = []"
    "length (buffer (packet_builder w)) \<le> max_packet_size (packet_builder v)"
    using built by (simp_all add: v_def)
  note out = write_packet_outcome [OF B this(1) built(1) this(2) run']
  show "sends w r w' (frames (seq (packet_builder w)) (buffer (packet_builder w)))"
    using out(1) by (simp add: v_def sends_def)
  show "buffer (packet_builder w') = []"
    "max_packet_size (packet_builder w') = max_packet_size (packet_builder w)"
    "flush_threshold w' = flush_threshold w" "write_timeout w' = write_timeout w"
    using out(2) by (simp_all add: v_def same_config_def)
  show "r = Inr () \<Longrightarrow> seq (packet_builder w') =
       seq (packet_builder w) + word_of_nat (frame_count (buffer (packet_builder w)))"
    "r = Inr () \<Longrightarrow> flushes (output_stream w') = flushes (output_stream w) +
       (if flush_threshold w > 0 \<and> length (buffer (packet_builder w)) \<ge> flush_threshold w then 1 else 0)"
    using out(3,4) by (simp_all add: v_def)
qed

lemma end_packet_reliable:
  assumes "writer_reliable w"
    and "length (buffer (packet_builder w)) \<le> max_packet_size (packet_builder w)"
  shows "\<exists>w'. end_packet B w = (Inr (), w') \<and> writer_reliable w'"
proof (cases "buffer (packet_builder w) = []")
  case True
  with assms show ?thesis by (simp add: end_packet_unfold)
next
  case False
  have "writer_reliable (w\<lparr>packet_builder := (packet_builder w)\<lparr>buffer := []\<rparr>\<rparr>)"
    using assms(1) by (simp add: writer_reliable_def)
  from write_packet_reliable [OF _ False _ this] assms(2) False show ?thesis
    by (simp add: end_packet_unfold)
qed

subsection \<open>Properties of the packet writer\<close>

text \<open>The builder takes a slice whole or not at all: it succeeds exactly when the packet
  stays within the limit, and a refused slice leaves the packet built so far unchanged.\<close>

theorem write_all_within_limit:
  assumes "max_packet_size (packet_builder w) \<le> usize_max" and "buf \<noteq> []"
  shows "if length (buffer (packet_builder w)) + length buf \<le> max_packet_size (packet_builder w)
     then write_all buf w =
       (Inr (), w\<lparr>packet_builder := (packet_builder w)\<lparr>buffer := buffer (packet_builder w) @ buf\<rparr>\<rparr>)
     else \<exists>e. write_all buf w = (Inl e, w) \<and> err_kind e = InvalidData"
  using assms
  by (auto simp: write_all_fits) (auto simp: write_all_def builder_write_def checked_add_def limit_error_def)

theorem write_all_within_limit_witness:
  "if length (buffer (packet_builder (set_max_packet_size 2 (new_writer \<lparr>written = [], flushes = 0, flushed = 0,
       write_script = [], flush_script = []\<rparr>)))) + length [1 :: u8, 2, 3] \<le>
       max_packet_size (packet_builder (set_max_packet_size 2 (new_writer \<lparr>written = [], flushes = 0, flushed = 0,
       write_script = [], flush_script = []\<rparr>)))
   then write_all [1, 2, 3] (set_max_packet_size 2 (new_writer \<lparr>written = [], flushes = 0, flushed = 0,
       write_script = [], flush_script = []\<rparr>)) =
     (Inr (), (set_max_packet_size 2 (new_writer \<lparr>written = [], flushes = 0, flushed = 0,
       write_script = [], flush_script = []\<rparr>))\<lparr>packet_builder :=
       (packet_builder (set_max_packet_size 2 (new_writer \<lparr>written = [], flushes = 0, flushed = 0,
       write_script = [], flush_script = []\<rparr>)))\<lparr>buffer := buffer (packet_builder (set_max_packet_size 2
       (new_writer \<lparr>written = [], flushes = 0, flushed = 0, write_script = [], flush_script = []\<rparr>))) @ [1, 2, 3]\<rparr>\<rparr>)
   else \<exists>e. write_all [1, 2, 3] (set_max_packet_size 2 (new_writer \<lparr>written = [], flushes = 0, flushed = 0,
       write_script = [], flush_script = []\<rparr>)) = (Inl e, set_max_packet_size 2 (new_writer
       \<lparr>written = [], flushes = 0, flushed = 0, write_script = [], flush_script = []\<rparr>)) \<and> err_kind e = InvalidData"
  by (rule write_all_within_limit)
    (simp_all add: set_max_packet_size_def new_writer_def new_builder_def usize_max_def)

text \<open>C32: sending a packet that was built within the limit puts exactly its frames on the wire,
  or a prefix of them when the transport fails, under every fragmentation of the writes; the
  builder is empty afterwards in either case, and on success the sequence number advanced by the
  number of frames and the transport was flushed iff the payload reaches the flush threshold.
  A transport that makes progress and does not fail is always served to the end.\<close>

theorem end_packet_sends:
  assumes "byteorder_spec B" and "end_packet B w = (r, w')"
    and "buffer (packet_builder w) \<noteq> []"
    and "length (buffer (packet_builder w)) \<le> max_packet_size (packet_builder w)"
  shows "sends w r w' (frames (seq (packet_builder w)) (buffer (packet_builder w))) \<and>
     buffer (packet_builder w') = [] \<and>
     (r = Inr () \<longrightarrow>
        seq (packet_builder w') =
          seq (packet_builder w) + word_of_nat (frame_count (buffer (packet_builder w))) \<and>
        flushes (output_stream w') = flushes (output_stream w) +
          (if flush_threshold w > 0 \<and> length (buffer (packet_builder w)) \<ge> flush_threshold w then 1 else 0)) \<and>
     (writer_reliable w \<longrightarrow> r = Inr ())"
  using end_packet_outcome [OF assms] end_packet_reliable [of w B] assms(2,4) by auto

definition ping_writer :: PacketWriter where
  "ping_writer = \<lparr>packet_builder = \<lparr>buffer = [14], seq = 255, max_packet_size = 9\<rparr>,
     output_stream = \<lparr>written = [], flushes = 0, flushed = 0, write_script = [WAccept 2, WError write_zero],
       flush_script = []\<rparr>, flush_threshold = 1, write_timeout = None\<rparr>"

theorem end_packet_sends_witness:
  "sends ping_writer (Inl write_zero) (snd (end_packet byteorder_ref ping_writer)) (frames 255 [14]) \<and>
     buffer (packet_builder (snd (end_packet byteorder_ref ping_writer))) = []"
proof -
  have "fst (end_packet byteorder_ref ping_writer) = Inl write_zero"
    by (simp add: ping_writer_def end_packet_unfold write_packet_def builder_is_empty_def
        writer_max_packet_size_def chunks.simps U24_MAX_def then_io_def and_then_def
        write_chunk_def write_chunk_loop.simps write_vectored_def byteorder_ref_def numeral_3_eq_3)
  then have "end_packet byteorder_ref ping_writer =
      (Inl write_zero, snd (end_packet byteorder_ref ping_writer))"
    by (simp add: prod_eq_iff)
  from end_packet_sends [OF byteorder_ref_spec this] show ?thesis
    by (simp add: ping_writer_def)
qed

end
