(* ===== verification/PacketReader.thy ===== *)
theory PacketReader
  imports Protocol
begin

text \<open>
  \<open>packet_reader.rs\<close>: reassembly of logical packets from the byte stream. \<open>packet\<close> parses
  one logical packet from the buffered bytes (several frames when the payload has
  \<open>U24_MAX\<close> bytes or more), \<open>ensure_packet_limit\<close> rejects a packet as soon as its declared
  size exceeds the limit, and \<open>next_async\<close> reads from the transport until a packet is
  complete. The transport is a list of what the successive reads deliver.
\<close>

definition DEFAULT_MAX_PACKET_SIZE :: nat where
  "DEFAULT_MAX_PACKET_SIZE = 1024 * 1024 * 1024"

subsection \<open>Frame headers\<close>

text \<open>\<open>input[0] as usize | ((input[1] as usize) << 8) | ((input[2] as usize) << 16)\<close>.\<close>

definition u24_at :: "bytes \<Rightarrow> nat" where
  "u24_at i = (unat (i ! 0) OR push_bit 8 (unat (i ! 1))) OR push_bit 16 (unat (i ! 2))"

definition limit_overflow :: io_error where
  "limit_overflow = IoError InvalidData (ascii ''packet exceeds configured limit: payload size overflow'')"

definition limit_exceeded :: "nat \<Rightarrow> nat \<Rightarrow> io_error" where
  "limit_exceeded n limit = IoError InvalidData
     (ascii ''packet exceeds configured limit: payload '' @ dec n @ ascii '' bytes > limit '' @
      dec limit @ ascii '' bytes'')"

function ensure_packet_limit :: "nat \<Rightarrow> nat \<Rightarrow> bytes \<Rightarrow> unit io_result" where
  "ensure_packet_limit max_size payload_size input =
     (if length input < 3 then Inr ()
      else let frame_payload_size = u24_at input in
        case checked_add payload_size frame_payload_size of
          None \<Rightarrow> Inl limit_overflow
        | Some payload_size' \<Rightarrow>
            if payload_size' > max_size then Inl (limit_exceeded payload_size' max_size)
            else let frame_size = saturating_add 4 frame_payload_size in
              if length input < frame_size then Inr ()
              else if frame_payload_size < U24_MAX then Inr ()
              else ensure_packet_limit max_size payload_size' (drop frame_size input))"
  by pat_completeness auto
termination
  by (relation "measure (\<lambda>(m, n, input). length input)") (auto simp: saturating_add_def usize_max_def)

declare ensure_packet_limit.simps [simp del]

subsection \<open>Parsing one logical packet\<close>

record Packet =
  packet_bytes :: bytes
  first_seq :: u8

definition fullpacket :: "'c nom_ops \<Rightarrow> bytes \<Rightarrow> (u8 \<times> bytes) iresult" where
  "fullpacket N i =
     p_bind (nom_tag N [0xff, 0xff, 0xff] i) (\<lambda>i _.
     p_bind (nom_take N 1 i) (\<lambda>i sq.
     p_bind (nom_take N U24_MAX i) (\<lambda>i bs. Inr (i, (sq ! 0, bs)))))"

definition onepacket :: "'c nom_ops \<Rightarrow> bytes \<Rightarrow> (u8 \<times> bytes) iresult" where
  "onepacket N i =
     p_bind (nom_le_u24 N i) (\<lambda>i len.
     p_bind (nom_take N 1 i) (\<lambda>i sq.
     p_bind (nom_take N (unat len) i) (\<lambda>i bs. Inr (i, (sq ! 0, bs)))))"

definition out_of_sequence :: "u8 option \<Rightarrow> u8 \<Rightarrow> bool" where
  "out_of_sequence prev sq = (case prev of None \<Rightarrow> False | Some p \<Rightarrow> sq \<noteq> p + 1)"

text \<open>The probing loop of \<open>packet\<close>: all frames are present and in sequence.\<close>

function probe :: "bytes \<Rightarrow> nat \<Rightarrow> u8 option \<Rightarrow> nom_err + nat" where
  "probe input total_payload_size prev =
     (if length input < 4 then Inl NomIncomplete
      else let frame_len = u24_at input; frame_seq = input ! 3 in
        if out_of_sequence prev frame_seq then Inl (NomFailure (drop 4 input))
        else let frame_total = saturating_add 4 frame_len in
          if length input < frame_total then Inl NomIncomplete
          else case checked_add total_payload_size frame_len of
            None \<Rightarrow> Inl (NomFailure (drop 4 input))
          | Some total_payload_size' \<Rightarrow>
              if frame_len < U24_MAX then Inr total_payload_size'
              else probe (drop frame_total input) total_payload_size' (Some frame_seq))"
  by pat_completeness auto
termination
  by (relation "measure (\<lambda>(input, n, p). length input)") (auto simp: saturating_add_def usize_max_def)

declare probe.simps [simp del]

text \<open>
  The assembling loop of \<open>packet\<close>. Its input shrinks only as far as the \<open>nom\<close> parsers
  consume, so it is bounded by fuel; \<open>packet\<close> gives more fuel than there are bytes.
\<close>

fun assemble :: "'c nom_ops \<Rightarrow> nat \<Rightarrow> bytes \<Rightarrow> bytes \<Rightarrow> u8 option \<Rightarrow> u8 option \<Rightarrow>
    (u8 \<times> Packet) iresult" where
  "assemble N 0 input assembled previous_seq first = Inl NomStuck"
| "assemble N (Suc fuel) input assembled previous_seq first =
     (if length input < 3 then Inl NomIncomplete
      else let payload_len = u24_at input in
        p_bind (if payload_len = U24_MAX then fullpacket N input else onepacket N input)
          (\<lambda>rest (sq, payload).
            let f = (case first of None \<Rightarrow> sq | Some f \<Rightarrow> f) in
            if out_of_sequence previous_seq sq then Inl (NomFailure payload)
            else if payload_len < U24_MAX then
              Inr (rest, (sq, \<lparr>packet_bytes = assembled @ payload, first_seq = f\<rparr>))
            else assemble N fuel rest (assembled @ payload) (Some sq) (Some f)))"

definition packet :: "'c nom_ops \<Rightarrow> bytes \<Rightarrow> (u8 \<times> Packet) iresult" where
  "packet N i =
     (if length i < 3 then Inl NomIncomplete
      else if u24_at i < U24_MAX then
        p_bind (onepacket N i) (\<lambda>rest (sq, payload).
          Inr (rest, (sq, \<lparr>packet_bytes = payload, first_seq = sq\<rparr>)))
      else case probe i 0 None of
        Inl e \<Rightarrow> Inl e
      | Inr total_payload_size \<Rightarrow> assemble N (Suc (length i)) i [] None None)"

subsection \<open>Reading from the transport\<close>

text \<open>
  One read delivers bytes (none: the peer closed the stream), fails, or stalls until the
  read timer, if there is one, fires. The end of the list is the end of the stream.
\<close>

datatype rd_event = RData bytes | RFail io_error | RStall

record PacketReader =
  rd_bytes :: bytes
  rd_stream :: "rd_event list"
  rd_max_packet_size :: nat

definition new_with_max_packet_size :: "rd_event list \<Rightarrow> nat \<Rightarrow> PacketReader" where
  "new_with_max_packet_size es n = \<lparr>rd_bytes = [], rd_stream = es, rd_max_packet_size = n\<rparr>"

definition new_reader :: "rd_event list \<Rightarrow> PacketReader" where
  "new_reader es = new_with_max_packet_size es DEFAULT_MAX_PACKET_SIZE"

definition stuck_error :: io_error where
  "stuck_error = IoError OtherKind (ascii ''packet assembly does not return'')"

text \<open>The part of the loop body before the read: \<open>Inr None\<close> asks for more bytes.\<close>

definition parse_buffered ::
    "'c nom_ops \<Rightarrow> nat \<Rightarrow> bytes \<Rightarrow> (bytes \<times> u8 \<times> Packet) option io_result" where
  "parse_buffered N max_size bs =
     (if bs = [] then Inr None
      else case ensure_packet_limit max_size 0 bs of
        Inl e \<Rightarrow> Inl e
      | Inr _ \<Rightarrow>
          (case packet N bs of
             Inr (rest, p) \<Rightarrow> Inr (Some (rest, p))
           | Inl NomIncomplete \<Rightarrow> Inr None
           | Inl NomError \<Rightarrow> Inr None
           | Inl (NomFailure ctx) \<Rightarrow> Inl (IoError InvalidData (nom_debug N ctx))
           | Inl NomStuck \<Rightarrow> Inl stuck_error))"

definition at_eof :: "bytes \<Rightarrow> (u8 \<times> Packet) option io_result" where
  "at_eof bs = (if bs = [] then Inr None
     else Inl (IoError UnexpectedEof (dec (length bs) @ ascii '' unhandled bytes'')))"

definition timed_out_reading :: io_error where
  "timed_out_reading = IoError TimedOut (ascii ''timed out waiting for client packet'')"

text \<open>
  The loop of \<open>next_async\<close>, under \<open>tokio::time::timeout\<close> when \<open>timed\<close>, over the parsing
  step. The buffer is moved out of the reader before each read, so a failed or cancelled
  read leaves it empty.
\<close>

fun read_loop :: "(bytes \<Rightarrow> (bytes \<times> u8 \<times> Packet) option io_result) \<Rightarrow> bool \<Rightarrow> bytes \<Rightarrow>
    rd_event list \<Rightarrow> (u8 \<times> Packet) option io_result \<times> bytes \<times> rd_event list" where
  "read_loop parse timed bs [] =
     (case parse bs of
        Inl e \<Rightarrow> (Inl e, bs, [])
      | Inr (Some (rest, p)) \<Rightarrow> (Inr (Some p), rest, [])
      | Inr None \<Rightarrow> (at_eof bs, bs, []))"
| "read_loop parse timed bs (e # es) =
     (case parse bs of
        Inl err \<Rightarrow> (Inl err, bs, e # es)
      | Inr (Some (rest, p)) \<Rightarrow> (Inr (Some p), rest, e # es)
      | Inr None \<Rightarrow>
          (case e of
             RData d \<Rightarrow> if d = [] then (at_eof bs, bs, es) else read_loop parse timed (bs @ d) es
           | RFail err \<Rightarrow> (Inl err, [], es)
           | RStall \<Rightarrow> if timed then (Inl timed_out_reading, [], es)
                       else read_loop parse timed bs es))"

definition next_with_timer ::
    "'c nom_ops \<Rightarrow> bool \<Rightarrow> (PacketReader, (u8 \<times> Packet) option) io" where
  "next_with_timer N timed rd =
     (case read_loop (parse_buffered N (rd_max_packet_size rd)) timed (rd_bytes rd) (rd_stream rd) of
        (r, bs, es) \<Rightarrow> (r, rd\<lparr>rd_bytes := bs, rd_stream := es\<rparr>))"

definition next_async :: "'c nom_ops \<Rightarrow> (PacketReader, (u8 \<times> Packet) option) io" where
  "next_async N = next_with_timer N False"

definition read_packet_with_timeout ::
    "'c nom_ops \<Rightarrow> nat option \<Rightarrow> (PacketReader, (u8 \<times> Packet) option) io" where
  "read_packet_with_timeout N timeout_duration =
     (case timeout_duration of Some d \<Rightarrow> next_with_timer N True | None \<Rightarrow> next_async N)"

text \<open>
  A reader is itself a transport (\<open>impl AsyncRead for PacketReader\<close>): it first hands over
  what it has buffered, at most as much as the caller has room for, then passes reads on. A
  transport that has more than there is room for keeps the rest for the next read.
\<close>

definition poll_read :: "nat \<Rightarrow> PacketReader \<Rightarrow> rd_event option \<times> PacketReader" where
  "poll_read remaining rd =
     (if rd_bytes rd \<noteq> [] then
        (let to_copy = min remaining (length (rd_bytes rd))
         in (Some (RData (take to_copy (rd_bytes rd))), rd\<lparr>rd_bytes := drop to_copy (rd_bytes rd)\<rparr>))
      else case rd_stream rd of
        [] \<Rightarrow> (None, rd)
      | RData d # es \<Rightarrow>
          (Some (RData (take remaining d)),
           rd\<lparr>rd_stream := if length d \<le> remaining then es else RData (drop remaining d) # es\<rparr>)
      | e # es \<Rightarrow> (Some e, rd\<lparr>rd_stream := es\<rparr>))"

text \<open>The reads a caller with room for everything buffered sees.\<close>

definition reader_stream :: "PacketReader \<Rightarrow> rd_event list" where
  "reader_stream rd = (if rd_bytes rd = [] then rd_stream rd else RData (rd_bytes rd) # rd_stream rd)"

subsection \<open>The contract between the loop and the parsing step\<close>

text \<open>A transport that delivers data in any pieces, and the bytes it delivers.\<close>

fun rd_ok :: "bool \<Rightarrow> rd_event \<Rightarrow> bool" where
  "rd_ok timed (RData d) = (d \<noteq> [])"
| "rd_ok timed (RFail e) = False"
| "rd_ok timed RStall = (\<not> timed)"

fun rd_data :: "rd_event \<Rightarrow> bytes" where
  "rd_data (RData d) = d"
| "rd_data (RFail e) = []"
| "rd_data RStall = []"

definition delivers :: "bool \<Rightarrow> rd_event list \<Rightarrow> bool" where
  "delivers timed es \<longleftrightarrow> list_all (rd_ok timed) es"

definition stream_bytes :: "rd_event list \<Rightarrow> bytes" where
  "stream_bytes es = concat (map rd_data es)"

text \<open>What a reader has not yet turned into packets, buffered or still to come.\<close>

definition unread :: "PacketReader \<Rightarrow> bytes" where
  "unread rd = rd_bytes rd @ stream_bytes (rd_stream rd)"

lemma delivers_simps [simp]:
  "delivers timed []" "delivers timed (e # es) \<longleftrightarrow> rd_ok timed e \<and> delivers timed es"
  by (simp_all add: delivers_def)

lemma stream_bytes_simps [simp]:
  "stream_bytes [] = []" "stream_bytes (e # es) = rd_data e @ stream_bytes es"
  by (simp_all add: stream_bytes_def)

fun read_messages :: "(bytes \<Rightarrow> (bytes \<times> u8 \<times> Packet) option io_result) \<Rightarrow> bool \<Rightarrow> nat \<Rightarrow> bytes \<Rightarrow>
    rd_event list \<Rightarrow> (u8 \<times> Packet) list io_result \<times> bytes \<times> rd_event list" where
  "read_messages parse timed 0 bs es = (Inr [], bs, es)"
| "read_messages parse timed (Suc n) bs es =
     (case read_loop parse timed bs es of
        (Inl e, bs', es') \<Rightarrow> (Inl e, bs', es')
      | (Inr None, bs', es') \<Rightarrow> (Inr [], bs', es')
      | (Inr (Some p), bs', es') \<Rightarrow>
          (case read_messages parse timed n bs' es' of
             (Inl e, r) \<Rightarrow> (Inl e, r) | (Inr ps, r) \<Rightarrow> (Inr (p # ps), r)))"

text \<open>
  The loop relies on two laws of the parsing step: it recognises a complete message and
  leaves the rest, and it asks for more on every strict prefix of one.
\<close>

locale message_parser =
  fixes parse :: "bytes \<Rightarrow> (bytes \<times> u8 \<times> Packet) option io_result"
    and encode :: "'m \<Rightarrow> bytes"
    and result :: "'m \<Rightarrow> u8 \<times> Packet"
    and valid :: "'m \<Rightarrow> bool"
  assumes parse_complete: "valid m \<Longrightarrow> parse (encode m @ rest) = Inr (Some (rest, result m))"
    and parse_prefix: "valid m \<Longrightarrow> encode m = i @ d \<Longrightarrow> d \<noteq> [] \<Longrightarrow> parse i = Inr None"
    and parse_empty: "parse [] = Inr None"
begin

lemma read_one:
  "valid m \<Longrightarrow> delivers timed es \<Longrightarrow> bs @ stream_bytes es = encode m @ rest \<Longrightarrow>
     \<exists>bs' es'. read_loop parse timed bs es = (Inr (Some (result m)), bs', es') \<and>
       delivers timed es' \<and> bs' @ stream_bytes es' = rest"
proof (induction es arbitrary: bs)
  case Nil
  then show ?case by (simp add: parse_complete)
next
  case (Cons e es)
  from Cons.prems(3) show ?case
  proof (cases rule: append_eq_prefix_cases)
    case (shorter ws)
    then have none: "parse bs = Inr None" using Cons.prems(1) parse_prefix by blast
    have "\<exists>bs' es'. read_loop parse timed (bs @ rd_data e) es = (Inr (Some (result m)), bs', es') \<and>
        delivers timed es' \<and> bs' @ stream_bytes es' = rest"
      by (rule Cons.IH) (use Cons.prems in simp_all)
    with none Cons.prems(2) show ?thesis by (cases e) simp_all
  next
    case (longer ws)
    with Cons.prems show ?thesis
      by (intro exI [of _ ws] exI [of _ "e # es"]) (simp add: parse_complete)
  qed
qed

lemma read_many:
  "list_all valid ms \<Longrightarrow> delivers timed es \<Longrightarrow>
   bs @ stream_bytes es = concat (map encode ms) @ rest \<Longrightarrow>
     \<exists>bs' es'. read_messages parse timed (length ms) bs es = (Inr (map result ms), bs', es') \<and>
       delivers timed es' \<and> bs' @ stream_bytes es' = rest"
proof (induction ms arbitrary: bs es)
  case Nil
  then show ?case by simp
next
  case (Cons m ms)
  then obtain bs1 es1 where "read_loop parse timed bs es = (Inr (Some (result m)), bs1, es1)"
    "delivers timed es1" "bs1 @ stream_bytes es1 = concat (map encode ms) @ rest"
    using read_one [of m timed es bs "concat (map encode ms) @ rest"] by auto
  moreover from this Cons obtain bs2 es2 where
    "read_messages parse timed (length ms) bs1 es1 = (Inr (map result ms), bs2, es2)"
    "delivers timed es2" "bs2 @ stream_bytes es2 = rest"
    by fastforce
  ultimately show ?case by simp
qed

text \<open>A stream that ends inside a message is an error, one that ends between messages is not.\<close>

lemma read_truncated:
  "valid m \<Longrightarrow> delivers timed es \<Longrightarrow> encode m = (bs @ stream_bytes es) @ d \<Longrightarrow> d \<noteq> [] \<Longrightarrow>
     \<exists>bs' es'. read_loop parse timed bs es = (at_eof (bs @ stream_bytes es), bs', es')"
proof (induction es arbitrary: bs)
  case Nil
  then have "parse bs = Inr None" by (intro parse_prefix) simp_all
  then show ?case by simp
next
  case (Cons e es)
  have none: "parse bs = Inr None"
    by (rule parse_prefix [OF Cons.prems(1), of _ "stream_bytes (e # es) @ d"])
      (use Cons.prems in simp_all)
  have "\<exists>bs' es'. read_loop parse timed (bs @ rd_data e) es =
      (at_eof ((bs @ rd_data e) @ stream_bytes es), bs', es')"
    by (rule Cons.IH) (use Cons.prems in simp_all)
  with none Cons.prems(2) show ?case by (cases e) simp_all
qed

end

end
