(* ===== verification/Framing.thy ===== *)
theory Framing
  imports PacketWriter PacketReader
begin

text \<open>
  The two directions of the frame layer against one wire format: what \<open>PacketWriter\<close> sends
  for a payload (\<open>frames\<close>) is what \<open>PacketReader\<close> accepts, for every payload size, every
  sequence number (the number wraps at 256) and every fragmentation of the stream.
\<close>

subsection \<open>Headers\<close>

lemma or_shifted: "a < 2 ^ n \<Longrightarrow> a OR push_bit n b = a + 2 ^ n * (b :: nat)"
proof -
  assume "a < 2 ^ n"
  then have a: "take_bit n a = a" by (simp add: take_bit_nat_eq_self_iff)
  have "take_bit n a AND push_bit n b = 0"
    by (rule bit_eqI) (auto simp: bit_simps)
  with a show ?thesis
    by (simp add: disjunctive_add_eq_or [symmetric] push_bit_eq_mult mult.commute)
qed

lemma unat_byte_lt [simp]: "unat (b :: u8) < 256"
  using unsigned_less [of b, where ?'a = nat] by simp

lemma u24_at_of_le:
  assumes "3 \<le> length i"
  shows "u24_at i = of_le (take 3 i)"
proof -
  obtain a b c r where i: "i = a # b # c # r"
    using assms by (metis (no_types) Suc_le_length_iff numeral_3_eq_3)
  have 1: "unat a OR push_bit 8 (unat b) = unat a + 256 * unat b"
    using or_shifted [of "unat a" 8] by simp
  have "unat a + 256 * unat b < 65536"
    using unat_byte_lt [of a] unat_byte_lt [of b] by linarith
  then have "(unat a + 256 * unat b) OR push_bit 16 (unat c) = unat a + 256 * unat b + 65536 * unat c"
    using or_shifted [of _ 16] by simp
  with 1 show ?thesis by (simp add: u24_at_def i)
qed

lemma u24_at_bound: "3 \<le> length i \<Longrightarrow> u24_at i \<le> U24_MAX"
  using of_le_bound [of "take 3 i"] by (simp add: u24_at_of_le U24_MAX_def)

lemma u24_at_frame [simp]: "length c \<le> U24_MAX \<Longrightarrow> u24_at (frame s c @ rest) = length c"
  by (simp add: u24_at_of_le frame_def of_le_le_bytes U24_MAX_def)

lemma length_frame [simp]: "length (frame s c) = 4 + length c"
  by (simp add: frame_def)

lemma frame_nth_3 [simp]: "(frame s c @ rest) ! 3 = s"
  by (simp add: frame_def nth_append)

lemma saturating_small: "n \<le> U24_MAX \<Longrightarrow> saturating_add 4 n = 4 + n"
  by (simp add: saturating_add_def U24_MAX_def usize_max_def)

subsection \<open>One frame\<close>

lemma onepacket_frame:
  assumes "nom_spec N" and "length c \<le> U24_MAX"
  shows "onepacket N (frame s c @ rest) = Inr (rest, (s, c))"
proof -
  have le: "of_le (le_bytes 3 (length c)) = length c"
    using assms(2) by (simp add: of_le_le_bytes U24_MAX_def)
  then have "unat (word_of_nat (of_le (le_bytes 3 (length c))) :: u32) = length c"
    using assms(2) by (simp add: unat_of_nat U24_MAX_def)
  then show ?thesis
    by (simp add: onepacket_def frame_def nom_specD [OF assms(1)] ref_le_append ref_take_append
        ref_take_append [of "[s]", simplified])
qed

lemma fullpacket_frame:
  assumes "nom_spec N" and "length c = U24_MAX"
  shows "fullpacket N (frame s c @ rest) = Inr (rest, (s, c))"
proof -
  have "le_bytes 3 (length c) = [0xff, 0xff, 0xff]"
    using assms(2) by (simp add: U24_MAX_def numeral_3_eq_3)
  then show ?thesis
    using ref_tag_append [of "[0xff, 0xff, 0xff]" "s # c @ rest"] assms(2)
    by (simp add: fullpacket_def frame_def nom_specD [OF assms(1)] ref_take_append
        ref_take_append [of "[s]", simplified])
qed

text \<open>Too few bytes for the declared payload: \<open>onepacket\<close> reports an error, not a packet.\<close>

lemma onepacket_short:
  assumes "nom_spec N" and "length i < 3 \<or> length i < 4 + u24_at i"
  shows "onepacket N i = Inl NomError"
proof (cases "length i < 4")
  case True
  then show ?thesis
    by (auto simp: onepacket_def nom_specD [OF assms(1)] ref_le_def ref_take_def)
next
  case False
  with assms(2) have short: "length i < 4 + of_le (take 3 i)" by (auto simp: u24_at_of_le)
  have "of_le (take 3 i) < 256 ^ 3" using of_le_bound [of "take 3 i"] False by simp
  then have "unat (word_of_nat (of_le (take 3 i)) :: u32) = of_le (take 3 i)"
    by (simp add: unat_of_nat)
  with short False show ?thesis
    by (simp add: onepacket_def nom_specD [OF assms(1)] ref_le_def ref_take_def)
qed

subsection \<open>All frames of a packet\<close>

lemma u24_at_append: "3 \<le> length i \<Longrightarrow> u24_at (i @ d) = u24_at i"
  by (cases "i = []") (simp_all add: u24_at_def nth_append)

lemma frames_short: "length p < U24_MAX \<Longrightarrow> frames s p = frame s p"
  by (simp add: frames.simps)

lemma frames_long:
  "U24_MAX \<le> length p \<Longrightarrow>
     frames s p = frame s (take U24_MAX p) @ frames (s + 1) (drop U24_MAX p)"
  by (subst frames.simps) simp

text \<open>The frames of a packet, seen one at a time: the last one is shorter than \<open>U24_MAX\<close>.\<close>

lemma frames_induct [case_names last more]:
  fixes P :: "u8 \<Rightarrow> bytes \<Rightarrow> bool"
  assumes last: "\<And>s p. length p < U24_MAX \<Longrightarrow> P s p"
    and more: "\<And>s c q. length c = U24_MAX \<Longrightarrow> P (s + 1) q \<Longrightarrow> P s (c @ q)"
  shows "P s p"
proof (induction s p rule: frames.induct)
  case (1 s p)
  show ?case
  proof (cases "length p < U24_MAX")
    case True
    then show ?thesis by (rule last)
  next
    case False
    with "1" more [of "take U24_MAX p" s "drop U24_MAX p"] show ?thesis by simp
  qed
qed

lemma frames_more:
  "length c = U24_MAX \<Longrightarrow> frames s (c @ q) = frame s c @ frames (s + 1) q"
  by (simp add: frames_long)

lemma frames_length: "4 + length p \<le> length (frames s p)"
  by (induction s p rule: frames_induct) (simp_all add: frames_short frames_more)

lemma frames_length_ge: "4 \<le> length (frames s p)"
  using frames_length [of p s] by simp

lemma div_more [simp]: "(U24_MAX + n) div U24_MAX = Suc (n div U24_MAX)"
  by (simp add: div_add_self1)

lemma frame_count_more: "length c = U24_MAX \<Longrightarrow> frame_count (c @ q) = Suc (frame_count q)"
  by (simp add: frame_count_def)

lemma frame_count_le: "frame_count p \<le> length (frames s p)"
  by (induction s p rule: frames_induct)
    (simp_all add: frames_short frames_more frame_count_more frame_count_def)

text \<open>The head of the frames is a frame header, in every prefix long enough to hold it.\<close>

lemma frames_header:
  assumes "frames s p = i @ d" and "3 \<le> length i"
  shows "u24_at i = min (length p) U24_MAX" and "4 \<le> length i \<Longrightarrow> i ! 3 = s"
proof -
  obtain c tl where c: "frames s p = frame s c @ tl" "length c = min (length p) U24_MAX"
    by (cases "length p < U24_MAX") (auto simp: frames_short frames_long)
  from assms have "u24_at i = u24_at (frames s p)" by (simp add: u24_at_append)
  with c show "u24_at i = min (length p) U24_MAX" by simp
  show "i ! 3 = s" if "4 \<le> length i"
  proof -
    have "i ! 3 = frames s p ! 3" using assms(1) that by (simp add: nth_append)
    with c show ?thesis by simp
  qed
qed

lemma probe_frame:
  assumes "length c \<le> U24_MAX" and "\<not> out_of_sequence prev s" and "t + length c \<le> usize_max"
  shows "probe (frame s c @ rest) t prev =
     (if length c < U24_MAX then Inr (t + length c) else probe rest (t + length c) (Some s))"
  using assms
  by (subst probe.simps) (simp add: saturating_small checked_add_def Let_def)

lemma probe_frames:
  "\<not> out_of_sequence prev s \<Longrightarrow> t + length p \<le> usize_max \<Longrightarrow>
     probe (frames s p @ rest) t prev = Inr (t + length p)"
proof (induction s p arbitrary: t prev rule: frames_induct)
  case (last s p)
  then show ?case by (simp add: frames_short probe_frame)
next
  case (more s c q)
  have "probe (frames (s + 1) q @ rest) (t + length c) (Some s) = Inr (t + length c + length q)"
    by (rule more.IH) (use more.prems in \<open>simp_all add: out_of_sequence_def\<close>)
  with more show ?case by (simp add: frames_more probe_frame)
qed

lemma probe_prefix:
  "frames s p = i @ d \<Longrightarrow> d \<noteq> [] \<Longrightarrow> \<not> out_of_sequence prev s \<Longrightarrow> t + length p \<le> usize_max \<Longrightarrow>
     probe i t prev = Inl NomIncomplete"
proof (induction s p arbitrary: i t prev rule: frames_induct)
  case (last s p)
  have "length (i @ d) = 4 + length p" using last by (metis frames_short length_frame)
  with last(3) have "length i < 4 + length p" by (cases d) auto
  with last frames_header [OF last(2)] show ?case
    by (subst probe.simps) (simp add: Let_def saturating_small)
next
  case (more s c q)
  show ?case
  proof (cases "length i < 4 + length c")
    case True
    with more frames_header [OF more.prems(1)] show ?thesis
      by (subst probe.simps) (simp add: Let_def saturating_small)
  next
    case False
    have "i @ d = frame s c @ frames (s + 1) q"
      using more.prems(1) more.hyps by (simp add: frames_more)
    then obtain j where j: "i = frame s c @ j" "frames (s + 1) q = j @ d"
    proof (cases rule: append_eq_prefix_cases)
      case (shorter ws)
      then have "length i < length (frame s c)" by (metis length_append length_greater_0_conv less_add_same_cancel1)
      with False show ?thesis by simp
    next
      case (longer ws)
      with that show ?thesis by blast
    qed
    have "probe j (t + length c) (Some s) = Inl NomIncomplete"
      by (rule more.IH) (use more.prems j in \<open>simp_all add: out_of_sequence_def\<close>)
    with more j show ?thesis by (simp add: probe_frame)
  qed
qed

lemma assemble_frames:
  assumes N: "nom_spec N"
  shows "\<not> out_of_sequence prev s \<Longrightarrow> frame_count p \<le> fuel \<Longrightarrow>
     assemble N fuel (frames s p @ rest) acc prev first =
       Inr (rest, (s + word_of_nat (length p div U24_MAX),
         \<lparr>packet_bytes = acc @ p, first_seq = (case first of None \<Rightarrow> s | Some f \<Rightarrow> f)\<rparr>))"
proof (induction s p arbitrary: fuel acc prev first rule: frames_induct)
  case (last s p)
  then obtain k where "fuel = Suc k" by (cases fuel) (auto simp: frame_count_def)
  with last show ?case
    by (simp add: frames_short onepacket_frame [OF N] Let_def)
next
  case (more s c q)
  then obtain k where k: "fuel = Suc k" by (cases fuel) (auto simp: frame_count_def)
  have "assemble N k (frames (s + 1) q @ rest) (acc @ c) (Some s)
      (Some (case first of None \<Rightarrow> s | Some f \<Rightarrow> f)) =
    Inr (rest, (s + 1 + word_of_nat (length q div U24_MAX),
      \<lparr>packet_bytes = (acc @ c) @ q, first_seq = (case first of None \<Rightarrow> s | Some f \<Rightarrow> f)\<rparr>))"
    using more.IH [of "Some s" k] more.prems more.hyps k
    by (simp add: out_of_sequence_def frame_count_more)
  with more k show ?case
    by (simp add: frames_more fullpacket_frame [OF N] Let_def algebra_simps)
qed

subsection \<open>One logical packet\<close>

definition parsed :: "u8 \<Rightarrow> bytes \<Rightarrow> u8 \<times> Packet" where
  "parsed s p = (s + word_of_nat (length p div U24_MAX), \<lparr>packet_bytes = p, first_seq = s\<rparr>)"

lemma packet_frames:
  assumes N: "nom_spec N" and "length p \<le> usize_max"
  shows "packet N (frames s p @ rest) = Inr (rest, parsed s p)"
proof (cases "length p < U24_MAX")
  case True
  then show ?thesis
    by (simp add: packet_def frames_short onepacket_frame [OF N] parsed_def)
next
  case False
  have len: "3 \<le> length (frames s p @ rest)" using frames_length_ge [of s p] by simp
  from frames_header(1) [of s p "frames s p" "[]"] have "u24_at (frames s p) = min (length p) U24_MAX"
    using frames_length_ge [of s p] by simp
  then have "u24_at (frames s p @ rest) = U24_MAX"
    using False frames_length_ge [of s p] by (simp add: u24_at_append)
  moreover have "frame_count p \<le> Suc (length (frames s p @ rest))"
    using frame_count_le [of p s] by simp
  ultimately show ?thesis using len probe_frames [of None s 0 p rest] assms
    by (simp add: packet_def assemble_frames [OF N] out_of_sequence_def parsed_def
        del: assemble.simps)
qed

lemma packet_prefix:
  assumes N: "nom_spec N" and "length p \<le> usize_max" and "frames s p = i @ d" and "d \<noteq> []"
  shows "packet N i = Inl NomIncomplete \<or> packet N i = Inl NomError"
proof (cases "length i < 3")
  case True
  then show ?thesis by (simp add: packet_def)
next
  case False
  then have u: "u24_at i = min (length p) U24_MAX" using frames_header(1) [OF assms(3)] by simp
  show ?thesis
  proof (cases "length p < U24_MAX")
    case True
    have "length (i @ d) = 4 + length p" using True assms(3) by (metis frames_short length_frame)
    with assms(4) u True have "length i < 4 + u24_at i" by (cases d) auto
    with False u True show ?thesis by (simp add: packet_def onepacket_short [OF N])
  next
    case long: False
    with probe_prefix [OF assms(3,4), of None 0] assms(2) False u show ?thesis
      by (simp add: packet_def out_of_sequence_def)
  qed
qed

subsection \<open>The packet limit\<close>

lemma ensure_frame:
  assumes "length c \<le> U24_MAX" and "t + length c \<le> max_size" and "max_size \<le> usize_max"
  shows "ensure_packet_limit max_size t (frame s c @ rest) =
     (if length c < U24_MAX then Inr () else ensure_packet_limit max_size (t + length c) rest)"
  using assms
  by (subst ensure_packet_limit.simps) (simp add: saturating_small checked_add_def Let_def)

text \<open>Within the limit, no prefix of the stream is rejected, whatever follows the packet.\<close>

lemma ensure_within:
  "frames s p @ rest = i @ d \<Longrightarrow> t + length p \<le> max_size \<Longrightarrow> max_size \<le> usize_max \<Longrightarrow>
     ensure_packet_limit max_size t i = Inr ()"
proof (induction s p arbitrary: i t rule: frames_induct)
  case (last s p)
  show ?case
  proof (cases "length i < 4 + length p")
    case True
    have "u24_at i = length p" if "3 \<le> length i"
    proof -
      have "u24_at i = u24_at (frame s p @ rest)"
        using last that by (metis u24_at_append frames_short)
      with last show ?thesis by simp
    qed
    with True last show ?thesis
      by (subst ensure_packet_limit.simps) (simp add: Let_def saturating_small checked_add_def)
  next
    case False
    have "i @ d = frame s p @ rest" using last by (simp add: frames_short)
    then obtain j where "i = frame s p @ j"
    proof (cases rule: append_eq_prefix_cases)
      case (shorter ws)
      then have "length i < length (frame s p)"
        by (metis length_append length_greater_0_conv less_add_same_cancel1)
      with False show ?thesis by simp
    qed blast
    with last show ?thesis by (simp add: ensure_frame)
  qed
next
  case (more s c q)
  have stream: "i @ d = frame s c @ (frames (s + 1) q @ rest)"
    using more.prems(1) more.hyps by (simp add: frames_more)
  show ?case
  proof (cases "length i < 4 + length c")
    case True
    have "u24_at i = length c" if "3 \<le> length i"
      using that stream more.hyps by (metis u24_at_append u24_at_frame order_refl)
    with True more show ?thesis
      by (subst ensure_packet_limit.simps) (simp add: Let_def saturating_small checked_add_def)
  next
    case False
    from stream obtain j where j: "i = frame s c @ j" "frames (s + 1) q @ rest = j @ d"
    proof (cases rule: append_eq_prefix_cases)
      case (shorter ws)
      then have "length i < length (frame s c)"
        by (metis length_append length_greater_0_conv less_add_same_cancel1)
      with False show ?thesis by simp
    qed blast
    have "ensure_packet_limit max_size (t + length c) j = Inr ()"
      by (rule more.IH [OF j(2)]) (use more.prems in simp_all)
    with j more show ?thesis by (simp add: ensure_frame)
  qed
qed

lemma ensure_beyond:
  "t + length p > max_size \<Longrightarrow> t \<le> usize_max \<Longrightarrow>
     \<exists>e. ensure_packet_limit max_size t (frames s p @ rest) = Inl e \<and> err_kind e = InvalidData"
proof (induction s p arbitrary: t rule: frames_induct)
  case (last s p)
  then show ?case
    by (subst ensure_packet_limit.simps)
      (simp add: frames_short checked_add_def limit_overflow_def limit_exceeded_def Let_def)
next
  case (more s c q)
  show ?case
  proof (cases "t + length c \<le> usize_max \<and> t + length c \<le> max_size")
    case True
    then have "\<exists>e. ensure_packet_limit max_size (t + length c) (frames (s + 1) q @ rest) = Inl e \<and>
        err_kind e = InvalidData"
      using more by (intro more.IH) simp_all
    with True more show ?thesis
      by (subst ensure_packet_limit.simps) (simp add: frames_more checked_add_def saturating_small Let_def)
  next
    case False
    with more show ?thesis
      by (subst ensure_packet_limit.simps)
        (auto simp: frames_more checked_add_def limit_overflow_def limit_exceeded_def Let_def)
  qed
qed

subsection \<open>Only well-formed frames are accepted\<close>

lemma frame_split:
  assumes "4 \<le> length i" and "4 + u24_at i \<le> length i"
  shows "i = frame (i ! 3) (take (u24_at i) (drop 4 i)) @ drop (4 + u24_at i) i"
proof -
  obtain a b c d r where i: "i = a # b # c # d # r"
    using assms(1) by (auto simp: Suc_le_length_iff numeral_eq_Suc)
  have u: "u24_at i = of_le [a, b, c]" by (simp add: u24_at_of_le i)
  have "le_bytes 3 (u24_at i) = [a, b, c]"
    using le_bytes_of_le [of "[a, b, c]"] by (simp only: u) (simp add: numeral_3_eq_3)
  moreover have "length (take (u24_at i) r) = u24_at i" using assms(2) by (simp add: i)
  moreover have "drop (4 + u24_at i) i = drop (u24_at i) r"
  proof -
    have "drop (4 + u24_at i) i = drop (u24_at i) (drop 4 i)" by (simp only: drop_drop add.commute)
    then show ?thesis by (simp add: i)
  qed
  ultimately show ?thesis by (simp add: frame_def i)
qed

lemma probe_sound:
  "probe i t prev = Inr n \<Longrightarrow>
     \<exists>s p rest. i = frames s p @ rest \<and> n = t + length p \<and> n \<le> usize_max \<and> \<not> out_of_sequence prev s"
proof (induction i t prev arbitrary: n rule: probe.induct)
  case (1 i t prev)
  define u s where "u = u24_at i" and "s = i ! 3"
  from "1.prems" have 4: "\<not> length i < 4" by (auto simp: probe.simps [of i])
  then have u: "u \<le> U24_MAX" using u24_at_bound by (simp add: u_def)
  from "1.prems" 4 have sq: "\<not> out_of_sequence prev s"
    by (auto simp: probe.simps [of i] s_def Let_def)
  from "1.prems" 4 sq have total: "\<not> length i < saturating_add 4 u"
    by (auto simp: probe.simps [of i] s_def u_def Let_def)
  with u have len: "4 + u \<le> length i" by (simp add: saturating_small)
  from "1.prems" 4 sq total have fits: "t + u \<le> usize_max"
    by (auto simp: probe.simps [of i] s_def u_def Let_def checked_add_def split: if_splits)
  define c rest where "c = take u (drop 4 i)" and "rest = drop (4 + u) i"
  have i: "i = frame s c @ rest"
    using frame_split [of i] 4 len by (simp add: u_def s_def c_def rest_def)
  have c: "length c = u" using len by (simp add: c_def)
  show ?case
  proof (cases "u < U24_MAX")
    case True
    have "probe i t prev = Inr (t + u)" using probe_frame [of c prev s t rest] i c u sq fits True by simp
    with "1.prems" True sq fits i c show ?thesis
      by (intro exI [of _ s] exI [of _ c] exI [of _ rest]) (simp add: frames_short)
  next
    case False
    with u have full: "u = U24_MAX" by simp
    have "probe i t prev = probe rest (t + u) (Some s)"
      using probe_frame [of c prev s t rest] i c u sq fits full by simp
    with "1.prems" have step: "probe rest (t + u) (Some s) = Inr n" by simp
    have "drop (saturating_add 4 u) i = rest" using u by (simp add: rest_def saturating_small)
    moreover have "\<exists>s' p rest'. drop (saturating_add 4 u) i = frames s' p @ rest' \<and>
        n = t + u + length p \<and> n \<le> usize_max \<and> \<not> out_of_sequence (Some s) s'"
      using "1.IH" [OF 4 refl refl _ refl, folded u_def s_def, OF sq total _ False, of "t + u" n] fits step
      by (simp add: checked_add_def \<open>drop (saturating_add 4 u) i = rest\<close>)
    ultimately obtain s' p rest' where "rest = frames s' p @ rest'" "n = t + u + length p"
      "n \<le> usize_max" "\<not> out_of_sequence (Some s) s'"
      by auto
    with i c full sq show ?thesis
      by (intro exI [of _ s] exI [of _ "c @ p"] exI [of _ rest'])
        (simp add: frames_more out_of_sequence_def)
  qed
qed

text \<open>\<open>packet\<close> succeeds exactly on the frames of some payload followed by anything.\<close>

lemma packet_iff:
  assumes N: "nom_spec N"
  shows "packet N i = Inr (rest, x) \<longleftrightarrow>
     (\<exists>s p. i = frames s p @ rest \<and> x = parsed s p \<and> (U24_MAX \<le> length p \<longrightarrow> length p \<le> usize_max))"
    (is "?lhs \<longleftrightarrow> ?rhs")
proof
  assume ?rhs
  then obtain s p where sp: "i = frames s p @ rest" "x = parsed s p"
    "U24_MAX \<le> length p \<longrightarrow> length p \<le> usize_max" by blast
  then have "length p \<le> usize_max" by (cases "U24_MAX \<le> length p") (auto simp: U24_MAX_def usize_max_def)
  with sp show ?lhs by (simp add: packet_frames [OF N])
next
  assume lhs: ?lhs
  then have 3: "\<not> length i < 3" by (auto simp: packet_def)
  show ?rhs
  proof (cases "u24_at i < U24_MAX")
    case True
    with lhs 3 have "onepacket N i \<noteq> Inl NomError" by (auto simp: packet_def)
    with onepacket_short [OF N] have len: "4 + u24_at i \<le> length i" by force
    define s c r where "s = i ! 3" and "c = take (u24_at i) (drop 4 i)" and "r = drop (4 + u24_at i) i"
    have i: "i = frame s c @ r" using frame_split [of i] len by (simp add: s_def c_def r_def)
    have c: "length c = u24_at i" using len by (simp add: c_def)
    with True have fr: "frames s c = frame s c" by (simp add: frames_short)
    have "length c \<le> usize_max" using c True by (simp add: U24_MAX_def usize_max_def)
    from packet_frames [OF N this, of s r] have "packet N i = Inr (r, parsed s c)"
      by (simp only: fr i [symmetric])
    with lhs have "r = rest" "parsed s c = x" by simp_all
    moreover have "\<not> U24_MAX \<le> length c" using c True by simp
    moreover have "i = frames s c @ r" using i fr by simp
    ultimately show ?thesis by blast
  next
    case False
    with lhs 3 obtain n where "probe i 0 None = Inr n"
      by (auto simp: packet_def split: sum.splits)
    then obtain s p r where sp: "i = frames s p @ r" "length p \<le> usize_max"
      using probe_sound by fastforce
    then have "packet N i = Inr (r, parsed s p)" by (simp add: packet_frames [OF N])
    with lhs have "r = rest" "parsed s p = x" by simp_all
    with sp show ?thesis by blast
  qed
qed

subsection \<open>The parsing step keeps its contract\<close>

lemma parse_buffered_complete:
  assumes "nom_spec N" and "length p \<le> max_size" and "max_size \<le> usize_max"
  shows "parse_buffered N max_size (frames s p @ rest) = Inr (Some (rest, parsed s p))"
proof -
  have "frames s p @ rest \<noteq> []" using frames_length_ge [of s p] by auto
  moreover have "ensure_packet_limit max_size 0 (frames s p @ rest) = Inr ()"
    by (rule ensure_within [where d = "[]"]) (use assms in simp_all)
  ultimately show ?thesis
    using assms by (simp add: parse_buffered_def packet_frames)
qed

lemma parse_buffered_prefix:
  assumes "nom_spec N" and "length p \<le> max_size" and "max_size \<le> usize_max"
    and "frames s p = i @ d" and "d \<noteq> []"
  shows "parse_buffered N max_size i = Inr None"
proof -
  have "ensure_packet_limit max_size 0 i = Inr ()"
    by (rule ensure_within [where rest = "[]"]) (use assms in simp_all)
  moreover have "packet N i = Inl NomIncomplete \<or> packet N i = Inl NomError"
    by (rule packet_prefix) (use assms in simp_all)
  ultimately show ?thesis by (auto simp: parse_buffered_def)
qed

definition packet_valid :: "'c nom_ops \<Rightarrow> nat \<Rightarrow> u8 \<times> bytes \<Rightarrow> bool" where
  "packet_valid N max_size m \<longleftrightarrow>
     nom_spec N \<and> length (snd m) \<le> max_size \<and> max_size \<le> usize_max"

interpretation frame_reader: message_parser
  "parse_buffered N max_size" "\<lambda>m. frames (fst m) (snd m)" "\<lambda>m. parsed (fst m) (snd m)"
  "packet_valid N max_size"
  for N :: "'c nom_ops" and max_size
proof
  fix m rest
  assume "packet_valid N max_size m"
  then show "parse_buffered N max_size (frames (fst m) (snd m) @ rest) =
      Inr (Some (rest, parsed (fst m) (snd m)))"
    by (simp add: packet_valid_def parse_buffered_complete)
next
  fix m i d
  assume "packet_valid N max_size m" "frames (fst m) (snd m) = i @ d" "d \<noteq> []"
  then show "parse_buffered N max_size i = Inr None"
    by (auto simp: packet_valid_def intro: parse_buffered_prefix)
next
  show "parse_buffered N max_size [] = Inr None" by (simp add: parse_buffered_def)
qed

lemma read_packet_timed:
  "read_packet_with_timeout N t = next_with_timer N (t \<noteq> None)"
  by (cases t) (simp_all add: read_packet_with_timeout_def next_async_def)

lemma read_frames_aux:
  assumes "nom_spec N" and "delivers (t \<noteq> None) (rd_stream rd)"
    and "unread rd = frames s p @ rest"
    and "length p \<le> rd_max_packet_size rd" and "rd_max_packet_size rd \<le> usize_max"
  shows "\<exists>rd'. read_packet_with_timeout N t rd = (Inr (Some (parsed s p)), rd') \<and>
     unread rd' = rest \<and> delivers (t \<noteq> None) (rd_stream rd') \<and>
     rd_max_packet_size rd' = rd_max_packet_size rd"
proof -
  have "packet_valid N (rd_max_packet_size rd) (s, p)" using assms by (simp add: packet_valid_def)
  from frame_reader.read_one [OF this assms(2), of "rd_bytes rd" rest] assms(3)
  obtain bs' es' where "read_loop (parse_buffered N (rd_max_packet_size rd)) (t \<noteq> None)
      (rd_bytes rd) (rd_stream rd) = (Inr (Some (parsed s p)), bs', es')"
    "delivers (t \<noteq> None) es'" "bs' @ stream_bytes es' = rest"
    by (auto simp: unread_def)
  then show ?thesis by (simp add: read_packet_timed next_with_timer_def unread_def)
qed

text \<open>A packet that has been read was there, and nothing else has been consumed.\<close>

lemma parse_buffered_sound:
  assumes "nom_spec N" and ok: "parse_buffered N max_size bs = Inr (Some (rest, x))"
  shows "\<exists>s p. bs = frames s p @ rest \<and> x = parsed s p \<and> length p \<le> max_size"
proof -
  from ok have limit: "ensure_packet_limit max_size 0 bs = Inr ()" and "packet N bs = Inr (rest, x)"
    by (auto simp: parse_buffered_def split: if_splits sum.splits nom_err.splits)
  then obtain s p where sp: "bs = frames s p @ rest" "x = parsed s p"
    by (auto simp: packet_iff [OF assms(1)])
  have "\<not> length p > max_size"
    using ensure_beyond [of max_size 0 p s rest] limit sp by auto
  with sp show ?thesis by (intro exI [of _ s] exI [of _ p]) simp
qed

definition received_wire :: "(u8 \<times> Packet) list \<Rightarrow> bytes" where
  "received_wire ps = concat (map (\<lambda>(sq, p). frames (first_seq p) (packet_bytes p)) ps)"

lemma received_wire_simps [simp]:
  "received_wire [] = []" "received_wire (x # ps) = frames (first_seq (snd x)) (packet_bytes (snd x)) @ received_wire ps"
  "received_wire (ps @ qs) = received_wire ps @ received_wire qs"
  by (simp_all add: received_wire_def split: prod.split)

text \<open>The sequence number that a packet comes with is that of its last frame.\<close>

definition whole :: "u8 \<times> Packet \<Rightarrow> bool" where
  "whole x \<longleftrightarrow> x = parsed (first_seq (snd x)) (packet_bytes (snd x))"

lemma read_loop_sound:
  assumes "\<And>bs rest x. parse bs = Inr (Some (rest, x)) \<Longrightarrow> bs = frames (first_seq (snd x)) (packet_bytes (snd x)) @ rest \<and> whole x"
  shows "read_loop parse timed bs es = (Inr r, bs', es') \<Longrightarrow>
    (case r of None \<Rightarrow> bs @ stream_bytes es = bs' @ stream_bytes es'
     | Some x \<Rightarrow> bs @ stream_bytes es = frames (first_seq (snd x)) (packet_bytes (snd x)) @ bs' @ stream_bytes es' \<and> whole x)"
proof (induction es arbitrary: bs)
  case Nil
  then show ?case using assms by (auto simp: at_eof_def split: sum.splits option.splits if_splits)
next
  case (Cons e es)
  show ?case
  proof (cases "parse bs")
    case (Inl err)
    with Cons.prems show ?thesis by simp
  next
    case (Inr found)
    show ?thesis
    proof (cases found)
      case (Some y)
      with Cons.prems Inr assms [of bs "fst y" "snd y"] show ?thesis by (cases y) auto
    next
      case None
      note go = Cons.prems [unfolded read_loop.simps Inr None, simplified]
      show ?thesis
      proof (cases e)
        case (RData d)
        with go Cons.IH [of "bs @ d"] show ?thesis by (cases r) (auto simp: at_eof_def split: if_splits)
      next
        case (RFail err)
        with go show ?thesis by simp
      next
        case RStall
        with go Cons.IH [of bs] show ?thesis by (cases r) (auto split: if_splits)
      qed
    qed
  qed
qed

lemma read_sound:
  assumes "nom_spec N" and "read_packet_with_timeout N t rd = (Inr r, rd')"
  shows "unread rd = received_wire (case r of None \<Rightarrow> [] | Some x \<Rightarrow> [x]) @ unread rd'"
    "\<And>x. r = Some x \<Longrightarrow> whole x"
proof -
  obtain bs' es' where loop: "read_loop (parse_buffered N (rd_max_packet_size rd)) (t \<noteq> None) (rd_bytes rd) (rd_stream rd) = (Inr r, bs', es')"
    and rd': "rd' = rd\<lparr>rd_bytes := bs', rd_stream := es'\<rparr>"
    using assms(2) by (auto simp: read_packet_timed next_with_timer_def split: prod.splits)
  have "bs = frames (first_seq (snd x)) (packet_bytes (snd x)) @ rest \<and> whole x"
    if "parse_buffered N (rd_max_packet_size rd) bs = Inr (Some (rest, x))" for bs rest x
    using parse_buffered_sound [OF assms(1) that] by (auto simp: parsed_def whole_def)
  from read_loop_sound [OF this loop] show "unread rd = received_wire (case r of None \<Rightarrow> [] | Some x \<Rightarrow> [x]) @ unread rd'"
    "\<And>x. r = Some x \<Longrightarrow> whole x"
    by (auto simp: unread_def rd' split: option.splits)
qed

subsection \<open>Properties of the frame layer\<close>

text \<open>C10: a reader accepts, in any fragmentation of the stream (and with or without a read
  timer that does not fire), exactly the payload that was framed, with its first and last
  sequence numbers, and leaves precisely the bytes behind it unread.\<close>

theorem read_frames:
  assumes "nom_spec N" and "delivers (t \<noteq> None) (rd_stream rd)"
    and "unread rd = frames s p @ rest"
    and "length p \<le> rd_max_packet_size rd" and "rd_max_packet_size rd \<le> usize_max"
  shows "\<exists>rd'. read_packet_with_timeout N t rd = (Inr (Some (parsed s p)), rd') \<and>
     unread rd' = rest \<and> delivers (t \<noteq> None) (rd_stream rd') \<and>
     rd_max_packet_size rd' = rd_max_packet_size rd"
  by (rule read_frames_aux [OF assms])

theorem read_frames_witness:
  "\<exists>rd'. read_packet_with_timeout nom_ref None
       \<lparr>rd_bytes = [2], rd_stream = [RData [0], RStall, RData [0, 7, 0xAA], RData [0xBB, 9]],
        rd_max_packet_size = 2\<rparr> = (Inr (Some (parsed 7 [0xAA, 0xBB])), rd') \<and>
     unread rd' = [9] \<and> delivers False (rd_stream rd') \<and> rd_max_packet_size rd' = 2"
  using read_frames [where N = nom_ref and t = None and s = 7 and p = "[0xAA, 0xBB]" and rest = "[9]"
      and rd = "\<lparr>rd_bytes = [2], rd_stream = [RData [0], RStall, RData [0, 7, 0xAA], RData [0xBB, 9]],
        rd_max_packet_size = 2\<rparr>"]
  by (simp add: unread_def frames_short U24_MAX_def frame_def numeral_3_eq_3 usize_max_def)

text \<open>C23: the parsing step of the reader yields a packet exactly when the buffer starts with
  correctly numbered frames of a payload within the limit; it never yields anything else,
  whatever bytes the peer sends.\<close>

theorem parse_buffered_exact:
  assumes "nom_spec N" and "max_size \<le> usize_max"
  shows "parse_buffered N max_size bs = Inr (Some (rest, x)) \<longleftrightarrow>
     (\<exists>s p. bs = frames s p @ rest \<and> x = parsed s p \<and> length p \<le> max_size)"
proof
  assume "\<exists>s p. bs = frames s p @ rest \<and> x = parsed s p \<and> length p \<le> max_size"
  then show "parse_buffered N max_size bs = Inr (Some (rest, x))"
    using parse_buffered_complete [OF assms(1) _ assms(2)] by blast
next
  assume "parse_buffered N max_size bs = Inr (Some (rest, x))"
  then show "\<exists>s p. bs = frames s p @ rest \<and> x = parsed s p \<and> length p \<le> max_size"
    by (rule parse_buffered_sound [OF assms(1)])
qed

theorem parse_buffered_exact_witness:
  "parse_buffered nom_ref 5 [1, 0, 0, 3, 0xAA, 7] = Inr (Some ([7], parsed 3 [0xAA])) \<longleftrightarrow>
     (\<exists>s p. [1, 0, 0, 3, 0xAA, 7] = frames s p @ [7] \<and> parsed 3 [0xAA] = parsed s p \<and> length p \<le> 5)"
  by (rule parse_buffered_exact) (simp_all add: usize_max_def)

text \<open>C29: a packet whose payload exceeds the limit is refused with InvalidData, and a single
  frame already when its three length bytes have arrived.\<close>

theorem oversized_packet_rejected:
  assumes "length p > max_size"
  shows "(\<exists>e. parse_buffered N max_size (frames s p @ rest) = Inl e \<and> err_kind e = InvalidData) \<and>
     (length p \<le> U24_MAX \<longrightarrow>
       (\<exists>e. parse_buffered N max_size (le_bytes 3 (length p)) = Inl e \<and> err_kind e = InvalidData))"
proof
  have "frames s p @ rest \<noteq> []" using frames_length_ge [of s p] by auto
  then show "\<exists>e. parse_buffered N max_size (frames s p @ rest) = Inl e \<and> err_kind e = InvalidData"
    using ensure_beyond [of max_size 0 p s rest] assms by (auto simp: parse_buffered_def)
  show "length p \<le> U24_MAX \<longrightarrow>
     (\<exists>e. parse_buffered N max_size (le_bytes 3 (length p)) = Inl e \<and> err_kind e = InvalidData)"
  proof
    assume len: "length p \<le> U24_MAX"
    then have "u24_at (le_bytes 3 (length p)) = length p"
      by (simp add: u24_at_of_le of_le_le_bytes U24_MAX_def)
    with assms len have "ensure_packet_limit max_size 0 (le_bytes 3 (length p)) =
        Inl (limit_exceeded (length p) max_size)"
      by (subst ensure_packet_limit.simps) (simp add: checked_add_def U24_MAX_def usize_max_def)
    moreover have "le_bytes 3 (length p) \<noteq> []" by (simp add: numeral_3_eq_3)
    ultimately show "\<exists>e. parse_buffered N max_size (le_bytes 3 (length p)) = Inl e \<and>
        err_kind e = InvalidData"
      by (simp add: parse_buffered_def limit_exceeded_def)
  qed
qed

theorem oversized_packet_rejected_witness:
  "\<exists>e. parse_buffered (nom_ref :: unit nom_ops) 1 (le_bytes 3 2) = Inl e \<and> err_kind e = InvalidData"
  using oversized_packet_rejected [of 1 "[1, 2]" "nom_ref :: unit nom_ops" 0 "[]"]
  by (simp add: U24_MAX_def numeral_2_eq_2)

text \<open>C30: a stream that ends inside a packet is reported as an unexpected end of file, never
  as a packet and never as a clean end.\<close>

theorem truncated_stream_is_eof_error:
  assumes "nom_spec N" and "delivers (t \<noteq> None) (rd_stream rd)"
    and "frames s p = unread rd @ d" and "d \<noteq> []" and "unread rd \<noteq> []"
    and "length p \<le> rd_max_packet_size rd" and "rd_max_packet_size rd \<le> usize_max"
  shows "\<exists>e. fst (read_packet_with_timeout N t rd) = Inl e \<and> err_kind e = UnexpectedEof"
proof -
  have "packet_valid N (rd_max_packet_size rd) (s, p)" using assms by (simp add: packet_valid_def)
  from frame_reader.read_truncated [OF this assms(2), of "rd_bytes rd" d] assms(3,4)
  obtain bs' es' where "read_loop (parse_buffered N (rd_max_packet_size rd)) (t \<noteq> None)
      (rd_bytes rd) (rd_stream rd) = (at_eof (unread rd), bs', es')"
    by (auto simp: unread_def)
  with assms(5) show ?thesis
    by (simp add: read_packet_timed next_with_timer_def at_eof_def)
qed

theorem truncated_stream_is_eof_error_witness:
  "\<exists>e. fst (read_packet_with_timeout nom_ref (Some 5)
       \<lparr>rd_bytes = [], rd_stream = [RData [1, 0], RData [0, 0]], rd_max_packet_size = 9\<rparr>) = Inl e \<and>
     err_kind e = UnexpectedEof"
  by (rule truncated_stream_is_eof_error [where s = 0 and p = "[0x2A]" and d = "[0x2A]"])
    (simp_all add: unread_def frames_short U24_MAX_def frame_def numeral_3_eq_3 usize_max_def)

text \<open>Successive packets are read back in order from any fragmentation of their
  concatenated frames.\<close>

theorem packets_read_in_order:
  assumes "nom_spec N" and "delivers timed es" and "max_size \<le> usize_max"
    and "\<forall>(s, p) \<in> set ms. length p \<le> max_size"
    and "bs @ stream_bytes es = concat (map (\<lambda>(s, p). frames s p) ms) @ rest"
  shows "\<exists>bs' es'. read_messages (parse_buffered N max_size) timed (length ms) bs es =
     (Inr (map (\<lambda>(s, p). parsed s p) ms), bs', es') \<and> bs' @ stream_bytes es' = rest"
proof -
  have "list_all (packet_valid N max_size) ms"
    using assms(1,3,4) by (auto simp: packet_valid_def list_all_iff)
  from frame_reader.read_many [OF this assms(2), of bs rest] assms(5) show ?thesis
    by (auto simp: case_prod_unfold)
qed

theorem packets_read_in_order_witness:
  "\<exists>bs' es'. read_messages (parse_buffered nom_ref 9) False
       (length [(0, [0x01]), (0 :: u8, [0x0E :: u8])]) [] [RData [1, 0, 0, 0, 1, 1, 0], RData [0, 0, 0x0E]] =
     (Inr (map (\<lambda>(s, p). parsed s p) [(0, [0x01]), (0, [0x0E])]), bs', es') \<and> bs' @ stream_bytes es' = []"
proof (rule packets_read_in_order)
  show "nom_spec nom_ref" by simp
  show "delivers False [RData [1, 0, 0, 0, 1, 1, 0], RData [0, 0, 0x0E]]" by simp
  show "(9 :: nat) \<le> usize_max" by (simp add: usize_max_def)
  show "\<forall>(s, p) \<in> set [(0, [0x01]), (0 :: u8, [0x0E :: u8])]. length p \<le> 9" by simp
  show "[] @ stream_bytes [RData [1, 0, 0, 0, 1, 1, 0], RData [0, 0, 0x0E]] =
      concat (map (\<lambda>(s, p). frames s p) [(0, [0x01]), (0, [0x0E])]) @ []"
    by (simp add: frames_short U24_MAX_def frame_def numeral_3_eq_3)
qed

text \<open>Handing a reader over as the transport of another one (from handshake to command
  phase, or to TLS) neither loses, repeats nor reorders a byte, and never reports an end of
  stream while bytes are buffered.\<close>

theorem poll_read_hands_over:
  assumes "poll_read remaining rd = (ev, rd')" and "0 < remaining"
  shows "(case ev of None \<Rightarrow> unread rd = [] \<and> rd' = rd | Some e \<Rightarrow> rd_data e @ unread rd' = unread rd) \<and>
     (rd_bytes rd \<noteq> [] \<longrightarrow> (\<exists>d. ev = Some (RData d) \<and> d \<noteq> [])) \<and>
     stream_bytes (reader_stream rd) = unread rd"
proof (cases "rd_bytes rd = []")
  case True
  with assms(1) show ?thesis
    by (auto simp: poll_read_def unread_def reader_stream_def split: list.splits rd_event.splits)
next
  case False
  define k where "k = min remaining (length (rd_bytes rd))"
  have "0 < k" using False assms(2) by (simp add: k_def)
  have ev: "ev = Some (RData (take k (rd_bytes rd)))" "rd' = rd\<lparr>rd_bytes := drop k (rd_bytes rd)\<rparr>"
    using assms(1) False by (simp_all add: poll_read_def k_def Let_def)
  then have "rd_data (RData (take k (rd_bytes rd))) @ unread rd' = unread rd"
    by (simp add: unread_def)
  moreover have "take k (rd_bytes rd) \<noteq> []" using False \<open>0 < k\<close> by simp
  moreover have "stream_bytes (reader_stream rd) = unread rd"
    using False by (simp add: reader_stream_def unread_def)
  ultimately show ?thesis using ev by simp
qed

theorem poll_read_hands_over_witness:
  "rd_data (RData [5]) @ unread \<lparr>rd_bytes = [6], rd_stream = [], rd_max_packet_size = 0\<rparr> =
     unread \<lparr>rd_bytes = [5, 6], rd_stream = [], rd_max_packet_size = 0\<rparr>"
  using poll_read_hands_over [of 1 "\<lparr>rd_bytes = [5, 6], rd_stream = [], rd_max_packet_size = 0\<rparr>"
      "Some (RData [5])" "\<lparr>rd_bytes = [6], rd_stream = [], rd_max_packet_size = 0\<rparr>"]
  by (simp add: poll_read_def)

text \<open>What the writer sends for a packet is what the reader hands to the server's peer:
  the bytes put on the wire by a successful send, delivered in any pieces, are read back as
  the payload that was built, numbered as the writer numbered it, with nothing left over.\<close>

theorem wire_roundtrip:
  assumes "byteorder_spec B" and "nom_spec N"
    and "end_packet B w = (Inr (), w')" and "wire w' = wire w @ unread rd"
    and "buffer (packet_builder w) \<noteq> []"
    and "length (buffer (packet_builder w)) \<le> max_packet_size (packet_builder w)"
    and "delivers (t \<noteq> None) (rd_stream rd)"
    and "length (buffer (packet_builder w)) \<le> rd_max_packet_size rd"
    and "rd_max_packet_size rd \<le> usize_max"
  shows "\<exists>rd'. read_packet_with_timeout N t rd =
      (Inr (Some (seq (packet_builder w') - 1,
         \<lparr>packet_bytes = buffer (packet_builder w), first_seq = seq (packet_builder w)\<rparr>)), rd') \<and>
     unread rd' = []"
proof -
  let ?s = "seq (packet_builder w)" and ?p = "buffer (packet_builder w)"
  note out = end_packet_outcome [OF assms(1,3,5,6)]
  have "unread rd = frames ?s ?p" using out(1) assms(4) by (simp add: sends_done)
  then have "unread rd = frames ?s ?p @ []" by simp
  from read_frames_aux [OF assms(2,7) this assms(8,9)]
  obtain rd' where "read_packet_with_timeout N t rd = (Inr (Some (parsed ?s ?p)), rd')"
    "unread rd' = []" by blast
  moreover have "parsed ?s ?p =
      (seq (packet_builder w') - 1, \<lparr>packet_bytes = ?p, first_seq = ?s\<rparr>)"
    using out(6) by (simp add: parsed_def frame_count_def)
  ultimately show ?thesis by auto
qed

definition pong_writer :: PacketWriter where
  "pong_writer = \<lparr>packet_builder = \<lparr>buffer = [14], seq = 255, max_packet_size = 9\<rparr>,
     output_stream = \<lparr>written = [7], flushes = 0, flushed = 0, write_script = [WAccept 2], flush_script = []\<rparr>,
     flush_threshold = 0, write_timeout = None\<rparr>"

definition pong_reader :: PacketReader where
  "pong_reader = \<lparr>rd_bytes = [], rd_stream = [RData [1, 0, 0], RData [255, 14]],
     rd_max_packet_size = 9\<rparr>"

lemma pong_sent:
  "end_packet byteorder_ref pong_writer = (Inr (), snd (end_packet byteorder_ref pong_writer)) \<and>
     wire (snd (end_packet byteorder_ref pong_writer)) = wire pong_writer @ unread pong_reader"
  by (simp add: pong_writer_def pong_reader_def unread_def end_packet_unfold
      write_packet_def builder_is_empty_def writer_max_packet_size_def chunks.simps U24_MAX_def
      then_io_def and_then_def write_chunk_def write_chunk_loop.simps write_vectored_def
      byteorder_ref_def increase_seq_def numeral_3_eq_3)

theorem wire_roundtrip_witness:
  "\<exists>rd'. read_packet_with_timeout nom_ref None pong_reader =
      (Inr (Some (seq (packet_builder (snd (end_packet byteorder_ref pong_writer))) - 1,
         \<lparr>packet_bytes = [14], first_seq = 255\<rparr>)), rd') \<and> unread rd' = []"
  using wire_roundtrip [OF byteorder_ref_spec nom_ref_spec
      conjunct1 [OF pong_sent] conjunct2 [OF pong_sent], where t = None]
  by (simp add: pong_writer_def pong_reader_def usize_max_def)

end
