(* ===== verification/Commands.thy ===== *)
theory Commands
  imports Protocol
begin

text \<open>
  \<open>commands.rs\<close>: the client's handshake response and the commands of the command phase.
  The combinators \<open>preceded\<close>, \<open>pair\<close> and \<open>map\<close> of \<open>nom\<close> are written out as the sequencing
  \<open>p_bind\<close> they stand for; the primitive parsers, \<open>alt\<close> and \<open>all_consuming\<close> are those of the
  parameter \<open>N\<close>.
\<close>

subsection \<open>The handshake response\<close>

record ClientHandshake =
  server_scramble :: "bytes option"
  maxps :: u32
  capabilities :: u32
  hs_collation :: u16
  db :: "bytes option"
  username :: "bytes option"
  auth_response :: bytes
  auth_plugin :: bytes

definition from_bits_truncate :: "myc_ops \<Rightarrow> u32 \<Rightarrow> u32" where
  "from_bits_truncate M bits = bits AND all_caps M"

definition has_cap :: "myc_ops \<Rightarrow> u32 \<Rightarrow> capability \<Rightarrow> bool" where
  "has_cap M caps c \<longleftrightarrow> contains caps (cap_bits M c)"

text \<open>\<open>take_until(b"\0")\<close> and then \<open>tag(b"\0")\<close>.\<close>

definition null_terminated :: "'c nom_ops \<Rightarrow> bytes \<Rightarrow> bytes iresult" where
  "null_terminated N i =
     p_bind (nom_take_until N [0] i) (\<lambda>i s. p_bind (nom_tag N [0] i) (\<lambda>i _. Inr (i, s)))"

definition read_length_encoded_number :: "'c nom_ops \<Rightarrow> bytes \<Rightarrow> u64 iresult" where
  "read_length_encoded_number N i =
     p_bind (nom_le_u8 N i) (\<lambda>i b.
       if b = 0xfb \<or> b = 0xff then Inl NomError
       else if b = 0xfc \<or> b = 0xfd \<or> b = 0xfe then
         let size = (if b = 0xfc then 2 else if b = 0xfd then 3 else 8) in
         p_bind (nom_take N size i) (\<lambda>i bs.
           Inr (i, word_of_nat (of_le (bs @ replicate (8 - size) 0))))
       else Inr (i, ucast b))"

definition read_auth_response :: "myc_ops \<Rightarrow> 'c nom_ops \<Rightarrow> u32 \<Rightarrow> bytes \<Rightarrow> bytes iresult" where
  "read_auth_response M N caps i =
     (if has_cap M caps CLIENT_PLUGIN_AUTH_LENENC_CLIENT_DATA then
        p_bind (read_length_encoded_number N i) (\<lambda>i size.
          if unat size > usize_max then Inl NomError else nom_take N (unat size) i)
      else if has_cap M caps CLIENT_SECURE_CONNECTION then
        p_bind (nom_le_u8 N i) (\<lambda>i size. nom_take N (unat size) i)
      else null_terminated N i)"

definition handshake_response_41 ::
    "myc_ops \<Rightarrow> 'c nom_ops \<Rightarrow> bool \<Rightarrow> u16 \<Rightarrow> bytes \<Rightarrow> ClientHandshake iresult" where
  "handshake_response_41 M N after_tls cap i =
     p_bind (nom_le_u16 N i) (\<lambda>i cap2.
     let caps = from_bits_truncate M (push_bit 16 (ucast cap2) OR ucast cap) in
     p_bind (nom_le_u32 N i) (\<lambda>i maxps.
     p_bind (nom_take N 1 i) (\<lambda>i collation.
     p_bind (nom_take N 23 i) (\<lambda>i _.
     if \<not> after_tls \<and> has_cap M caps CLIENT_SSL then
       Inr (i, \<lparr>server_scramble = None, maxps = maxps, capabilities = caps,
         hs_collation = ucast (collation ! 0), db = None, username = None,
         auth_response = [], auth_plugin = []\<rparr>)
     else
       p_bind (if after_tls \<or> \<not> has_cap M caps CLIENT_SSL
               then p_bind (null_terminated N i) (\<lambda>i user. Inr (i, Some user))
               else Inr (i, None)) (\<lambda>i username.
       p_bind (read_auth_response M N caps i) (\<lambda>i auth_response.
       p_bind (if has_cap M caps CLIENT_CONNECT_WITH_DB
               then p_bind (null_terminated N i) (\<lambda>i db. Inr (i, Some db))
               else Inr (i, None)) (\<lambda>i db.
       p_bind (if has_cap M caps CLIENT_PLUGIN_AUTH then null_terminated N i else Inr (i, []))
         (\<lambda>i auth_plugin.
       Inr (i, \<lparr>server_scramble = None, maxps = maxps, capabilities = caps,
         hs_collation = ucast (collation ! 0), db = db, username = username,
         auth_response = auth_response, auth_plugin = auth_plugin\<rparr>)))))))))"

definition handshake_response_320 ::
    "myc_ops \<Rightarrow> 'c nom_ops \<Rightarrow> u32 \<Rightarrow> bytes \<Rightarrow> ClientHandshake iresult" where
  "handshake_response_320 M N caps i =
     p_bind (nom_le_u16 N i) (\<lambda>i maxps1.
     p_bind (nom_le_u8 N i) (\<lambda>i maxps2.
     p_bind (null_terminated N i) (\<lambda>i username.
     p_bind (if has_cap M caps CLIENT_CONNECT_WITH_DB then
               p_bind (null_terminated N i) (\<lambda>i auth.
               p_bind (null_terminated N i) (\<lambda>i db. Inr (i, (auth, Some db))))
             else Inr ([], (i, None))) (\<lambda>i (auth, db).
     Inr (i, \<lparr>server_scramble = None, maxps = push_bit 16 (ucast maxps2) OR ucast maxps1,
       capabilities = caps, hs_collation = 0, db = db, username = Some username,
       auth_response = auth, auth_plugin = []\<rparr>)))))"

definition client_handshake ::
    "myc_ops \<Rightarrow> 'c nom_ops \<Rightarrow> bool \<Rightarrow> bytes \<Rightarrow> ClientHandshake iresult" where
  "client_handshake M N after_tls i =
     p_bind (nom_le_u16 N i) (\<lambda>i cap.
     let caps = from_bits_truncate M (ucast cap) in
     if has_cap M caps CLIENT_PROTOCOL_41 then handshake_response_41 M N after_tls cap i
     else handshake_response_320 M N caps i)"

subsection \<open>Commands\<close>

datatype Command =
    Query bytes | ListFields bytes | Close u32 | Reset u32
  | Fetch (fetch_stmt: u32) (fetch_rows: u32)
  | Prepare bytes | Init bytes
  | Execute (exec_stmt: u32) (exec_flags: u8) (iteration_count: u32) (exec_params: bytes)
  | SendLongData (long_stmt: u32) (long_param: u16) (long_bytes: bytes)
  | Ping | ResetConnection | Quit

definition execute :: "'c nom_ops \<Rightarrow> bytes \<Rightarrow> Command iresult" where
  "execute N i =
     p_bind (nom_le_u32 N i) (\<lambda>i stmt.
     p_bind (nom_le_u8 N i) (\<lambda>i flags.
     p_bind (nom_le_u32 N i) (\<lambda>i iteration_count.
     Inr ([], Execute stmt flags iteration_count i))))"

definition send_long_data :: "'c nom_ops \<Rightarrow> bytes \<Rightarrow> Command iresult" where
  "send_long_data N i =
     p_bind (nom_le_u32 N i) (\<lambda>i stmt.
     p_bind (nom_le_u16 N i) (\<lambda>i param. Inr ([], SendLongData stmt param i)))"

text \<open>\<open>preceded(tag(&[command]), p)\<close>.\<close>

definition tagged :: "myc_ops \<Rightarrow> 'c nom_ops \<Rightarrow> command_byte \<Rightarrow> (bytes \<Rightarrow> 'a iresult) \<Rightarrow>
    bytes \<Rightarrow> 'a iresult" where
  "tagged M N c p i = p_bind (nom_tag N [command_u8 M c] i) (\<lambda>i _. p i)"

definition command_parsers :: "myc_ops \<Rightarrow> Command nom_ops \<Rightarrow> (bytes \<Rightarrow> Command iresult) list" where
  "command_parsers M N =
     [tagged M N COM_QUERY (\<lambda>i. p_bind (nom_rest N i) (\<lambda>i q. Inr (i, Query q))),
      tagged M N COM_FIELD_LIST (\<lambda>i. p_bind (nom_rest N i) (\<lambda>i q. Inr (i, ListFields q))),
      tagged M N COM_INIT_DB (\<lambda>i. p_bind (nom_rest N i) (\<lambda>i q. Inr (i, Init q))),
      tagged M N COM_STMT_PREPARE (\<lambda>i. p_bind (nom_rest N i) (\<lambda>i q. Inr (i, Prepare q))),
      tagged M N COM_STMT_EXECUTE (execute N),
      tagged M N COM_STMT_FETCH (\<lambda>i. p_bind (nom_le_u32 N i) (\<lambda>i stmt.
         p_bind (nom_le_u32 N i) (\<lambda>i rows. Inr (i, Fetch stmt rows)))),
      tagged M N COM_STMT_SEND_LONG_DATA (send_long_data N),
      tagged M N COM_STMT_CLOSE (\<lambda>i. p_bind (nom_le_u32 N i) (\<lambda>i stmt. Inr (i, Close stmt))),
      tagged M N COM_STMT_RESET (\<lambda>i. p_bind (nom_le_u32 N i) (\<lambda>i stmt. Inr (i, Reset stmt))),
      tagged M N COM_QUIT (\<lambda>i. Inr (i, Quit)),
      tagged M N COM_PING (\<lambda>i. Inr (i, Ping)),
      tagged M N COM_RESET_CONNECTION (\<lambda>i. Inr (i, ResetConnection))]"

definition parse :: "myc_ops \<Rightarrow> Command nom_ops \<Rightarrow> bytes \<Rightarrow> Command iresult" where
  "parse M N i = nom_all_consuming N (nom_alt N (command_parsers M N)) i"

subsection \<open>What a client sends\<close>

fun command_bytes :: "myc_ops \<Rightarrow> Command \<Rightarrow> bytes" where
  "command_bytes M (Query q) = command_u8 M COM_QUERY # q"
| "command_bytes M (ListFields q) = command_u8 M COM_FIELD_LIST # q"
| "command_bytes M (Close stmt) = command_u8 M COM_STMT_CLOSE # le32 stmt"
| "command_bytes M (Reset stmt) = command_u8 M COM_STMT_RESET # le32 stmt"
| "command_bytes M (Fetch stmt rows) = command_u8 M COM_STMT_FETCH # le32 stmt @ le32 rows"
| "command_bytes M (Prepare q) = command_u8 M COM_STMT_PREPARE # q"
| "command_bytes M (Init q) = command_u8 M COM_INIT_DB # q"
| "command_bytes M (Execute stmt flags n params) =
     command_u8 M COM_STMT_EXECUTE # le32 stmt @ flags # le32 n @ params"
| "command_bytes M (SendLongData stmt param data) =
     command_u8 M COM_STMT_SEND_LONG_DATA # le32 stmt @ le16 param @ data"
| "command_bytes M Ping = [command_u8 M COM_PING]"
| "command_bytes M ResetConnection = [command_u8 M COM_RESET_CONNECTION]"
| "command_bytes M Quit = [command_u8 M COM_QUIT]"

subsection \<open>Parsers and what they consume\<close>

lemma ref_le_16 [simp]: "ref_le 2 (le16 w @ i) = Inr (i, w)"
  by (simp add: ref_le_append)

lemma ref_le_32 [simp]: "ref_le 4 (le32 w @ i) = Inr (i, w)"
  by (simp add: ref_le_append)

lemma ref_le_end [simp]: "ref_le 2 (le16 w) = Inr ([], w)" "ref_le 4 (le32 v) = Inr ([], v)"
  using ref_le_16 [of w "[]"] ref_le_32 [of v "[]"] by simp_all

lemma ref_le_8 [simp]: "ref_le (Suc 0) (b # i) = Inr (i, b)"
  by (simp add: ref_le_def)

lemma word_le_bytes:
  "length b = 2 \<Longrightarrow> le16 (word_of_nat (of_le b)) = b"
  "length c = 4 \<Longrightarrow> le32 (word_of_nat (of_le c)) = c"
proof -
  assume "length b = 2"
  with of_le_bound [of b] have "of_le b < 65536" by simp
  with le_bytes_of_le [of b] \<open>length b = 2\<close> show "le16 (word_of_nat (of_le b)) = b"
    by (simp add: le16_def unat_of_nat)
next
  assume "length c = 4"
  with of_le_bound [of c] have "of_le c < 4294967296" by simp
  with le_bytes_of_le [of c] \<open>length c = 4\<close> show "le32 (word_of_nat (of_le c)) = c"
    by (simp add: le32_def unat_of_nat)
qed

lemma ref_le_eq_Inr:
  "ref_le 2 i = Inr (r, a) \<longleftrightarrow> i = le16 a @ r"
  "ref_le 4 i = Inr (r, b) \<longleftrightarrow> i = le32 b @ r"
  "ref_le (Suc 0) i = Inr (r, c) \<longleftrightarrow> i = c # r"
proof -
  show "ref_le 2 i = Inr (r, a) \<longleftrightarrow> i = le16 a @ r"
    using append_take_drop_id [of 2 i] word_le_bytes(1) [of "take 2 i"]
    by (auto simp: ref_le_def split: if_splits)
  show "ref_le 4 i = Inr (r, b) \<longleftrightarrow> i = le32 b @ r"
    using append_take_drop_id [of 4 i] word_le_bytes(2) [of "take 4 i"]
    by (auto simp: ref_le_def split: if_splits)
  show "ref_le (Suc 0) i = Inr (r, c) \<longleftrightarrow> i = c # r"
    by (cases i) (auto simp: ref_le_def)
qed

lemma ref_take_8 [simp]: "ref_take (Suc 0) (c # i) = Inr (i, [c])"
  by (simp add: ref_take_def)

lemma ref_tag_single: "ref_tag [c] i = (case i of [] \<Rightarrow> Inl NomError
     | b # r \<Rightarrow> if b = c then Inr (r, [c]) else Inl NomError)"
  by (cases i) (auto simp: ref_tag_def)

lemma tagged_eval:
  assumes "nom_spec N"
  shows "tagged M N c p [] = Inl NomError"
    "tagged M N c p (b # r) = (if b = command_u8 M c then p r else Inl NomError)"
  by (simp_all add: tagged_def nom_specD [OF assms] ref_tag_single)

lemma alt_absorb [simp]: "(case x of Inl NomError \<Rightarrow> Inl NomError | r \<Rightarrow> r) = x"
  by (auto split: sum.splits nom_err.splits)

text \<open>The parser that the tag byte selects.\<close>

definition command_body :: "Command nom_ops \<Rightarrow> command_byte \<Rightarrow> bytes \<Rightarrow> Command iresult" where
  "command_body N c i = (case c of
     COM_QUERY \<Rightarrow> Inr ([], Query i)
   | COM_FIELD_LIST \<Rightarrow> Inr ([], ListFields i)
   | COM_INIT_DB \<Rightarrow> Inr ([], Init i)
   | COM_STMT_PREPARE \<Rightarrow> Inr ([], Prepare i)
   | COM_STMT_EXECUTE \<Rightarrow> execute N i
   | COM_STMT_FETCH \<Rightarrow> p_bind (nom_le_u32 N i) (\<lambda>i stmt. p_bind (nom_le_u32 N i) (\<lambda>i rows.
       Inr (i, Fetch stmt rows)))
   | COM_STMT_SEND_LONG_DATA \<Rightarrow> send_long_data N i
   | COM_STMT_CLOSE \<Rightarrow> p_bind (nom_le_u32 N i) (\<lambda>i stmt. Inr (i, Close stmt))
   | COM_STMT_RESET \<Rightarrow> p_bind (nom_le_u32 N i) (\<lambda>i stmt. Inr (i, Reset stmt))
   | COM_QUIT \<Rightarrow> Inr (i, Quit)
   | COM_PING \<Rightarrow> Inr (i, Ping)
   | COM_RESET_CONNECTION \<Rightarrow> Inr (i, ResetConnection))"

lemma alt_selects:
  assumes "nom_spec N" and "myc_spec M"
  shows "ref_alt (command_parsers M N) (command_u8 M c # i) = command_body N c i"
  using assms
  by (cases c) (simp_all add: command_parsers_def tagged_eval command_body_def nom_specD
      split: sum.split nom_err.split)

lemma alt_rejects:
  assumes "nom_spec N" and "\<And>c. b \<noteq> command_u8 M c"
  shows "ref_alt (command_parsers M N) [] = Inl NomError"
    "ref_alt (command_parsers M N) (b # i) = Inl NomError"
  using assms by (simp_all add: command_parsers_def tagged_eval)

lemma command_body_exact:
  assumes "nom_spec N"
  shows "command_body N k i = Inr ([], c) \<Longrightarrow> command_bytes M c = command_u8 M k # i"
  using assms
  by (cases k) (auto simp: command_body_def execute_def send_long_data_def nom_specD p_bind_eq_Inr
      ref_le_eq_Inr)

lemma command_bytes_body:
  assumes "nom_spec N"
  shows "\<exists>k i. command_bytes M c = command_u8 M k # i \<and> command_body N k i = Inr ([], c)"
proof -
  have "\<exists>i. command_bytes M c = command_u8 M k # i \<and> command_body N k i = Inr ([], c)"
    if "k = (case c of Query q \<Rightarrow> COM_QUERY | ListFields q \<Rightarrow> COM_FIELD_LIST
       | Close s \<Rightarrow> COM_STMT_CLOSE | Reset s \<Rightarrow> COM_STMT_RESET | Fetch s n \<Rightarrow> COM_STMT_FETCH
       | Prepare q \<Rightarrow> COM_STMT_PREPARE | Init q \<Rightarrow> COM_INIT_DB | Execute s f n p \<Rightarrow> COM_STMT_EXECUTE
       | SendLongData s p d \<Rightarrow> COM_STMT_SEND_LONG_DATA | Ping \<Rightarrow> COM_PING
       | ResetConnection \<Rightarrow> COM_RESET_CONNECTION | Quit \<Rightarrow> COM_QUIT)" for k
    using that assms
    by (cases c) (auto simp: command_body_def execute_def send_long_data_def nom_specD)
  then show ?thesis by blast
qed

lemma parse_command_bytes:
  assumes "nom_spec N" and "myc_spec M"
  shows "parse M N (command_bytes M c) = Inr ([], c)"
proof -
  obtain k r where "command_bytes M c = command_u8 M k # r" "command_body N k r = Inr ([], c)"
    using command_bytes_body [OF assms(1)] by blast
  then show ?thesis
    by (simp add: parse_def nom_specD [OF assms(1)] ref_all_consuming_def alt_selects [OF assms])
qed

subsection \<open>Properties of the command parser\<close>

text \<open>C16: the command parser accepts exactly the byte strings that encode a command, whole: it
  returns the command that was encoded, and refuses empty input, unknown commands, truncated
  arguments and trailing bytes.\<close>

theorem parse_exact:
  assumes "nom_spec N" and "myc_spec M"
  shows "parse M N i = Inr (rest, c) \<longleftrightarrow> rest = [] \<and> i = command_bytes M c"
proof
  assume ok: "parse M N i = Inr (rest, c)"
  then have alt: "ref_alt (command_parsers M N) i = Inr ([], c)" and "rest = []"
    by (auto simp: parse_def nom_specD [OF assms(1)] ref_all_consuming_def p_bind_eq_Inr split: if_splits)
  show "rest = [] \<and> i = command_bytes M c"
  proof (cases i)
    case Nil
    with alt show ?thesis by (simp add: command_parsers_def tagged_eval [OF assms(1)])
  next
    case (Cons b r)
    with alt obtain k where "b = command_u8 M k"
      using alt_rejects(2) [OF assms(1)] by fastforce
    with alt Cons \<open>rest = []\<close> show ?thesis
      using command_body_exact [OF assms(1), of k r c M] by (simp add: alt_selects [OF assms])
  qed
next
  assume "rest = [] \<and> i = command_bytes M c"
  then show "parse M N i = Inr (rest, c)" using parse_command_bytes [OF assms] by simp
qed

theorem parse_exact_witness:
  "parse myc_ref nom_ref [0x1C, 1, 0, 0, 0, 9, 0, 0, 0] = Inr ([], Fetch 1 9)"
  by (rule iffD2 [OF parse_exact [OF nom_ref_spec myc_ref_spec]]) code_simp

subsection \<open>What a client's handshake response looks like\<close>

definition null_str :: "bytes \<Rightarrow> bytes" where
  "null_str s = s @ [0]"

text \<open>The authentication data in the encoding the capabilities select.\<close>

definition auth_bytes :: "myc_ops \<Rightarrow> u32 \<Rightarrow> bytes \<Rightarrow> bytes" where
  "auth_bytes M caps auth =
     (if has_cap M caps CLIENT_PLUGIN_AUTH_LENENC_CLIENT_DATA then lenenc_str auth
      else if has_cap M caps CLIENT_SECURE_CONNECTION then word_of_nat (length auth) # auth
      else null_str auth)"

definition auth_fits :: "myc_ops \<Rightarrow> u32 \<Rightarrow> bytes \<Rightarrow> bool" where
  "auth_fits M caps auth \<longleftrightarrow>
     (if has_cap M caps CLIENT_PLUGIN_AUTH_LENENC_CLIENT_DATA then length auth \<le> usize_max
      else if has_cap M caps CLIENT_SECURE_CONNECTION then length auth < 256
      else 0 \<notin> set auth)"

text \<open>The 32 bytes up to the user name, which are also the request to switch to TLS.\<close>

definition ssl_request_bytes :: "u32 \<Rightarrow> u32 \<Rightarrow> u8 \<Rightarrow> bytes \<Rightarrow> bytes" where
  "ssl_request_bytes caps mps coll filler =
     le16 (ucast caps) @ le16 (ucast (drop_bit 16 caps)) @ le32 mps @ [coll] @ filler"

definition credentials_bytes :: "myc_ops \<Rightarrow> u32 \<Rightarrow> bytes \<Rightarrow> bytes \<Rightarrow> bytes \<Rightarrow> bytes \<Rightarrow> bytes" where
  "credentials_bytes M caps user auth dbname plugin =
     null_str user @ auth_bytes M caps auth @
     (if has_cap M caps CLIENT_CONNECT_WITH_DB then null_str dbname else []) @
     (if has_cap M caps CLIENT_PLUGIN_AUTH then null_str plugin else [])"

lemma null_terminated_str:
  "nom_spec N \<Longrightarrow> 0 \<notin> set s \<Longrightarrow> null_terminated N (null_str s @ i) = Inr (i, s)"
  by (simp add: null_terminated_def null_str_def nom_specD ref_take_until_append ref_tag_single)

lemma word_halves: "push_bit 16 (ucast (ucast (drop_bit 16 w) :: u16)) OR ucast (ucast w :: u16) = (w :: u32)"
  by (rule bit_word_eqI) (auto simp: bit_simps)

lemma unat_lt_iff: "w < (numeral n :: u64) \<longleftrightarrow> unat w < unat (numeral n :: u64)"
  by (simp add: word_less_nat_alt)

lemma length_number_int:
  assumes "nom_spec N"
  shows "read_length_encoded_number N (lenenc_int n @ i) = Inr (i, n)"
proof -
  have small: "ucast n \<noteq> (0xfb :: u8) \<and> ucast n \<noteq> (0xfc :: u8) \<and> ucast n \<noteq> (0xfd :: u8) \<and>
      ucast n \<noteq> (0xfe :: u8) \<and> ucast n \<noteq> (0xff :: u8) \<and> ucast (ucast n :: u8) = n" if "n < 251"
  proof -
    have "unat n < 251" using that by (simp add: word_less_nat_alt)
    then have b: "unat (ucast n :: u8) = unat n" by (simp add: unat_ucast_byte)
    have "ucast (ucast n :: u8) = n"
      by (rule iffD2 [OF word_unat_eq_iff]) (use b \<open>unat n < 251\<close> in \<open>simp add: unsigned_ucast_eq take_bit_nat_eq_self_iff unsigned_take_bit_eq\<close>)
    moreover have "ucast n \<noteq> (numeral k :: u8)" if "unat (numeral k :: u8) > 250" for k
      using that b \<open>unat n < 251\<close> by auto
    ultimately show ?thesis by simp
  qed
  have pad: "of_le (bs @ replicate k 0) = of_le bs" for bs k
  proof (induction bs)
    case Nil
    then show ?case by (induction k) simp_all
  qed simp
  have wide: "read_length_encoded_number N (b # le_bytes k (unat n) @ i) = Inr (i, n)"
    if "(b, k) \<in> {(0xFC, 2), (0xFD, 3), (0xFE, 8)}" "unat n < 256 ^ k" for b k
    using that by (auto simp: read_length_encoded_number_def nom_specD [OF assms] ref_take_append pad
        of_le_le_bytes Let_def)
  consider "n < 251" | "\<not> n < 251" "n < 65536" | "\<not> n < 65536" "n < 16777216" | "\<not> n < 16777216"
    by blast
  then show ?thesis
  proof cases
    case 1
    with small show ?thesis
      by (simp add: read_length_encoded_number_def lenenc_int_def nom_specD [OF assms])
  next
    case 2
    then have "unat n < 256 ^ 2" by (simp add: word_less_nat_alt)
    with 2 wide [where b = "0xFC" and k = 2] show ?thesis by (simp add: lenenc_int_def)
  next
    case 3
    then have "\<not> n < 251" "unat n < 256 ^ 3" by (simp_all add: word_less_nat_alt)
    with 3 wide [where b = "0xFD" and k = 3] show ?thesis by (simp add: lenenc_int_def)
  next
    case 4
    then have "\<not> n < 251" "\<not> n < 65536" by (simp_all add: word_less_nat_alt)
    moreover have "unat n < 256 ^ 8" using unsigned_less [of n, where ?'a = nat] by simp
    ultimately show ?thesis using 4 wide [where b = "0xFE" and k = 8] by (simp add: lenenc_int_def)
  qed
qed

lemma lengths_fit: "length (s :: bytes) \<le> usize_max \<Longrightarrow> unat (word_of_nat (length s) :: u64) = length s"
  by (simp add: unat_of_nat usize_max_def)

lemma read_auth_bytes:
  assumes "nom_spec N" and "auth_fits M caps a"
  shows "read_auth_response M N caps (auth_bytes M caps a @ i) = Inr (i, a)"
  using assms(2)
  by (auto simp: read_auth_response_def auth_bytes_def auth_fits_def lenenc_str_def nom_specD [OF assms(1)]
      length_number_int [OF assms(1)] null_terminated_str [OF assms(1)] lengths_fit ref_take_append
      unat_of_nat usize_max_def)

lemma protocol_41_low:
  assumes "myc_spec M" and "has_cap M caps CLIENT_PROTOCOL_41"
  shows "has_cap M (from_bits_truncate M (ucast (ucast caps :: u16))) CLIENT_PROTOCOL_41"
proof -
  let ?c = "cap_bits M CLIENT_PROTOCOL_41"
  have "?c AND 0xFFFF = ?c" "all_caps M AND ?c = ?c" "caps AND ?c = ?c"
    using myc_specD(4,6) [OF assms(1)] assms(2) by (auto simp: contains_def has_cap_def)
  moreover have "ucast (ucast caps :: u16) = caps AND (0xFFFF :: u32)"
  proof -
    have "ucast (ucast caps :: u16) = caps AND mask 16"
      by (rule bit_word_eqI) (auto simp: bit_simps)
    then show ?thesis by (simp add: mask_eq_exp_minus_1)
  qed
  ultimately have "((ucast (ucast caps :: u16)) AND all_caps M) AND ?c = ?c"
    by (simp only: and.assoc) (simp only: and.commute [of _ "0xFFFF"] and.left_commute)
  then show ?thesis by (simp only: contains_def from_bits_truncate_def has_cap_def)
qed

lemma has_cap_truncate:
  "myc_spec M \<Longrightarrow> has_cap M (from_bits_truncate M caps) c = has_cap M caps c"
  using myc_specD(4) [of M c]
  by (auto simp: has_cap_def from_bits_truncate_def contains_def word_bw_assocs)

lemma ssl_request_prefix:
  assumes "nom_spec N" "myc_spec M" "has_cap M caps CLIENT_PROTOCOL_41"
  shows "client_handshake M N after_tls (ssl_request_bytes caps mps coll filler @ i) =
    handshake_response_41 M N after_tls (ucast caps)
      (le16 (ucast (drop_bit 16 caps)) @ le32 mps @ [coll] @ filler @ i)"
  using protocol_41_low [OF assms(2,3)]
  by (simp add: client_handshake_def ssl_request_bytes_def nom_specD [OF assms(1)])

text \<open>After the fixed part the parser is left with these fields.\<close>

lemma handshake_41_header:
  assumes "nom_spec N" "myc_spec M" "has_cap M caps CLIENT_PROTOCOL_41" "length filler = 23"
  shows "client_handshake M N after_tls (ssl_request_bytes caps mps coll filler @ i) =
    (if \<not> after_tls \<and> has_cap M caps CLIENT_SSL then
       Inr (i, \<lparr>server_scramble = None, maxps = mps, capabilities = from_bits_truncate M caps,
         hs_collation = ucast coll, db = None, username = None, auth_response = [], auth_plugin = []\<rparr>)
     else
       p_bind (null_terminated N i) (\<lambda>i user.
       p_bind (read_auth_response M N (from_bits_truncate M caps) i) (\<lambda>i auth.
       p_bind (if has_cap M caps CLIENT_CONNECT_WITH_DB
               then p_bind (null_terminated N i) (\<lambda>i db. Inr (i, Some db))
               else Inr (i, None)) (\<lambda>i dbname.
       p_bind (if has_cap M caps CLIENT_PLUGIN_AUTH then null_terminated N i else Inr (i, []))
         (\<lambda>i plugin.
       Inr (i, \<lparr>server_scramble = None, maxps = mps, capabilities = from_bits_truncate M caps,
         hs_collation = ucast coll, db = dbname, username = Some user, auth_response = auth,
         auth_plugin = plugin\<rparr>))))))"
  unfolding ssl_request_prefix [OF assms(1-3)] handshake_response_41_def
  using assms(4)
  by (simp add: nom_specD [OF assms(1)] ref_take_append word_halves has_cap_truncate [OF assms(2)] Let_def
      p_bind_assoc)

lemma auth_cap_truncate:
  "myc_spec M \<Longrightarrow> auth_bytes M (from_bits_truncate M caps) = auth_bytes M caps"
  "myc_spec M \<Longrightarrow> auth_fits M (from_bits_truncate M caps) = auth_fits M caps"
  by (auto simp: auth_bytes_def auth_fits_def has_cap_truncate fun_eq_iff)

lemma handshake_41_read:
  assumes "nom_spec N" and "myc_spec M" and "has_cap M caps CLIENT_PROTOCOL_41"
    and "length filler = 23" and "after_tls \<or> \<not> has_cap M caps CLIENT_SSL"
    and "0 \<notin> set user" "0 \<notin> set dbname" "0 \<notin> set plugin" and "auth_fits M caps auth"
  shows "client_handshake M N after_tls
      (ssl_request_bytes caps mps coll filler @ credentials_bytes M caps user auth dbname plugin @ rest) =
    Inr (rest, \<lparr>server_scramble = None, maxps = mps, capabilities = from_bits_truncate M caps,
      hs_collation = ucast coll,
      db = (if has_cap M caps CLIENT_CONNECT_WITH_DB then Some dbname else None),
      username = Some user, auth_response = auth,
      auth_plugin = (if has_cap M caps CLIENT_PLUGIN_AUTH then plugin else [])\<rparr>)"
proof -
  have "read_auth_response M N (from_bits_truncate M caps) (auth_bytes M caps auth @ i) = Inr (i, auth)" for i
    using read_auth_bytes [OF assms(1), of M "from_bits_truncate M caps" auth i] assms(9)
    by (simp add: auth_cap_truncate [OF assms(2)])
  with assms(5-8) show ?thesis
    unfolding handshake_41_header [OF assms(1-4)] credentials_bytes_def
    by (simp add: null_terminated_str [OF assms(1)])
qed

lemma handshake_parsed:
  assumes "client_handshake M N after_tls i = Inr (rest, h)"
  shows "server_scramble h = None \<and>
     (username h = None \<longrightarrow> \<not> after_tls \<and> has_cap M (capabilities h) CLIENT_SSL \<and> auth_response h = []) \<and>
     (after_tls \<longrightarrow> username h \<noteq> None)"
  using assms
  by (auto simp: client_handshake_def handshake_response_41_def handshake_response_320_def
      p_bind_eq_Inr Let_def split: if_splits prod.splits)

subsection \<open>Properties of the handshake parser\<close>

text \<open>C33: a protocol 4.1 handshake response is read back field by field: user, authentication
  data in each of the three encodings that the client's capabilities select, default database
  and plugin name, with the bytes behind it left over.\<close>

theorem handshake_41_roundtrip:
  assumes "nom_spec N" and "myc_spec M" and "has_cap M caps CLIENT_PROTOCOL_41"
    and "length filler = 23" and "after_tls \<or> \<not> has_cap M caps CLIENT_SSL"
    and "0 \<notin> set user" "0 \<notin> set dbname" "0 \<notin> set plugin" and "auth_fits M caps auth"
  shows "client_handshake M N after_tls
      (ssl_request_bytes caps mps coll filler @ credentials_bytes M caps user auth dbname plugin @ rest) =
    Inr (rest, \<lparr>server_scramble = None, maxps = mps, capabilities = from_bits_truncate M caps,
      hs_collation = ucast coll,
      db = (if has_cap M caps CLIENT_CONNECT_WITH_DB then Some dbname else None),
      username = Some user, auth_response = auth,
      auth_plugin = (if has_cap M caps CLIENT_PLUGIN_AUTH then plugin else [])\<rparr>)"
  by (rule handshake_41_read [OF assms])

definition demo_caps :: u32 where
  "demo_caps = 0x8208"

theorem handshake_41_roundtrip_witness:
  "client_handshake myc_ref nom_ref False
      (ssl_request_bytes demo_caps 1024 45 (replicate 23 0) @
       credentials_bytes myc_ref demo_caps [97] [1, 0, 2] [100, 98] [] @ [9]) =
    Inr ([9], \<lparr>server_scramble = None, maxps = 1024,
      capabilities = from_bits_truncate myc_ref demo_caps, hs_collation = 45,
      db = Some [100, 98], username = Some [97], auth_response = [1, 0, 2], auth_plugin = []\<rparr>)"
proof -
  have caps: "has_cap myc_ref demo_caps CLIENT_PROTOCOL_41" "\<not> has_cap myc_ref demo_caps CLIENT_SSL"
    "has_cap myc_ref demo_caps CLIENT_CONNECT_WITH_DB" "\<not> has_cap myc_ref demo_caps CLIENT_PLUGIN_AUTH"
    "has_cap myc_ref demo_caps CLIENT_SECURE_CONNECTION"
    "\<not> has_cap myc_ref demo_caps CLIENT_PLUGIN_AUTH_LENENC_CLIENT_DATA"
    by (simp_all add: has_cap_def contains_def myc_ref_def ref_cap_def demo_caps_def)
  from handshake_41_roundtrip [OF nom_ref_spec myc_ref_spec caps(1), of "replicate 23 0" False
      "[97]" "[100, 98]" "[]" "[1, 0, 2]" 1024 45 "[9]"] caps
  show ?thesis by (simp add: auth_fits_def)
qed

text \<open>A client that asks for TLS has given no credentials yet: before the TLS switch its first
  32 bytes are the whole message, and whatever follows them in clear text is left unread.\<close>

theorem ssl_request_ignores_credentials:
  assumes "nom_spec N" and "myc_spec M" and "has_cap M caps CLIENT_PROTOCOL_41"
    and "has_cap M caps CLIENT_SSL" and "length filler = 23"
  shows "client_handshake M N False (ssl_request_bytes caps mps coll filler @ clear) =
    Inr (clear, \<lparr>server_scramble = None, maxps = mps, capabilities = from_bits_truncate M caps,
      hs_collation = ucast coll, db = None, username = None, auth_response = [], auth_plugin = []\<rparr>)"
  using handshake_41_header [OF assms(1-3,5), of False] assms(4) by simp

theorem ssl_request_ignores_credentials_witness:
  "client_handshake myc_ref nom_ref False (ssl_request_bytes 0xA00 1024 45 (replicate 23 0) @ [97, 0]) =
    Inr ([97, 0], \<lparr>server_scramble = None, maxps = 1024, capabilities = from_bits_truncate myc_ref 0xA00,
      hs_collation = ucast (45 :: u8), db = None, username = None, auth_response = [], auth_plugin = []\<rparr>)"
  by (rule ssl_request_ignores_credentials [OF nom_ref_spec myc_ref_spec])
    (simp_all add: has_cap_def contains_def myc_ref_def ref_cap_def)

text \<open>Whatever bytes arrive, the connection's challenge is never taken from the client, and a
  response without a user name is exactly a request for TLS in clear text.\<close>

theorem handshake_trust:
  assumes "client_handshake M N after_tls i = Inr (rest, h)"
  shows "server_scramble h = None \<and>
     (username h = None \<longrightarrow> \<not> after_tls \<and> has_cap M (capabilities h) CLIENT_SSL \<and> auth_response h = []) \<and>
     (after_tls \<longrightarrow> username h \<noteq> None)"
  by (rule handshake_parsed [OF assms])

theorem handshake_trust_witness:
  "server_scramble \<lparr>server_scramble = None, maxps = 0x00010000, capabilities = 0, hs_collation = 0,
       db = None, username = Some [97], auth_response = [7], auth_plugin = []\<rparr> = None"
  using handshake_trust [of myc_ref nom_ref True "[0, 0, 0, 0, 1, 97, 0, 7]" "[]"
      "\<lparr>server_scramble = None, maxps = 0x00010000, capabilities = 0, hs_collation = 0,
       db = None, username = Some [97], auth_response = [7], auth_plugin = []\<rparr>"]
  by simp

end
