(* ===== verification/Values.thy ===== *)
theory Values
  imports Protocol
begin

text \<open>
  \<open>value/decode.rs\<close>: the values of execute parameters, decoded from the binary protocol, and
  their conversions to Rust types. Signed integers keep the two's-complement representation
  of \<open>i64\<close>; floating-point values are their IEEE bit patterns, with the exact widening of
  \<open>f32\<close> to \<open>f64\<close> written out. The derived \<open>Debug\<close> rendering in error messages is the parameter
  \<open>dbg\<close>.
\<close>

datatype ValueInner =
    NULL | Bytes bytes | IntV u64 | UInt u64 | Double u64
  | Date bytes | Time bytes | Datetime bytes

subsection \<open>Floating point\<close>

text \<open>The highest set bit of a non-zero number below \<open>2 ^ n\<close>.\<close>

fun top_bit :: "nat \<Rightarrow> nat \<Rightarrow> nat" where
  "top_bit 0 v = 0"
| "top_bit (Suc n) v = (if v \<ge> 2 ^ n then n else top_bit n v)"

definition f64_from_f32 :: "u32 \<Rightarrow> u64" where
  "f64_from_f32 f =
     (let sign = unat f div 2 ^ 31; ex = unat f div 2 ^ 23 mod 256; mant = unat f mod 2 ^ 23 in
      word_of_nat (sign * 2 ^ 63 +
        (if ex = 255 then 2047 * 2 ^ 52 + mant * 2 ^ 29
         else if ex = 0 then
           (if mant = 0 then 0
            else let p = top_bit 23 mant in (p + 874) * 2 ^ 52 + (mant - 2 ^ p) * 2 ^ (52 - p))
         else (ex + 896) * 2 ^ 52 + mant * 2 ^ 29)))"

subsection \<open>Decoding\<close>

definition is_string_type :: "ColumnType \<Rightarrow> bool" where
  "is_string_type ct \<longleftrightarrow> ct \<in> {MYSQL_TYPE_STRING, MYSQL_TYPE_VAR_STRING, MYSQL_TYPE_BLOB,
     MYSQL_TYPE_TINY_BLOB, MYSQL_TYPE_MEDIUM_BLOB, MYSQL_TYPE_LONG_BLOB, MYSQL_TYPE_SET,
     MYSQL_TYPE_ENUM, MYSQL_TYPE_DECIMAL, MYSQL_TYPE_VARCHAR, MYSQL_TYPE_BIT,
     MYSQL_TYPE_NEWDECIMAL, MYSQL_TYPE_GEOMETRY, MYSQL_TYPE_JSON}"

definition map_ok :: "('a \<Rightarrow> 'b) \<Rightarrow> ('a \<times> bytes) io_result \<Rightarrow> ('b \<times> bytes) io_result" where
  "map_ok f r = (case r of Inl e \<Rightarrow> Inl e | Inr (x, i) \<Rightarrow> Inr (f x, i))"

definition read_bytes :: "bytes \<Rightarrow> nat \<Rightarrow> (bytes \<times> bytes) io_result" where
  "read_bytes input len =
     (if len \<le> usize_max \<and> len \<le> length input then Inr (take len input, drop len input)
      else Inl (IoError UnexpectedEof (ascii ''EOF while reading length-encoded string'')))"

definition read_temporal :: "byteorder_ops \<Rightarrow> bytes \<Rightarrow> u8 list \<Rightarrow> (bytes \<times> bytes) io_result" where
  "read_temporal B input lengths =
     (case bo_read_u8 B input of
        Inl e \<Rightarrow> Inl e
      | Inr (len, input) \<Rightarrow>
          if len \<notin> set lengths then
            Inl (IoError InvalidData (ascii ''invalid binary temporal length '' @ dec (unat len)))
          else read_bytes input (unat len))"

definition parse_from ::
    "byteorder_ops \<Rightarrow> myc_ops \<Rightarrow> bytes \<Rightarrow> ColumnType \<Rightarrow> bool \<Rightarrow> (ValueInner \<times> bytes) io_result" where
  "parse_from B M input ct is_unsigned =
     (if is_string_type ct then
        (case read_lenenc_int M input of
           Inl e \<Rightarrow> Inl e
         | Inr (len, input) \<Rightarrow> map_ok Bytes (read_bytes input (unat len)))
      else if ct = MYSQL_TYPE_TINY then
        (if is_unsigned then map_ok (\<lambda>v. UInt (ucast v)) (bo_read_u8 B input)
         else map_ok (\<lambda>v. IntV (scast v)) (bo_read_i8 B input))
      else if ct = MYSQL_TYPE_SHORT \<or> ct = MYSQL_TYPE_YEAR then
        (if is_unsigned then map_ok (\<lambda>v. UInt (ucast v)) (bo_read_u16 B input)
         else map_ok (\<lambda>v. IntV (scast v)) (bo_read_i16 B input))
      else if ct = MYSQL_TYPE_LONG \<or> ct = MYSQL_TYPE_INT24 then
        (if is_unsigned then map_ok (\<lambda>v. UInt (ucast v)) (bo_read_u32 B input)
         else map_ok (\<lambda>v. IntV (scast v)) (bo_read_i32 B input))
      else if ct = MYSQL_TYPE_LONGLONG then
        (if is_unsigned then map_ok UInt (bo_read_u64 B input) else map_ok IntV (bo_read_i64 B input))
      else if ct = MYSQL_TYPE_FLOAT then map_ok (\<lambda>f. Double (f64_from_f32 f)) (bo_read_f32 B input)
      else if ct = MYSQL_TYPE_DOUBLE then map_ok Double (bo_read_f64 B input)
      else if ct = MYSQL_TYPE_TIMESTAMP \<or> ct = MYSQL_TYPE_DATETIME then
        map_ok Datetime (read_temporal B input [0, 4, 7, 11, 13])
      else if ct = MYSQL_TYPE_DATE then map_ok Date (read_temporal B input [0, 4, 7, 11])
      else if ct = MYSQL_TYPE_TIME then map_ok Time (read_temporal B input [0, 8, 12])
      else if ct = MYSQL_TYPE_NULL then Inr (NULL, input)
      else Inl (IoError InvalidInput (ascii ''unknown column type '' @ coltype_debug M ct)))"

definition is_null :: "ValueInner \<Rightarrow> bool" where
  "is_null v \<longleftrightarrow> v = NULL"

subsection \<open>Conversions\<close>

definition conversion_error :: "(ValueInner \<Rightarrow> bytes) \<Rightarrow> ValueInner \<Rightarrow> bytes \<Rightarrow> io_error" where
  "conversion_error dbg v target = IoError InvalidData
     (ascii ''invalid type conversion from '' @ dbg v @ ascii '' to '' @ target)"

text \<open>\<open>impl_try_into_int!\<close> for a target type with the given name and range.\<close>

definition try_into_int ::
    "(ValueInner \<Rightarrow> bytes) \<Rightarrow> string \<Rightarrow> int \<Rightarrow> int \<Rightarrow> ValueInner \<Rightarrow> int io_result" where
  "try_into_int dbg name lo hi v =
     (let check = (\<lambda>n. if lo \<le> n \<and> n \<le> hi then Inr n
        else Inl (IoError InvalidData (ascii ''value out of bounds for '' @ ascii name)))
      in case v of UInt n \<Rightarrow> check (uint n) | IntV n \<Rightarrow> check (sint n)
         | _ \<Rightarrow> Inl (conversion_error dbg v (ascii name)))"

definition try_into_u8 where "try_into_u8 dbg = try_into_int dbg ''u8'' 0 (2 ^ 8 - 1)"
definition try_into_u16 where "try_into_u16 dbg = try_into_int dbg ''u16'' 0 (2 ^ 16 - 1)"
definition try_into_u32 where "try_into_u32 dbg = try_into_int dbg ''u32'' 0 (2 ^ 32 - 1)"
definition try_into_u64 where "try_into_u64 dbg = try_into_int dbg ''u64'' 0 (2 ^ 64 - 1)"
definition try_into_i8 where "try_into_i8 dbg = try_into_int dbg ''i8'' (- (2 ^ 7)) (2 ^ 7 - 1)"
definition try_into_i16 where "try_into_i16 dbg = try_into_int dbg ''i16'' (- (2 ^ 15)) (2 ^ 15 - 1)"
definition try_into_i32 where "try_into_i32 dbg = try_into_int dbg ''i32'' (- (2 ^ 31)) (2 ^ 31 - 1)"
definition try_into_i64 where "try_into_i64 dbg = try_into_int dbg ''i64'' (- (2 ^ 63)) (2 ^ 63 - 1)"

definition try_into_f64 :: "(ValueInner \<Rightarrow> bytes) \<Rightarrow> ValueInner \<Rightarrow> u64 io_result" where
  "try_into_f64 dbg v = (case v of Double d \<Rightarrow> Inr d | _ \<Rightarrow> Inl (conversion_error dbg v (ascii ''f64'')))"

definition try_into_bytes :: "(ValueInner \<Rightarrow> bytes) \<Rightarrow> ValueInner \<Rightarrow> bytes io_result" where
  "try_into_bytes dbg v = (case v of Bytes b \<Rightarrow> Inr b | _ \<Rightarrow> Inl (conversion_error dbg v (ascii ''bytes'')))"

text \<open>\<open>NaiveDate::try_from\<close>.\<close>

definition try_into_date :: "byteorder_ops \<Rightarrow> ('d, 'dt) chrono_ops \<Rightarrow> (ValueInner \<Rightarrow> bytes) \<Rightarrow>
    ValueInner \<Rightarrow> 'd io_result" where
  "try_into_date B C dbg val = (case val of
     Date v \<Rightarrow>
       if length v \<noteq> 4 then Inl (IoError InvalidData (ascii ''invalid date length''))
       else (case bo_read_u16 B v of Inl e \<Rightarrow> Inl e | Inr (y, v) \<Rightarrow>
            (case bo_read_u8 B v of Inl e \<Rightarrow> Inl e | Inr (m, v) \<Rightarrow>
            (case bo_read_u8 B v of Inl e \<Rightarrow> Inl e | Inr (d, v) \<Rightarrow>
            (case from_ymd_opt C (uint y) (unat m) (unat d) of
               Some x \<Rightarrow> Inr x
             | None \<Rightarrow> Inl (IoError InvalidData (ascii ''invalid date format''))))))
   | _ \<Rightarrow> Inl (conversion_error dbg val (ascii ''date'')))"

text \<open>
  \<open>to_naive_datetime\<close>. Its reads are unwrapped; the result \<open>Panicked\<close> stands for an unwrap that
  fails.
\<close>

definition read_ymd :: "byteorder_ops \<Rightarrow> bytes \<Rightarrow> ((int \<times> nat \<times> nat) \<times> bytes) option" where
  "read_ymd B v = (case bo_read_u16 B v of Inl _ \<Rightarrow> None | Inr (y, v) \<Rightarrow>
     (case bo_read_u8 B v of Inl _ \<Rightarrow> None | Inr (m, v) \<Rightarrow>
     (case bo_read_u8 B v of Inl _ \<Rightarrow> None | Inr (d, v) \<Rightarrow> Some ((uint y, unat m, unat d), v))))"

definition read_hms :: "byteorder_ops \<Rightarrow> bytes \<Rightarrow> ((nat \<times> nat \<times> nat) \<times> bytes) option" where
  "read_hms B v = (case bo_read_u8 B v of Inl _ \<Rightarrow> None | Inr (h, v) \<Rightarrow>
     (case bo_read_u8 B v of Inl _ \<Rightarrow> None | Inr (m, v) \<Rightarrow>
     (case bo_read_u8 B v of Inl _ \<Rightarrow> None | Inr (s, v) \<Rightarrow> Some ((unat h, unat m, unat s), v))))"

definition timestamp_parts :: "byteorder_ops \<Rightarrow> ('d, 'dt) chrono_ops \<Rightarrow> bytes \<Rightarrow> 'dt option rust" where
  "timestamp_parts B C v =
     (case read_ymd B v of None \<Rightarrow> Panicked | Some ((y, m, d), v') \<Rightarrow>
        (case from_ymd_opt C y m d of
           None \<Rightarrow> Ret None
         | Some x \<Rightarrow>
             if length v = 4 then Ret (and_hms_opt C x 0 0 0)
             else (case read_hms B v' of None \<Rightarrow> Panicked | Some ((h, mi, s), v'') \<Rightarrow>
               if length v = 7 then Ret (and_hms_opt C x h mi s)
               else (case bo_read_u32 B v'' of Inl _ \<Rightarrow> Panicked | Inr (us, _) \<Rightarrow>
                 if unat us \<ge> 1000000 then Ret None
                 else Ret (and_hms_micro_opt C x h mi s (unat us))))))"

definition to_naive_datetime :: "byteorder_ops \<Rightarrow> ('d, 'dt) chrono_ops \<Rightarrow> (ValueInner \<Rightarrow> bytes) \<Rightarrow>
    ValueInner \<Rightarrow> 'dt io_result rust" where
  "to_naive_datetime B C dbg val = (case val of
     Datetime v \<Rightarrow>
       if length v = 0 then Ret (Inl (IoError InvalidData
         ([0x27] @ ascii ''0000-00-00 00:00:00'' @ [0x27] @
          ascii '' is a valid timestamp value but not representable by NaiveDateTime!'')))
       else if length v \<in> {4, 7, 11} then
         (case timestamp_parts B C v of
            Panicked \<Rightarrow> Panicked
          | Ret None \<Rightarrow> Ret (Inl (IoError InvalidData
              (ascii ''invalid data conversion from '' @ dbg val @ ascii '' to datetime'')))
          | Ret (Some dt) \<Rightarrow> Ret (Inr dt))
       else Ret (Inl (IoError InvalidData (ascii ''illegal timestamp value length: '' @ dec (length v))))
   | _ \<Rightarrow> Ret (Inl (conversion_error dbg val (ascii ''datetime''))))"

text \<open>\<open>std::time::Duration\<close>.\<close>

record Duration =
  as_secs :: nat
  subsec_nanos :: nat

definition read_duration :: "byteorder_ops \<Rightarrow> bytes \<Rightarrow> Duration io_result" where
  "read_duration B v =
     (case bo_read_u8 B v of Inl e \<Rightarrow> Inl e | Inr (neg, v) \<Rightarrow>
       if neg \<noteq> 0 then Inl (IoError InvalidData (ascii ''negative time not supported as Duration''))
       else (case bo_read_u32 B v of Inl e \<Rightarrow> Inl e | Inr (days, v) \<Rightarrow>
         (case bo_read_u8 B v of Inl e \<Rightarrow> Inl e | Inr (hours, v) \<Rightarrow>
         (case bo_read_u8 B v of Inl e \<Rightarrow> Inl e | Inr (minutes, v) \<Rightarrow>
         (case bo_read_u8 B v of Inl e \<Rightarrow> Inl e | Inr (seconds, v) \<Rightarrow>
         (case (if length v = 4 then bo_read_u32 B v else Inr (0, v)) of Inl e \<Rightarrow> Inl e | Inr (micros, _) \<Rightarrow>
           if unat micros \<ge> 1000000 then Inl (IoError InvalidData (ascii ''invalid time microseconds''))
           else Inr \<lparr>as_secs = unat days * 86400 + unat hours * 3600 + unat minutes * 60 + unat seconds,
                     subsec_nanos = unat micros * 1000\<rparr>))))))"

definition try_into_duration :: "byteorder_ops \<Rightarrow> (ValueInner \<Rightarrow> bytes) \<Rightarrow> ValueInner \<Rightarrow> Duration io_result" where
  "try_into_duration B dbg val = (case val of
     Time v \<Rightarrow>
       if v \<noteq> [] \<and> length v \<noteq> 8 \<and> length v \<noteq> 12 then Inl (IoError InvalidData (ascii ''invalid time length''))
       else if v = [] then Inr \<lparr>as_secs = 0, subsec_nanos = 0\<rparr>
       else read_duration B v
   | _ \<Rightarrow> Inl (conversion_error dbg val (ascii ''duration'')))"

subsection \<open>What clients send\<close>

text \<open>The encodings of a parameter of a given type and signedness, and the value each denotes.\<close>

inductive encodes :: "ColumnType \<Rightarrow> bool \<Rightarrow> bytes \<Rightarrow> ValueInner \<Rightarrow> bool" where
  enc_bytes: "is_string_type ct \<Longrightarrow> length b \<le> usize_max \<Longrightarrow> encodes ct u (lenenc_str b) (Bytes b)"
| enc_u8: "encodes MYSQL_TYPE_TINY True [w] (UInt (ucast w))"
| enc_i8: "encodes MYSQL_TYPE_TINY False [w] (IntV (scast w))"
| enc_u16: "ct \<in> {MYSQL_TYPE_SHORT, MYSQL_TYPE_YEAR} \<Longrightarrow> encodes ct True (le16 h) (UInt (ucast h))"
| enc_i16: "ct \<in> {MYSQL_TYPE_SHORT, MYSQL_TYPE_YEAR} \<Longrightarrow> encodes ct False (le16 h) (IntV (scast h))"
| enc_u32: "ct \<in> {MYSQL_TYPE_LONG, MYSQL_TYPE_INT24} \<Longrightarrow> encodes ct True (le32 d) (UInt (ucast d))"
| enc_i32: "ct \<in> {MYSQL_TYPE_LONG, MYSQL_TYPE_INT24} \<Longrightarrow> encodes ct False (le32 d) (IntV (scast d))"
| enc_u64: "encodes MYSQL_TYPE_LONGLONG True (le64 q) (UInt q)"
| enc_i64: "encodes MYSQL_TYPE_LONGLONG False (le64 q) (IntV q)"
| enc_f32: "encodes MYSQL_TYPE_FLOAT u (le32 d) (Double (f64_from_f32 d))"
| enc_f64: "encodes MYSQL_TYPE_DOUBLE u (le64 q) (Double q)"
| enc_datetime: "ct \<in> {MYSQL_TYPE_TIMESTAMP, MYSQL_TYPE_DATETIME} \<Longrightarrow> length b \<in> {0, 4, 7, 11, 13} \<Longrightarrow>
    encodes ct u (word_of_nat (length b) # b) (Datetime b)"
| enc_date: "length b \<in> {0, 4, 7, 11} \<Longrightarrow> encodes MYSQL_TYPE_DATE u (word_of_nat (length b) # b) (Date b)"
| enc_time: "length b \<in> {0, 8, 12} \<Longrightarrow> encodes MYSQL_TYPE_TIME u (word_of_nat (length b) # b) (Time b)"
| enc_null: "encodes MYSQL_TYPE_NULL u [] NULL"

lemma map_ok_simps [simp]: "map_ok f (Inr (x, i)) = Inr (f x, i)" "map_ok f (Inl e) = Inl e"
  by (simp_all add: map_ok_def)

lemma map_ok_eq_Inr: "map_ok f r = Inr (y, i) \<longleftrightarrow> (\<exists>x. r = Inr (x, i) \<and> y = f x)"
  by (auto simp: map_ok_def split: sum.splits)

lemma ref_read_words [simp]:
  "ref_read (Suc 0) (w # i) = Inr (w, i)" "ref_read 2 (le16 h @ i) = Inr (h, i)"
  "ref_read 4 (le32 d @ i) = Inr (d, i)" "ref_read 8 (le64 q @ i) = Inr (q, i)"
  by (simp_all add: ref_read_append) (simp add: ref_read_def)

lemma read_bytes_append: "length b \<le> usize_max \<Longrightarrow> n = length b \<Longrightarrow> read_bytes (b @ i) n = Inr (b, i)"
  by (simp add: read_bytes_def)

lemma read_temporal_append:
  assumes "byteorder_spec B" and "word_of_nat (length b) \<in> set ls" and "length b < 256"
  shows "read_temporal B (word_of_nat (length b) # b @ i) ls = Inr (b, i)"
  using assms by (simp add: read_temporal_def byteorder_specD read_bytes_append unat_of_nat usize_max_def)

lemma parse_encoded:
  assumes "byteorder_spec B" and "myc_spec M" and "encodes ct u p v"
  shows "parse_from B M (p @ i) ct u = Inr (v, i)"
  using assms(3)
proof cases
  case (enc_bytes b)
  then show ?thesis
    using myc_specD(9) [OF assms(2), of "word_of_nat (length b)" "b @ i"]
    by (simp add: parse_from_def lenenc_str_def read_bytes_append unat_of_nat usize_max_def)
next
  case (enc_datetime b)
  then have "read_temporal B (word_of_nat (length b) # b @ i) [0, 4, 7, 11, 13] = Inr (b, i)"
    by (intro read_temporal_append [OF assms(1)]) auto
  with enc_datetime show ?thesis by (auto simp: parse_from_def is_string_type_def)
next
  case (enc_date b)
  then have "read_temporal B (word_of_nat (length b) # b @ i) [0, 4, 7, 11] = Inr (b, i)"
    by (intro read_temporal_append [OF assms(1)]) auto
  with enc_date show ?thesis by (auto simp: parse_from_def is_string_type_def)
next
  case (enc_time b)
  then have "read_temporal B (word_of_nat (length b) # b @ i) [0, 8, 12] = Inr (b, i)"
    by (intro read_temporal_append [OF assms(1)]) auto
  with enc_time show ?thesis by (auto simp: parse_from_def is_string_type_def)
qed (auto simp: parse_from_def is_string_type_def byteorder_specD [OF assms(1)])

text \<open>A successful parse consumes a prefix of its input.\<close>

lemma read_bytes_suffix: "read_bytes i n = Inr (b, r) \<Longrightarrow> \<exists>p. i = p @ r"
  by (auto simp: read_bytes_def split: if_splits intro: append_take_drop_id [symmetric])

lemma to_naive_datetime_total:
  assumes "byteorder_spec B"
  shows "to_naive_datetime B C dbg val \<noteq> Panicked"
proof (cases val)
  case (Datetime v)
  have "timestamp_parts B C v \<noteq> Panicked" if "length v \<in> {4, 7, 11}"
    using that byteorder_specD [OF assms]
    by (auto simp: timestamp_parts_def read_ymd_def read_hms_def ref_read_def
        split: option.splits sum.splits prod.splits if_splits)
  with Datetime show ?thesis
    by (auto simp: to_naive_datetime_def split: rust.splits option.splits)
qed (simp_all add: to_naive_datetime_def)

end
