(* ===== verification/Params.thy ===== *)
theory Params
  imports Values ErrorCodes
begin

text \<open>
  \<open>params.rs\<close>: the parameters of an execute command. \<open>validate\<close> checks the whole packet before
  the backend sees it; the iterator \<open>params_next\<close> decodes it again while the backend consumes
  it, with unchecked slicing and \<open>unwrap\<close>, which the model keeps as panics. Hash maps are
  association lists.
\<close>

record StatementData =
  cursor_columns :: "Column list option"
  long_data :: "(u16 \<times> bytes) list"
  bound_types :: "(ColumnType \<times> bool) list"
  params :: u16
  pending_error :: "(ErrorKind \<times> bytes) option"

definition new_statement :: StatementData where
  "new_statement = \<lparr>cursor_columns = None, long_data = [], bound_types = [], params = 0,
     pending_error = None\<rparr>"

subsection \<open>Validation\<close>

text \<open>\<open>(n as usize).div_ceil(8)\<close> and \<open>nullmap[col / 8] & (1u8 << (col % 8)) != 0\<close>.\<close>

definition nullmap_len :: "nat \<Rightarrow> nat" where
  "nullmap_len n = (n + 7) div 8"

definition null_bit :: "bytes \<Rightarrow> nat \<Rightarrow> bool" where
  "null_bit nullmap col \<longleftrightarrow> nullmap ! (col div 8) AND push_bit (col mod 8) 1 \<noteq> 0"

definition truncated :: "string \<Rightarrow> io_error" where
  "truncated s = IoError UnexpectedEof (ascii ''malformed execute packet: '' @ ascii s)"

text \<open>
  The loop filling \<open>bound_types\<close> from the type map, starting after \<open>clear\<close>: the types bound so
  far stay when a type is bad.
\<close>

fun bind_types :: "myc_ops \<Rightarrow> bytes \<Rightarrow> (ColumnType \<times> bool) list \<Rightarrow>
    unit io_result \<times> (ColumnType \<times> bool) list" where
  "bind_types M (t # f # typmap) bound =
     (case coltype_try_from M t of
        Inl e \<Rightarrow> (Inl (IoError InvalidData (ascii ''bad column type 0x'' @ hex t @ ascii '': '' @ e)), bound)
      | Inr ct \<Rightarrow> bind_types M typmap (bound @ [(ct, f AND 128 \<noteq> 0)]))"
| "bind_types M _ bound = (Inr (), bound)"

datatype exec_error = ExecIo io_error | IncompatibleLongData

text \<open>The part of \<open>validate\<close> before the loop over the parameters.\<close>

definition validate_binding :: "myc_ops \<Rightarrow> u16 \<Rightarrow> bytes \<Rightarrow> (ColumnType \<times> bool) list \<Rightarrow>
    bytes io_result \<times> (ColumnType \<times> bool) list" where
  "validate_binding M n input bound =
     (if n > 0 then
        if input = [] then (Inl (truncated ''missing new-params-bound flag''), bound)
        else let new_params_bound = (input ! 0 \<noteq> 0); input = drop 1 input in
          if new_params_bound then
            let type_map_len = 2 * unat n in
            if length input < type_map_len then (Inl (truncated ''parameter type map truncated''), bound)
            else (case bind_types M (take type_map_len input) [] of
                    (Inl e, bound) \<Rightarrow> (Inl e, bound)
                  | (Inr _, bound) \<Rightarrow> (Inr (drop type_map_len input), bound))
          else if length bound < unat n then
            (Inl (IoError InvalidData (ascii ''execute packet omitted parameter types before they were bound'')), bound)
          else (Inr input, bound)
      else (Inr input, bound))"

definition accepts_long_data :: "ColumnType \<Rightarrow> bool" where
  "accepts_long_data ct \<longleftrightarrow> ct \<in> {MYSQL_TYPE_TINY_BLOB, MYSQL_TYPE_MEDIUM_BLOB, MYSQL_TYPE_LONG_BLOB,
     MYSQL_TYPE_BLOB, MYSQL_TYPE_VAR_STRING, MYSQL_TYPE_STRING}"

text \<open>The loop over the parameters, on the columns still to check.\<close>

fun validate_cols :: "byteorder_ops \<Rightarrow> myc_ops \<Rightarrow> bytes \<Rightarrow> (u16 \<times> bytes) list \<Rightarrow>
    (ColumnType \<times> bool) list \<Rightarrow> nat list \<Rightarrow> bytes \<Rightarrow> exec_error + bytes" where
  "validate_cols B M nullmap long bound [] input = Inr input"
| "validate_cols B M nullmap long bound (col # cols) input =
     (if col div 8 \<ge> length nullmap then Inl (ExecIo (truncated ''null-bitmap too short''))
      else if col \<ge> length bound then
        Inl (ExecIo (IoError InvalidData (ascii ''missing bound type for parameter '' @ dec col)))
      else (case bound ! col of (ct, is_unsigned) \<Rightarrow>
        if map_of long (word_of_nat col) \<noteq> None then
          if \<not> accepts_long_data ct then Inl IncompatibleLongData
          else validate_cols B M nullmap long bound cols input
        else if null_bit nullmap col then validate_cols B M nullmap long bound cols input
        else (case parse_from B M input ct is_unsigned of
                Inl e \<Rightarrow> Inl (ExecIo e)
              | Inr (_, input) \<Rightarrow> validate_cols B M nullmap long bound cols input)))"

definition validate :: "byteorder_ops \<Rightarrow> myc_ops \<Rightarrow> bytes \<Rightarrow> StatementData \<Rightarrow>
    (exec_error + unit) \<times> StatementData" where
  "validate B M input stmt =
     (let n = params stmt in
      if length input < nullmap_len (unat n) then
        (Inl (ExecIo (truncated ''null-bitmap truncated'')), stmt)
      else
        let nullmap = take (nullmap_len (unat n)) input in
        (case validate_binding M n (drop (nullmap_len (unat n)) input) (bound_types stmt) of
           (Inl e, bound) \<Rightarrow> (Inl (ExecIo e), stmt\<lparr>bound_types := bound\<rparr>)
         | (Inr input, bound) \<Rightarrow>
             ((case validate_cols B M nullmap (long_data stmt) bound [0..<unat n] input of
                 Inl e \<Rightarrow> Inl e
               | Inr input \<Rightarrow>
                   if input \<noteq> [] then Inl (ExecIo (IoError InvalidData (ascii ''malformed execute packet: '' @
                       dec (length input) @ ascii '' trailing parameter bytes'')))
                   else Inr ()), stmt\<lparr>bound_types := bound\<rparr>)))"

subsection \<open>The iterator the backend consumes\<close>

record Params =
  it_params :: u16
  it_input :: bytes
  it_nullmap :: "bytes option"
  it_col :: u16
  it_long_data :: "(u16 \<times> bytes) list"
  it_bound_types :: "(ColumnType \<times> bool) list"

record ParamValue =
  pv_value :: ValueInner
  pv_coltype :: ColumnType

text \<open>\<open>ParamParser\<close>, which the backend is given, and its iterator.\<close>

record ParamParser =
  pp_params :: u16
  pp_bytes :: bytes
  pp_long_data :: "(u16 \<times> bytes) list"
  pp_bound_types :: "(ColumnType \<times> bool) list"

definition into_iter :: "ParamParser \<Rightarrow> Params" where
  [simp]: "into_iter parser =
     \<lparr>it_params = pp_params parser, it_input = pp_bytes parser, it_nullmap = None, it_col = 0,
      it_long_data = pp_long_data parser, it_bound_types = pp_bound_types parser\<rparr>"

text \<open>\<open>ParamParser::new\<close>. A parser can only be iterated over, so its iterator stands for it.\<close>

definition param_parser_new :: "byteorder_ops \<Rightarrow> myc_ops \<Rightarrow> bytes \<Rightarrow> StatementData \<Rightarrow>
    (exec_error + Params) \<times> StatementData" where
  "param_parser_new B M input stmt =
     (case validate B M input stmt of
        (Inl e, stmt) \<Rightarrow> (Inl e, stmt)
      | (Inr _, stmt) \<Rightarrow>
          (Inr (into_iter \<lparr>pp_params = params stmt, pp_bytes = input, pp_long_data = long_data stmt,
             pp_bound_types = bound_types stmt\<rparr>), stmt))"

text \<open>The first call splits off the null map and the type map, panicking where they are short.\<close>

definition params_setup :: "myc_ops \<Rightarrow> Params \<Rightarrow> Params rust" where
  "params_setup M it =
     (let n = nullmap_len (unat (it_params it)) in
      if length (it_input it) < n then Panicked
      else let nullmap = take n (it_input it); rest = drop n (it_input it);
               it = it\<lparr>it_nullmap := Some nullmap\<rparr> in
        if it_params it = 0 then Ret (it\<lparr>it_input := rest\<rparr>)
        else if rest = [] then Panicked
        else if rest ! 0 \<noteq> 0 then
          (if length (drop 1 rest) < 2 * unat (it_params it) then Panicked
           else case bind_types M (take (2 * unat (it_params it)) (drop 1 rest)) [] of
             (Inl e, bound) \<Rightarrow> Panicked
           | (Inr _, bound) \<Rightarrow> Ret (it\<lparr>it_bound_types := bound,
               it_input := drop (2 * unat (it_params it)) (drop 1 rest)\<rparr>))
        else Ret (it\<lparr>it_input := drop 1 rest\<rparr>))"

definition params_step :: "byteorder_ops \<Rightarrow> myc_ops \<Rightarrow> Params \<Rightarrow> (ParamValue option \<times> Params) rust" where
  "params_step B M it =
     (if it_col it \<ge> it_params it then Ret (None, it)
      else if unat (it_col it) \<ge> length (it_bound_types it) then Panicked
      else (case it_bound_types it ! unat (it_col it) of (ct, is_unsigned) \<Rightarrow>
        (case map_of (it_long_data it) (it_col it) of
           Some data \<Rightarrow> Ret (Some \<lparr>pv_value = Bytes data, pv_coltype = ct\<rparr>, it\<lparr>it_col := it_col it + 1\<rparr>)
         | None \<Rightarrow>
             (case it_nullmap it of
                None \<Rightarrow> Panicked
              | Some nullmap \<Rightarrow>
                  if unat (it_col it) div 8 \<ge> length nullmap then Ret (None, it)
                  else if null_bit nullmap (unat (it_col it)) then
                    Ret (Some \<lparr>pv_value = NULL, pv_coltype = ct\<rparr>, it\<lparr>it_col := it_col it + 1\<rparr>)
                  else (case parse_from B M (it_input it) ct is_unsigned of
                      Inl e \<Rightarrow> Panicked
                    | Inr (v, input) \<Rightarrow>
                        Ret (Some \<lparr>pv_value = v, pv_coltype = ct\<rparr>,
                          it\<lparr>it_input := input, it_col := it_col it + 1\<rparr>))))))"

definition params_next :: "byteorder_ops \<Rightarrow> myc_ops \<Rightarrow> Params \<Rightarrow> (ParamValue option \<times> Params) rust" where
  "params_next B M it =
     (if it_nullmap it = None then
        (case params_setup M it of Panicked \<Rightarrow> Panicked | Ret it \<Rightarrow> params_step B M it)
      else params_step B M it)"

text \<open>Running the iterator to its end, with fuel.\<close>

fun params_collect :: "byteorder_ops \<Rightarrow> myc_ops \<Rightarrow> nat \<Rightarrow> Params \<Rightarrow> ParamValue list rust option" where
  "params_collect B M 0 it = None"
| "params_collect B M (Suc fuel) it =
     (case params_next B M it of
        Panicked \<Rightarrow> Some Panicked
      | Ret (None, _) \<Rightarrow> Some (Ret [])
      | Ret (Some v, it) \<Rightarrow>
          (case params_collect B M fuel it of
             Some (Ret vs) \<Rightarrow> Some (Ret (v # vs)) | r \<Rightarrow> r))"

subsection \<open>The iterator agrees with the validation\<close>

text \<open>The parameters a validated packet denotes.\<close>

fun param_values :: "byteorder_ops \<Rightarrow> myc_ops \<Rightarrow> bytes \<Rightarrow> (u16 \<times> bytes) list \<Rightarrow>
    (ColumnType \<times> bool) list \<Rightarrow> nat list \<Rightarrow> bytes \<Rightarrow> ParamValue list" where
  "param_values B M nullmap long bound [] input = []"
| "param_values B M nullmap long bound (col # cols) input =
     (let ct = fst (bound ! col) in
      case map_of long (word_of_nat col) of
        Some data \<Rightarrow> \<lparr>pv_value = Bytes data, pv_coltype = ct\<rparr> # param_values B M nullmap long bound cols input
      | None \<Rightarrow>
          if null_bit nullmap col then
            \<lparr>pv_value = NULL, pv_coltype = ct\<rparr> # param_values B M nullmap long bound cols input
          else (case parse_from B M input ct (snd (bound ! col)) of
              Inl e \<Rightarrow> []
            | Inr (v, input) \<Rightarrow>
                \<lparr>pv_value = v, pv_coltype = ct\<rparr> # param_values B M nullmap long bound cols input))"

lemma upt_cases: "k < n \<Longrightarrow> [k..<n] = k # [Suc k..<n]"
  by (simp add: upt_conv_Cons)

lemma u16_index: "k < 65536 \<Longrightarrow> unat (word_of_nat k :: u16) = k"
  by (simp add: unat_of_nat)

lemma collect_validated:
  "validate_cols B M nm long bound [k..<n] input = Inr r \<Longrightarrow> k \<le> n \<Longrightarrow> n < 65536 \<Longrightarrow>
   it = \<lparr>it_params = word_of_nat n, it_input = input, it_nullmap = Some nm, it_col = word_of_nat k,
     it_long_data = long, it_bound_types = bound\<rparr> \<Longrightarrow>
   params_collect B M (Suc (n - k)) it = Some (Ret (param_values B M nm long bound [k..<n] input)) \<and>
   length (param_values B M nm long bound [k..<n] input) = n - k"
proof (induction "n - k" arbitrary: k input it)
  case 0
  then have "k = n" by simp
  with 0 show ?case by (simp add: params_next_def params_step_def)
next
  case (Suc d)
  then have k: "k < n" "k < 65536" "Suc k \<le> n" "n - k = Suc d" "n - Suc k = d" by simp_all
  note cols = upt_cases [OF k(1)]
  have col: "unat (word_of_nat k :: u16) = k" "\<not> word_of_nat k \<ge> (word_of_nat n :: u16)"
    "(word_of_nat k :: u16) + 1 = word_of_nat (Suc k)"
    using k Suc.prems(3) by (simp_all add: u16_index word_le_nat_alt)
  obtain ct u where ct: "bound ! k = (ct, u)" by fastforce
  from Suc.prems(1) have ok: "\<not> length nm \<le> k div 8" "\<not> length bound \<le> k"
    by (auto simp: cols split: if_splits)
  have step: "params_collect B M (Suc (n - k)) it =
      (case params_step B M it of Panicked \<Rightarrow> Some Panicked | Ret (None, _) \<Rightarrow> Some (Ret [])
       | Ret (Some v, it) \<Rightarrow> (case params_collect B M (Suc d) it of
             Some (Ret vs) \<Rightarrow> Some (Ret (v # vs)) | r \<Rightarrow> r))"
    using Suc.prems(4) by (simp add: params_next_def k(4))
  have IH: "params_collect B M (Suc d) it' =
        Some (Ret (param_values B M nm long bound [Suc k..<n] input')) \<and>
      length (param_values B M nm long bound [Suc k..<n] input') = n - Suc k"
    if "validate_cols B M nm long bound [Suc k..<n] input' = Inr r"
      "it' = it\<lparr>it_input := input', it_col := word_of_nat (Suc k)\<rparr>" for input' it'
    using Suc.hyps(1) [of "Suc k" input' it'] that Suc.prems(3,4) k by simp
  consider data where "map_of long (word_of_nat k) = Some data"
    | "map_of long (word_of_nat k) = None" "null_bit nm k"
    | v rest where "map_of long (word_of_nat k) = None" "\<not> null_bit nm k" "parse_from B M input ct u = Inr (v, rest)"
    using Suc.prems(1) ok by (cases "map_of long (word_of_nat k)") (auto simp: cols ct split: if_splits sum.splits)
  then show ?case
  proof cases
    case 1
    then have "validate_cols B M nm long bound [Suc k..<n] input = Inr r"
      using Suc.prems(1) ok by (auto simp: cols ct split: if_splits)
    from IH [OF this refl] 1 show ?thesis
      using ok unfolding step
      by (simp add: params_step_def Suc.prems(4) col ct cols k(5) del: params_collect.simps)
        (simp add: k(4,5))
  next
    case 2
    then have "validate_cols B M nm long bound [Suc k..<n] input = Inr r"
      using Suc.prems(1) ok by (auto simp: cols ct split: if_splits)
    from IH [OF this refl] 2 show ?thesis
      using ok unfolding step
      by (simp add: params_step_def Suc.prems(4) col ct cols k(5) del: params_collect.simps)
        (simp add: k(4,5))
  next
    case 3
    then have "validate_cols B M nm long bound [Suc k..<n] rest = Inr r"
      using Suc.prems(1) ok by (auto simp: cols ct split: if_splits)
    from IH [OF this refl] 3 show ?thesis
      using ok unfolding step
      by (simp add: params_step_def Suc.prems(4) col ct cols k(5) del: params_collect.simps)
        (simp add: k(4,5))
  qed
qed

text \<open>The set-up of the iterator repeats the first half of the validation.\<close>

lemma setup_validated:
  assumes "validate B M input stmt = (Inr (), stmt')"
  shows "\<exists>nm rest. params_setup M \<lparr>it_params = params stmt, it_input = input, it_nullmap = None,
        it_col = 0, it_long_data = long_data stmt, it_bound_types = bound_types stmt'\<rparr> =
      Ret \<lparr>it_params = params stmt, it_input = rest, it_nullmap = Some nm, it_col = 0,
        it_long_data = long_data stmt, it_bound_types = bound_types stmt'\<rparr> \<and>
      validate_cols B M nm (long_data stmt) (bound_types stmt') [0..<unat (params stmt)] rest = Inr [] \<and>
      stmt' = stmt\<lparr>bound_types := bound_types stmt'\<rparr>"
  using assms
  by (auto simp: validate_def validate_binding_def params_setup_def Let_def word_neq_0_conv
      split: if_splits prod.splits sum.splits)

lemma collect_parsed:
  assumes "param_parser_new B M input stmt = (Inr it, stmt')"
  shows "\<exists>nm rest. params_collect B M (Suc (unat (params stmt))) it =
       Some (Ret (param_values B M nm (long_data stmt) (bound_types stmt') [0..<unat (params stmt)] rest)) \<and>
     length (param_values B M nm (long_data stmt) (bound_types stmt') [0..<unat (params stmt)] rest) =
       unat (params stmt) \<and>
     params_setup M it = Ret (it\<lparr>it_nullmap := Some nm, it_input := rest\<rparr>) \<and>
     stmt' = stmt\<lparr>bound_types := bound_types stmt'\<rparr>"
proof -
  from assms obtain st where v: "validate B M input stmt = (Inr (), st)" "stmt' = st"
    and it: "it = \<lparr>it_params = params st, it_input = input, it_nullmap = None, it_col = 0,
      it_long_data = long_data st, it_bound_types = bound_types st\<rparr>"
    by (auto simp: param_parser_new_def split: prod.splits sum.splits)
  from setup_validated [OF v(1)] obtain nm rest where
    su: "params_setup M \<lparr>it_params = params stmt, it_input = input, it_nullmap = None,
        it_col = 0, it_long_data = long_data stmt, it_bound_types = bound_types st\<rparr> =
      Ret \<lparr>it_params = params stmt, it_input = rest, it_nullmap = Some nm, it_col = 0,
        it_long_data = long_data stmt, it_bound_types = bound_types st\<rparr>"
    and cols: "validate_cols B M nm (long_data stmt) (bound_types st) [0..<unat (params stmt)] rest = Inr []"
    and st: "st = stmt\<lparr>bound_types := bound_types st\<rparr>" by blast
  have same: "params st = params stmt" "long_data st = long_data stmt"
    by (subst st, simp)+
  have n: "unat (params stmt) < 65536" using unsigned_less [of "params stmt", where ?'a = nat] by simp
  let ?it' = "\<lparr>it_params = params stmt, it_input = rest, it_nullmap = Some nm, it_col = 0,
        it_long_data = long_data stmt, it_bound_types = bound_types st\<rparr>"
  from collect_validated [OF cols _ n, of ?it'] have
    all: "params_collect B M (Suc (unat (params stmt))) ?it' =
       Some (Ret (param_values B M nm (long_data stmt) (bound_types st) [0..<unat (params stmt)] rest))"
    "length (param_values B M nm (long_data stmt) (bound_types st) [0..<unat (params stmt)] rest) =
       unat (params stmt)" by simp_all
  have "params_next B M it = params_next B M ?it'"
    using su by (simp add: it same params_next_def)
  with all(1) have "params_collect B M (Suc (unat (params stmt))) it =
       Some (Ret (param_values B M nm (long_data stmt) (bound_types st) [0..<unat (params stmt)] rest))"
    by simp
  with all(2) su st v(2) show ?thesis
    by (intro exI [of _ nm] exI [of _ rest]) (simp add: it same)
qed

subsection \<open>What a client sends\<close>

text \<open>
  One parameter as the client sends it: its type and signedness, and its encoded value with
  the value it denotes, or nothing for NULL.
\<close>

type_synonym client_param = "(ColumnType \<times> bool) \<times> (bytes \<times> ValueInner) option"

definition type_bytes_of :: "myc_ops \<Rightarrow> bytes \<Rightarrow> (ColumnType \<times> bool) list \<Rightarrow> bool" where
  "type_bytes_of M typmap types \<longleftrightarrow> length typmap = 2 * length types \<and>
     (\<forall>i < length types. coltype_try_from M (typmap ! (2 * i)) = Inr (fst (types ! i)) \<and>
        (typmap ! (2 * i + 1) AND 128 \<noteq> 0) = snd (types ! i))"

text \<open>The encoded values of the parameters that are neither NULL nor sent as long data.\<close>

fun client_data :: "(u16 \<times> bytes) list \<Rightarrow> nat \<Rightarrow> client_param list \<Rightarrow> bytes" where
  "client_data long i [] = []"
| "client_data long i ((t, None) # ps) = client_data long (Suc i) ps"
| "client_data long i ((t, Some (w, v)) # ps) =
     (if map_of long (word_of_nat i) = None then w else []) @ client_data long (Suc i) ps"

fun client_value :: "(u16 \<times> bytes) list \<Rightarrow> nat \<Rightarrow> client_param \<Rightarrow> ParamValue" where
  "client_value long i ((ct, u), p) =
     (case map_of long (word_of_nat i) of
        Some data \<Rightarrow> \<lparr>pv_value = Bytes data, pv_coltype = ct\<rparr>
      | None \<Rightarrow> \<lparr>pv_value = (case p of None \<Rightarrow> NULL | Some (w, v) \<Rightarrow> v), pv_coltype = ct\<rparr>)"

definition client_params_ok :: "bytes \<Rightarrow> (u16 \<times> bytes) list \<Rightarrow> client_param list \<Rightarrow> bool" where
  "client_params_ok nullmap long ps \<longleftrightarrow>
     length nullmap = nullmap_len (length ps) \<and>
     (\<forall>i < length ps. case ps ! i of ((ct, u), p) \<Rightarrow>
        (if map_of long (word_of_nat i) \<noteq> None then accepts_long_data ct
         else null_bit nullmap i = (p = None) \<and> (case p of None \<Rightarrow> True | Some (w, v) \<Rightarrow> encodes ct u w v)))"

lemma bind_types_ok:
  "type_bytes_of M typmap types \<Longrightarrow> bind_types M typmap bound = (Inr (), bound @ types)"
proof (induction types arbitrary: typmap bound)
  case Nil
  then show ?case by (simp add: type_bytes_of_def)
next
  case (Cons t types)
  then obtain a b rest where typmap: "typmap = a # b # rest"
    by (auto simp: type_bytes_of_def length_Suc_conv)
  have "type_bytes_of M rest types"
    using Cons.prems unfolding type_bytes_of_def typmap by (auto dest: spec [of _ "Suc _"])
  moreover have "coltype_try_from M a = Inr (fst t)" "(b AND 128 \<noteq> 0) = snd t"
    using Cons.prems unfolding type_bytes_of_def typmap by (auto dest: spec [of _ 0])
  ultimately show ?case using Cons.IH by (simp add: typmap)
qed

lemma client_data_validated:
  assumes B: "byteorder_spec B" "myc_spec M"
  shows "client_params_ok nm long ps \<Longrightarrow> k \<le> length ps \<Longrightarrow>
     validate_cols B M nm long (map fst ps) [k..<length ps] (client_data long k (drop k ps)) = Inr [] \<and>
     param_values B M nm long (map fst ps) [k..<length ps] (client_data long k (drop k ps)) =
       map (\<lambda>i. client_value long i (ps ! i)) [k..<length ps]"
proof (induction "length ps - k" arbitrary: k)
  case 0
  then show ?case by simp
next
  case (Suc d)
  then have k: "k < length ps" by simp
  note cols = upt_cases [OF k]
  obtain ct u p where p: "ps ! k = ((ct, u), p)" by (metis prod.exhaust)
  have drop: "drop k ps = ((ct, u), p) # drop (Suc k) ps" using k p by (metis Cons_nth_drop_Suc)
  have bitmap: "\<not> length nm \<le> k div 8"
    using k Suc.prems(1) by (auto simp: client_params_ok_def nullmap_len_def)
  have IH: "validate_cols B M nm long (map fst ps) [Suc k..<length ps] (client_data long (Suc k) (drop (Suc k) ps)) = Inr []"
    "param_values B M nm long (map fst ps) [Suc k..<length ps] (client_data long (Suc k) (drop (Suc k) ps)) =
       map (\<lambda>i. client_value long i (ps ! i)) [Suc k..<length ps]"
    using Suc.hyps(1) [of "Suc k"] Suc.hyps(2) Suc.prems k by simp_all
  have ok: "if map_of long (word_of_nat k) \<noteq> None then accepts_long_data ct
         else null_bit nm k = (p = None) \<and> (case p of None \<Rightarrow> True | Some (w, v) \<Rightarrow> encodes ct u w v)"
    using Suc.prems(1) k p by (auto simp: client_params_ok_def)
  show ?case
  proof (cases p)
    case None
    with ok IH bitmap k show ?thesis
      by (auto simp: cols drop p split: option.splits if_splits)
  next
    case (Some wv)
    obtain w v where wv: "wv = (w, v)" by fastforce
    show ?thesis
    proof (cases "map_of long (word_of_nat k)")
      case None
      with ok Some wv have enc: "encodes ct u w v" and "\<not> null_bit nm k" by auto
      with None Some wv IH bitmap k parse_encoded [OF B enc] show ?thesis
        by (simp add: cols drop p)
    next
      case (Some data)
      with \<open>p = Some wv\<close> wv ok IH bitmap k show ?thesis by (simp add: cols drop p)
    qed
  qed
qed

subsection \<open>Properties of parameter decoding\<close>

text \<open>C18: whatever bytes an execute packet holds, once the parameter parser accepts it the backend
  can consume the iterator to its end: none of its unchecked slices, indexings and unwraps
  panics, it yields exactly as many parameters as the statement was prepared with, and the
  accumulated long data of a parameter is its value.\<close>

theorem accepted_params_never_panic:
  assumes "param_parser_new B M input stmt = (Inr it, stmt')"
  shows "\<exists>vs. params_collect B M (Suc (unat (params stmt))) it = Some (Ret vs) \<and>
     length vs = unat (params stmt)"
  using collect_parsed [OF assms] by blast

definition demo_statement :: StatementData where
  "demo_statement = new_statement\<lparr>params := 2, long_data := [(1, [7, 7])]\<rparr>"

definition demo_execute :: bytes where
  "demo_execute = [0, 1, 1, 0, 252, 0, 42]"

lemma demo_parsed:
  "param_parser_new byteorder_ref myc_ref demo_execute demo_statement =
     (Inr \<lparr>it_params = 2, it_input = demo_execute, it_nullmap = None, it_col = 0,
        it_long_data = [(1, [7, 7])], it_bound_types = [(MYSQL_TYPE_TINY, False), (MYSQL_TYPE_BLOB, False)]\<rparr>,
      demo_statement\<lparr>bound_types := [(MYSQL_TYPE_TINY, False), (MYSQL_TYPE_BLOB, False)]\<rparr>)"
  by code_simp

theorem accepted_params_never_panic_witness:
  "\<exists>vs. params_collect byteorder_ref myc_ref (Suc (unat (params demo_statement)))
       \<lparr>it_params = 2, it_input = demo_execute, it_nullmap = None, it_col = 0,
        it_long_data = [(1, [7, 7])], it_bound_types = [(MYSQL_TYPE_TINY, False), (MYSQL_TYPE_BLOB, False)]\<rparr> =
     Some (Ret vs) \<and> length vs = unat (params demo_statement)"
  by (rule accepted_params_never_panic [OF demo_parsed])

lemma client_params_received:
  assumes "byteorder_spec B" and "myc_spec M"
    and "client_params_ok nullmap (long_data stmt) ps" and "ps \<noteq> []" and "length ps = unat (params stmt)"
    and "binding = [0] \<and> bound_types stmt = map fst ps \<or>
         (\<exists>b typmap. binding = b # typmap \<and> b \<noteq> 0 \<and> type_bytes_of M typmap (map fst ps))"
  shows "\<exists>it. param_parser_new B M (nullmap @ binding @ client_data (long_data stmt) 0 ps) stmt =
       (Inr it, stmt\<lparr>bound_types := map fst ps\<rparr>) \<and>
     params_collect B M (Suc (length ps)) it =
       Some (Ret (map (\<lambda>i. client_value (long_data stmt) i (ps ! i)) [0..<length ps]))"
proof -
  let ?data = "client_data (long_data stmt) 0 ps" and ?n = "length ps"
  let ?input = "nullmap @ binding @ ?data"
  have nm: "length nullmap = nullmap_len ?n" using assms(3) by (simp add: client_params_ok_def)
  have n_eq: "unat (params stmt) = ?n" using assms(5) by simp
  then have n: "0 < params stmt" using assms(4) by (cases "params stmt = 0") (auto simp: word_neq_0_conv)
  have binding: "validate_binding M (params stmt) (binding @ ?data) (bound_types stmt) = (Inr ?data, map fst ps)"
    using assms(6)
  proof
    assume "binding = [0] \<and> bound_types stmt = map fst ps"
    with n n_eq show ?thesis by (simp add: validate_binding_def)
  next
    assume "\<exists>b typmap. binding = b # typmap \<and> b \<noteq> 0 \<and> type_bytes_of M typmap (map fst ps)"
    then obtain b typmap where b: "binding = b # typmap" "b \<noteq> 0" "type_bytes_of M typmap (map fst ps)" by blast
    then have "length typmap = 2 * unat (params stmt)" by (simp add: type_bytes_of_def n_eq)
    with b n bind_types_ok [OF b(3), of "[]"] show ?thesis by (simp add: validate_binding_def Let_def)
  qed
  have data: "validate_cols B M nullmap (long_data stmt) (map fst ps) [0..<?n] ?data = Inr []"
    "param_values B M nullmap (long_data stmt) (map fst ps) [0..<?n] ?data =
       map (\<lambda>i. client_value (long_data stmt) i (ps ! i)) [0..<?n]"
    using client_data_validated [OF assms(1-3), of 0] by simp_all
  have "validate B M ?input stmt = (Inr (), stmt\<lparr>bound_types := map fst ps\<rparr>)"
    using nm binding data(1) by (simp add: validate_def Let_def n_eq)
  then have parsed: "param_parser_new B M ?input stmt =
      (Inr \<lparr>it_params = params stmt, it_input = ?input, it_nullmap = None, it_col = 0,
         it_long_data = long_data stmt, it_bound_types = map fst ps\<rparr>, stmt\<lparr>bound_types := map fst ps\<rparr>)"
    by (simp add: param_parser_new_def)
  from collect_parsed [OF this] obtain nm' rest where
    collected: "params_collect B M (Suc ?n) \<lparr>it_params = params stmt, it_input = ?input, it_nullmap = None,
        it_col = 0, it_long_data = long_data stmt, it_bound_types = map fst ps\<rparr> =
       Some (Ret (param_values B M nm' (long_data stmt) (map fst ps) [0..<?n] rest))"
    and su: "params_setup M \<lparr>it_params = params stmt, it_input = ?input, it_nullmap = None,
        it_col = 0, it_long_data = long_data stmt, it_bound_types = map fst ps\<rparr> =
       Ret \<lparr>it_params = params stmt, it_input = rest, it_nullmap = Some nm',
        it_col = 0, it_long_data = long_data stmt, it_bound_types = map fst ps\<rparr>"
    by (auto simp: n_eq)
  have "nm' = nullmap" using su nm
    by (auto simp: params_setup_def Let_def n_eq split: if_splits prod.splits sum.splits)
  moreover have "rest = ?data" using su nm n binding
    by (auto simp: params_setup_def validate_binding_def Let_def n_eq split: if_splits prod.splits sum.splits)
  ultimately show ?thesis using parsed collected data(2) by auto
qed

text \<open>C13: the parameters a client encodes are the parameters the backend receives: with new types
  or with those bound by an earlier execute, the values come back in order, NULL where the null
  map says so, and long data in preference to both.\<close>

theorem params_roundtrip:
  assumes "byteorder_spec B" and "myc_spec M"
    and "client_params_ok nullmap (long_data stmt) ps" and "ps \<noteq> []" and "length ps = unat (params stmt)"
    and "binding = [0] \<and> bound_types stmt = map fst ps \<or>
         (\<exists>b typmap. binding = b # typmap \<and> b \<noteq> 0 \<and> type_bytes_of M typmap (map fst ps))"
  shows "\<exists>it. param_parser_new B M (nullmap @ binding @ client_data (long_data stmt) 0 ps) stmt =
       (Inr it, stmt\<lparr>bound_types := map fst ps\<rparr>) \<and>
     params_collect B M (Suc (length ps)) it =
       Some (Ret (map (\<lambda>i. client_value (long_data stmt) i (ps ! i)) [0..<length ps]))"
  by (rule client_params_received [OF assms])

definition demo_client_params :: "client_param list" where
  "demo_client_params =
     [((MYSQL_TYPE_TINY, False), Some ([42], IntV 42)), ((MYSQL_TYPE_BLOB, False), None)]"

theorem params_roundtrip_witness:
  "\<exists>it. param_parser_new byteorder_ref myc_ref
       ([0] @ [1, 1, 0, 252, 0] @ client_data (long_data demo_statement) 0 demo_client_params) demo_statement =
       (Inr it, demo_statement\<lparr>bound_types := map fst demo_client_params\<rparr>) \<and>
     params_collect byteorder_ref myc_ref (Suc (length demo_client_params)) it =
       Some (Ret (map (\<lambda>i. client_value (long_data demo_statement) i (demo_client_params ! i))
         [0..<length demo_client_params]))"
proof (rule params_roundtrip)
  have "encodes MYSQL_TYPE_TINY False [42] (IntV (scast (42 :: u8)))" by (rule enc_i8)
  then show "client_params_ok [0] (long_data demo_statement) demo_client_params"
    by (simp add: client_params_ok_def demo_client_params_def demo_statement_def new_statement_def
        nullmap_len_def null_bit_def less_Suc_eq accepts_long_data_def numeral_2_eq_2)
  have "coltype_try_from myc_ref 1 = Inr MYSQL_TYPE_TINY" "coltype_try_from myc_ref 252 = Inr MYSQL_TYPE_BLOB"
    by code_simp+
  then have "type_bytes_of myc_ref [1, 0, 252, 0] (map fst demo_client_params)"
    by (auto simp: type_bytes_of_def demo_client_params_def less_Suc_eq)
  then show "[1, 1, 0, 252, 0] = [0 :: u8] \<and> bound_types demo_statement = map fst demo_client_params \<or>
      (\<exists>b typmap. [1, 1, 0, 252, 0] = b # typmap \<and> b \<noteq> 0 \<and>
         type_bytes_of myc_ref typmap (map fst demo_client_params))"
    by simp
qed (simp_all add: demo_client_params_def demo_statement_def new_statement_def)

end
