(* ===== verification/Messages.thy ===== *)
theory Messages
  imports PacketWriter
begin

text \<open>
  The abstract behaviour of code that answers a client through the packet writer: such a
  call emits a sequence of packets. \<open>emits m ps\<close> says that \<open>m\<close> puts the frames of \<open>ps\<close> on the
  wire, consecutively numbered, all of them when it succeeds and a prefix of them when it
  fails; \<open>completes m ps\<close> says that it succeeds on a transport that only fragments, when the
  packets fit the limit. Both compose along \<open>then_io\<close>, so the packets of a whole response
  are read off the code that writes it.
\<close>

subsection \<open>Sequences of packets on the wire\<close>

fun packets_wire :: "u8 \<Rightarrow> bytes list \<Rightarrow> bytes" where
  "packets_wire s [] = []"
| "packets_wire s (p # ps) = frames s p @ packets_wire (s + word_of_nat (frame_count p)) ps"

definition seq_after :: "u8 \<Rightarrow> bytes list \<Rightarrow> u8" where
  "seq_after s ps = s + word_of_nat (sum_list (map frame_count ps))"

lemma seq_after_simps [simp]:
  "seq_after s [] = s" "seq_after s (p # ps) = seq_after (s + word_of_nat (frame_count p)) ps"
  by (simp_all add: seq_after_def)

lemma seq_after_append [simp]: "seq_after s (ps @ qs) = seq_after (seq_after s ps) qs"
  by (simp add: seq_after_def)

lemma packets_wire_append:
  "packets_wire s (ps @ qs) = packets_wire s ps @ packets_wire (seq_after s ps) qs"
  by (induction ps arbitrary: s) simp_all

subsection \<open>Emitting packets\<close>

definition ready :: "PacketWriter \<Rightarrow> bool" where
  "ready w \<longleftrightarrow> buffer (packet_builder w) = []"

definition same_limits :: "PacketWriter \<Rightarrow> PacketWriter \<Rightarrow> bool" where
  "same_limits w w' \<longleftrightarrow>
     max_packet_size (packet_builder w') = max_packet_size (packet_builder w) \<and>
     flush_threshold w' = flush_threshold w \<and> write_timeout w' = write_timeout w"

lemma same_limits_refl [simp]: "same_limits w w"
  by (simp add: same_limits_def)

lemma same_limits_trans: "same_limits u v \<Longrightarrow> same_limits v w \<Longrightarrow> same_limits u w"
  by (simp add: same_limits_def)

definition emitted :: "PacketWriter \<Rightarrow> bytes list \<Rightarrow> PacketWriter \<Rightarrow> bool" where
  "emitted w ps w' \<longleftrightarrow> ready w' \<and> same_limits w w' \<and>
     wire w' = wire w @ packets_wire (seq (packet_builder w)) ps \<and>
     seq (packet_builder w') = seq_after (seq (packet_builder w)) ps"

definition partially_emitted :: "PacketWriter \<Rightarrow> bytes list \<Rightarrow> PacketWriter \<Rightarrow> bool" where
  "partially_emitted w ps w' \<longleftrightarrow> same_limits w w' \<and>
     (\<exists>sent rest. packets_wire (seq (packet_builder w)) ps = sent @ rest \<and> wire w' = wire w @ sent)"

definition emits :: "(PacketWriter, unit) io \<Rightarrow> bytes list \<Rightarrow> bool" where
  "emits m ps \<longleftrightarrow> (\<forall>w r w'. ready w \<longrightarrow> m w = (r, w') \<longrightarrow>
     (case r of Inl e \<Rightarrow> partially_emitted w ps w' | Inr _ \<Rightarrow> emitted w ps w'))"

definition fits :: "PacketWriter \<Rightarrow> bytes list \<Rightarrow> bool" where
  "fits w ps \<longleftrightarrow> max_packet_size (packet_builder w) \<le> usize_max \<and>
     (\<forall>p \<in> set ps. length p \<le> max_packet_size (packet_builder w))"

definition completes :: "(PacketWriter, unit) io \<Rightarrow> bytes list \<Rightarrow> bool" where
  "completes m ps \<longleftrightarrow> (\<forall>w. ready w \<longrightarrow> writer_reliable w \<longrightarrow> fits w ps \<longrightarrow>
     (\<exists>w'. m w = (Inr (), w') \<and> writer_reliable w'))"

lemma emitsI:
  assumes "\<And>w w'. ready w \<Longrightarrow> m w = (Inr (), w') \<Longrightarrow> emitted w ps w'"
    and "\<And>w e w'. ready w \<Longrightarrow> m w = (Inl e, w') \<Longrightarrow> partially_emitted w ps w'"
  shows "emits m ps"
  using assms by (auto simp: emits_def split: sum.split)

lemma emitsD: "emits m ps \<Longrightarrow> ready w \<Longrightarrow> m w = (Inr u, w') \<Longrightarrow> emitted w ps w'"
  by (fastforce simp: emits_def)

lemma emits_errorD: "emits m ps \<Longrightarrow> ready w \<Longrightarrow> m w = (Inl e, w') \<Longrightarrow> partially_emitted w ps w'"
  by (fastforce simp: emits_def)

lemma completesD:
  "completes m ps \<Longrightarrow> ready w \<Longrightarrow> writer_reliable w \<Longrightarrow> fits w ps \<Longrightarrow>
     \<exists>w'. m w = (Inr (), w') \<and> writer_reliable w'"
  by (simp add: completes_def)

lemma fits_simps [simp]:
  "fits w [] \<longleftrightarrow> max_packet_size (packet_builder w) \<le> usize_max"
  "fits w (p # ps) \<longleftrightarrow> length p \<le> max_packet_size (packet_builder w) \<and> fits w ps"
  "fits w (ps @ qs) \<longleftrightarrow> fits w ps \<and> fits w qs"
  by (auto simp: fits_def)

lemma fits_limits: "same_limits w w' \<Longrightarrow> fits w' ps \<longleftrightarrow> fits w ps"
  by (simp add: fits_def same_limits_def)

lemma emitted_append: "emitted u ps v \<Longrightarrow> emitted v qs w \<Longrightarrow> emitted u (ps @ qs) w"
  by (auto simp: emitted_def packets_wire_append intro: same_limits_trans)

lemma partially_emitted_append:
  "partially_emitted u ps w \<Longrightarrow> partially_emitted u (ps @ qs) w"
  "emitted u ps v \<Longrightarrow> partially_emitted v qs w \<Longrightarrow> partially_emitted u (ps @ qs) w"
proof -
  assume "partially_emitted u ps w"
  then show "partially_emitted u (ps @ qs) w"
    by (auto simp: partially_emitted_def packets_wire_append)
next
  assume uv: "emitted u ps v" and "partially_emitted v qs w"
  then obtain sent rest where "packets_wire (seq (packet_builder v)) qs = sent @ rest"
    "wire w = wire v @ sent" "same_limits v w"
    by (auto simp: partially_emitted_def)
  with uv show "partially_emitted u (ps @ qs) w"
    unfolding partially_emitted_def emitted_def
    by (intro conjI exI [of _ "packets_wire (seq (packet_builder u)) ps @ sent"] exI [of _ rest])
      (auto simp: packets_wire_append intro: same_limits_trans)
qed

lemma emits_ok [intro!, simp]: "emits (ok_io ()) []" "emits (Pair (Inr ())) []"
  by (auto simp: emits_def emitted_def)

lemma completes_ok [intro!, simp]: "completes (ok_io ()) []" "completes (Pair (Inr ())) []"
  by (auto simp: completes_def)

lemma emits_then:
  assumes "emits m ps" and "emits k qs"
  shows "emits (then_io m k) (ps @ qs)"
proof (rule emitsI)
  fix w w' assume "ready w" "then_io m k w = (Inr (), w')"
  then obtain v where v: "m w = (Inr (), v)" "k v = (Inr (), w')" by (auto simp: then_io_eq_Inr)
  with emitsD [OF assms(1) \<open>ready w\<close>] have "emitted w ps v" by blast
  moreover from this have "ready v" by (simp add: emitted_def)
  ultimately show "emitted w (ps @ qs) w'" using emitsD [OF assms(2) _ v(2)] emitted_append by blast
next
  fix w e w' assume w: "ready w" and "then_io m k w = (Inl e, w')"
  then consider "m w = (Inl e, w')" | v where "m w = (Inr (), v)" "k v = (Inl e, w')"
    by (auto simp: then_io_def and_then_eq_Inl)
  then show "partially_emitted w (ps @ qs) w'"
  proof cases
    case 1
    with emits_errorD [OF assms(1) w] show ?thesis by (blast intro: partially_emitted_append(1))
  next
    case 2
    then have uv: "emitted w ps v" using emitsD [OF assms(1) w] by blast
    then have "ready v" by (simp add: emitted_def)
    from emits_errorD [OF assms(2) this 2(2)] uv show ?thesis by (blast intro: partially_emitted_append(2))
  qed
qed

lemma completes_then:
  assumes "emits m ps" and "completes m ps" and "completes k qs"
  shows "completes (then_io m k) (ps @ qs)"
  unfolding completes_def
proof (intro allI impI)
  fix w assume w: "ready w" "writer_reliable w" "fits w (ps @ qs)"
  with completesD [OF assms(2)] obtain v where v: "m w = (Inr (), v)" "writer_reliable v" by auto
  with emitsD [OF assms(1) w(1)] have "emitted w ps v" by blast
  then have "ready v" "fits v qs" using w(3) by (auto simp: emitted_def fits_limits)
  with completesD [OF assms(3)] v show "\<exists>w'. then_io m k w = (Inr (), w') \<and> writer_reliable w'"
    by (auto simp: then_io_Inr)
qed

lemma emits_flush: "emits flush_output []"
proof (rule emitsI)
  fix w w' assume "ready w" "flush_output w = (Inr (), w')"
  then show "emitted w [] w'"
    using flush_output_frame [of w "Inr ()" w'] by (simp add: emitted_def ready_def same_config_def same_limits_def)
next
  fix w e w' assume "ready w" "flush_output w = (Inl e, w')"
  then show "partially_emitted w [] w'"
    using flush_output_frame [of w "Inl e" w']
    by (simp add: partially_emitted_def same_config_def same_limits_def)
qed

lemma completes_flush: "completes flush_output []"
  using flush_output_reliable by (auto simp: completes_def)

subsection \<open>Channels\<close>

text \<open>
  What the writers of responses rely on: an operation that sends one non-empty packet. Two
  implementations are used: building a packet piece by piece, and handing over an already
  encoded one.
\<close>

locale packet_channel =
  fixes send :: "'i \<Rightarrow> (PacketWriter, unit) io"
    and encode :: "'i \<Rightarrow> bytes"
    and valid :: "'i \<Rightarrow> bool"
  assumes send_emits: "valid i \<Longrightarrow> emits (send i) [encode i]"
    and send_completes: "valid i \<Longrightarrow> completes (send i) [encode i]"
begin

lemma send_all_emits: "list_all valid is \<Longrightarrow> emits (seq_io (map send is)) (map encode is)"
proof (induction "is")
  case Nil
  then show ?case by simp
next
  case (Cons i "is")
  then have "emits (then_io (send i) (seq_io (map send is))) ([encode i] @ map encode is)"
    by (intro emits_then send_emits) auto
  then show ?case by simp
qed

lemma send_all_completes: "list_all valid is \<Longrightarrow> completes (seq_io (map send is)) (map encode is)"
proof (induction "is")
  case Nil
  then show ?case by simp
next
  case (Cons i "is")
  then have "completes (then_io (send i) (seq_io (map send is))) ([encode i] @ map encode is)"
    by (intro completes_then send_emits send_completes) auto
  then show ?case by simp
qed

end

subsection \<open>Building a packet from pieces\<close>

text \<open>A run of \<open>write\<close> calls, each followed by \<open>?\<close>.\<close>

definition writes :: "bytes list \<Rightarrow> (PacketWriter, unit) io" where
  "writes pieces = seq_io (map write_all pieces)"

definition message :: "byteorder_ops \<Rightarrow> bytes list \<Rightarrow> (PacketWriter, unit) io" where
  "message B pieces = then_io (writes pieces) (end_packet B)"

lemma writes_outcome:
  "writes ps w = (r, w') \<Longrightarrow>
     (\<exists>b. w' = w\<lparr>packet_builder := (packet_builder w)\<lparr>buffer := b\<rparr>\<rparr> \<and>
        (r = Inr () \<longrightarrow> b = buffer (packet_builder w) @ concat ps \<and>
           (concat ps = [] \<or> length b \<le> max_packet_size (packet_builder w))))"
proof (induction ps arbitrary: w)
  case Nil
  then show ?case by (auto simp: writes_def intro!: exI [of _ "buffer (packet_builder w)"])
next
  case (Cons p ps)
  show ?case
  proof (cases "write_all p w")
    case (Pair r1 v)
    show ?thesis
    proof (cases r1)
      case (Inl e)
      with Pair Cons.prems have "r = Inl e" "w' = w"
        using write_all_cases(2) [of p w e v] by (auto simp: writes_def then_io_Inl)
      then show ?thesis by (auto intro!: exI [of _ "buffer (packet_builder w)"])
    next
      case (Inr u)
      with Pair have v: "v = w\<lparr>packet_builder := (packet_builder w)\<lparr>buffer := buffer (packet_builder w) @ p\<rparr>\<rparr>"
        using write_all_cases(1) by auto
      have lim: "p = [] \<or> length (buffer (packet_builder w) @ p) \<le> max_packet_size (packet_builder w)"
        using Pair Inr by (auto simp: write_all_def builder_write_def checked_add_def
            split: if_splits option.splits prod.splits)
      have "writes ps v = (r, w')" using Pair Inr Cons.prems by (simp add: writes_def then_io_Inr)
      from Cons.IH [OF this] obtain b where b: "w' = v\<lparr>packet_builder := (packet_builder v)\<lparr>buffer := b\<rparr>\<rparr>"
        "r = Inr () \<longrightarrow> b = buffer (packet_builder v) @ concat ps \<and>
           (concat ps = [] \<or> length b \<le> max_packet_size (packet_builder v))" by blast
      show ?thesis
        by (rule exI [of _ b], cases "concat ps = []") (use b v lim in \<open>auto simp del: concat_eq_Nil_conv\<close>)
    qed
  qed
qed

lemma writes_fit:
  "length (buffer (packet_builder w)) + length (concat ps) \<le> max_packet_size (packet_builder w) \<Longrightarrow>
   max_packet_size (packet_builder w) \<le> usize_max \<Longrightarrow>
   writes ps w = (Inr (), w\<lparr>packet_builder :=
     (packet_builder w)\<lparr>buffer := buffer (packet_builder w) @ concat ps\<rparr>\<rparr>)"
proof (induction ps arbitrary: w)
  case Nil
  then show ?case by (simp add: writes_def)
next
  case (Cons p ps)
  have "write_all p w = (Inr (), w\<lparr>packet_builder :=
      (packet_builder w)\<lparr>buffer := buffer (packet_builder w) @ p\<rparr>\<rparr>)"
    using Cons.prems by (intro write_all_fits) auto
  then show ?case
    using Cons.IH [of "w\<lparr>packet_builder := (packet_builder w)\<lparr>buffer := buffer (packet_builder w) @ p\<rparr>\<rparr>"]
      Cons.prems by (simp add: writes_def then_io_Inr)
qed

lemma end_packet_emits:
  assumes B: "byteorder_spec B" and run: "end_packet B v = (r, w')"
    and v: "v = w\<lparr>packet_builder := (packet_builder w)\<lparr>buffer := p\<rparr>\<rparr>"
    and p: "p \<noteq> []" "length p \<le> max_packet_size (packet_builder w)"
  shows "case r of Inl e \<Rightarrow> partially_emitted w [p] w' | Inr _ \<Rightarrow> emitted w [p] w'"
proof -
  have "buffer (packet_builder v) \<noteq> []"
    "length (buffer (packet_builder v)) \<le> max_packet_size (packet_builder v)"
    using p by (simp_all add: v)
  note out = end_packet_outcome [OF B run this]
  then show ?thesis
    by (auto simp: v emitted_def partially_emitted_def sends_def ready_def same_limits_def
        split: sum.split)
qed

lemma message_emits:
  assumes B: "byteorder_spec B" and ne: "concat ps \<noteq> []"
  shows "emits (message B ps) [concat ps]"
  unfolding emits_def
proof (intro allI impI)
  fix w r w' assume w: "ready w" and run: "message B ps w = (r, w')"
  obtain r1 v where r1: "writes ps w = (r1, v)" by fastforce
  from writes_outcome [OF r1] obtain b where b: "v = w\<lparr>packet_builder := (packet_builder w)\<lparr>buffer := b\<rparr>\<rparr>"
    "r1 = Inr () \<longrightarrow> b = concat ps \<and> length b \<le> max_packet_size (packet_builder w)"
    using ne w by (auto simp: ready_def)
  show "case r of Inl e \<Rightarrow> partially_emitted w [concat ps] w' | Inr _ \<Rightarrow> emitted w [concat ps] w'"
  proof (cases r1)
    case (Inl e)
    with run r1 have "r = Inl e" "w' = v" by (simp_all add: message_def then_io_Inl)
    then show ?thesis
      by (simp add: partially_emitted_def b(1) same_limits_def)
  next
    case (Inr u)
    with run r1 have "end_packet B v = (r, w')" by (simp add: message_def then_io_Inr)
    moreover have "b = concat ps" "length b \<le> max_packet_size (packet_builder w)"
      using b(2) Inr by auto
    ultimately show ?thesis using end_packet_emits [OF B _ b(1)] ne by blast
  qed
qed

lemma message_completes:
  assumes ne: "concat ps \<noteq> []"
  shows "completes (message B ps) [concat ps]"
  unfolding completes_def
proof (intro allI impI)
  fix w assume w: "ready w" "writer_reliable w" "fits w [concat ps]"
  define v where "v = w\<lparr>packet_builder := (packet_builder w)\<lparr>buffer := concat ps\<rparr>\<rparr>"
  have "writes ps w = (Inr (), v)"
    using writes_fit [of w ps] w by (simp add: ready_def v_def)
  moreover have "\<exists>w'. end_packet B v = (Inr (), w') \<and> writer_reliable w'"
    by (rule end_packet_reliable) (use w in \<open>simp_all add: v_def writer_reliable_def\<close>)
  ultimately show "\<exists>w'. message B ps w = (Inr (), w') \<and> writer_reliable w'"
    by (simp add: message_def then_io_Inr)
qed

lemma write_packet_emits:
  assumes B: "byteorder_spec B" and p: "p \<noteq> []"
  shows "emits (write_packet B p) [p]"
  unfolding emits_def
proof (intro allI impI)
  fix w r w' assume w: "ready w" and run: "write_packet B p w = (r, w')"
  show "case r of Inl e \<Rightarrow> partially_emitted w [p] w' | Inr _ \<Rightarrow> emitted w [p] w'"
  proof (cases "length p \<le> max_packet_size (packet_builder w)")
    case True
    from write_packet_outcome [OF B _ p True run] w show ?thesis
      by (auto simp: ready_def emitted_def partially_emitted_def sends_def same_config_def
          same_limits_def split: sum.split)
  next
    case False
    with run w have "r = Inl packet_limit_error" "w' = w"
      by (simp_all add: write_packet_rejects ready_def)
    then show ?thesis by (simp add: partially_emitted_def)
  qed
qed

lemma write_packet_completes: "p \<noteq> [] \<Longrightarrow> completes (write_packet B p) [p]"
  using write_packet_reliable by (simp add: completes_def ready_def)

interpretation built: packet_channel "message B" concat "\<lambda>ps. byteorder_spec B \<and> concat ps \<noteq> []"
  for B :: byteorder_ops
  by unfold_locales (blast intro: message_emits message_completes)+

interpretation encoded: packet_channel "write_packet B" "\<lambda>p. p" "\<lambda>p. byteorder_spec B \<and> p \<noteq> []"
  for B :: byteorder_ops
  by unfold_locales (blast intro: write_packet_emits write_packet_completes)+

end
