(* ===== verification/Writers.thy ===== *)
theory Writers
  imports Messages Commands
begin

text \<open>
  \<open>writers.rs\<close>: the packets a server answers with (OK, EOF, error, prepare response and column
  definitions), and the validation of column metadata in \<open>lib.rs\<close>. The second half states the
  client's view: what a peer that follows the protocol reads from each packet.
\<close>

subsection \<open>Column metadata\<close>

definition BIN_GENERAL_CI :: u16 where
  "BIN_GENERAL_CI = 0x3f"

definition column_charset :: "myc_ops \<Rightarrow> Column \<Rightarrow> u16" where
  "column_charset M c =
     (if intersects (colflags c) (colflag_bits M BINARY_FLAG OR colflag_bits M BLOB_FLAG) \<or>
         coltype c \<in> {MYSQL_TYPE_TINY_BLOB, MYSQL_TYPE_BLOB, MYSQL_TYPE_MEDIUM_BLOB,
           MYSQL_TYPE_LONG_BLOB, MYSQL_TYPE_GEOMETRY}
      then BIN_GENERAL_CI
      else if coltype c \<in> {MYSQL_TYPE_STRING, MYSQL_TYPE_VAR_STRING, MYSQL_TYPE_VARCHAR,
           MYSQL_TYPE_ENUM, MYSQL_TYPE_SET, MYSQL_TYPE_JSON}
      then UTF8MB4_GENERAL_CI M
      else BIN_GENERAL_CI)"

definition validate_collation :: "myc_ops \<Rightarrow> u16 \<Rightarrow> (ErrorKind \<times> bytes) + unit" where
  "validate_collation M i =
     (case collation_charset M i of
        None \<Rightarrow> Inl (ER_UNKNOWN_COLLATION, ascii ''unknown collation id '' @ dec (unat i))
      | Some charset \<Rightarrow>
          if charset \<in> {ascii ''utf8mb3'', ascii ''utf8mb4''} then Inr ()
          else Inl (ER_UNKNOWN_CHARACTER_SET, ascii ''unsupported client character set '' @ charset @
            ascii ''; opensrv requires UTF-8''))"

definition metadata_validate :: "myc_ops \<Rightarrow> ColumnMetadata \<Rightarrow> unit io_result" where
  "metadata_validate M m =
     (let check = (case collation m of
          None \<Rightarrow> Inr ()
        | Some i \<Rightarrow> if i = 63 then Inr ()
            else (case validate_collation M i of
                    Inl (_, text) \<Rightarrow> Inl (IoError InvalidInput text) | Inr _ \<Rightarrow> Inr ()))
      in case check of
        Inl e \<Rightarrow> Inl e
      | Inr _ \<Rightarrow> if decimals m > 31 then Inl (IoError InvalidInput (ascii ''column decimals exceeds 31''))
                else Inr ())"

text \<open>Only durable session state carries over to the next response.\<close>

definition session_status_flags :: "myc_ops \<Rightarrow> u16 \<Rightarrow> u16" where
  "session_status_flags M flags = flags AND
     (status_bits M SERVER_STATUS_IN_TRANS OR status_bits M SERVER_STATUS_AUTOCOMMIT OR
      status_bits M SERVER_STATUS_NO_BACKSLASH_ESCAPES OR
      status_bits M SERVER_STATUS_IN_TRANS_READONLY)"

subsection \<open>Response packets\<close>

text \<open>
  Each packet is the run of \<open>write\<close> calls of the source, in its order, followed by
  \<open>end_packet\<close>.
\<close>

definition write_eof_packet :: "byteorder_ops \<Rightarrow> u16 \<Rightarrow> (PacketWriter, unit) io" where
  "write_eof_packet B s = message B [[0xFE, 0x00, 0x00], bo_write_u16 B s]"

definition ok_pieces :: "byteorder_ops \<Rightarrow> myc_ops \<Rightarrow> u32 \<Rightarrow> OkResponse \<Rightarrow> bytes list" where
  "ok_pieces B M caps ok =
     (let has_session_track = has_cap M caps CLIENT_SESSION_TRACK;
          send_info = (info ok \<noteq> [] \<or> has_session_track)
      in [[header ok]] @
         write_lenenc_int M (affected_rows ok) @
         write_lenenc_int M (last_insert_id ok) @
         (if has_cap M caps CLIENT_PROTOCOL_41 then
            [bo_write_u16 B (ok_status_flags ok), bo_write_u16 B (warnings ok)]
          else if has_cap M caps CLIENT_TRANSACTIONS then [bo_write_u16 B (ok_status_flags ok)]
          else []) @
         (if send_info then
            (if has_session_track then write_lenenc_str M (info ok) else [info ok])
          else []) @
         (if has_session_track \<and>
             contains (ok_status_flags ok) (status_bits M SERVER_SESSION_STATE_CHANGED)
          then write_lenenc_str M (session_state_info ok) else []))"

definition write_ok_packet ::
    "byteorder_ops \<Rightarrow> myc_ops \<Rightarrow> u32 \<Rightarrow> OkResponse \<Rightarrow> (PacketWriter, unit) io" where
  "write_ok_packet B M caps ok = message B (ok_pieces B M caps ok)"

definition write_err :: "byteorder_ops \<Rightarrow> ErrorKind \<Rightarrow> bytes \<Rightarrow> (PacketWriter, unit) io" where
  "write_err B err msg =
     message B [[0xFF], bo_write_u16 B (error_code err), [0x23], sqlstate err, msg]"

definition column_pieces ::
    "byteorder_ops \<Rightarrow> myc_ops \<Rightarrow> bool \<Rightarrow> Column \<times> ColumnMetadata \<Rightarrow> bytes list" where
  "column_pieces B M is_com_field_list cm = (case cm of (c, metadata) \<Rightarrow>
     write_lenenc_str M (ascii ''def'') @
     write_lenenc_str M [] @
     write_lenenc_str M (table c) @
     write_lenenc_str M [] @
     write_lenenc_str M (column c) @
     write_lenenc_str M [] @
     write_lenenc_int M 0xC @
     [bo_write_u16 B (case collation metadata of Some i \<Rightarrow> i | None \<Rightarrow> column_charset M c),
      bo_write_u32 B (if collen c = 0 then 1024 else collen c),
      [coltype_u8 M (coltype c)],
      bo_write_u16 B (colflags c),
      [decimals metadata],
      [0x00, 0x00]] @
     (if is_com_field_list then [[0xfb]] else []))"

definition write_column_definitions_41 ::
    "byteorder_ops \<Rightarrow> myc_ops \<Rightarrow> (Column \<times> ColumnMetadata) list \<Rightarrow> u32 \<Rightarrow> bool \<Rightarrow> u16 \<Rightarrow>
     (PacketWriter, unit) io" where
  "write_column_definitions_41 B M i caps is_com_field_list status =
     then_io (seq_io (map (message B) (map (column_pieces B M is_com_field_list) i)))
       (if \<not> has_cap M caps CLIENT_DEPRECATE_EOF then write_eof_packet B status else ok_io ())"

text \<open>\<open>len() as u16\<close> keeps the low 16 bits of the number of columns.\<close>

definition write_prepare_ok ::
    "byteorder_ops \<Rightarrow> myc_ops \<Rightarrow> u32 \<Rightarrow> (Column \<times> ColumnMetadata) list \<Rightarrow>
     (Column \<times> ColumnMetadata) list \<Rightarrow> u32 \<Rightarrow> u16 \<Rightarrow> (PacketWriter, unit) io" where
  "write_prepare_ok B M i pi ci caps status =
     then_io (message B [[0x00], bo_write_u32 B i, bo_write_u16 B (word_of_nat (length ci)),
         bo_write_u16 B (word_of_nat (length pi)), [0x00], bo_write_u16 B 0])
       (then_io (if length pi > 0 then write_column_definitions_41 B M pi caps False status else ok_io ())
         (if length ci > 0 then write_column_definitions_41 B M ci caps False status else ok_io ()))"

definition column_definitions ::
    "byteorder_ops \<Rightarrow> myc_ops \<Rightarrow> (Column \<times> ColumnMetadata) list \<Rightarrow> u32 \<Rightarrow> u16 \<Rightarrow>
     (PacketWriter, unit) io" where
  "column_definitions B M i caps status =
     then_io (message B (write_lenenc_int M (word_of_nat (length i))))
       (write_column_definitions_41 B M i caps False status)"

subsection \<open>The packets each writer emits\<close>

definition eof_payload :: "u16 \<Rightarrow> bytes" where
  "eof_payload s = [0xFE, 0x00, 0x00] @ le16 s"

definition err_payload :: "ErrorKind \<Rightarrow> bytes \<Rightarrow> bytes" where
  "err_payload err msg = [0xFF] @ le16 (error_code err) @ [0x23] @ sqlstate err @ msg"

definition column_payload :: "byteorder_ops \<Rightarrow> myc_ops \<Rightarrow> bool \<Rightarrow> Column \<times> ColumnMetadata \<Rightarrow> bytes" where
  "column_payload B M f cm = concat (column_pieces B M f cm)"

definition column_packets ::
    "byteorder_ops \<Rightarrow> myc_ops \<Rightarrow> (Column \<times> ColumnMetadata) list \<Rightarrow> u32 \<Rightarrow> bool \<Rightarrow> u16 \<Rightarrow> bytes list" where
  "column_packets B M i caps f status =
     map (column_payload B M f) i @
     (if has_cap M caps CLIENT_DEPRECATE_EOF then [] else [eof_payload status])"

definition prepare_payload :: "u32 \<Rightarrow> nat \<Rightarrow> nat \<Rightarrow> bytes" where
  "prepare_payload i n_params n_columns =
     [0x00] @ le32 i @ le16 (word_of_nat n_columns) @ le16 (word_of_nat n_params) @ [0x00] @ le16 0"

definition prepare_packets ::
    "byteorder_ops \<Rightarrow> myc_ops \<Rightarrow> u32 \<Rightarrow> (Column \<times> ColumnMetadata) list \<Rightarrow>
     (Column \<times> ColumnMetadata) list \<Rightarrow> u32 \<Rightarrow> u16 \<Rightarrow> bytes list" where
  "prepare_packets B M i pi ci caps status =
     [prepare_payload i (length pi) (length ci)] @
     (if pi = [] then [] else column_packets B M pi caps False status) @
     (if ci = [] then [] else column_packets B M ci caps False status)"

named_theorems emit_intros

lemmas emit_basics [emit_intros] = emits_ok completes_ok emits_flush completes_flush

lemma emits_message:
  "byteorder_spec B \<Longrightarrow> p = concat ps \<Longrightarrow> p \<noteq> [] \<Longrightarrow> emits (message B ps) [p]"
  "p = concat ps \<Longrightarrow> p \<noteq> [] \<Longrightarrow> completes (message B ps) [p]"
  using message_emits message_completes by blast+

lemma lenenc_int_nonempty [simp]: "lenenc_int n \<noteq> []"
  by (simp add: lenenc_int_def)

lemma eof_emits [emit_intros]:
  "byteorder_spec B \<Longrightarrow> emits (write_eof_packet B s) [eof_payload s]"
  "byteorder_spec B \<Longrightarrow> completes (write_eof_packet B s) [eof_payload s]"
  unfolding write_eof_packet_def
  by (rule emits_message; simp add: eof_payload_def byteorder_specD)+

lemma err_emits [emit_intros]:
  "byteorder_spec B \<Longrightarrow> emits (write_err B err msg) [err_payload err msg]"
  "byteorder_spec B \<Longrightarrow> completes (write_err B err msg) [err_payload err msg]"
  unfolding write_err_def
  by (rule emits_message; simp add: err_payload_def byteorder_specD)+

definition ok_payload :: "byteorder_ops \<Rightarrow> myc_ops \<Rightarrow> u32 \<Rightarrow> OkResponse \<Rightarrow> bytes" where
  "ok_payload B M caps ok = concat (ok_pieces B M caps ok)"

lemma ok_emits [emit_intros]:
  "byteorder_spec B \<Longrightarrow> emits (write_ok_packet B M caps ok) [ok_payload B M caps ok]"
  "byteorder_spec B \<Longrightarrow> completes (write_ok_packet B M caps ok) [ok_payload B M caps ok]"
  unfolding write_ok_packet_def
  by (rule emits_message; simp add: ok_payload_def ok_pieces_def Let_def)+

lemma column_pieces_nonempty: "concat (column_pieces B M f cm) \<noteq> []"
  by (cases cm) (simp add: column_pieces_def)

lemma column_definitions_41_emits [emit_intros]:
  assumes "byteorder_spec B"
  shows "emits (write_column_definitions_41 B M i caps f status) (column_packets B M i caps f status)"
    "completes (write_column_definitions_41 B M i caps f status) (column_packets B M i caps f status)"
proof -
  have valid: "list_all (\<lambda>ps. byteorder_spec B \<and> concat ps \<noteq> []) (map (column_pieces B M f) i)"
    using assms column_pieces_nonempty by (simp add: list_all_iff del: concat_eq_Nil_conv)
  have payloads: "map concat (map (column_pieces B M f) i) = map (column_payload B M f) i"
    by (simp add: column_payload_def)
  note all = built.send_all_emits [OF valid, unfolded payloads]
    built.send_all_completes [OF valid, unfolded payloads]
  have tail: "emits (if \<not> has_cap M caps CLIENT_DEPRECATE_EOF then write_eof_packet B status else ok_io ())
      (if has_cap M caps CLIENT_DEPRECATE_EOF then [] else [eof_payload status])"
    "completes (if \<not> has_cap M caps CLIENT_DEPRECATE_EOF then write_eof_packet B status else ok_io ())
      (if has_cap M caps CLIENT_DEPRECATE_EOF then [] else [eof_payload status])"
    using eof_emits [OF assms] by simp_all
  show "emits (write_column_definitions_41 B M i caps f status) (column_packets B M i caps f status)"
    unfolding write_column_definitions_41_def column_packets_def by (rule emits_then [OF all(1) tail(1)])
  show "completes (write_column_definitions_41 B M i caps f status) (column_packets B M i caps f status)"
    unfolding write_column_definitions_41_def column_packets_def by (rule completes_then [OF all(1,2) tail(2)])
qed

lemma column_definitions_emits [emit_intros]:
  assumes "byteorder_spec B" and "myc_spec M"
  shows "emits (column_definitions B M i caps status)
      (lenenc_int (word_of_nat (length i)) # column_packets B M i caps False status)"
    "completes (column_definitions B M i caps status)
      (lenenc_int (word_of_nat (length i)) # column_packets B M i caps False status)"
proof -
  have "emits (message B (write_lenenc_int M (word_of_nat (length i)))) [lenenc_int (word_of_nat (length i))]"
    "completes (message B (write_lenenc_int M (word_of_nat (length i)))) [lenenc_int (word_of_nat (length i))]"
    by (rule emits_message; simp add: assms myc_specD(7) [OF assms(2)])+
  from emits_then [OF this(1) column_definitions_41_emits(1) [OF assms(1)]]
    completes_then [OF this column_definitions_41_emits(2) [OF assms(1)]]
  show "emits (column_definitions B M i caps status)
      (lenenc_int (word_of_nat (length i)) # column_packets B M i caps False status)"
    "completes (column_definitions B M i caps status)
      (lenenc_int (word_of_nat (length i)) # column_packets B M i caps False status)"
    by (simp_all add: column_definitions_def)
qed

lemma prepare_ok_emits [emit_intros]:
  assumes "byteorder_spec B"
  shows "emits (write_prepare_ok B M i pi ci caps status) (prepare_packets B M i pi ci caps status)"
    "completes (write_prepare_ok B M i pi ci caps status) (prepare_packets B M i pi ci caps status)"
proof -
  let ?h = "message B [[0x00], bo_write_u32 B i, bo_write_u16 B (word_of_nat (length ci)),
         bo_write_u16 B (word_of_nat (length pi)), [0x00], bo_write_u16 B 0]"
  have h: "emits ?h [prepare_payload i (length pi) (length ci)]"
    "completes ?h [prepare_payload i (length pi) (length ci)]"
    by (rule emits_message; simp add: prepare_payload_def assms byteorder_specD)+
  have part: "emits (if length cs > 0 then write_column_definitions_41 B M cs caps False status else ok_io ())
      (if cs = [] then [] else column_packets B M cs caps False status)"
    "completes (if length cs > 0 then write_column_definitions_41 B M cs caps False status else ok_io ())
      (if cs = [] then [] else column_packets B M cs caps False status)" for cs
    using column_definitions_41_emits [OF assms] by simp_all
  note tail = emits_then [OF part(1) [of pi] part(1) [of ci]]
    completes_then [OF part(1,2) [of pi] part(2) [of ci]]
  show "emits (write_prepare_ok B M i pi ci caps status) (prepare_packets B M i pi ci caps status)"
    unfolding write_prepare_ok_def prepare_packets_def by (rule emits_then [OF h(1) tail(1)])
  show "completes (write_prepare_ok B M i pi ci caps status) (prepare_packets B M i pi ci caps status)"
    unfolding write_prepare_ok_def prepare_packets_def by (rule completes_then [OF h tail(2)])
qed

subsection \<open>The client's view\<close>

definition client_int :: "bytes \<Rightarrow> u64 iresult" where
  "client_int i = (case ref_read_lenenc i of Inl e \<Rightarrow> Inl NomError | Inr (n, r) \<Rightarrow> Inr (r, n))"

definition client_str :: "bytes \<Rightarrow> bytes iresult" where
  "client_str i = p_bind (client_int i) (\<lambda>i n. ref_take (unat n) i)"

definition client_ok :: "myc_ops \<Rightarrow> u32 \<Rightarrow> bytes \<Rightarrow> OkResponse iresult" where
  "client_ok M caps p =
     p_bind (ref_le 1 p) (\<lambda>i h.
     p_bind (client_int i) (\<lambda>i rows.
     p_bind (client_int i) (\<lambda>i insert_id.
     p_bind (ref_le 2 i) (\<lambda>i status.
     p_bind (ref_le 2 i) (\<lambda>i warns.
     if has_cap M caps CLIENT_SESSION_TRACK then
       p_bind (client_str i) (\<lambda>i text.
       p_bind (if contains status (status_bits M SERVER_SESSION_STATE_CHANGED) then client_str i
               else Inr (i, [])) (\<lambda>i session.
       Inr (i, \<lparr>header = h, affected_rows = rows, last_insert_id = insert_id,
         ok_status_flags = status, warnings = warns, info = text, session_state_info = session\<rparr>)))
     else
       Inr ([], \<lparr>header = h, affected_rows = rows, last_insert_id = insert_id,
         ok_status_flags = status, warnings = warns, info = i, session_state_info = []\<rparr>))))))"

definition client_err :: "bytes \<Rightarrow> (u16 \<times> bytes \<times> bytes) iresult" where
  "client_err p =
     p_bind (ref_tag [0xFF] p) (\<lambda>i _.
     p_bind (ref_le 2 i) (\<lambda>i code.
     p_bind (ref_tag [0x23] i) (\<lambda>i _.
     p_bind (ref_take 5 i) (\<lambda>i state. Inr ([], (code, state, i))))))"

record client_column =
  cl_table :: bytes
  cl_column :: bytes
  cl_charset :: u16
  cl_length :: u32
  cl_type :: u8
  cl_flags :: u16
  cl_decimals :: u8

definition client_column :: "bytes \<Rightarrow> client_column iresult" where
  "client_column p =
     p_bind (client_str p) (\<lambda>i catalog.
     p_bind (client_str i) (\<lambda>i schema.
     p_bind (client_str i) (\<lambda>i tab.
     p_bind (client_str i) (\<lambda>i org_table.
     p_bind (client_str i) (\<lambda>i name.
     p_bind (client_str i) (\<lambda>i org_name.
     p_bind (client_int i) (\<lambda>i fixed.
     p_bind (ref_le 2 i) (\<lambda>i charset.
     p_bind (ref_le 4 i) (\<lambda>i len.
     p_bind (ref_le 1 i) (\<lambda>i type.
     p_bind (ref_le 2 i) (\<lambda>i flags.
     p_bind (ref_le 1 i) (\<lambda>i decs.
     p_bind (ref_take 2 i) (\<lambda>i _.
     Inr (i, \<lparr>cl_table = tab, cl_column = name, cl_charset = charset, cl_length = len,
       cl_type = type, cl_flags = flags, cl_decimals = decs\<rparr>))))))))))))))"

text \<open>What the client should see of a column.\<close>

definition column_view :: "myc_ops \<Rightarrow> Column \<times> ColumnMetadata \<Rightarrow> client_column" where
  "column_view M cm = (case cm of (c, metadata) \<Rightarrow>
     \<lparr>cl_table = table c, cl_column = column c,
      cl_charset = (case collation metadata of Some i \<Rightarrow> i | None \<Rightarrow> column_charset M c),
      cl_length = (if collen c = 0 then 1024 else collen c), cl_type = coltype_u8 M (coltype c),
      cl_flags = colflags c, cl_decimals = decimals metadata\<rparr>)"

lemma client_int_lenenc [simp]: "client_int (lenenc_int n @ i) = Inr (i, n)"
  by (simp add: client_int_def ref_read_lenenc_int)

lemma client_str_lenenc [simp]:
  "length s \<le> usize_max \<Longrightarrow> client_str (lenenc_str s @ i) = Inr (i, s)"
  by (simp add: client_str_def lenenc_str_def lengths_fit ref_take_append)

lemma client_str_end [simp]: "length s \<le> usize_max \<Longrightarrow> client_str (lenenc_str s) = Inr ([], s)"
  using client_str_lenenc [of s "[]"] by simp

lemma client_ok_payload:
  assumes "byteorder_spec B" "myc_spec M" "has_cap M caps CLIENT_PROTOCOL_41"
    and "length (info ok) \<le> usize_max" "length (session_state_info ok) \<le> usize_max"
  shows "client_ok M caps (ok_payload B M caps ok) = Inr ([], ok\<lparr>session_state_info :=
     (if has_cap M caps CLIENT_SESSION_TRACK \<and>
         contains (ok_status_flags ok) (status_bits M SERVER_SESSION_STATE_CHANGED)
      then session_state_info ok else [])\<rparr>)"
  using assms(3-5)
  by (simp add: client_ok_def ok_payload_def ok_pieces_def Let_def byteorder_specD [OF assms(1)]
      myc_specD [OF assms(2)])

lemma client_column_payload:
  assumes "byteorder_spec B" "myc_spec M"
    and "length (table (fst cm)) \<le> usize_max" "length (column (fst cm)) \<le> usize_max"
  shows "client_column (column_payload B M f cm) = Inr (if f then [0xfb] else [], column_view M cm)"
proof -
  have "length (ascii ''def'') \<le> usize_max" "length ([] :: bytes) \<le> usize_max"
    by (simp_all add: ascii_def usize_max_def)
  with assms(3,4) show ?thesis
    by (cases cm) (simp add: client_column_def column_payload_def column_pieces_def column_view_def
      byteorder_specD [OF assms(1)] myc_specD [OF assms(2)] ref_take_def)
qed

subsection \<open>Properties of the response packets\<close>

text \<open>C35: a client that negotiated protocol 4.1 reads from an OK packet every field of the
  response, with the message framed as its session-tracking capability demands and session
  state only when the status announces it.\<close>

theorem ok_packet_understood:
  assumes "byteorder_spec B" and "myc_spec M" and "has_cap M caps CLIENT_PROTOCOL_41"
    and "length (info ok) \<le> usize_max" and "length (session_state_info ok) \<le> usize_max"
  shows "\<exists>p. emits (write_ok_packet B M caps ok) [p] \<and> completes (write_ok_packet B M caps ok) [p] \<and>
     client_ok M caps p = Inr ([], ok\<lparr>session_state_info :=
       (if has_cap M caps CLIENT_SESSION_TRACK \<and>
           contains (ok_status_flags ok) (status_bits M SERVER_SESSION_STATE_CHANGED)
        then session_state_info ok else [])\<rparr>)"
  using ok_emits [OF assms(1)] client_ok_payload [OF assms] by blast

theorem ok_packet_understood_witness:
  "\<exists>p. emits (write_ok_packet byteorder_ref myc_ref 0x200 (default_ok\<lparr>affected_rows := 300, info := [79]\<rparr>)) [p] \<and>
     completes (write_ok_packet byteorder_ref myc_ref 0x200 (default_ok\<lparr>affected_rows := 300, info := [79]\<rparr>)) [p] \<and>
     client_ok myc_ref 0x200 p = Inr ([], default_ok\<lparr>affected_rows := 300, info := [79]\<rparr>)"
  using ok_packet_understood [OF byteorder_ref_spec myc_ref_spec,
      where caps = "0x200" and ok = "default_ok\<lparr>affected_rows := 300, info := [79]\<rparr>"]
  by (simp add: has_cap_def contains_def default_ok_def usize_max_def)
    (simp add: myc_ref_def ref_cap_def)

text \<open>C37: a client reads back the code, the five-character SQL state of that code and the message
  of every error packet.\<close>

theorem err_packet_understood:
  assumes "byteorder_spec B"
  shows "\<exists>p. emits (write_err B err msg) [p] \<and> completes (write_err B err msg) [p] \<and>
     client_err p = Inr ([], (error_code err, sqlstate err, msg))"
proof -
  have "client_err (err_payload err msg) = Inr ([], (error_code err, sqlstate err, msg))"
    using ref_take_append [of "sqlstate err" 5 msg]
    by (simp add: client_err_def err_payload_def ref_tag_single)
  with err_emits [OF assms] show ?thesis by blast
qed

theorem err_packet_understood_witness:
  "\<exists>p. emits (write_err byteorder_ref ER_UNKNOWN_COM_ERROR [33]) [p] \<and>
     completes (write_err byteorder_ref ER_UNKNOWN_COM_ERROR [33]) [p] \<and>
     client_err p = Inr ([], (1047, ascii ''08S01'', [33]))"
  using err_packet_understood [where B = byteorder_ref and err = ER_UNKNOWN_COM_ERROR and msg = "[33]"]
  by (simp add: ER_UNKNOWN_COM_ERROR_def sqlstate_def sqlstate_arms_def)

text \<open>The header of a result set announces the number of columns, and each column
  definition that follows is read back with its names, type, flags, length, decimals and
  character set; the definitions end with an EOF packet exactly for clients without
  CLIENT_DEPRECATE_EOF.\<close>

theorem column_definitions_understood:
  assumes "byteorder_spec B" and "myc_spec M"
    and "\<forall>cm \<in> set i. length (table (fst cm)) \<le> usize_max \<and> length (column (fst cm)) \<le> usize_max"
  shows "\<exists>count defs.
     emits (column_definitions B M i caps status)
       (count # defs @ (if has_cap M caps CLIENT_DEPRECATE_EOF then [] else [eof_payload status])) \<and>
     completes (column_definitions B M i caps status)
       (count # defs @ (if has_cap M caps CLIENT_DEPRECATE_EOF then [] else [eof_payload status])) \<and>
     client_int count = Inr ([], word_of_nat (length i)) \<and>
     map client_column defs = map (\<lambda>cm. Inr ([], column_view M cm)) i"
proof -
  let ?count = "lenenc_int (word_of_nat (length i))" and ?defs = "map (column_payload B M False) i"
  have "client_int ?count = Inr ([], word_of_nat (length i))"
    using client_int_lenenc [of "word_of_nat (length i)" "[]"] by simp
  moreover have "map client_column ?defs = map (\<lambda>cm. Inr ([], column_view M cm)) i"
    using client_column_payload [OF assms(1,2), of _ False] assms(3) by simp
  moreover note column_definitions_emits [OF assms(1,2), of i caps status]
  ultimately show ?thesis
    by (intro exI [of _ ?count] exI [of _ ?defs]) (simp only: column_packets_def simp_thms)
qed

definition demo_column :: Column where
  "demo_column = \<lparr>table = [116], column = [97], collen = 0, coltype = MYSQL_TYPE_LONG, colflags = 0\<rparr>"

theorem column_definitions_understood_witness:
  "\<exists>count defs.
     emits (column_definitions byteorder_ref myc_ref [(demo_column, default_metadata)] 0 2)
       (count # defs @ (if has_cap myc_ref 0 CLIENT_DEPRECATE_EOF then [] else [eof_payload 2])) \<and>
     completes (column_definitions byteorder_ref myc_ref [(demo_column, default_metadata)] 0 2)
       (count # defs @ (if has_cap myc_ref 0 CLIENT_DEPRECATE_EOF then [] else [eof_payload 2])) \<and>
     client_int count = Inr ([], word_of_nat (length [(demo_column, default_metadata)])) \<and>
     map client_column defs = map (\<lambda>cm. Inr ([], column_view myc_ref cm)) [(demo_column, default_metadata)]"
  by (rule column_definitions_understood) (simp_all add: demo_column_def usize_max_def)

text \<open>C36: the reply to a prepare request carries the statement id and the numbers of parameters and
  columns (up to 65535), followed by exactly that many definitions of each, parameters first.\<close>

theorem prepare_response_understood:
  assumes "byteorder_spec B" and "myc_spec M" and "length pi < 65536" and "length ci < 65536"
    and "\<forall>cm \<in> set (pi @ ci). length (table (fst cm)) \<le> usize_max \<and> length (column (fst cm)) \<le> usize_max"
  shows "\<exists>pdefs cdefs n_columns n_params.
     emits (write_prepare_ok B M i pi ci caps status)
       (([0] @ le32 i @ le16 n_columns @ le16 n_params @ [0, 0, 0]) #
        (if pi = [] then [] else pdefs @ (if has_cap M caps CLIENT_DEPRECATE_EOF then [] else [eof_payload status])) @
        (if ci = [] then [] else cdefs @ (if has_cap M caps CLIENT_DEPRECATE_EOF then [] else [eof_payload status]))) \<and>
     unat n_columns = length ci \<and> unat n_params = length pi \<and>
     map client_column pdefs = map (\<lambda>cm. Inr ([], column_view M cm)) pi \<and>
     map client_column cdefs = map (\<lambda>cm. Inr ([], column_view M cm)) ci"
proof -
  have "prepare_payload i (length pi) (length ci) =
      [0] @ le32 i @ le16 (word_of_nat (length ci)) @ le16 (word_of_nat (length pi)) @ [0, 0, 0]"
    by (simp add: prepare_payload_def le16_def numeral_2_eq_2)
  moreover have "unat (word_of_nat (length ci) :: u16) = length ci"
    "unat (word_of_nat (length pi) :: u16) = length pi"
    using assms(3,4) by (simp_all add: unat_of_nat)
  moreover have "map client_column (map (column_payload B M False) cs) = map (\<lambda>cm. Inr ([], column_view M cm)) cs"
    if "set cs \<subseteq> set (pi @ ci)" for cs
    using client_column_payload [OF assms(1,2), of _ False] assms(5) that by auto
  moreover note prepare_ok_emits(1) [OF assms(1), of M i pi ci caps status]
  ultimately show ?thesis
    by (rule_tac x = "map (column_payload B M False) pi" in exI,
        rule_tac x = "map (column_payload B M False) ci" in exI,
        rule_tac x = "word_of_nat (length ci)" in exI, rule_tac x = "word_of_nat (length pi)" in exI)
      (simp only: prepare_packets_def column_packets_def append_Cons append_Nil simp_thms set_append Un_upper1 Un_upper2)
qed

theorem prepare_response_understood_witness:
  "\<exists>pdefs cdefs n_columns n_params.
     emits (write_prepare_ok byteorder_ref myc_ref 7 [(demo_column, default_metadata)] [] 0x1000000 0)
       (([0] @ le32 7 @ le16 n_columns @ le16 n_params @ [0, 0, 0]) # pdefs) \<and>
     unat n_columns = length ([] :: (Column \<times> ColumnMetadata) list) \<and>
     unat n_params = length [(demo_column, default_metadata)] \<and>
     map client_column pdefs = [Inr ([], column_view myc_ref (demo_column, default_metadata))] \<and>
     map client_column cdefs = []"
proof -
  have "has_cap myc_ref 0x1000000 CLIENT_DEPRECATE_EOF"
    by (simp add: has_cap_def contains_def myc_ref_def ref_cap_def)
  with prepare_response_understood [OF byteorder_ref_spec myc_ref_spec,
      of "[(demo_column, default_metadata)]" "[]" 7 "0x1000000" 0]
  show ?thesis by (simp add: demo_column_def usize_max_def)
qed

end
