(* ===== verification/Encode.thy ===== *)
theory Encode
  imports Values
begin

text \<open>
  \<open>value/encode.rs\<close>: the values a backend can send (\<open>ToMysqlValue\<close>), in the text and in the
  binary protocol. An encoder first checks that the value suits the column and then hands a run
  of slices to its writer; no check comes after the first write, so its result is an error or
  the list of slices. \<open>unreachable!\<close> is \<open>Panicked\<close>. Signed integers are two's-complement words,
  floating-point numbers IEEE bit patterns; their decimal display, and the derived \<open>Debug\<close>
  renderings used in error messages, are the parameter \<open>F\<close>.
\<close>

subsection \<open>Values\<close>

text \<open>\<open>myc::value::Value\<close>.\<close>

datatype MycValue =
    MyNULL | MyBytes bytes | MyInt u64 | MyUInt u64 | MyFloat u32 | MyDouble u64
  | MyDate u16 u8 u8 u8 u8 u8 u32
  | MyTime bool u32 u8 u8 u8 u32

text \<open>
  The types that implement \<open>ToMysqlValue\<close>; all string and byte types encode as bytes. \<open>VRef\<close> is
  a reference, whose implementation delegates the encoders but inherits the default \<open>is_null\<close>.
\<close>

datatype ('d, 'dt) to_mysql_value =
    VU8 u8 | VI8 u8 | VU16 u16 | VI16 u16 | VU32 u32 | VI32 u32 | VU64 u64 | VI64 u64
  | VUsize u64 | VIsize u64 | VF32 u32 | VF64 u64 | VBytes bytes
  | VNaiveDate 'd | VNaiveDateTime 'dt | VDuration Duration | VMyc MycValue
  | VNone | VSome "('d, 'dt) to_mysql_value" | VRef "('d, 'dt) to_mysql_value"

record ('d, 'dt) fmt_ops =
  show_f32 :: "u32 \<Rightarrow> bytes"
  show_f64 :: "u64 \<Rightarrow> bytes"
  debug_f32 :: "u32 \<Rightarrow> bytes"
  debug_f64 :: "u64 \<Rightarrow> bytes"
  debug_bytes :: "bytes \<Rightarrow> bytes"
  debug_date :: "'d \<Rightarrow> bytes"
  debug_datetime :: "'dt \<Rightarrow> bytes"
  debug_duration :: "Duration \<Rightarrow> bytes"
  debug_myc :: "MycValue \<Rightarrow> bytes"

definition dec_int :: "int \<Rightarrow> bytes" where
  "dec_int n = (if n < 0 then 0x2D # dec (nat (- n)) else dec (nat n))"

text \<open>\<open>{:02}\<close>, \<open>{:04}\<close> and \<open>{:06}\<close>.\<close>

definition pad :: "nat \<Rightarrow> nat \<Rightarrow> bytes" where
  "pad width n = replicate (width - length (dec n)) 0x30 @ dec n"

definition bad :: "myc_ops \<Rightarrow> bytes \<Rightarrow> Column \<Rightarrow> io_error" where
  "bad M debug c = IoError InvalidData
     (ascii ''tried to use '' @ debug @ ascii '' as '' @ coltype_debug M (coltype c))"

definition signed_column :: "myc_ops \<Rightarrow> Column \<Rightarrow> bool" where
  "signed_column M c \<longleftrightarrow> \<not> contains (colflags c) (colflag_bits M UNSIGNED_FLAG)"

type_synonym encoded = "bytes list io_result"

subsection \<open>Integers\<close>

text \<open>
  \<open>forgiving_numeric!\<close>, for \<open>usize\<close> and \<open>isize\<close>: the conversion to the type the column asks for
  either fits or fails. \<open>n\<close> is the value as an integer.
\<close>

definition try_fit :: "io_error \<Rightarrow> int \<Rightarrow> int \<Rightarrow> (int \<Rightarrow> bytes) \<Rightarrow> int \<Rightarrow> encoded" where
  "try_fit e lo hi put n = (if lo \<le> n \<and> n \<le> hi then Inr [put n] else Inl e)"

definition forgiving_numeric :: "byteorder_ops \<Rightarrow> myc_ops \<Rightarrow> int \<Rightarrow> Column \<Rightarrow> encoded" where
  "forgiving_numeric B M n c =
     (let is_signed = signed_column M c; err = bad M (dec_int n) c in
      if coltype c = MYSQL_TYPE_LONGLONG then
        (if is_signed then try_fit err (- (2 ^ 63)) (2 ^ 63 - 1) (\<lambda>n. bo_write_i64 B (word_of_int n)) n
         else try_fit err 0 (2 ^ 64 - 1) (\<lambda>n. bo_write_u64 B (word_of_int n)) n)
      else if coltype c \<in> {MYSQL_TYPE_LONG, MYSQL_TYPE_INT24} then
        (if is_signed then try_fit err (- (2 ^ 31)) (2 ^ 31 - 1) (\<lambda>n. bo_write_i32 B (word_of_int n)) n
         else try_fit err 0 (2 ^ 32 - 1) (\<lambda>n. bo_write_u32 B (word_of_int n)) n)
      else if coltype c \<in> {MYSQL_TYPE_SHORT, MYSQL_TYPE_YEAR} then
        (if is_signed then try_fit err (- (2 ^ 15)) (2 ^ 15 - 1) (\<lambda>n. bo_write_i16 B (word_of_int n)) n
         else try_fit err 0 (2 ^ 16 - 1) (\<lambda>n. bo_write_u16 B (word_of_int n)) n)
      else if coltype c = MYSQL_TYPE_TINY then
        (if is_signed then try_fit err (- (2 ^ 7)) (2 ^ 7 - 1) (\<lambda>n. [word_of_int n]) n
         else try_fit err 0 (2 ^ 8 - 1) (\<lambda>n. [word_of_int n]) n)
      else Inl err)"

definition u8_to_mysql_bin :: "byteorder_ops \<Rightarrow> myc_ops \<Rightarrow> u8 \<Rightarrow> Column \<Rightarrow> encoded" where
  "u8_to_mysql_bin B M v c =
     (let is_signed = signed_column M c; err = bad M (dec (unat v)) c in
      if coltype c = MYSQL_TYPE_LONGLONG then
        (if is_signed then Inr [bo_write_i64 B (ucast v)] else Inr [bo_write_u64 B (ucast v)])
      else if coltype c \<in> {MYSQL_TYPE_LONG, MYSQL_TYPE_INT24} then
        (if is_signed then Inr [bo_write_i32 B (ucast v)] else Inr [bo_write_u32 B (ucast v)])
      else if coltype c \<in> {MYSQL_TYPE_SHORT, MYSQL_TYPE_YEAR} then
        (if is_signed then Inr [bo_write_i16 B (ucast v)] else Inr [bo_write_u16 B (ucast v)])
      else if coltype c = MYSQL_TYPE_TINY then (if is_signed then Inl err else Inr [[v]])
      else Inl err)"

text \<open>\<open>uN::try_from(*self).map_err(|_| bad(self, c))?\<close> for a signed \<open>self\<close>.\<close>

definition non_negative :: "io_error \<Rightarrow> 'a::len word \<Rightarrow> bytes \<Rightarrow> encoded" where
  "non_negative e v b = (if 0 \<le> sint v then Inr [b] else Inl e)"

definition i8_to_mysql_bin :: "byteorder_ops \<Rightarrow> myc_ops \<Rightarrow> u8 \<Rightarrow> Column \<Rightarrow> encoded" where
  "i8_to_mysql_bin B M v c =
     (let is_signed = signed_column M c; err = bad M (dec_int (sint v)) c in
      if coltype c = MYSQL_TYPE_LONGLONG then
        (if is_signed then Inr [bo_write_i64 B (scast v)] else non_negative err v (bo_write_u64 B (scast v)))
      else if coltype c \<in> {MYSQL_TYPE_LONG, MYSQL_TYPE_INT24} then
        (if is_signed then Inr [bo_write_i32 B (scast v)] else non_negative err v (bo_write_u32 B (scast v)))
      else if coltype c \<in> {MYSQL_TYPE_SHORT, MYSQL_TYPE_YEAR} then
        (if is_signed then Inr [bo_write_i16 B (scast v)] else non_negative err v (bo_write_u16 B (scast v)))
      else if coltype c = MYSQL_TYPE_TINY then (if is_signed then Inr [[v]] else Inl err)
      else Inl err)"

definition u16_to_mysql_bin :: "byteorder_ops \<Rightarrow> myc_ops \<Rightarrow> u16 \<Rightarrow> Column \<Rightarrow> encoded" where
  "u16_to_mysql_bin B M v c =
     (let is_signed = signed_column M c; err = bad M (dec (unat v)) c in
      if coltype c = MYSQL_TYPE_LONGLONG then
        (if is_signed then Inr [bo_write_i64 B (ucast v)] else Inr [bo_write_u64 B (ucast v)])
      else if coltype c \<in> {MYSQL_TYPE_LONG, MYSQL_TYPE_INT24} then
        (if is_signed then Inr [bo_write_i32 B (ucast v)] else Inr [bo_write_u32 B (ucast v)])
      else if coltype c \<in> {MYSQL_TYPE_SHORT, MYSQL_TYPE_YEAR} then
        (if is_signed then Inl err else Inr [bo_write_u16 B v])
      else Inl err)"

definition i16_to_mysql_bin :: "byteorder_ops \<Rightarrow> myc_ops \<Rightarrow> u16 \<Rightarrow> Column \<Rightarrow> encoded" where
  "i16_to_mysql_bin B M v c =
     (let is_signed = signed_column M c; err = bad M (dec_int (sint v)) c in
      if coltype c = MYSQL_TYPE_LONGLONG then
        (if is_signed then Inr [bo_write_i64 B (scast v)] else non_negative err v (bo_write_u64 B (scast v)))
      else if coltype c \<in> {MYSQL_TYPE_LONG, MYSQL_TYPE_INT24} then
        (if is_signed then Inr [bo_write_i32 B (scast v)] else non_negative err v (bo_write_u32 B (scast v)))
      else if coltype c \<in> {MYSQL_TYPE_SHORT, MYSQL_TYPE_YEAR} then
        (if is_signed then Inr [bo_write_i16 B v] else Inl err)
      else Inl err)"

definition u32_to_mysql_bin :: "byteorder_ops \<Rightarrow> myc_ops \<Rightarrow> u32 \<Rightarrow> Column \<Rightarrow> encoded" where
  "u32_to_mysql_bin B M v c =
     (let is_signed = signed_column M c; err = bad M (dec (unat v)) c in
      if coltype c = MYSQL_TYPE_LONGLONG then
        (if is_signed then Inr [bo_write_i64 B (ucast v)] else Inr [bo_write_u64 B (ucast v)])
      else if coltype c \<in> {MYSQL_TYPE_LONG, MYSQL_TYPE_INT24} then
        (if is_signed then Inl err else Inr [bo_write_u32 B v])
      else Inl err)"

definition i32_to_mysql_bin :: "byteorder_ops \<Rightarrow> myc_ops \<Rightarrow> u32 \<Rightarrow> Column \<Rightarrow> encoded" where
  "i32_to_mysql_bin B M v c =
     (let is_signed = signed_column M c; err = bad M (dec_int (sint v)) c in
      if coltype c = MYSQL_TYPE_LONGLONG then
        (if is_signed then Inr [bo_write_i64 B (scast v)] else non_negative err v (bo_write_u64 B (scast v)))
      else if coltype c \<in> {MYSQL_TYPE_LONG, MYSQL_TYPE_INT24} then
        (if is_signed then Inr [bo_write_i32 B v] else Inl err)
      else Inl err)"

definition u64_to_mysql_bin :: "byteorder_ops \<Rightarrow> myc_ops \<Rightarrow> u64 \<Rightarrow> Column \<Rightarrow> encoded" where
  "u64_to_mysql_bin B M v c =
     (if coltype c = MYSQL_TYPE_LONGLONG then
        (if signed_column M c then Inl (bad M (dec (unat v)) c) else Inr [bo_write_u64 B v])
      else Inl (bad M (dec (unat v)) c))"

definition i64_to_mysql_bin :: "byteorder_ops \<Rightarrow> myc_ops \<Rightarrow> u64 \<Rightarrow> Column \<Rightarrow> encoded" where
  "i64_to_mysql_bin B M v c =
     (if coltype c = MYSQL_TYPE_LONGLONG then
        (if signed_column M c then Inr [bo_write_i64 B v] else Inl (bad M (dec_int (sint v)) c))
      else Inl (bad M (dec_int (sint v)) c))"

subsection \<open>Floating point and bytes\<close>

definition f32_to_mysql_bin :: "byteorder_ops \<Rightarrow> myc_ops \<Rightarrow> ('d, 'dt) fmt_ops \<Rightarrow> u32 \<Rightarrow> Column \<Rightarrow> encoded" where
  "f32_to_mysql_bin B M F v c =
     (if coltype c = MYSQL_TYPE_DOUBLE then Inr [bo_write_f64 B (f64_from_f32 v)]
      else if coltype c = MYSQL_TYPE_FLOAT then Inr [bo_write_f32 B v]
      else Inl (bad M (debug_f32 F v) c))"

definition f64_to_mysql_bin :: "byteorder_ops \<Rightarrow> myc_ops \<Rightarrow> ('d, 'dt) fmt_ops \<Rightarrow> u64 \<Rightarrow> Column \<Rightarrow> encoded" where
  "f64_to_mysql_bin B M F v c =
     (if coltype c = MYSQL_TYPE_DOUBLE then Inr [bo_write_f64 B v] else Inl (bad M (debug_f64 F v) c))"

definition bytes_to_mysql_bin :: "myc_ops \<Rightarrow> ('d, 'dt) fmt_ops \<Rightarrow> bytes \<Rightarrow> Column \<Rightarrow> encoded" where
  "bytes_to_mysql_bin M F v c =
     (if coltype c \<in> {MYSQL_TYPE_STRING, MYSQL_TYPE_VAR_STRING, MYSQL_TYPE_BLOB, MYSQL_TYPE_TINY_BLOB,
         MYSQL_TYPE_MEDIUM_BLOB, MYSQL_TYPE_LONG_BLOB, MYSQL_TYPE_SET, MYSQL_TYPE_ENUM,
         MYSQL_TYPE_DECIMAL, MYSQL_TYPE_VARCHAR, MYSQL_TYPE_BIT, MYSQL_TYPE_NEWDECIMAL,
         MYSQL_TYPE_GEOMETRY, MYSQL_TYPE_JSON}
      then Inr (write_lenenc_str M v) else Inl (bad M (debug_bytes F v) c))"

subsection \<open>Dates and times\<close>

definition mysql_chrono_year :: "('d, 'dt) chrono_ops \<Rightarrow> 'd \<Rightarrow> u16 io_result" where
  "mysql_chrono_year C x =
     (if \<not> (0 \<le> d_year C x \<and> d_year C x \<le> 9999)
      then Inl (IoError InvalidData (ascii ''date year outside MySQL range 0..=9999''))
      else Inr (word_of_int (d_year C x)))"

definition validate_chrono_datetime :: "('d, 'dt) chrono_ops \<Rightarrow> 'dt \<Rightarrow> u16 io_result" where
  "validate_chrono_datetime C value =
     (case mysql_chrono_year C (dt_date C value) of
        Inl e \<Rightarrow> Inl e
      | Inr year \<Rightarrow>
          if dt_nanosecond C value \<ge> 1000000000
          then Inl (IoError InvalidData (ascii ''MySQL does not support chrono leap seconds''))
          else Inr year)"

text \<open>\<open>YYYY-MM-DD\<close> and \<open>hh:mm:ss\<close>.\<close>

definition date_text :: "nat \<Rightarrow> nat \<Rightarrow> nat \<Rightarrow> bytes" where
  "date_text y m d = pad 4 y @ [0x2D] @ pad 2 m @ [0x2D] @ pad 2 d"

definition clock_text :: "nat \<Rightarrow> nat \<Rightarrow> nat \<Rightarrow> bytes" where
  "clock_text h m s = pad 2 h @ [0x3A] @ pad 2 m @ [0x3A] @ pad 2 s"

definition date_to_mysql_text :: "myc_ops \<Rightarrow> ('d, 'dt) chrono_ops \<Rightarrow> 'd \<Rightarrow> encoded" where
  "date_to_mysql_text M C x =
     (case mysql_chrono_year C x of Inl e \<Rightarrow> Inl e
      | Inr _ \<Rightarrow> Inr (write_lenenc_str M (date_text (nat (d_year C x)) (d_month C x) (d_day C x))))"

definition date_to_mysql_bin :: "byteorder_ops \<Rightarrow> myc_ops \<Rightarrow> ('d, 'dt) chrono_ops \<Rightarrow> ('d, 'dt) fmt_ops \<Rightarrow>
    'd \<Rightarrow> Column \<Rightarrow> encoded" where
  "date_to_mysql_bin B M C F x c =
     (if coltype c = MYSQL_TYPE_DATE then
        (case mysql_chrono_year C x of Inl e \<Rightarrow> Inl e
         | Inr year \<Rightarrow> Inr [[4], bo_write_u16 B year, [word_of_nat (d_month C x)], [word_of_nat (d_day C x)]])
      else Inl (bad M (debug_date F x) c))"

definition datetime_to_mysql_text :: "myc_ops \<Rightarrow> ('d, 'dt) chrono_ops \<Rightarrow> 'dt \<Rightarrow> encoded" where
  "datetime_to_mysql_text M C x =
     (case validate_chrono_datetime C x of Inl e \<Rightarrow> Inl e
      | Inr _ \<Rightarrow>
          let us = dt_nanosecond C x div 1000; d = dt_date C x;
              text = date_text (nat (d_year C d)) (d_month C d) (d_day C d) @ [0x20] @
                clock_text (dt_hour C x) (dt_minute C x) (dt_second C x) in
          Inr (write_lenenc_str M (if us \<noteq> 0 then text @ [0x2E] @ pad 6 us else text)))"

definition datetime_to_mysql_bin :: "byteorder_ops \<Rightarrow> myc_ops \<Rightarrow> ('d, 'dt) chrono_ops \<Rightarrow>
    ('d, 'dt) fmt_ops \<Rightarrow> 'dt \<Rightarrow> Column \<Rightarrow> encoded" where
  "datetime_to_mysql_bin B M C F x c =
     (if coltype c \<in> {MYSQL_TYPE_DATETIME, MYSQL_TYPE_TIMESTAMP} then
        (case validate_chrono_datetime C x of Inl e \<Rightarrow> Inl e
         | Inr year \<Rightarrow>
             let us = dt_nanosecond C x div 1000; d = dt_date C x in
             Inr ([(if us \<noteq> 0 then [11] else [7]),
                   bo_write_u16 B year, [word_of_nat (d_month C d)], [word_of_nat (d_day C d)],
                   [word_of_nat (dt_hour C x)], [word_of_nat (dt_minute C x)], [word_of_nat (dt_second C x)]] @
                  (if us \<noteq> 0 then [bo_write_u32 B (word_of_nat us)] else [])))
      else Inl (bad M (debug_datetime F x) c))"

definition MYSQL_TIME_MAX_SECONDS :: nat where
  "MYSQL_TIME_MAX_SECONDS = 838 * 3600 + 59 * 60 + 59"

definition subsec_micros :: "Duration \<Rightarrow> nat" where
  "subsec_micros v = subsec_nanos v div 1000"

definition validate_mysql_duration :: "Duration \<Rightarrow> unit io_result" where
  "validate_mysql_duration v =
     (if as_secs v > MYSQL_TIME_MAX_SECONDS \<or> (as_secs v = MYSQL_TIME_MAX_SECONDS \<and> subsec_micros v \<noteq> 0)
      then Inl (IoError InvalidData (ascii ''MySQL TIME exceeds 838:59:59''))
      else Inr ())"

definition write_mysql_time_text :: "myc_ops \<Rightarrow> Duration \<Rightarrow> bool \<Rightarrow> encoded" where
  "write_mysql_time_text M v negative =
     (case validate_mysql_duration v of Inl e \<Rightarrow> Inl e
      | Inr _ \<Rightarrow>
          let s = as_secs v; h = s div 3600; m = s mod 3600 div 60; s = s mod 60; us = subsec_micros v;
              sign = (if negative \<and> (as_secs v \<noteq> 0 \<or> us \<noteq> 0) then [0x2D] else []) in
          Inr (write_lenenc_str M (if us \<noteq> 0 then sign @ clock_text h m s @ [0x2E] @ pad 6 us
             else sign @ clock_text h m s)))"

definition write_mysql_time_bin :: "byteorder_ops \<Rightarrow> myc_ops \<Rightarrow> ('d, 'dt) fmt_ops \<Rightarrow> Column \<Rightarrow>
    Duration \<Rightarrow> bool \<Rightarrow> encoded" where
  "write_mysql_time_bin B M F c v negative =
     (if coltype c \<noteq> MYSQL_TYPE_TIME then Inl (bad M (debug_duration F v) c)
      else case validate_mysql_duration v of Inl e \<Rightarrow> Inl e
      | Inr _ \<Rightarrow>
          let s = as_secs v; d = s div (24 * 3600); h = s mod (24 * 3600) div 3600;
              m = s mod 3600 div 60; s = s mod 60; us = subsec_micros v in
          if as_secs v = 0 \<and> us = 0 then Inr [[0]]
          else Inr ([(if us \<noteq> 0 then [12] else [8]), [if negative then 1 else 0],
                 bo_write_u32 B (word_of_nat d), [word_of_nat h], [word_of_nat m], [word_of_nat s]] @
               (if us \<noteq> 0 then [bo_write_u32 B (word_of_nat us)] else [])))"

text \<open>The checked multiplications and additions on \<open>u64\<close> cannot fail: \<open>d\<close> has 32 bits.\<close>

definition mysql_time_duration :: "u32 \<Rightarrow> u8 \<Rightarrow> u8 \<Rightarrow> u8 \<Rightarrow> u32 \<Rightarrow> Duration io_result" where
  "mysql_time_duration d h m s us =
     (if h > 23 \<or> m > 59 \<or> s > 59 \<or> us > 999999
      then Inl (IoError InvalidData (ascii ''invalid MySQL TIME fields''))
      else let seconds = unat d * (24 * 3600) + unat h * 3600 + unat m * 60 + unat s in
        if seconds > usize_max then Inl (IoError InvalidData (ascii ''MySQL TIME overflow''))
        else let duration = \<lparr>as_secs = seconds, subsec_nanos = unat us * 1000\<rparr> in
          (case validate_mysql_duration duration of Inl e \<Rightarrow> Inl e | Inr _ \<Rightarrow> Inr duration))"

definition validate_mysql_date :: "u16 \<Rightarrow> u8 \<Rightarrow> u8 \<Rightarrow> u8 \<Rightarrow> u8 \<Rightarrow> u8 \<Rightarrow> u32 \<Rightarrow> unit io_result" where
  "validate_mysql_date y mo d h mi s us =
     (if y > 9999 \<or> mo > 12 \<or> d > 31 \<or> h > 23 \<or> mi > 59 \<or> s > 59 \<or> us > 999999
      then Inl (IoError InvalidData (ascii ''invalid MySQL date fields'')) else Inr ())"

subsection \<open>\<open>myc::value::Value\<close>\<close>

text \<open>The downcast of \<open>Value::Int\<close> to the smallest type that holds it.\<close>

definition myc_int_bin :: "byteorder_ops \<Rightarrow> myc_ops \<Rightarrow> ('d, 'dt) fmt_ops \<Rightarrow> u64 \<Rightarrow> Column \<Rightarrow> encoded" where
  "myc_int_bin B M F n c =
     (if signed_column M c then
        (if - (2 ^ 7) \<le> sint n \<and> sint n \<le> 2 ^ 7 - 1 then i8_to_mysql_bin B M (ucast n) c
         else if - (2 ^ 15) \<le> sint n \<and> sint n \<le> 2 ^ 15 - 1 then i16_to_mysql_bin B M (ucast n) c
         else if - (2 ^ 31) \<le> sint n \<and> sint n \<le> 2 ^ 31 - 1 then i32_to_mysql_bin B M (ucast n) c
         else i64_to_mysql_bin B M n c)
      else if sint n < 0 then Inl (bad M (debug_myc F (MyInt n)) c)
      else if sint n \<le> 2 ^ 8 - 1 then u8_to_mysql_bin B M (ucast n) c
      else if sint n \<le> 2 ^ 16 - 1 then u16_to_mysql_bin B M (ucast n) c
      else if sint n \<le> 2 ^ 32 - 1 then u32_to_mysql_bin B M (ucast n) c
      else u64_to_mysql_bin B M n c)"

definition myc_date_bin :: "byteorder_ops \<Rightarrow> myc_ops \<Rightarrow> ('d, 'dt) fmt_ops \<Rightarrow>
    u16 \<Rightarrow> u8 \<Rightarrow> u8 \<Rightarrow> u8 \<Rightarrow> u8 \<Rightarrow> u8 \<Rightarrow> u32 \<Rightarrow> Column \<Rightarrow> encoded" where
  "myc_date_bin B M F y mo d h mi s us c =
     (case validate_mysql_date y mo d h mi s us of Inl e \<Rightarrow> Inl e
      | Inr _ \<Rightarrow>
          if coltype c \<notin> {MYSQL_TYPE_DATE, MYSQL_TYPE_DATETIME, MYSQL_TYPE_TIMESTAMP}
          then Inl (bad M (debug_myc F (MyDate y mo d h mi s us)) c)
          else let date_only = (coltype c = MYSQL_TYPE_DATE) in
            if date_only \<and> (h \<noteq> 0 \<or> mi \<noteq> 0 \<or> s \<noteq> 0 \<or> us \<noteq> 0)
            then Inl (bad M (debug_myc F (MyDate y mo d h mi s us)) c)
            else let len = (if us \<noteq> 0 then 11 else if h \<noteq> 0 \<or> mi \<noteq> 0 \<or> s \<noteq> 0 then 7
                   else if y \<noteq> 0 \<or> mo \<noteq> 0 \<or> d \<noteq> 0 then 4 else 0) in
              Inr ([[len]] @
                (if len \<ge> 4 then [bo_write_u16 B y, [mo, d]] else []) @
                (if len \<ge> 7 then [[h, mi, s]] else []) @
                (if len = 11 then [bo_write_u32 B us] else [])))"

definition myc_to_mysql_bin :: "byteorder_ops \<Rightarrow> myc_ops \<Rightarrow> ('d, 'dt) fmt_ops \<Rightarrow> MycValue \<Rightarrow> Column \<Rightarrow>
    encoded rust" where
  "myc_to_mysql_bin B M F v c = (case v of
     MyNULL \<Rightarrow> Panicked
   | MyBytes b \<Rightarrow> Ret (bytes_to_mysql_bin M F b c)
   | MyInt n \<Rightarrow> Ret (myc_int_bin B M F n c)
   | MyUInt n \<Rightarrow> Ret (u64_to_mysql_bin B M n c)
   | MyFloat f \<Rightarrow> Ret (f32_to_mysql_bin B M F f c)
   | MyDouble f \<Rightarrow> Ret (f64_to_mysql_bin B M F f c)
   | MyDate y mo d h mi s us \<Rightarrow> Ret (myc_date_bin B M F y mo d h mi s us c)
   | MyTime neg d h m s us \<Rightarrow> Ret (case mysql_time_duration d h m s us of
        Inl e \<Rightarrow> Inl e | Inr duration \<Rightarrow> write_mysql_time_bin B M F c duration neg))"

definition myc_to_mysql_text :: "myc_ops \<Rightarrow> ('d, 'dt) fmt_ops \<Rightarrow> MycValue \<Rightarrow> encoded" where
  "myc_to_mysql_text M F v = (case v of
     MyNULL \<Rightarrow> Inr [[0xFB]]
   | MyBytes b \<Rightarrow> Inr (write_lenenc_str M b)
   | MyInt n \<Rightarrow> Inr (write_lenenc_str M (dec_int (sint n)))
   | MyUInt n \<Rightarrow> Inr (write_lenenc_str M (dec (unat n)))
   | MyFloat f \<Rightarrow> Inr (write_lenenc_str M (show_f32 F f))
   | MyDouble f \<Rightarrow> Inr (write_lenenc_str M (show_f64 F f))
   | MyDate y mo d h mi s us \<Rightarrow>
       (case validate_mysql_date y mo d h mi s us of Inl e \<Rightarrow> Inl e
        | Inr _ \<Rightarrow> Inr (write_lenenc_str M
            (date_text (unat y) (unat mo) (unat d) @ [0x20] @ clock_text (unat h) (unat mi) (unat s) @
             (if us \<noteq> 0 then [0x2E] @ pad 6 (unat us) else []))))
   | MyTime neg d h m s us \<Rightarrow>
       (case mysql_time_duration d h m s us of Inl e \<Rightarrow> Inl e
        | Inr duration \<Rightarrow> write_mysql_time_text M duration neg))"

definition myc_to_mysql_text_with_column :: "myc_ops \<Rightarrow> ('d, 'dt) fmt_ops \<Rightarrow> MycValue \<Rightarrow> Column \<Rightarrow> encoded" where
  "myc_to_mysql_text_with_column M F v c = (case v of
     MyDate y mo d h mi s us \<Rightarrow>
       if coltype c = MYSQL_TYPE_DATE then
         (case validate_mysql_date y mo d h mi s us of Inl e \<Rightarrow> Inl e
          | Inr _ \<Rightarrow>
              if h \<noteq> 0 \<or> mi \<noteq> 0 \<or> s \<noteq> 0 \<or> us \<noteq> 0 then Inl (bad M (debug_myc F v) c)
              else Inr (write_lenenc_str M (date_text (unat y) (unat mo) (unat d))))
       else myc_to_mysql_text M F v
   | _ \<Rightarrow> myc_to_mysql_text M F v)"

subsection \<open>The trait\<close>

fun value_is_null :: "('d, 'dt) to_mysql_value \<Rightarrow> bool" where
  "value_is_null VNone = True"
| "value_is_null (VMyc v) = (v = MyNULL)"
| "value_is_null _ = False"

fun to_mysql_bin :: "byteorder_ops \<Rightarrow> myc_ops \<Rightarrow> ('d, 'dt) chrono_ops \<Rightarrow> ('d, 'dt) fmt_ops \<Rightarrow>
    ('d, 'dt) to_mysql_value \<Rightarrow> Column \<Rightarrow> encoded rust" where
  "to_mysql_bin B M C F (VU8 v) c = Ret (u8_to_mysql_bin B M v c)"
| "to_mysql_bin B M C F (VI8 v) c = Ret (i8_to_mysql_bin B M v c)"
| "to_mysql_bin B M C F (VU16 v) c = Ret (u16_to_mysql_bin B M v c)"
| "to_mysql_bin B M C F (VI16 v) c = Ret (i16_to_mysql_bin B M v c)"
| "to_mysql_bin B M C F (VU32 v) c = Ret (u32_to_mysql_bin B M v c)"
| "to_mysql_bin B M C F (VI32 v) c = Ret (i32_to_mysql_bin B M v c)"
| "to_mysql_bin B M C F (VU64 v) c = Ret (u64_to_mysql_bin B M v c)"
| "to_mysql_bin B M C F (VI64 v) c = Ret (i64_to_mysql_bin B M v c)"
| "to_mysql_bin B M C F (VUsize v) c = Ret (forgiving_numeric B M (uint v) c)"
| "to_mysql_bin B M C F (VIsize v) c = Ret (forgiving_numeric B M (sint v) c)"
| "to_mysql_bin B M C F (VF32 v) c = Ret (f32_to_mysql_bin B M F v c)"
| "to_mysql_bin B M C F (VF64 v) c = Ret (f64_to_mysql_bin B M F v c)"
| "to_mysql_bin B M C F (VBytes v) c = Ret (bytes_to_mysql_bin M F v c)"
| "to_mysql_bin B M C F (VNaiveDate v) c = Ret (date_to_mysql_bin B M C F v c)"
| "to_mysql_bin B M C F (VNaiveDateTime v) c = Ret (datetime_to_mysql_bin B M C F v c)"
| "to_mysql_bin B M C F (VDuration v) c = Ret (write_mysql_time_bin B M F c v False)"
| "to_mysql_bin B M C F (VMyc v) c = myc_to_mysql_bin B M F v c"
| "to_mysql_bin B M C F VNone c = Panicked"
| "to_mysql_bin B M C F (VSome v) c = to_mysql_bin B M C F v c"
| "to_mysql_bin B M C F (VRef v) c = to_mysql_bin B M C F v c"

fun to_mysql_text :: "myc_ops \<Rightarrow> ('d, 'dt) chrono_ops \<Rightarrow> ('d, 'dt) fmt_ops \<Rightarrow>
    ('d, 'dt) to_mysql_value \<Rightarrow> encoded" where
  "to_mysql_text M C F (VU8 v) = Inr (write_lenenc_str M (dec (unat v)))"
| "to_mysql_text M C F (VI8 v) = Inr (write_lenenc_str M (dec_int (sint v)))"
| "to_mysql_text M C F (VU16 v) = Inr (write_lenenc_str M (dec (unat v)))"
| "to_mysql_text M C F (VI16 v) = Inr (write_lenenc_str M (dec_int (sint v)))"
| "to_mysql_text M C F (VU32 v) = Inr (write_lenenc_str M (dec (unat v)))"
| "to_mysql_text M C F (VI32 v) = Inr (write_lenenc_str M (dec_int (sint v)))"
| "to_mysql_text M C F (VU64 v) = Inr (write_lenenc_str M (dec (unat v)))"
| "to_mysql_text M C F (VI64 v) = Inr (write_lenenc_str M (dec_int (sint v)))"
| "to_mysql_text M C F (VUsize v) = Inr (write_lenenc_str M (dec (unat v)))"
| "to_mysql_text M C F (VIsize v) = Inr (write_lenenc_str M (dec_int (sint v)))"
| "to_mysql_text M C F (VF32 v) = Inr (write_lenenc_str M (show_f32 F v))"
| "to_mysql_text M C F (VF64 v) = Inr (write_lenenc_str M (show_f64 F v))"
| "to_mysql_text M C F (VBytes v) = Inr (write_lenenc_str M v)"
| "to_mysql_text M C F (VNaiveDate v) = date_to_mysql_text M C v"
| "to_mysql_text M C F (VNaiveDateTime v) = datetime_to_mysql_text M C v"
| "to_mysql_text M C F (VDuration v) = write_mysql_time_text M v False"
| "to_mysql_text M C F (VMyc v) = myc_to_mysql_text M F v"
| "to_mysql_text M C F VNone = Inr [[0xFB]]"
| "to_mysql_text M C F (VSome v) = to_mysql_text M C F v"
| "to_mysql_text M C F (VRef v) = to_mysql_text M C F v"

fun to_mysql_text_with_column :: "myc_ops \<Rightarrow> ('d, 'dt) chrono_ops \<Rightarrow> ('d, 'dt) fmt_ops \<Rightarrow>
    ('d, 'dt) to_mysql_value \<Rightarrow> Column \<Rightarrow> encoded" where
  "to_mysql_text_with_column M C F (VMyc v) c = myc_to_mysql_text_with_column M F v c"
| "to_mysql_text_with_column M C F (VSome v) c = to_mysql_text_with_column M C F v c"
| "to_mysql_text_with_column M C F (VRef v) c = to_mysql_text_with_column M C F v c"
| "to_mysql_text_with_column M C F v c = to_mysql_text M C F v"

subsection \<open>The value a binary encoding denotes\<close>

fun int_of_value :: "ValueInner \<Rightarrow> int option" where
  "int_of_value (UInt n) = Some (uint n)"
| "int_of_value (IntV n) = Some (sint n)"
| "int_of_value _ = None"

text \<open>Year, month, day, hour, minute, second and microseconds; absent fields are zero.\<close>

definition date_fields :: "bytes \<Rightarrow> nat \<times> nat \<times> nat \<times> nat \<times> nat \<times> nat \<times> nat" where
  "date_fields b = (let p = b @ replicate (11 - length b) 0 in
     (of_le (take 2 p), unat (p ! 2), unat (p ! 3), unat (p ! 4), unat (p ! 5), unat (p ! 6),
      of_le (take 4 (drop 7 p))))"

text \<open>Sign, whole seconds and microseconds of a time.\<close>

definition time_fields :: "bytes \<Rightarrow> bool \<times> nat \<times> nat" where
  "time_fields b = (let p = b @ replicate (12 - length b) 0 in
     (p ! 0 \<noteq> 0,
      of_le (take 4 (drop 1 p)) * 86400 + unat (p ! 5) * 3600 + unat (p ! 6) * 60 + unat (p ! 7),
      of_le (take 4 (drop 8 p))))"

fun myc_denotes :: "MycValue \<Rightarrow> ValueInner \<Rightarrow> bool" where
  "myc_denotes MyNULL x = (x = NULL)"
| "myc_denotes (MyBytes b) x = (x = Bytes b)"
| "myc_denotes (MyInt n) x = (int_of_value x = Some (sint n))"
| "myc_denotes (MyUInt n) x = (int_of_value x = Some (uint n))"
| "myc_denotes (MyFloat f) x = (x = Double (f64_from_f32 f))"
| "myc_denotes (MyDouble f) x = (x = Double f)"
| "myc_denotes (MyDate y mo d h mi s us) x =
     (\<exists>b. x \<in> {Date b, Datetime b} \<and>
        date_fields b = (unat y, unat mo, unat d, unat h, unat mi, unat s, unat us))"
| "myc_denotes (MyTime neg d h m s us) x =
     (let secs = unat d * 86400 + unat h * 3600 + unat m * 60 + unat s in
      \<exists>b. x = Time b \<and> time_fields b = (neg \<and> (secs \<noteq> 0 \<or> us \<noteq> 0), secs, unat us))"

fun denotes :: "('d, 'dt) chrono_ops \<Rightarrow> ('d, 'dt) to_mysql_value \<Rightarrow> ValueInner \<Rightarrow> bool" where
  "denotes C (VU8 v) x = (int_of_value x = Some (uint v))"
| "denotes C (VI8 v) x = (int_of_value x = Some (sint v))"
| "denotes C (VU16 v) x = (int_of_value x = Some (uint v))"
| "denotes C (VI16 v) x = (int_of_value x = Some (sint v))"
| "denotes C (VU32 v) x = (int_of_value x = Some (uint v))"
| "denotes C (VI32 v) x = (int_of_value x = Some (sint v))"
| "denotes C (VU64 v) x = (int_of_value x = Some (uint v))"
| "denotes C (VI64 v) x = (int_of_value x = Some (sint v))"
| "denotes C (VUsize v) x = (int_of_value x = Some (uint v))"
| "denotes C (VIsize v) x = (int_of_value x = Some (sint v))"
| "denotes C (VF32 v) x = (x = Double (f64_from_f32 v))"
| "denotes C (VF64 v) x = (x = Double v)"
| "denotes C (VBytes v) x = (x = Bytes v)"
| "denotes C (VNaiveDate d) x =
     (\<exists>b. x = Date b \<and> length b = 4 \<and> 0 \<le> d_year C d \<and>
        date_fields b = (nat (d_year C d), d_month C d, d_day C d, 0, 0, 0, 0))"
| "denotes C (VNaiveDateTime t) x =
     (\<exists>b. x = Datetime b \<and> length b \<in> {7, 11} \<and> 0 \<le> d_year C (dt_date C t) \<and> date_fields b =
        (nat (d_year C (dt_date C t)), d_month C (dt_date C t), d_day C (dt_date C t),
         dt_hour C t, dt_minute C t, dt_second C t, dt_nanosecond C t div 1000))"
| "denotes C (VDuration v) x =
     (\<exists>b. x = Time b \<and> length b \<in> {0, 8, 12} \<and> time_fields b = (False, as_secs v, subsec_micros v))"
| "denotes C (VMyc v) x = myc_denotes v x"
| "denotes C VNone x = (x = NULL)"
| "denotes C (VSome v) x = denotes C v x"
| "denotes C (VRef v) x = denotes C v x"

text \<open>
  What every value of the Rust types satisfies: dates and times come from \<open>chrono\<close>, the
  subsecond part of a duration is below a second, slices fit the address space.
\<close>

fun proper_value :: "('d, 'dt) chrono_ops \<Rightarrow> ('d, 'dt) to_mysql_value \<Rightarrow> bool" where
  "proper_value C (VNaiveDate d) = real_date C d"
| "proper_value C (VNaiveDateTime t) = real_datetime C t"
| "proper_value C (VDuration v) = (subsec_nanos v < 1000000000)"
| "proper_value C (VBytes v) = (length v \<le> usize_max)"
| "proper_value C (VMyc (MyBytes v)) = (length v \<le> usize_max)"
| "proper_value C (VSome v) = proper_value C v"
| "proper_value C (VRef v) = proper_value C v"
| "proper_value C _ = True"

subsection \<open>Integer encodings agree with the generic one\<close>

lemma word_of_int_casts [simp]:
  "word_of_int (uint v) = (ucast v :: 'b::len word)" "word_of_int (sint v) = (scast v :: 'b::len word)"
  by (simp_all add: unsigned_of_int signed_of_int)

lemma neg_le_uint [simp]: "- numeral k \<le> uint (v :: 'a::len word)"
  by (rule order_trans [of _ 0]) simp_all

lemma uint_bounds: "uint (v :: u8) < 2 ^ 8" "uint (w :: u16) < 2 ^ 16"
    "uint (d :: u32) < 2 ^ 32" "uint (q :: u64) < 2 ^ 64"
  using unsigned_less [of v, where ?'a = int] unsigned_less [of w, where ?'a = int]
    unsigned_less [of d, where ?'a = int] unsigned_less [of q, where ?'a = int] by simp_all

lemma sint_bounds: "- (2 ^ 7) \<le> sint (v :: u8)" "sint (v :: u8) < 2 ^ 7"
    "- (2 ^ 15) \<le> sint (w :: u16)" "sint (w :: u16) < 2 ^ 15"
    "- (2 ^ 31) \<le> sint (d :: u32)" "sint (d :: u32) < 2 ^ 31"
    "- (2 ^ 63) \<le> sint (q :: u64)" "sint (q :: u64) < 2 ^ 63"
  using sint_ge [of v] sint_lt [of v] sint_ge [of w] sint_lt [of w] sint_ge [of d] sint_lt [of d]
    sint_ge [of q] sint_lt [of q] by simp_all

lemma u8_forgiving:
  "u8_to_mysql_bin B M v c = Inr ps \<Longrightarrow> forgiving_numeric B M (uint v) c = Inr ps"
  using uint_bounds(1) [of v]
  by (cases "coltype c"; cases "signed_column M c")
    (simp_all add: u8_to_mysql_bin_def forgiving_numeric_def try_fit_def Let_def split: if_splits)

lemma u16_forgiving:
  "u16_to_mysql_bin B M v c = Inr ps \<Longrightarrow> forgiving_numeric B M (uint v) c = Inr ps"
  using uint_bounds(2) [of v]
  by (cases "coltype c"; cases "signed_column M c")
    (simp_all add: u16_to_mysql_bin_def forgiving_numeric_def try_fit_def Let_def split: if_splits)

lemma u32_forgiving:
  "u32_to_mysql_bin B M v c = Inr ps \<Longrightarrow> forgiving_numeric B M (uint v) c = Inr ps"
  using uint_bounds(3) [of v]
  by (cases "coltype c"; cases "signed_column M c")
    (simp_all add: u32_to_mysql_bin_def forgiving_numeric_def try_fit_def Let_def split: if_splits)

lemma u64_forgiving:
  "u64_to_mysql_bin B M v c = Inr ps \<Longrightarrow> forgiving_numeric B M (uint v) c = Inr ps"
  using uint_bounds(4) [of v]
  by (cases "coltype c"; cases "signed_column M c")
    (simp_all add: u64_to_mysql_bin_def forgiving_numeric_def try_fit_def Let_def split: if_splits)

lemma i8_forgiving:
  "i8_to_mysql_bin B M v c = Inr ps \<Longrightarrow> forgiving_numeric B M (sint v) c = Inr ps"
  using sint_bounds(1,2) [of v]
  by (cases "coltype c"; cases "signed_column M c")
    (simp_all add: i8_to_mysql_bin_def forgiving_numeric_def try_fit_def Let_def non_negative_def split: if_splits)

lemma i16_forgiving:
  "i16_to_mysql_bin B M v c = Inr ps \<Longrightarrow> forgiving_numeric B M (sint v) c = Inr ps"
  using sint_bounds(3,4) [of v]
  by (cases "coltype c"; cases "signed_column M c")
    (simp_all add: i16_to_mysql_bin_def forgiving_numeric_def try_fit_def Let_def non_negative_def split: if_splits)

lemma i32_forgiving:
  "i32_to_mysql_bin B M v c = Inr ps \<Longrightarrow> forgiving_numeric B M (sint v) c = Inr ps"
  using sint_bounds(5,6) [of v]
  by (cases "coltype c"; cases "signed_column M c")
    (simp_all add: i32_to_mysql_bin_def forgiving_numeric_def try_fit_def Let_def non_negative_def split: if_splits)

lemma i64_forgiving:
  "i64_to_mysql_bin B M v c = Inr ps \<Longrightarrow> forgiving_numeric B M (sint v) c = Inr ps"
  using sint_bounds(7,8) [of v]
  by (cases "coltype c"; cases "signed_column M c")
    (simp_all add: i64_to_mysql_bin_def forgiving_numeric_def try_fit_def Let_def non_negative_def split: if_splits)

subsection \<open>Reading back a binary encoding\<close>

lemma sint_of_int:
  "- (2 ^ 7) \<le> n \<Longrightarrow> n \<le> 2 ^ 7 - 1 \<Longrightarrow> sint (word_of_int n :: u8) = n"
  "- (2 ^ 15) \<le> n \<Longrightarrow> n \<le> 2 ^ 15 - 1 \<Longrightarrow> sint (word_of_int n :: u16) = n"
  "- (2 ^ 31) \<le> n \<Longrightarrow> n \<le> 2 ^ 31 - 1 \<Longrightarrow> sint (word_of_int n :: u32) = n"
  "- (2 ^ 63) \<le> n \<Longrightarrow> n \<le> 2 ^ 63 - 1 \<Longrightarrow> sint (word_of_int n :: u64) = n"
  by (simp_all add: signed_of_int signed_take_bit_int_eq_self)

lemma sint_scast_64:
  "sint (scast (v :: u8) :: u64) = sint v" "sint (scast (w :: u16) :: u64) = sint w"
  "sint (scast (d :: u32) :: u64) = sint d"
  using sint_bounds(1,2) [of v] sint_bounds(3,4) [of w] sint_bounds(5,6) [of d]
  by (simp_all add: signed_scast_eq signed_take_bit_int_eq_self)

lemma uint_of_int:
  "0 \<le> n \<Longrightarrow> n \<le> 2 ^ 8 - 1 \<Longrightarrow> uint (ucast (word_of_int n :: u8) :: u64) = n"
  "0 \<le> n \<Longrightarrow> n \<le> 2 ^ 16 - 1 \<Longrightarrow> uint (ucast (word_of_int n :: u16) :: u64) = n"
  "0 \<le> n \<Longrightarrow> n \<le> 2 ^ 32 - 1 \<Longrightarrow> uint (ucast (word_of_int n :: u32) :: u64) = n"
  "0 \<le> n \<Longrightarrow> n \<le> 2 ^ 64 - 1 \<Longrightarrow> uint (word_of_int n :: u64) = n"
  by (simp_all add: unsigned_ucast_eq unsigned_of_int take_bit_int_eq_self)

definition is_unsigned_column :: "myc_ops \<Rightarrow> Column \<Rightarrow> bool" where
  "is_unsigned_column M c \<longleftrightarrow> contains (colflags c) (colflag_bits M UNSIGNED_FLAG)"

lemma signed_column_iff: "signed_column M c \<longleftrightarrow> \<not> is_unsigned_column M c"
  by (simp add: signed_column_def is_unsigned_column_def)

lemma forgiving_decodes:
  assumes B: "byteorder_spec B" and enc: "forgiving_numeric B M n c = Inr ps"
  shows "\<exists>x. parse_from B M (concat ps @ rest) (coltype c) (is_unsigned_column M c) = Inr (x, rest) \<and>
     int_of_value x = Some n"
proof -
  note spec = byteorder_specD [OF B] and def = forgiving_numeric_def try_fit_def Let_def
    parse_from_def is_string_type_def signed_column_iff
  consider "coltype c = MYSQL_TYPE_LONGLONG" | "coltype c \<in> {MYSQL_TYPE_LONG, MYSQL_TYPE_INT24}"
    | "coltype c \<in> {MYSQL_TYPE_SHORT, MYSQL_TYPE_YEAR}" | "coltype c = MYSQL_TYPE_TINY"
    using enc by (auto simp: forgiving_numeric_def Let_def split: if_splits)
  then show ?thesis
  proof cases
    case 1
    with enc show ?thesis
      by (auto simp: def spec sint_of_int uint_of_int split: if_splits)
  next
    case 2
    with enc show ?thesis
      by (auto simp: def spec sint_of_int uint_of_int sint_scast_64 split: if_splits)
  next
    case 3
    with enc show ?thesis
      by (auto simp: def spec sint_of_int uint_of_int sint_scast_64 split: if_splits)
  next
    case 4
    with enc show ?thesis
      by (auto simp: def spec sint_of_int uint_of_int sint_scast_64 split: if_splits)
  qed
qed

lemma of_le_zeros [simp]: "of_le (replicate n 0) = 0"
  by (induction n) simp_all

lemma of_le_nat [simp]: "of_le (le16 y) = unat y" "of_le (le32 d) = unat d"
  using unsigned_less [of y, where ?'a = nat] unsigned_less [of d, where ?'a = nat]
  by (simp_all add: le16_def le32_def of_le_le_bytes)

lemma date_fields_forms:
  "date_fields [] = (0, 0, 0, 0, 0, 0, 0)"
  "date_fields (le16 y @ [m, d]) = (unat y, unat m, unat d, 0, 0, 0, 0)"
  "date_fields (le16 y @ [m, d, h, mi, s]) = (unat y, unat m, unat d, unat h, unat mi, unat s, 0)"
  "date_fields (le16 y @ [m, d, h, mi, s] @ le32 us) =
     (unat y, unat m, unat d, unat h, unat mi, unat s, unat us)"
  by (simp_all add: date_fields_def Let_def nth_append)

lemma time_fields_forms:
  "time_fields [] = (False, 0, 0)"
  "time_fields ([n] @ le32 d @ [h, m, s]) =
     (n \<noteq> 0, unat d * 86400 + unat h * 3600 + unat m * 60 + unat s, 0)"
  "time_fields ([n] @ le32 d @ [h, m, s] @ le32 us) =
     (n \<noteq> 0, unat d * 86400 + unat h * 3600 + unat m * 60 + unat s, unat us)"
  by (simp_all add: time_fields_def Let_def nth_append)

text \<open>How the encoders of a temporal column lay out their bytes.\<close>

lemma temporal_decodes:
  assumes B: "byteorder_spec B" "myc_spec M"
  shows "length b \<in> {0, 4, 7, 11} \<Longrightarrow>
      parse_from B M (word_of_nat (length b) # b @ rest) MYSQL_TYPE_DATE u = Inr (Date b, rest)"
    "length b \<in> {0, 4, 7, 11} \<Longrightarrow> ct \<in> {MYSQL_TYPE_DATETIME, MYSQL_TYPE_TIMESTAMP} \<Longrightarrow>
      parse_from B M (word_of_nat (length b) # b @ rest) ct u = Inr (Datetime b, rest)"
    "length b \<in> {0, 8, 12} \<Longrightarrow>
      parse_from B M (word_of_nat (length b) # b @ rest) MYSQL_TYPE_TIME u = Inr (Time b, rest)"
proof -
  show "parse_from B M (word_of_nat (length b) # b @ rest) MYSQL_TYPE_DATE u = Inr (Date b, rest)"
    if "length b \<in> {0, 4, 7, 11}"
    using parse_encoded [OF B enc_date [OF that], where i = rest and u = u] by simp
  show "parse_from B M (word_of_nat (length b) # b @ rest) ct u = Inr (Datetime b, rest)"
    if "length b \<in> {0, 4, 7, 11}" "ct \<in> {MYSQL_TYPE_DATETIME, MYSQL_TYPE_TIMESTAMP}"
  proof -
    have "ct \<in> {MYSQL_TYPE_TIMESTAMP, MYSQL_TYPE_DATETIME}" "length b \<in> {0, 4, 7, 11, 13}"
      using that by blast+
    from parse_encoded [OF B enc_datetime [OF this], where i = rest and u = u] show ?thesis by simp
  qed
  show "parse_from B M (word_of_nat (length b) # b @ rest) MYSQL_TYPE_TIME u = Inr (Time b, rest)"
    if "length b \<in> {0, 8, 12}"
    using parse_encoded [OF B enc_time [OF that], where i = rest and u = u] by simp
qed

lemma mysql_chrono_year_ok:
  "mysql_chrono_year C x = Inr y \<longleftrightarrow> 0 \<le> d_year C x \<and> d_year C x \<le> 9999 \<and> y = word_of_int (d_year C x)"
  unfolding mysql_chrono_year_def by (metis Inl_Inr_False old.sum.inject(2))

lemma validate_chrono_datetime_ok:
  "validate_chrono_datetime C t = Inr y \<longleftrightarrow>
     mysql_chrono_year C (dt_date C t) = Inr y \<and> dt_nanosecond C t < 1000000000"
  unfolding validate_chrono_datetime_def
  by (cases "mysql_chrono_year C (dt_date C t)"; cases "dt_nanosecond C t < 1000000000"; simp)

lemma date_decodes:
  assumes B: "byteorder_spec B" "myc_spec M" and C: "chrono_spec C" "real_date C x"
    and enc: "date_to_mysql_bin B M C F x c = Inr ps"
  shows "\<exists>v. parse_from B M (concat ps @ rest) (coltype c) u = Inr (v, rest) \<and> denotes C (VNaiveDate x) v"
proof -
  have range: "d_month C x \<le> 12" "d_day C x \<le> 31" using chrono_specD(1,2) [OF C] by simp_all
  have ct: "coltype c = MYSQL_TYPE_DATE" and year: "0 \<le> d_year C x" "d_year C x \<le> 9999"
    and ps: "ps = [[4], bo_write_u16 B (word_of_int (d_year C x)), [word_of_nat (d_month C x)], [word_of_nat (d_day C x)]]"
  proof -
    show ct: "coltype c = MYSQL_TYPE_DATE"
      using enc unfolding date_to_mysql_bin_def by (rule contrapos_pp) simp
    then obtain y where "mysql_chrono_year C x = Inr y"
      using enc unfolding date_to_mysql_bin_def by (cases "mysql_chrono_year C x") simp_all
    with enc ct show "0 \<le> d_year C x" "d_year C x \<le> 9999"
      "ps = [[4], bo_write_u16 B (word_of_int (d_year C x)), [word_of_nat (d_month C x)], [word_of_nat (d_day C x)]]"
      by (simp_all add: date_to_mysql_bin_def mysql_chrono_year_ok)
  qed
  let ?b = "le16 (word_of_int (d_year C x)) @ [word_of_nat (d_month C x), word_of_nat (d_day C x)]"
  have "unat (word_of_int (d_year C x) :: u16) = nat (d_year C x)"
    using year by (simp add: unsigned_of_int nat_take_bit_eq take_bit_nat_eq_self_iff)
  with range have "date_fields ?b = (nat (d_year C x), d_month C x, d_day C x, 0, 0, 0, 0)"
    by (simp add: date_fields_forms unat_of_nat)
  moreover have "parse_from B M (concat ps @ rest) (coltype c) u = Inr (Date ?b, rest)"
    using temporal_decodes(1) [OF B, of ?b rest u] by (simp add: ct ps byteorder_specD [OF B(1)])
  ultimately show ?thesis using year by simp
qed

lemma datetime_decodes:
  assumes B: "byteorder_spec B" "myc_spec M" and C: "chrono_spec C" "real_datetime C x"
    and enc: "datetime_to_mysql_bin B M C F x c = Inr ps"
  shows "\<exists>v. parse_from B M (concat ps @ rest) (coltype c) u = Inr (v, rest) \<and> denotes C (VNaiveDateTime x) v"
proof -
  let ?d = "dt_date C x" and ?us = "dt_nanosecond C x div 1000"
  have range: "d_month C ?d \<le> 12" "d_day C ?d \<le> 31" "dt_hour C x < 24" "dt_minute C x < 60" "dt_second C x < 60"
    using chrono_specD [OF C(1)] C(2) by blast+
  have ct: "coltype c \<in> {MYSQL_TYPE_DATETIME, MYSQL_TYPE_TIMESTAMP}"
    and year: "0 \<le> d_year C ?d" "d_year C ?d \<le> 9999" and ns: "dt_nanosecond C x < 1000000000"
    and ps: "ps = [(if ?us \<noteq> 0 then [11] else [7]), bo_write_u16 B (word_of_int (d_year C ?d)),
       [word_of_nat (d_month C ?d)], [word_of_nat (d_day C ?d)], [word_of_nat (dt_hour C x)],
       [word_of_nat (dt_minute C x)], [word_of_nat (dt_second C x)]] @
       (if ?us \<noteq> 0 then [bo_write_u32 B (word_of_nat ?us)] else [])"
  proof -
    show ct: "coltype c \<in> {MYSQL_TYPE_DATETIME, MYSQL_TYPE_TIMESTAMP}"
      using enc unfolding datetime_to_mysql_bin_def by (rule contrapos_pp) simp
    then obtain y where y: "validate_chrono_datetime C x = Inr y"
      using enc unfolding datetime_to_mysql_bin_def by (cases "validate_chrono_datetime C x") simp_all
    then show "0 \<le> d_year C ?d" "d_year C ?d \<le> 9999" "dt_nanosecond C x < 1000000000"
      by (simp_all add: validate_chrono_datetime_ok mysql_chrono_year_ok)
    have "y = word_of_int (d_year C ?d)" using y by (simp add: validate_chrono_datetime_ok mysql_chrono_year_ok)
    with enc ct y show "ps = [(if ?us \<noteq> 0 then [11] else [7]), bo_write_u16 B (word_of_int (d_year C ?d)),
       [word_of_nat (d_month C ?d)], [word_of_nat (d_day C ?d)], [word_of_nat (dt_hour C x)],
       [word_of_nat (dt_minute C x)], [word_of_nat (dt_second C x)]] @
       (if ?us \<noteq> 0 then [bo_write_u32 B (word_of_nat ?us)] else [])"
      unfolding datetime_to_mysql_bin_def Let_def by simp
  qed
  let ?b = "le16 (word_of_int (d_year C ?d)) @ [word_of_nat (d_month C ?d), word_of_nat (d_day C ?d),
      word_of_nat (dt_hour C x), word_of_nat (dt_minute C x), word_of_nat (dt_second C x)] @
      (if ?us \<noteq> 0 then le32 (word_of_nat ?us) else [])"
  have "unat (word_of_int (d_year C ?d) :: u16) = nat (d_year C ?d)"
    using year by (simp add: unsigned_of_int nat_take_bit_eq take_bit_nat_eq_self_iff)
  moreover have "unat (word_of_nat ?us :: u32) = ?us" using ns by (simp add: unat_of_nat)
  ultimately have "date_fields ?b = (nat (d_year C ?d), d_month C ?d, d_day C ?d,
      dt_hour C x, dt_minute C x, dt_second C x, ?us)"
    using range date_fields_forms(3,4) by (cases "?us = 0") (simp_all add: unat_of_nat)
  moreover have "parse_from B M (concat ps @ rest) (coltype c) u = Inr (Datetime ?b, rest)"
    using temporal_decodes(2) [OF B, of ?b "coltype c" rest u] ct
    by (cases "?us = 0") (simp_all add: ps byteorder_specD [OF B(1)])
  ultimately show ?thesis using year by simp
qed

lemma clock_split:
  "s div 86400 * 86400 + s mod 86400 div 3600 * 3600 + s mod 3600 div 60 * 60 + s mod 60 = (s :: nat)"
proof -
  have "s mod 86400 mod 3600 = s mod 3600" "s mod 3600 mod 60 = s mod 60"
    by (rule mod_mod_cancel; simp)+
  then have "s mod 86400 = s mod 86400 div 3600 * 3600 + s mod 3600"
    "s mod 3600 = s mod 3600 div 60 * 60 + s mod 60"
    using div_mult_mod_eq [of "s mod 86400" 3600] div_mult_mod_eq [of "s mod 3600" 60] by simp_all
  then show ?thesis using div_mult_mod_eq [of s 86400] by linarith
qed

lemma time_decodes:
  assumes B: "byteorder_spec B" "myc_spec M" and ns: "subsec_nanos v < 1000000000"
    and enc: "write_mysql_time_bin B M F c v neg = Inr ps"
  shows "\<exists>b. parse_from B M (concat ps @ rest) (coltype c) u = Inr (Time b, rest) \<and> length b \<in> {0, 8, 12} \<and>
     time_fields b = (neg \<and> (as_secs v \<noteq> 0 \<or> subsec_micros v \<noteq> 0), as_secs v, subsec_micros v)"
proof (cases "as_secs v = 0 \<and> subsec_micros v = 0")
  case True
  with enc have "coltype c = MYSQL_TYPE_TIME" "ps = [[0]]"
    by (auto simp: write_mysql_time_bin_def Let_def split: if_splits sum.splits)
  with True temporal_decodes(3) [OF B, of "[]" rest u] show ?thesis
    by (intro exI [of _ "[]"]) (simp add: time_fields_forms)
next
  case False
  let ?s = "as_secs v" and ?us = "subsec_micros v"
  let ?d = "?s div 86400" and ?h = "?s mod 86400 div 3600" and ?m = "?s mod 3600 div 60"
  have ct: "coltype c = MYSQL_TYPE_TIME" and max: "?s \<le> MYSQL_TIME_MAX_SECONDS"
    and ps: "ps = [(if ?us \<noteq> 0 then [12] else [8]), [if neg then 1 else 0], bo_write_u32 B (word_of_nat ?d),
       [word_of_nat ?h], [word_of_nat ?m], [word_of_nat (?s mod 60)]] @
       (if ?us \<noteq> 0 then [bo_write_u32 B (word_of_nat ?us)] else [])"
  proof -
    show ct: "coltype c = MYSQL_TYPE_TIME"
      using enc unfolding write_mysql_time_bin_def by (rule contrapos_pp) simp
    then have v: "validate_mysql_duration v = Inr ()"
      using enc unfolding write_mysql_time_bin_def by (cases "validate_mysql_duration v") simp_all
    then show "?s \<le> MYSQL_TIME_MAX_SECONDS"
      unfolding validate_mysql_duration_def by (rule contrapos_pp) simp
    have days: "(24 * 3600 :: nat) = 86400" by simp
    from enc ct v False show "ps = [(if ?us \<noteq> 0 then [12] else [8]), [if neg then 1 else 0], bo_write_u32 B (word_of_nat ?d),
       [word_of_nat ?h], [word_of_nat ?m], [word_of_nat (?s mod 60)]] @
       (if ?us \<noteq> 0 then [bo_write_u32 B (word_of_nat ?us)] else [])"
      unfolding write_mysql_time_bin_def Let_def days by simp
  qed
  let ?b = "[if neg then 1 else 0] @ le32 (word_of_nat ?d) @
      [word_of_nat ?h, word_of_nat ?m, word_of_nat (?s mod 60)] @ (if ?us \<noteq> 0 then le32 (word_of_nat ?us) else [])"
  have "unat (word_of_nat ?d :: u32) = ?d" "unat (word_of_nat ?h :: u8) = ?h" "unat (word_of_nat ?m :: u8) = ?m"
    "unat (word_of_nat (?s mod 60) :: u8) = ?s mod 60" "unat (word_of_nat ?us :: u32) = ?us"
    using max ns by (simp_all add: unat_of_nat MYSQL_TIME_MAX_SECONDS_def subsec_micros_def)
  moreover have "?d * 86400 + ?h * 3600 + ?m * 60 + ?s mod 60 = ?s" by (rule clock_split)
  ultimately have "time_fields ?b = (neg, ?s, ?us)"
    using time_fields_forms(2,3) by (cases "?us = 0") simp_all
  moreover have "parse_from B M (concat ps @ rest) (coltype c) u = Inr (Time ?b, rest)"
    using temporal_decodes(3) [OF B, of ?b rest u] ct
    by (cases "?us = 0") (simp_all add: ps byteorder_specD [OF B(1)])
  ultimately show ?thesis using False by auto
qed

lemma narrow_signed:
  "- (2 ^ 7) \<le> sint n \<Longrightarrow> sint n \<le> 2 ^ 7 - 1 \<Longrightarrow> sint (ucast (n :: u64) :: u8) = sint n"
  "- (2 ^ 15) \<le> sint n \<Longrightarrow> sint n \<le> 2 ^ 15 - 1 \<Longrightarrow> sint (ucast (n :: u64) :: u16) = sint n"
  "- (2 ^ 31) \<le> sint n \<Longrightarrow> sint n \<le> 2 ^ 31 - 1 \<Longrightarrow> sint (ucast (n :: u64) :: u32) = sint n"
proof -
  have cast: "(ucast n :: u8) = word_of_int (sint n)" "(ucast n :: u16) = word_of_int (sint n)"
    "(ucast n :: u32) = word_of_int (sint n)"
    by (simp_all only: word_of_int_casts) (rule bit_word_eqI, auto simp: bit_simps)+
  show "- (2 ^ 7) \<le> sint n \<Longrightarrow> sint n \<le> 2 ^ 7 - 1 \<Longrightarrow> sint (ucast n :: u8) = sint n"
    "- (2 ^ 15) \<le> sint n \<Longrightarrow> sint n \<le> 2 ^ 15 - 1 \<Longrightarrow> sint (ucast n :: u16) = sint n"
    "- (2 ^ 31) \<le> sint n \<Longrightarrow> sint n \<le> 2 ^ 31 - 1 \<Longrightarrow> sint (ucast n :: u32) = sint n"
    unfolding cast by (rule sint_of_int; assumption)+
qed

lemma uint_non_negative: "0 \<le> sint n \<Longrightarrow> uint n = sint (n :: u64)"
proof -
  assume nn: "0 \<le> sint n"
  have "uint n = take_bit 64 (sint n)"
    using unsigned_of_int [where ?'a = int and ?'b = 64, of "sint n"] by simp
  also have "\<dots> = sint n" using nn sint_bounds(8) [of n] by (simp add: take_bit_int_eq_self)
  finally show ?thesis .
qed

lemma narrow_unsigned:
  "0 \<le> sint n \<Longrightarrow> sint n \<le> 2 ^ 8 - 1 \<Longrightarrow> uint (ucast (n :: u64) :: u8) = sint n"
  "0 \<le> sint n \<Longrightarrow> sint n \<le> 2 ^ 16 - 1 \<Longrightarrow> uint (ucast (n :: u64) :: u16) = sint n"
  "0 \<le> sint n \<Longrightarrow> sint n \<le> 2 ^ 32 - 1 \<Longrightarrow> uint (ucast (n :: u64) :: u32) = sint n"
  using uint_non_negative [of n] by (simp_all add: unsigned_ucast_eq take_bit_int_eq_self)

lemma myc_int_forgiving:
  assumes "myc_int_bin B M F n c = Inr ps"
  shows "forgiving_numeric B M (sint n) c = Inr ps"
proof (cases "signed_column M c")
  case True
  consider "- (2 ^ 7) \<le> sint n \<and> sint n \<le> 2 ^ 7 - 1"
    | "\<not> (- (2 ^ 7) \<le> sint n \<and> sint n \<le> 2 ^ 7 - 1)" "- (2 ^ 15) \<le> sint n \<and> sint n \<le> 2 ^ 15 - 1"
    | "\<not> (- (2 ^ 7) \<le> sint n \<and> sint n \<le> 2 ^ 7 - 1)" "\<not> (- (2 ^ 15) \<le> sint n \<and> sint n \<le> 2 ^ 15 - 1)"
      "- (2 ^ 31) \<le> sint n \<and> sint n \<le> 2 ^ 31 - 1"
    | "\<not> (- (2 ^ 7) \<le> sint n \<and> sint n \<le> 2 ^ 7 - 1)" "\<not> (- (2 ^ 15) \<le> sint n \<and> sint n \<le> 2 ^ 15 - 1)"
      "\<not> (- (2 ^ 31) \<le> sint n \<and> sint n \<le> 2 ^ 31 - 1)"
    by blast
  then show ?thesis
  proof cases
    case 1
    then show ?thesis
      using assms True i8_forgiving [of B M "ucast n" c ps] narrow_signed(1) [of n]
      by (simp only: myc_int_bin_def simp_thms if_True)
  next
    case 2
    then show ?thesis
      using assms True i16_forgiving [of B M "ucast n" c ps] narrow_signed(2) [of n]
      by (simp only: myc_int_bin_def simp_thms if_True if_False)
  next
    case 3
    then show ?thesis
      using assms True i32_forgiving [of B M "ucast n" c ps] narrow_signed(3) [of n]
      by (simp only: myc_int_bin_def simp_thms if_True if_False)
  next
    case 4
    then show ?thesis
      using assms True i64_forgiving [of B M n c ps]
      by (simp only: myc_int_bin_def simp_thms if_True if_False)
  qed
next
  case False
  have nn: "0 \<le> sint n" using assms False by (simp add: myc_int_bin_def split: if_splits)
  show ?thesis
    using assms False nn narrow_unsigned [OF nn] uint_non_negative [OF nn]
      u8_forgiving [of B M "ucast n" c ps] u16_forgiving [of B M "ucast n" c ps]
      u32_forgiving [of B M "ucast n" c ps] u64_forgiving [of B M n c ps]
    by (simp add: myc_int_bin_def split: if_splits)
qed

lemma bytes_decode:
  assumes B: "byteorder_spec B" "myc_spec M" and "length v \<le> usize_max"
    and enc: "bytes_to_mysql_bin M F v c = Inr ps"
  shows "parse_from B M (concat ps @ rest) (coltype c) u = Inr (Bytes v, rest)"
proof -
  have "is_string_type (coltype c)" "ps = write_lenenc_str M v"
    using enc unfolding bytes_to_mysql_bin_def is_string_type_def by (simp_all split: if_splits)
  with parse_encoded [OF B enc_bytes] assms(3) show ?thesis by (simp add: myc_specD [OF B(2)])
qed

lemma float_decode:
  assumes B: "byteorder_spec B" "myc_spec M"
  shows "f32_to_mysql_bin B M F f c = Inr ps \<Longrightarrow>
      parse_from B M (concat ps @ rest) (coltype c) u = Inr (Double (f64_from_f32 f), rest)"
    "f64_to_mysql_bin B M F d c = Inr ps \<Longrightarrow>
      parse_from B M (concat ps @ rest) (coltype c) u = Inr (Double d, rest)"
  using parse_encoded [OF B enc_f32, where i = rest and u = u] parse_encoded [OF B enc_f64, where i = rest and u = u]
  by (auto simp: f32_to_mysql_bin_def f64_to_mysql_bin_def byteorder_specD [OF B(1)] split: if_splits)

lemma myc_date_decodes:
  assumes B: "byteorder_spec B" "myc_spec M"
    and enc: "myc_date_bin B M F y mo d h mi s us c = Inr ps"
  shows "\<exists>x. parse_from B M (concat ps @ rest) (coltype c) u = Inr (x, rest) \<and>
     myc_denotes (MyDate y mo d h mi s us) x"
proof -
  have ct: "coltype c \<in> {MYSQL_TYPE_DATE, MYSQL_TYPE_DATETIME, MYSQL_TYPE_TIMESTAMP}"
    using enc unfolding myc_date_bin_def by (auto split: sum.splits if_splits)
  define b where "b = (if us \<noteq> 0 then le16 y @ [mo, d, h, mi, s] @ le32 us
     else if h \<noteq> 0 \<or> mi \<noteq> 0 \<or> s \<noteq> 0 then le16 y @ [mo, d, h, mi, s]
     else if y \<noteq> 0 \<or> mo \<noteq> 0 \<or> d \<noteq> 0 then le16 y @ [mo, d] else [])"
  have payload: "concat ps = word_of_nat (length b) # b"
    using enc unfolding myc_date_bin_def b_def
    by (auto simp: byteorder_specD [OF B(1)] Let_def split: sum.splits if_splits)
  have len: "length b \<in> {0, 4, 7, 11}" by (simp add: b_def)
  have fields: "date_fields b = (unat y, unat mo, unat d, unat h, unat mi, unat s, unat us)"
    unfolding b_def using date_fields_forms by auto
  show ?thesis
  proof (cases "coltype c = MYSQL_TYPE_DATE")
    case True
    with temporal_decodes(1) [OF B len, of rest u] fields show ?thesis by (auto simp: payload)
  next
    case False
    with ct have "coltype c \<in> {MYSQL_TYPE_DATETIME, MYSQL_TYPE_TIMESTAMP}" by simp
    from temporal_decodes(2) [OF B len this, of rest u] fields show ?thesis by (auto simp: payload)
  qed
qed

lemma myc_time_decodes:
  assumes B: "byteorder_spec B" "myc_spec M"
    and dur: "mysql_time_duration d h m s us = Inr v" and enc: "write_mysql_time_bin B M F c v neg = Inr ps"
  shows "\<exists>x. parse_from B M (concat ps @ rest) (coltype c) u = Inr (x, rest) \<and>
     myc_denotes (MyTime neg d h m s us) x"
proof -
  have us: "us \<le> 999999" and v: "v = \<lparr>as_secs = unat d * 86400 + unat h * 3600 + unat m * 60 + unat s,
      subsec_nanos = unat us * 1000\<rparr>"
    using dur unfolding mysql_time_duration_def by (auto simp: Let_def split: if_splits sum.splits)
  have "unat us < 1000000" using us by (simp add: word_le_nat_alt)
  then have "subsec_nanos v < 1000000000" "subsec_micros v = unat us" by (simp_all add: v subsec_micros_def)
  with time_decodes [OF B this(1) enc, of rest u] show ?thesis by (auto simp: v Let_def unat_gt_0)
qed

lemma myc_decodes:
  assumes B: "byteorder_spec B" "myc_spec M" and "proper_value C (VMyc v)"
    and "myc_to_mysql_bin B M F v c = Ret (Inr ps)"
  shows "\<exists>x. parse_from B M (concat ps @ rest) (coltype c) (is_unsigned_column M c) = Inr (x, rest) \<and>
     myc_denotes v x"
  using assms(3,4)
  by (cases v) (auto simp: myc_to_mysql_bin_def bytes_decode [OF B] float_decode [OF B]
      simp del: myc_denotes.simps(7,8)
      intro: forgiving_decodes [OF B(1)] myc_int_forgiving u64_forgiving myc_date_decodes [OF B]
        myc_time_decodes [OF B]
      split: sum.splits)

lemma value_decodes:
  assumes B: "byteorder_spec B" "myc_spec M" and C: "chrono_spec C"
  shows "proper_value C v \<Longrightarrow> to_mysql_bin B M C F v c = Ret (Inr ps) \<Longrightarrow>
     \<exists>x. parse_from B M (concat ps @ rest) (coltype c) (is_unsigned_column M c) = Inr (x, rest) \<and> denotes C v x"
proof (induction v)
  case (VNaiveDate d)
  then show ?case using date_decodes [OF B C] by simp
next
  case (VNaiveDateTime t)
  then show ?case using datetime_decodes [OF B C] by simp
next
  case (VDuration v)
  then show ?case
    using time_decodes [OF B, of v F c False ps rest "is_unsigned_column M c"] by auto
next
  case (VMyc v)
  then show ?case using myc_decodes [OF B, of C v F c ps rest] by simp
qed (auto simp: bytes_decode [OF B] float_decode [OF B]
    intro: forgiving_decodes [OF B(1)] u8_forgiving u16_forgiving u32_forgiving u64_forgiving
      i8_forgiving i16_forgiving i32_forgiving i64_forgiving)

text \<open>The values that are NULL at the bottom, whatever wraps them.\<close>

fun holds_null :: "('d, 'dt) to_mysql_value \<Rightarrow> bool" where
  "holds_null VNone = True"
| "holds_null (VMyc v) = (v = MyNULL)"
| "holds_null (VSome v) = holds_null v"
| "holds_null (VRef v) = holds_null v"
| "holds_null _ = False"

lemma encoder_panics: "to_mysql_bin B M C F v c = Panicked \<longleftrightarrow> holds_null v"
  by (induction v) (auto simp: myc_to_mysql_bin_def split: MycValue.splits)

subsection \<open>Properties of value encoding\<close>

text \<open>C19: what a backend sends in the binary protocol is what was meant: whenever a value is
  accepted for a column, decoding the bytes with the column's type and signedness gives back the
  same number, bytes, date, date and time, or time (down to microseconds), and leaves the bytes
  of the next column alone.\<close>

theorem binary_roundtrip:
  assumes "byteorder_spec B" and "myc_spec M" and "chrono_spec C" and "proper_value C v"
    and "to_mysql_bin B M C F v c = Ret (Inr ps)"
  shows "\<exists>x. parse_from B M (concat ps @ rest) (coltype c) (is_unsigned_column M c) = Inr (x, rest) \<and>
     denotes C v x"
  by (rule value_decodes [OF assms])

definition fmt_none :: "('d, 'dt) fmt_ops" where
  "fmt_none = \<lparr>show_f32 = (\<lambda>_. []), show_f64 = (\<lambda>_. []), debug_f32 = (\<lambda>_. []), debug_f64 = (\<lambda>_. []),
     debug_bytes = (\<lambda>_. []), debug_date = (\<lambda>_. []), debug_datetime = (\<lambda>_. []), debug_duration = (\<lambda>_. []),
     debug_myc = (\<lambda>_. [])\<rparr>"

definition short_column :: Column where
  "short_column = \<lparr>table = [], column = [97], collen = 0, coltype = MYSQL_TYPE_SHORT, colflags = 0\<rparr>"

lemma demo_bytes: "le16 (- 2) = [0xFE, 0xFF]" "colflag_bits myc_ref UNSIGNED_FLAG \<noteq> 0"
proof -
  have "unat (- 2 :: u16) = 65534" by simp
  then show "le16 (- 2) = [0xFE, 0xFF]" by (simp add: le16_def numeral_2_eq_2)
  show "colflag_bits myc_ref UNSIGNED_FLAG \<noteq> 0" by (simp add: myc_ref_def ref_colflag_def)
qed

lemma demo_encoded:
  "to_mysql_bin byteorder_ref myc_ref chrono_ref fmt_none (VMyc (MyInt (- 2))) short_column =
     Ret (Inr [[0xFE, 0xFF]])"
  by (simp add: myc_to_mysql_bin_def myc_int_bin_def i8_to_mysql_bin_def signed_column_def short_column_def
      contains_def byteorder_ref_def demo_bytes)

theorem binary_roundtrip_witness:
  "\<exists>x. parse_from byteorder_ref myc_ref (concat [[0xFE, 0xFF]] @ [7]) (coltype short_column)
       (is_unsigned_column myc_ref short_column) = Inr (x, [7]) \<and>
     denotes chrono_ref (VMyc (MyInt (- 2))) x"
  using binary_roundtrip [OF byteorder_ref_spec myc_ref_spec chrono_ref_spec _ demo_encoded] by simp

text \<open>C38: the binary encoder reaches its unreachable branch exactly for values that are NULL under
  any wrapping, and the NULL test that guards it misses two of them: a reference to NULL, whose
  implementation inherits the default test, and Some of a NULL value.\<close>

theorem null_test_misses_references:
  "(to_mysql_bin B M C F v c = Panicked \<longleftrightarrow> holds_null v) \<and>
   \<not> value_is_null (VRef VNone :: ('d, 'dt) to_mysql_value) \<and>
   to_mysql_bin B M C F (VRef VNone) c = Panicked \<and>
   \<not> value_is_null (VSome (VMyc MyNULL) :: ('d, 'dt) to_mysql_value) \<and>
   to_mysql_bin B M C F (VSome (VMyc MyNULL)) c = Panicked"
  by (simp add: encoder_panics myc_to_mysql_bin_def)

end
