(* ===== verification/ResultSet.thy ===== *)
theory ResultSet
  imports Writers Encode Params
begin

text \<open>
  \<open>resultset.rs\<close>: the objects through which a backend answers a command. The references an
  object borrows from the session (packet writer, session status, completion flag) are fields of
  its record; a method that consumes the object returns the record it leaves behind, of which
  only the borrowed parts are used again. The optional session status and completion of
  \<open>QueryResultWriter\<close> are always present outside of tests.
\<close>

subsection \<open>Answering USE and the initial database\<close>

datatype InitResponse = Pending | InitOk | InitError

record InitWriter =
  iw_capabilities :: u32
  iw_status_flags :: u16
  iw_writer :: PacketWriter
  iw_completion :: InitResponse

definition init_new_tracked :: "PacketWriter \<Rightarrow> u32 \<Rightarrow> u16 \<Rightarrow> InitWriter" where
  "init_new_tracked w caps status =
     \<lparr>iw_capabilities = caps, iw_status_flags = status, iw_writer = w, iw_completion = Pending\<rparr>"

definition via_init :: "(PacketWriter, unit) io \<Rightarrow> (InitWriter, unit) io" where
  "via_init m i = (case m (iw_writer i) of (r, w) \<Rightarrow> (r, i\<lparr>iw_writer := w\<rparr>))"

definition init_ok_with_status :: "byteorder_ops \<Rightarrow> myc_ops \<Rightarrow> u16 \<Rightarrow> (InitWriter, unit) io" where
  "init_ok_with_status B M status i =
     then_io (via_init (write_ok_packet B M (iw_capabilities i) (default_ok\<lparr>ok_status_flags := status\<rparr>)))
       (\<lambda>i. (Inr (), i\<lparr>iw_status_flags := session_status_flags M status, iw_completion := InitOk\<rparr>)) i"

definition init_ok :: "byteorder_ops \<Rightarrow> myc_ops \<Rightarrow> (InitWriter, unit) io" where
  "init_ok B M i = init_ok_with_status B M (iw_status_flags i) i"

definition init_error :: "byteorder_ops \<Rightarrow> ErrorKind \<Rightarrow> bytes \<Rightarrow> (InitWriter, unit) io" where
  "init_error B kind msg =
     then_io (via_init (write_err B kind msg)) (\<lambda>i. (Inr (), i\<lparr>iw_completion := InitError\<rparr>))"

subsection \<open>Metadata\<close>

fun validate_each :: "myc_ops \<Rightarrow> ColumnMetadata list \<Rightarrow> unit io_result" where
  "validate_each M [] = Inr ()"
| "validate_each M (m # ms) = (case metadata_validate M m of Inl e \<Rightarrow> Inl e | Inr _ \<Rightarrow> validate_each M ms)"

definition validate_metadata :: "myc_ops \<Rightarrow> Column list \<Rightarrow> ColumnMetadata list \<Rightarrow> unit io_result" where
  "validate_metadata M columns metadata =
     (if length columns \<noteq> length metadata
      then Inl (IoError InvalidInput (ascii ''column metadata count mismatch''))
      else validate_each M metadata)"

definition default_column_metadata :: "Column \<Rightarrow> Column \<times> ColumnMetadata" where
  "default_column_metadata c = (c, default_metadata)"

subsection \<open>Answering PREPARE\<close>

text \<open>The statement table is a list of key and data; a new key is added in front.\<close>

type_synonym statements = "(u32 \<times> StatementData) list"

record StatementMetaWriter =
  sm_writer :: PacketWriter
  sm_stmts :: statements
  sm_capabilities :: u32
  sm_status_flags :: u16
  sm_completion :: bool

definition via_meta :: "(PacketWriter, unit) io \<Rightarrow> (StatementMetaWriter, unit) io" where
  "via_meta m s = (case m (sm_writer s) of (r, w) \<Rightarrow> (r, s\<lparr>sm_writer := w\<rparr>))"

definition reply_inner :: "byteorder_ops \<Rightarrow> myc_ops \<Rightarrow> u32 \<Rightarrow> (Column \<times> ColumnMetadata) list \<Rightarrow>
    (Column \<times> ColumnMetadata) list \<Rightarrow> (StatementMetaWriter, unit) io" where
  "reply_inner B M i ps cs s =
     (if length ps > 65535 then
        (Inl (IoError InvalidInput (ascii ''prepared statement has more than 65535 parameters'')), s)
      else if length cs > 65535 then
        (Inl (IoError InvalidInput (ascii ''prepared statement has more than 65535 result columns'')), s)
      else if map_of (sm_stmts s) i \<noteq> None then
        (Inl (IoError InvalidInput (ascii ''duplicate prepared statement id '' @ dec (unat i))), s)
      else then_io (via_meta (write_prepare_ok B M i ps cs (sm_capabilities s) (sm_status_flags s)))
        (\<lambda>s. (Inr (), s\<lparr>sm_stmts := (i, new_statement\<lparr>params := word_of_nat (length ps)\<rparr>) # sm_stmts s,
                      sm_completion := True\<rparr>)) s)"

definition reply :: "byteorder_ops \<Rightarrow> myc_ops \<Rightarrow> u32 \<Rightarrow> Column list \<Rightarrow> Column list \<Rightarrow>
    (StatementMetaWriter, unit) io" where
  "reply B M i ps cs = reply_inner B M i (map default_column_metadata ps) (map default_column_metadata cs)"

definition reply_with_metadata :: "byteorder_ops \<Rightarrow> myc_ops \<Rightarrow> u32 \<Rightarrow> Column list \<Rightarrow> Column list \<Rightarrow>
    ColumnMetadata list \<Rightarrow> ColumnMetadata list \<Rightarrow> (StatementMetaWriter, unit) io" where
  "reply_with_metadata B M i ps cs pm cm s =
     (case validate_metadata M ps pm of Inl e \<Rightarrow> (Inl e, s) | Inr _ \<Rightarrow>
       (case validate_metadata M cs cm of Inl e \<Rightarrow> (Inl e, s) | Inr _ \<Rightarrow>
         reply_inner B M i (zip ps pm) (zip cs cm) s))"

definition meta_error :: "byteorder_ops \<Rightarrow> ErrorKind \<Rightarrow> bytes \<Rightarrow> (StatementMetaWriter, unit) io" where
  "meta_error B kind msg =
     then_io (via_meta (write_err B kind msg)) (\<lambda>s. (Inr (), s\<lparr>sm_completion := True\<rparr>))"

subsection \<open>Answering queries\<close>

datatype Finalizer = FinOk OkResponse | FinEof u16

record QueryResultWriter =
  is_bin :: bool
  q_capabilities :: u32
  q_writer :: PacketWriter
  last_end :: "Finalizer option"
  default_status :: u16
  session_status :: u16
  completion :: bool

definition query_new_tracked :: "PacketWriter \<Rightarrow> bool \<Rightarrow> u32 \<Rightarrow> u16 \<Rightarrow> QueryResultWriter" where
  "query_new_tracked w bin caps status =
     \<lparr>is_bin = bin, q_capabilities = caps, q_writer = w, last_end = None, default_status = status,
      session_status = status, completion = False\<rparr>"

definition via_writer :: "(PacketWriter, unit) io \<Rightarrow> (QueryResultWriter, unit) io" where
  "via_writer m q = (case m (q_writer q) of (r, w) \<Rightarrow> (r, q\<lparr>q_writer := w\<rparr>))"

text \<open>\<open>status_flags.set(SERVER_MORE_RESULTS_EXISTS, more_exists)\<close> on either kind of terminator.\<close>

fun with_more :: "myc_ops \<Rightarrow> bool \<Rightarrow> Finalizer \<Rightarrow> Finalizer" where
  "with_more M on (FinOk ok) = FinOk (ok\<lparr>ok_status_flags :=
     set_flag (ok_status_flags ok) (status_bits M SERVER_MORE_RESULTS_EXISTS) on\<rparr>)"
| "with_more M on (FinEof status) =
     FinEof (set_flag status (status_bits M SERVER_MORE_RESULTS_EXISTS) on)"

fun finalizer_status :: "Finalizer \<Rightarrow> u16" where
  "finalizer_status (FinOk ok) = ok_status_flags ok"
| "finalizer_status (FinEof status) = status"

fun write_finalizer :: "byteorder_ops \<Rightarrow> myc_ops \<Rightarrow> u32 \<Rightarrow> Finalizer \<Rightarrow> (PacketWriter, unit) io" where
  "write_finalizer B M caps (FinOk ok) = write_ok_packet B M caps ok"
| "write_finalizer B M caps (FinEof status) = write_eof_packet B status"

definition multi_results_required :: "bool \<Rightarrow> capability" where
  "multi_results_required bin = (if bin then CLIENT_PS_MULTI_RESULTS else CLIENT_MULTI_RESULTS)"

definition finalize :: "byteorder_ops \<Rightarrow> myc_ops \<Rightarrow> bool \<Rightarrow> (QueryResultWriter, unit) io" where
  "finalize B M more_exists q =
     (if more_exists \<and> last_end q \<noteq> None \<and> \<not> has_cap M (q_capabilities q) (multi_results_required (is_bin q))
      then (Inl (IoError InvalidInput (ascii ''client did not negotiate multiple result sets'')), q)
      else case last_end q of
        None \<Rightarrow> (Inr (), q)
      | Some f \<Rightarrow>
          let f = with_more M more_exists f in
          then_io (via_writer (write_finalizer B M (q_capabilities q) f))
            (\<lambda>q. (Inr (), q\<lparr>session_status := session_status_flags M (finalizer_status f)\<rparr>))
            (q\<lparr>last_end := None\<rparr>))"

definition query_set_status_flags :: "u16 \<Rightarrow> QueryResultWriter \<Rightarrow> QueryResultWriter" where
  "query_set_status_flags status q = q\<lparr>default_status := status\<rparr>"

definition no_more_results :: "byteorder_ops \<Rightarrow> myc_ops \<Rightarrow> (QueryResultWriter, unit) io" where
  "no_more_results B M q =
     (if last_end q = None then
        (Inl (IoError InvalidData (ascii ''cannot finish a command without a result or OK response'')), q)
      else then_io (finalize B M False) (\<lambda>q. (Inr (), q\<lparr>completion := True\<rparr>)) q)"

definition complete_one_with_status :: "byteorder_ops \<Rightarrow> myc_ops \<Rightarrow> OkResponse \<Rightarrow> (QueryResultWriter, unit) io" where
  "complete_one_with_status B M ok =
     then_io (finalize B M True)
       (\<lambda>q. (Inr (), q\<lparr>default_status := session_status_flags M (ok_status_flags ok), last_end := Some (FinOk ok)\<rparr>))"

definition complete_one :: "byteorder_ops \<Rightarrow> myc_ops \<Rightarrow> OkResponse \<Rightarrow> (QueryResultWriter, unit) io" where
  "complete_one B M ok q =
     complete_one_with_status B M
       (if ok_status_flags ok = 0 then ok\<lparr>ok_status_flags := default_status q\<rparr> else ok) q"

definition completed :: "byteorder_ops \<Rightarrow> myc_ops \<Rightarrow> OkResponse \<Rightarrow> (QueryResultWriter, unit) io" where
  "completed B M ok = then_io (complete_one B M ok) (no_more_results B M)"

definition completed_with_status :: "byteorder_ops \<Rightarrow> myc_ops \<Rightarrow> OkResponse \<Rightarrow> (QueryResultWriter, unit) io" where
  "completed_with_status B M ok = then_io (complete_one_with_status B M ok) (no_more_results B M)"

definition query_error :: "byteorder_ops \<Rightarrow> myc_ops \<Rightarrow> ErrorKind \<Rightarrow> bytes \<Rightarrow> (QueryResultWriter, unit) io" where
  "query_error B M kind msg =
     then_io (finalize B M True)
       (then_io (via_writer (write_err B kind msg))
         (\<lambda>q. (Inr (), q\<lparr>session_status := session_status_flags M (default_status q), completion := True\<rparr>)))"

subsection \<open>Rows\<close>

record RowWriter =
  rw_capabilities :: u32
  rw_result :: QueryResultWriter
  bitmap_len :: nat
  rw_data :: bytes
  rw_columns :: "Column list"
  rw_col :: nat
  rw_finished :: bool

definition via_result :: "(QueryResultWriter, unit) io \<Rightarrow> (RowWriter, unit) io" where
  "via_result m rw = (case m (rw_result rw) of (r, q) \<Rightarrow> (r, rw\<lparr>rw_result := q\<rparr>))"

definition row_start :: "byteorder_ops \<Rightarrow> myc_ops \<Rightarrow> ColumnMetadata list option \<Rightarrow> (RowWriter, unit) io" where
  "row_start B M metadata rw =
     (if rw_columns rw = [] then (Inr (), rw)
      else via_result (via_writer (column_definitions B M
        (case metadata of Some m \<Rightarrow> zip (rw_columns rw) m | None \<Rightarrow> map default_column_metadata (rw_columns rw))
        (rw_capabilities rw) (default_status (rw_result rw)))) rw)"

definition row_init :: "QueryResultWriter \<Rightarrow> Column list \<Rightarrow> RowWriter" where
  "row_init q columns =
     \<lparr>rw_capabilities = q_capabilities q, rw_result = q, bitmap_len = (length columns + 7 + 2) div 8,
      rw_data = [], rw_columns = columns, rw_col = 0, rw_finished = False\<rparr>"

text \<open>\<open>RowWriter::new\<close>; \<open>start\<close> and \<open>start_with_metadata\<close> of the query writer.\<close>

definition row_new :: "byteorder_ops \<Rightarrow> myc_ops \<Rightarrow> QueryResultWriter \<Rightarrow> Column list \<Rightarrow>
    ColumnMetadata list option \<Rightarrow> unit io_result \<times> RowWriter" where
  "row_new B M q columns metadata = row_start B M metadata (row_init q columns)"

definition start :: "byteorder_ops \<Rightarrow> myc_ops \<Rightarrow> Column list \<Rightarrow> QueryResultWriter \<Rightarrow> unit io_result \<times> RowWriter" where
  "start B M columns q =
     (case finalize B M True q of
        (Inl e, q) \<Rightarrow> (Inl e, row_init q columns)
      | (Inr _, q) \<Rightarrow> row_new B M q columns None)"

definition start_with_metadata :: "byteorder_ops \<Rightarrow> myc_ops \<Rightarrow> Column list \<Rightarrow> ColumnMetadata list \<Rightarrow>
    QueryResultWriter \<Rightarrow> unit io_result \<times> RowWriter" where
  "start_with_metadata B M columns metadata q =
     (case validate_metadata M columns metadata of
        Inl e \<Rightarrow> (Inl e, row_init q columns)
      | Inr _ \<Rightarrow>
          (case finalize B M True q of
             (Inl e, q) \<Rightarrow> (Inl e, row_init q columns)
           | (Inr _, q) \<Rightarrow> row_new B M q columns (Some metadata)))"

text \<open>\<open>impl Write for RowBufferWriter\<close>, through a run of \<open>write_all\<close> calls.\<close>

definition row_buffer_write :: "nat \<Rightarrow> bytes \<Rightarrow> bytes \<Rightarrow> unit io_result \<times> bytes" where
  "row_buffer_write limit buf bf =
     (case checked_add (length bf) (length buf) of
        None \<Rightarrow> (Inl (IoError InvalidData (ascii ''row size overflow'')), bf)
      | Some new_len \<Rightarrow>
          if new_len > limit then (Inl (limit_error new_len limit), bf)
          else (Inr (), bf @ buf))"

fun row_buffer_write_all :: "nat \<Rightarrow> bytes list \<Rightarrow> bytes \<Rightarrow> unit io_result \<times> bytes" where
  "row_buffer_write_all limit [] bf = (Inr (), bf)"
| "row_buffer_write_all limit (p # ps) bf =
     (case (if p = [] then (Inr (), bf) else row_buffer_write limit p bf) of
        (Inl e, bf) \<Rightarrow> (Inl e, bf)
      | (Inr _, bf) \<Rightarrow> row_buffer_write_all limit ps bf)"

text \<open>\<open>Vec::resize\<close> with zeros, and the end of \<open>write_col\<close>: a failed encoding is cut off again.\<close>

definition resize :: "nat \<Rightarrow> bytes \<Rightarrow> bytes" where
  "resize n v = take n v @ replicate (n - length v) 0"

definition put_value :: "nat \<Rightarrow> nat \<Rightarrow> encoded \<Rightarrow> (RowWriter, unit) io" where
  "put_value limit checkpoint value rw =
     (case value of
        Inl e \<Rightarrow> (Inl e, rw\<lparr>rw_data := take checkpoint (rw_data rw)\<rparr>)
      | Inr pieces \<Rightarrow>
          (case row_buffer_write_all limit pieces (rw_data rw) of
             (Inl e, v) \<Rightarrow> (Inl e, rw\<lparr>rw_data := take checkpoint v\<rparr>)
           | (Inr _, v) \<Rightarrow> (Inr (), rw\<lparr>rw_data := v, rw_col := rw_col rw + 1\<rparr>)))"

text \<open>The bit of a NULL in the map, \<open>data[1 + (col + 2) / 8] |= 1u8 << ((col + 2) % 8)\<close>.\<close>

definition put_null :: "RowWriter \<Rightarrow> (unit io_result \<times> RowWriter) rust" where
  "put_null rw =
     (let i = 1 + (rw_col rw + 2) div 8 in
      if i \<ge> length (rw_data rw) then Panicked
      else Ret (Inr (), rw\<lparr>rw_data := (rw_data rw)[i := rw_data rw ! i OR push_bit ((rw_col rw + 2) mod 8) 1],
                         rw_col := rw_col rw + 1\<rparr>))"

definition write_col :: "byteorder_ops \<Rightarrow> myc_ops \<Rightarrow> ('d, 'dt) chrono_ops \<Rightarrow> ('d, 'dt) fmt_ops \<Rightarrow>
    ('d, 'dt) to_mysql_value \<Rightarrow> RowWriter \<Rightarrow> (unit io_result \<times> RowWriter) rust" where
  "write_col B M C F v rw =
     (if rw_columns rw = [] then Ret (Inr (), rw)
      else if rw_col rw \<ge> length (rw_columns rw) then
        Ret (Inl (IoError InvalidData (ascii ''row has more columns than specification'')), rw)
      else
        let c = rw_columns rw ! rw_col rw;
            checkpoint = length (rw_data rw);
            packet_capacity = remaining_packet_capacity (q_writer (rw_result rw)) in
        if is_bin (rw_result rw) then
          if rw_col rw = 0 \<and> 1 + bitmap_len rw > packet_capacity then
            Ret (Inl (limit_error (1 + bitmap_len rw) packet_capacity), rw)
          else
            let rw = (if rw_col rw = 0 then rw\<lparr>rw_data := resize (1 + bitmap_len rw) (rw_data rw)\<rparr> else rw) in
            if value_is_null v then
              if contains (colflags c) (colflag_bits M NOT_NULL_FLAG) then
                Ret (Inl (IoError InvalidData (ascii ''given NULL value for NOT NULL column'')), rw)
              else put_null rw
            else (case to_mysql_bin B M C F v c of
                    Panicked \<Rightarrow> Panicked
                  | Ret value \<Rightarrow> Ret (put_value packet_capacity checkpoint value rw))
        else Ret (put_value packet_capacity checkpoint (to_mysql_text_with_column M C F v c) rw))"

definition end_row :: "byteorder_ops \<Rightarrow> (RowWriter, unit) io" where
  "end_row B rw =
     (if rw_columns rw = [] then (Inr (), rw\<lparr>rw_col := rw_col rw + 1\<rparr>)
      else if rw_col rw \<noteq> length (rw_columns rw) then
        (Inl (IoError InvalidData (ascii ''row has fewer columns than specification'')), rw)
      else then_io (via_result (via_writer (write_packet B (rw_data rw))))
        (\<lambda>rw. (Inr (), rw\<lparr>rw_data := [], rw_col := 0\<rparr>)) rw)"

fun write_cols :: "byteorder_ops \<Rightarrow> myc_ops \<Rightarrow> ('d, 'dt) chrono_ops \<Rightarrow> ('d, 'dt) fmt_ops \<Rightarrow>
    ('d, 'dt) to_mysql_value list \<Rightarrow> RowWriter \<Rightarrow> (unit io_result \<times> RowWriter) rust" where
  "write_cols B M C F [] rw = Ret (Inr (), rw)"
| "write_cols B M C F (v # vs) rw =
     (case write_col B M C F v rw of
        Panicked \<Rightarrow> Panicked
      | Ret (Inl e, rw) \<Rightarrow> Ret (Inl e, rw)
      | Ret (Inr _, rw) \<Rightarrow> write_cols B M C F vs rw)"

definition write_row :: "byteorder_ops \<Rightarrow> myc_ops \<Rightarrow> ('d, 'dt) chrono_ops \<Rightarrow> ('d, 'dt) fmt_ops \<Rightarrow>
    ('d, 'dt) to_mysql_value list \<Rightarrow> RowWriter \<Rightarrow> (unit io_result \<times> RowWriter) rust" where
  "write_row B M C F row rw =
     (case (if rw_columns rw \<noteq> [] then write_cols B M C F row rw else Ret (Inr (), rw)) of
        Panicked \<Rightarrow> Panicked
      | Ret (Inl e, rw) \<Rightarrow> Ret (Inl e, rw)
      | Ret (Inr _, rw) \<Rightarrow> Ret (end_row B rw))"

definition row_set_status_flags :: "u16 \<Rightarrow> RowWriter \<Rightarrow> RowWriter" where
  "row_set_status_flags status rw = rw\<lparr>rw_result := query_set_status_flags status (rw_result rw)\<rparr>"

text \<open>The terminator of a result set with the given columns, in \<open>finish_inner\<close>.\<close>

definition row_finalizer :: "myc_ops \<Rightarrow> u32 \<Rightarrow> Column list \<Rightarrow> u16 \<Rightarrow> bytes \<Rightarrow> Finalizer" where
  "row_finalizer M caps columns status extra_info =
     (if columns = [] then FinOk (default_ok\<lparr>info := extra_info, ok_status_flags := status\<rparr>)
      else if has_cap M caps CLIENT_DEPRECATE_EOF then
        FinOk (default_ok\<lparr>header := 0xFE, info := extra_info, ok_status_flags := status\<rparr>)
      else FinEof status)"

definition finish_inner :: "byteorder_ops \<Rightarrow> myc_ops \<Rightarrow> bytes \<Rightarrow> bool \<Rightarrow> (RowWriter, unit) io" where
  "finish_inner B M extra_info complete rw =
     (if rw_finished rw then (Inr (), rw)
      else then_io (\<lambda>rw. if rw_columns rw \<noteq> [] \<and> rw_col rw \<noteq> 0 then end_row B rw else (Inr (), rw))
        (\<lambda>rw. (Inr (), if \<not> complete then rw else
           let q = rw_result rw; status = default_status q in
           rw\<lparr>rw_result := q\<lparr>
             last_end := Some (row_finalizer M (rw_capabilities rw) (rw_columns rw) status extra_info),
             default_status := session_status_flags M status\<rparr>\<rparr>))
        (rw\<lparr>rw_finished := True\<rparr>))"

definition finish_one_with_info :: "byteorder_ops \<Rightarrow> myc_ops \<Rightarrow> bytes \<Rightarrow> RowWriter \<Rightarrow>
    unit io_result \<times> QueryResultWriter" where
  "finish_one_with_info B M extra_info rw =
     (case finish_inner B M extra_info True rw of (r, rw) \<Rightarrow> (r, rw_result rw))"

definition finish_with_info :: "byteorder_ops \<Rightarrow> myc_ops \<Rightarrow> bytes \<Rightarrow> RowWriter \<Rightarrow>
    unit io_result \<times> QueryResultWriter" where
  "finish_with_info B M extra_info rw =
     (case finish_one_with_info B M extra_info rw of
        (Inl e, q) \<Rightarrow> (Inl e, q)
      | (Inr _, q) \<Rightarrow> no_more_results B M q)"

definition finish :: "byteorder_ops \<Rightarrow> myc_ops \<Rightarrow> RowWriter \<Rightarrow> unit io_result \<times> QueryResultWriter" where
  "finish B M = finish_with_info B M []"

definition finish_one :: "byteorder_ops \<Rightarrow> myc_ops \<Rightarrow> RowWriter \<Rightarrow> unit io_result \<times> QueryResultWriter" where
  "finish_one B M = finish_one_with_info B M []"

definition finish_error :: "byteorder_ops \<Rightarrow> myc_ops \<Rightarrow> ErrorKind \<Rightarrow> bytes \<Rightarrow> RowWriter \<Rightarrow>
    unit io_result \<times> QueryResultWriter" where
  "finish_error B M kind msg rw = query_error B M kind msg (rw_result rw)"

subsection \<open>Cursors\<close>

record CursorExecuteWriter =
  ce_result :: QueryResultWriter
  ce_columns :: "Column list option"

definition cursor_execute_set_status_flags :: "u16 \<Rightarrow> CursorExecuteWriter \<Rightarrow> CursorExecuteWriter" where
  "cursor_execute_set_status_flags status ce = ce\<lparr>ce_result := query_set_status_flags status (ce_result ce)\<rparr>"

definition cursor_finalizer :: "myc_ops \<Rightarrow> u32 \<Rightarrow> u16 \<Rightarrow> Finalizer" where
  "cursor_finalizer M caps status =
     (if has_cap M caps CLIENT_DEPRECATE_EOF
      then FinOk (default_ok\<lparr>header := 0xFE, ok_status_flags := status\<rparr>) else FinEof status)"

definition cursor_open :: "byteorder_ops \<Rightarrow> myc_ops \<Rightarrow> Column list \<Rightarrow> ColumnMetadata list \<Rightarrow>
    (CursorExecuteWriter, unit) io" where
  "cursor_open B M columns metadata ce =
     (case validate_metadata M columns metadata of Inl e \<Rightarrow> (Inl e, ce) | Inr _ \<Rightarrow>
        if columns = [] \<or> length columns > 65535 then
          (Inl (IoError InvalidInput (ascii ''invalid cursor column count'')), ce)
        else
          let result = ce_result ce;
              status = session_status_flags M (default_status result) OR status_bits M SERVER_STATUS_CURSOR_EXISTS in
          (case then_io (via_writer (column_definitions B M (zip columns metadata)
                   (q_capabilities result OR cap_bits M CLIENT_DEPRECATE_EOF) status))
               (\<lambda>q. no_more_results B M (q\<lparr>last_end := Some (cursor_finalizer M (q_capabilities q) status)\<rparr>)) result of
             (Inl e, q) \<Rightarrow> (Inl e, ce\<lparr>ce_result := q\<rparr>)
           | (Inr _, q) \<Rightarrow> (Inr (), ce\<lparr>ce_result := q, ce_columns := Some columns\<rparr>)))"

definition cursor_execute_error :: "byteorder_ops \<Rightarrow> myc_ops \<Rightarrow> ErrorKind \<Rightarrow> bytes \<Rightarrow>
    (CursorExecuteWriter, unit) io" where
  "cursor_execute_error B M kind msg ce =
     (case query_error B M kind msg (ce_result ce) of (r, q) \<Rightarrow> (r, ce\<lparr>ce_result := q\<rparr>))"

record CursorFetchWriter =
  cf_rows :: RowWriter
  cf_remaining :: nat
  cf_exhausted :: bool

definition fetch_new :: "QueryResultWriter \<Rightarrow> Column list \<Rightarrow> u32 \<Rightarrow> CursorFetchWriter" where
  "fetch_new result columns limit =
     \<lparr>cf_rows = \<lparr>rw_capabilities = q_capabilities result, rw_result = result,
        bitmap_len = (length columns + 9) div 8, rw_data = [], rw_columns = columns, rw_col = 0,
        rw_finished = False\<rparr>,
      cf_remaining = unat limit, cf_exhausted = False\<rparr>"

definition fetch_set_status_flags :: "u16 \<Rightarrow> CursorFetchWriter \<Rightarrow> CursorFetchWriter" where
  "fetch_set_status_flags status cf = cf\<lparr>cf_rows := row_set_status_flags status (cf_rows cf)\<rparr>"

text \<open>\<open>encode\<close> is the backend's closure; it works on the row writer, before the row is sent.\<close>

definition fetch_write_row_with :: "byteorder_ops \<Rightarrow> (RowWriter \<Rightarrow> (unit io_result \<times> RowWriter) rust) \<Rightarrow>
    CursorFetchWriter \<Rightarrow> (unit io_result \<times> CursorFetchWriter) rust" where
  "fetch_write_row_with B encode cf =
     (if cf_remaining cf = 0 then
        Ret (Inl (IoError InvalidInput (ascii ''FETCH row limit exceeded'')), cf)
      else case encode (cf_rows cf) of
        Panicked \<Rightarrow> Panicked
      | Ret (Inl e, rw) \<Rightarrow> Ret (Inl e, cf\<lparr>cf_rows := rw\<rparr>)
      | Ret (Inr _, rw) \<Rightarrow>
          (case end_row B rw of
             (Inl e, rw) \<Rightarrow> Ret (Inl e, cf\<lparr>cf_rows := rw\<rparr>)
           | (Inr _, rw) \<Rightarrow> Ret (Inr (), cf\<lparr>cf_rows := rw, cf_remaining := cf_remaining cf - 1\<rparr>)))"

definition fetch_finish :: "byteorder_ops \<Rightarrow> myc_ops \<Rightarrow> bool \<Rightarrow> (CursorFetchWriter, unit) io" where
  "fetch_finish B M exhausted cf =
     (if rw_col (cf_rows cf) \<noteq> 0 then (Inl (IoError InvalidData (ascii ''unfinished FETCH row'')), cf)
      else
        let result = rw_result (cf_rows cf);
            flag = (if exhausted then SERVER_STATUS_LAST_ROW_SENT else SERVER_STATUS_CURSOR_EXISTS);
            status = session_status_flags M (default_status result) OR status_bits M flag in
        (case no_more_results B M (result\<lparr>last_end := Some (cursor_finalizer M (q_capabilities result) status)\<rparr>) of
           (Inl e, q) \<Rightarrow> (Inl e, cf\<lparr>cf_rows := (cf_rows cf)\<lparr>rw_result := q\<rparr>\<rparr>)
         | (Inr _, q) \<Rightarrow> (Inr (), cf\<lparr>cf_rows := (cf_rows cf)\<lparr>rw_result := q\<rparr>, cf_exhausted := exhausted\<rparr>)))"

definition fetch_error :: "byteorder_ops \<Rightarrow> myc_ops \<Rightarrow> ErrorKind \<Rightarrow> bytes \<Rightarrow> (CursorFetchWriter, unit) io" where
  "fetch_error B M kind msg cf =
     (case finish_error B M kind msg (cf_rows cf) of
        (r, q) \<Rightarrow> (r, cf\<lparr>cf_rows := (cf_rows cf)\<lparr>rw_result := q\<rparr>, cf_exhausted := True\<rparr>))"

end
