(* ===== verification/Responses.thy ===== *)
theory Responses
  imports ResultSet
begin

text \<open>
  What a client sees of a backend's answer. A backend drives a \<open>QueryResultWriter\<close> by a sequence
  of operations; \<open>respond\<close> runs one, on a state that tells which object the backend holds. The
  abstract specification is a grammar of response items (\<open>preceding\<close>, \<open>final_result\<close>): every result set
  but the last ends with a terminator announcing more results. The invariant of the reachable
  states relates the packets on the wire to the items, so a response that the session accepts as
  complete is a word of the grammar, whatever the backend did.
\<close>

subsection \<open>Operations keep a reliable transport reliable\<close>

named_theorems reliable_intros

lemma reliable_then [reliable_intros]:
  "preserves writer_reliable m \<Longrightarrow> preserves writer_reliable k \<Longrightarrow> preserves writer_reliable (then_io m k)"
  by (rule preserves_then)

lemma reliable_ok [reliable_intros]:
  "preserves writer_reliable (ok_io x)" "preserves writer_reliable (Pair (Inr x))"
  by (simp_all add: preserves_def)

lemma reliable_chunk [reliable_intros]: "preserves writer_reliable (write_chunk B c)"
  unfolding preserves_def using write_chunk_reliable by (metis snd_conv)

lemma reliable_seq: "(\<And>m. m \<in> set ms \<Longrightarrow> preserves writer_reliable m) \<Longrightarrow> preserves writer_reliable (seq_io ms)"
  by (rule preserves_seq)

lemma reliable_flush [reliable_intros]: "preserves writer_reliable flush_output"
  unfolding preserves_def using flush_output_reliable by (metis snd_conv)

lemma reliable_write_packet [reliable_intros]: "preserves writer_reliable (write_packet B p)"
proof -
  have "preserves writer_reliable (\<lambda>w. if flush_threshold w > 0 \<and> length p \<ge> flush_threshold w
      then flush_output w else (Inr (), w))"
    using reliable_flush by (simp add: preserves_def)
  moreover have "preserves writer_reliable (seq_io (map (write_chunk B) (chunks U24_MAX p)))"
    by (rule reliable_seq) (auto intro: reliable_intros)
  moreover define K where "K = then_io (seq_io (map (write_chunk B) (chunks U24_MAX p)))
     (then_io (if length p mod U24_MAX = 0 then write_chunk B [] else ok_io ())
       (\<lambda>w. if flush_threshold w > 0 \<and> length p \<ge> flush_threshold w then flush_output w else (Inr (), w)))"
  ultimately have K: "preserves writer_reliable K" by (auto intro!: reliable_intros)
  have "write_packet B p w = (if \<not> builder_is_empty (packet_builder w) then (Inl not_empty_error, w)
      else if length p > writer_max_packet_size w then (Inl packet_limit_error, w)
      else if p = [] then (Inr (), w) else K w)" for w
    by (simp add: write_packet_def K_def)
  with K show ?thesis by (simp add: preserves_def)
qed

lemma reliable_builder [simp]:
  "writer_reliable (w\<lparr>packet_builder := b\<rparr>) \<longleftrightarrow> writer_reliable w"
  by (simp add: writer_reliable_def has_timeout_def)

lemma reliable_message [reliable_intros]: "preserves writer_reliable (message B ps)"
proof -
  have "preserves writer_reliable (write_all b)" for b
    by (auto simp: preserves_def write_all_def split: prod.split sum.split)
  moreover have "preserves writer_reliable (end_packet B)"
    using reliable_write_packet by (auto simp: preserves_def end_packet_def split: prod.split)
  ultimately show ?thesis
    unfolding message_def writes_def by (auto intro!: reliable_then reliable_seq)
qed

lemma reliable_column_definitions [reliable_intros]: "preserves writer_reliable (column_definitions B M i caps status)"
  unfolding column_definitions_def write_column_definitions_41_def write_eof_packet_def
  by (auto intro!: reliable_intros reliable_seq)

lemma reliable_finalizer [reliable_intros]: "preserves writer_reliable (write_finalizer B M caps f)"
  by (cases f) (auto simp: write_ok_packet_def write_eof_packet_def intro: reliable_intros)

lemma reliable_err [reliable_intros]: "preserves writer_reliable (write_err B kind msg)"
  unfolding write_err_def by (rule reliable_message)

subsection \<open>The grammar of responses\<close>

datatype item =
    Header "(Column \<times> ColumnMetadata) list" u16
  | Row bytes
  | Terminator Finalizer
  | Failure ErrorKind bytes

fun finalizer_payload :: "byteorder_ops \<Rightarrow> myc_ops \<Rightarrow> u32 \<Rightarrow> Finalizer \<Rightarrow> bytes" where
  "finalizer_payload B M caps (FinOk ok) = ok_payload B M caps ok"
| "finalizer_payload B M caps (FinEof status) = eof_payload status"

fun item_packets :: "byteorder_ops \<Rightarrow> myc_ops \<Rightarrow> u32 \<Rightarrow> item \<Rightarrow> bytes list" where
  "item_packets B M caps (Header cs status) =
     lenenc_int (word_of_nat (length cs)) # column_packets B M cs caps False status"
| "item_packets B M caps (Row p) = [p]"
| "item_packets B M caps (Terminator f) = [finalizer_payload B M caps f]"
| "item_packets B M caps (Failure kind msg) = [err_payload kind msg]"

definition response_packets :: "byteorder_ops \<Rightarrow> myc_ops \<Rightarrow> u32 \<Rightarrow> item list \<Rightarrow> bytes list" where
  "response_packets B M caps is = concat (map (item_packets B M caps) is)"

lemma response_packets_simps [simp]:
  "response_packets B M caps [] = []"
  "response_packets B M caps (is @ js) = response_packets B M caps is @ response_packets B M caps js"
  "response_packets B M caps (i # is) = item_packets B M caps i @ response_packets B M caps is"
  by (simp_all add: response_packets_def)

text \<open>
  \<open>result_body caps rs f\<close>: the items of one result set before its terminator, and the terminator
  that suits them: an OK packet when there are no columns; otherwise the column definitions, the
  rows, and the end marker that the client's capabilities ask for.
\<close>

inductive result_body :: "myc_ops \<Rightarrow> u32 \<Rightarrow> item list \<Rightarrow> Finalizer \<Rightarrow> bool" for M caps where
  without_rows: "result_body M caps [] (FinOk ok)"
| with_rows: "cs \<noteq> [] \<Longrightarrow> (if has_cap M caps CLIENT_DEPRECATE_EOF then \<exists>ok. f = FinOk ok \<and> header ok = 0xFE
       else \<exists>status. f = FinEof status) \<Longrightarrow>
    result_body M caps (Header cs status # map Row rows) f"

inductive preceding :: "myc_ops \<Rightarrow> u32 \<Rightarrow> item list \<Rightarrow> bool" for M caps where
  nothing: "preceding M caps []"
| another: "preceding M caps s \<Longrightarrow> result_body M caps rs f \<Longrightarrow>
    preceding M caps (s @ rs @ [Terminator (with_more M True f)])"

text \<open>
  The end of a response: the last result set, whose terminator announces nothing more and is
  reported, or an error, which may cut a result set short.
\<close>

inductive final_result :: "myc_ops \<Rightarrow> u32 \<Rightarrow> item list \<Rightarrow> Finalizer option \<Rightarrow> bool" for M caps where
  last_result: "result_body M caps rs f \<Longrightarrow>
    final_result M caps (rs @ [Terminator (with_more M False f)]) (Some (with_more M False f))"
| failed_result: "result_body M caps rs f \<Longrightarrow> final_result M caps (rs @ [Failure kind msg]) None"

subsection \<open>What a backend does\<close>

text \<open>
  The methods a backend can call, and the object it holds. \<open>Spent\<close> is reached when an object is
  consumed without giving back another one; what is left are the borrowed parts. \<open>None\<close> means that
  the object at hand has no such method.
\<close>

datatype ('d, 'dt) response_op =
    SetStatus u16
  | Start "Column list"
  | StartWithMetadata "Column list" "ColumnMetadata list"
  | CompleteOne OkResponse
  | CompleteOneWithStatus OkResponse
  | Completed OkResponse
  | CompletedWithStatus OkResponse
  | Error ErrorKind bytes
  | NoMoreResults
  | WriteCol "('d, 'dt) to_mysql_value"
  | EndRow
  | WriteRow "('d, 'dt) to_mysql_value list"
  | FinishOne bytes
  | Finish bytes
  | FinishError ErrorKind bytes

datatype response = Idle QueryResultWriter | InRows RowWriter | Spent QueryResultWriter

definition to_rows :: "unit io_result \<times> RowWriter \<Rightarrow> unit io_result \<times> response" where
  "to_rows x = (case x of (Inl e, rw) \<Rightarrow> (Inl e, Spent (rw_result rw)) | (Inr _, rw) \<Rightarrow> (Inr (), InRows rw))"

definition to_idle :: "unit io_result \<times> QueryResultWriter \<Rightarrow> unit io_result \<times> response" where
  "to_idle x = (case x of (Inl e, q) \<Rightarrow> (Inl e, Spent q) | (Inr _, q) \<Rightarrow> (Inr (), Idle q))"

definition to_spent :: "unit io_result \<times> QueryResultWriter \<Rightarrow> unit io_result \<times> response" where
  "to_spent x = (case x of (r, q) \<Rightarrow> (r, Spent q))"

definition in_rows :: "unit io_result \<times> RowWriter \<Rightarrow> unit io_result \<times> response" where
  "in_rows x = (case x of (r, rw) \<Rightarrow> (r, InRows rw))"

fun map_rust :: "('a \<Rightarrow> 'b) \<Rightarrow> 'a rust \<Rightarrow> 'b rust" where
  "map_rust f Panicked = Panicked"
| "map_rust f (Ret x) = Ret (f x)"

fun respond :: "byteorder_ops \<Rightarrow> myc_ops \<Rightarrow> ('d, 'dt) chrono_ops \<Rightarrow> ('d, 'dt) fmt_ops \<Rightarrow>
    ('d, 'dt) response_op \<Rightarrow> response \<Rightarrow> (unit io_result \<times> response) rust option" where
  "respond B M C F (SetStatus status) (Idle q) = Some (Ret (Inr (), Idle (query_set_status_flags status q)))"
| "respond B M C F (SetStatus status) (InRows rw) = Some (Ret (Inr (), InRows (row_set_status_flags status rw)))"
| "respond B M C F (Start columns) (Idle q) = Some (Ret (to_rows (start B M columns q)))"
| "respond B M C F (StartWithMetadata columns metadata) (Idle q) =
     Some (Ret (to_rows (start_with_metadata B M columns metadata q)))"
| "respond B M C F (CompleteOne ok) (Idle q) = Some (Ret (to_idle (complete_one B M ok q)))"
| "respond B M C F (CompleteOneWithStatus ok) (Idle q) = Some (Ret (to_idle (complete_one_with_status B M ok q)))"
| "respond B M C F (Completed ok) (Idle q) = Some (Ret (to_spent (completed B M ok q)))"
| "respond B M C F (CompletedWithStatus ok) (Idle q) = Some (Ret (to_spent (completed_with_status B M ok q)))"
| "respond B M C F (Error kind msg) (Idle q) = Some (Ret (to_spent (query_error B M kind msg q)))"
| "respond B M C F NoMoreResults (Idle q) = Some (Ret (to_spent (no_more_results B M q)))"
| "respond B M C F (WriteCol v) (InRows rw) = Some (map_rust in_rows (write_col B M C F v rw))"
| "respond B M C F EndRow (InRows rw) = Some (Ret (in_rows (end_row B rw)))"
| "respond B M C F (WriteRow vs) (InRows rw) = Some (map_rust in_rows (write_row B M C F vs rw))"
| "respond B M C F (FinishOne extra_info) (InRows rw) = Some (Ret (to_idle (finish_one_with_info B M extra_info rw)))"
| "respond B M C F (Finish extra_info) (InRows rw) = Some (Ret (to_spent (finish_with_info B M extra_info rw)))"
| "respond B M C F (FinishError kind msg) (InRows rw) = Some (Ret (to_spent (finish_error B M kind msg rw)))"
| "respond B M C F _ _ = None"

text \<open>The states a backend can bring a response to, ignoring errors or not.\<close>

inductive reaches :: "byteorder_ops \<Rightarrow> myc_ops \<Rightarrow> ('d, 'dt) chrono_ops \<Rightarrow> ('d, 'dt) fmt_ops \<Rightarrow>
    response \<Rightarrow> response \<Rightarrow> bool" for B M C F r0 where
  here: "reaches B M C F r0 r0"
| step: "reaches B M C F r0 r \<Longrightarrow> respond B M C F op r = Some (Ret (res, r')) \<Longrightarrow> reaches B M C F r0 r'"

text \<open>The borrowed parts of a response, in whatever state it is.\<close>

fun response_writer :: "response \<Rightarrow> QueryResultWriter" where
  "response_writer (Idle q) = q"
| "response_writer (InRows rw) = rw_result rw"
| "response_writer (Spent q) = q"

subsection \<open>Sending items\<close>

definition sent :: "byteorder_ops \<Rightarrow> myc_ops \<Rightarrow> u32 \<Rightarrow> PacketWriter \<Rightarrow> item list \<Rightarrow> PacketWriter \<Rightarrow> bool" where
  "sent B M caps w is w' \<longleftrightarrow> emitted w (response_packets B M caps is) w' \<and> writer_reliable w'"

lemma sent_ready: "sent B M caps w is w' \<Longrightarrow> ready w'"
  by (simp add: sent_def emitted_def)

lemma sent_limit: "sent B M caps w is w' \<Longrightarrow>
    max_packet_size (packet_builder w') = max_packet_size (packet_builder w)"
  by (simp add: sent_def emitted_def same_limits_def)

lemma sent_item:
  assumes "sent B M caps w is v" and "emits m (item_packets B M caps i)" and "preserves writer_reliable m"
    and "m v = (Inr u, v')"
  shows "sent B M caps w (is @ [i]) v'"
proof -
  have "emitted v (item_packets B M caps i) v'" using emitsD [OF assms(2) sent_ready [OF assms(1)] assms(4)] .
  moreover have "writer_reliable v'" using preservesD [OF assms(3), of v] assms(1,4) by (simp add: sent_def)
  ultimately show ?thesis using assms(1) by (auto simp: sent_def intro: emitted_append)
qed

lemma sent_after:
  "sent B M caps w (s @ rs) v \<Longrightarrow> emits m (item_packets B M caps i) \<Longrightarrow> preserves writer_reliable m \<Longrightarrow>
   m v = (Inr u, v') \<Longrightarrow> sent B M caps w (s @ rs @ [i]) v'"
  using sent_item [of B M caps w "s @ rs" v m i u v'] by simp

lemma finalizer_emits:
  "byteorder_spec B \<Longrightarrow> emits (write_finalizer B M caps f) (item_packets B M caps (Terminator f))"
  by (cases f) (simp_all add: ok_emits eof_emits)

lemma header_emits:
  "byteorder_spec B \<Longrightarrow> myc_spec M \<Longrightarrow>
   emits (column_definitions B M cs caps status) (item_packets B M caps (Header cs status))"
  using column_definitions_emits(1) by simp

lemma failure_emits: "byteorder_spec B \<Longrightarrow> emits (write_err B kind msg) (item_packets B M caps (Failure kind msg))"
  by (simp add: err_emits)

lemma via_writer_cases:
  "via_writer m q = (r, q') \<longleftrightarrow> (\<exists>w. m (q_writer q) = (r, w) \<and> q' = q\<lparr>q_writer := w\<rparr>)"
  by (auto simp: via_writer_def split: prod.split)

lemma finalize_none [simp]: "last_end q = None \<Longrightarrow> finalize B M on q = (Inr (), q)"
  by (simp add: finalize_def)

lemma finalize_ok:
  assumes "finalize B M on q = (Inr u, q')" and "last_end q = Some f"
  shows "on \<Longrightarrow> has_cap M (q_capabilities q) (multi_results_required (is_bin q))"
    and "\<exists>w. write_finalizer B M (q_capabilities q) (with_more M on f) (q_writer q) = (Inr (), w) \<and>
      q' = q\<lparr>last_end := None, q_writer := w,
        session_status := session_status_flags M (finalizer_status (with_more M on f))\<rparr>"
  using assms
  by (auto simp: finalize_def Let_def then_io_eq_Inr via_writer_cases split: if_splits)

lemma via_writer_completion: "via_writer m q = (r, q') \<Longrightarrow> completion q' = completion q"
  by (auto simp: via_writer_cases)

lemma finalize_completion: "finalize B M on q = (r, q') \<Longrightarrow> completion q' = completion q"
  by (cases "last_end q")
    (auto simp: finalize_def Let_def then_io_def and_then_def via_writer_def split: if_splits prod.splits sum.splits)

subsection \<open>The invariant\<close>

text \<open>The items sent when a backend may start another result set, or finish.\<close>

definition announced :: "byteorder_ops \<Rightarrow> myc_ops \<Rightarrow> u32 \<Rightarrow> bool \<Rightarrow> PacketWriter \<Rightarrow> item list \<Rightarrow> item list \<Rightarrow>
    QueryResultWriter \<Rightarrow> bool" where
  "announced B M caps bin w0 s rs q \<longleftrightarrow>
     preceding M caps s \<and> (s \<noteq> [] \<longrightarrow> has_cap M caps (multi_results_required bin)) \<and>
     q_capabilities q = caps \<and> is_bin q = bin \<and> \<not> completion q \<and>
     sent B M caps w0 (s @ rs) (q_writer q)"

definition idle_inv :: "byteorder_ops \<Rightarrow> myc_ops \<Rightarrow> u32 \<Rightarrow> bool \<Rightarrow> PacketWriter \<Rightarrow> QueryResultWriter \<Rightarrow> bool" where
  "idle_inv B M caps bin w0 q \<longleftrightarrow>
     (\<exists>s rs. announced B M caps bin w0 s rs q \<and>
        (case last_end q of None \<Rightarrow> s = [] \<and> rs = [] | Some f \<Rightarrow> result_body M caps rs f))"

definition row_bounds :: "nat \<Rightarrow> RowWriter \<Rightarrow> bool" where
  "row_bounds limit rw \<longleftrightarrow>
     rw_col rw \<le> length (rw_columns rw) \<and> length (rw_data rw) \<le> limit \<and>
     bitmap_len rw = (length (rw_columns rw) + 9) div 8 \<and>
     (0 < rw_col rw \<longrightarrow> rw_data rw \<noteq> []) \<and>
     (0 < rw_col rw \<and> is_bin (rw_result rw) \<longrightarrow> 1 + bitmap_len rw \<le> length (rw_data rw))"

fun row_items :: "Column list \<Rightarrow> item list \<Rightarrow> bool" where
  "row_items [] rs = (rs = [])"
| "row_items columns rs = (\<exists>cs status rows. cs \<noteq> [] \<and> rs = Header cs status # map Row rows)"

definition rows_inv :: "byteorder_ops \<Rightarrow> myc_ops \<Rightarrow> u32 \<Rightarrow> bool \<Rightarrow> PacketWriter \<Rightarrow> RowWriter \<Rightarrow> bool" where
  "rows_inv B M caps bin w0 rw \<longleftrightarrow>
     (\<exists>s rs. announced B M caps bin w0 s rs (rw_result rw) \<and> row_items (rw_columns rw) rs) \<and>
     last_end (rw_result rw) = None \<and> rw_capabilities rw = caps \<and> \<not> rw_finished rw \<and>
     (rw_columns rw \<noteq> [] \<longrightarrow> row_bounds (max_packet_size (packet_builder w0)) rw)"

definition spent_inv :: "byteorder_ops \<Rightarrow> myc_ops \<Rightarrow> u32 \<Rightarrow> bool \<Rightarrow> PacketWriter \<Rightarrow> QueryResultWriter \<Rightarrow> bool" where
  "spent_inv B M caps bin w0 q \<longleftrightarrow>
     (completion q \<longrightarrow>
      (\<exists>s rest e. preceding M caps s \<and> final_result M caps rest e \<and>
         (s \<noteq> [] \<longrightarrow> has_cap M caps (multi_results_required bin)) \<and>
         sent B M caps w0 (s @ rest) (q_writer q) \<and>
         (case e of None \<Rightarrow> True | Some f \<Rightarrow> session_status q = session_status_flags M (finalizer_status f))))"

fun response_inv :: "byteorder_ops \<Rightarrow> myc_ops \<Rightarrow> u32 \<Rightarrow> bool \<Rightarrow> PacketWriter \<Rightarrow> response \<Rightarrow> bool" where
  "response_inv B M caps bin w0 (Idle q) = idle_inv B M caps bin w0 q"
| "response_inv B M caps bin w0 (InRows rw) = rows_inv B M caps bin w0 rw"
| "response_inv B M caps bin w0 (Spent q) = spent_inv B M caps bin w0 q"

lemma spent_unfinished [intro]: "\<not> completion q \<Longrightarrow> spent_inv B M caps bin w0 q"
  by (simp add: spent_inv_def)

text \<open>Sending the pending terminator with the announcement of another result set.\<close>

lemma finalize_more:
  assumes B: "byteorder_spec B" and q: "idle_inv B M caps bin w0 q" and run: "finalize B M True q = (Inr u, q')"
  shows "\<exists>s. announced B M caps bin w0 s [] q' \<and> last_end q' = None \<and> default_status q' = default_status q"
proof -
  obtain s rs where a: "announced B M caps bin w0 s rs q"
    and l: "case last_end q of None \<Rightarrow> s = [] \<and> rs = [] | Some f \<Rightarrow> result_body M caps rs f"
    using q by (auto simp: idle_inv_def)
  show ?thesis
  proof (cases "last_end q")
    case None
    with a l run show ?thesis by auto
  next
    case (Some f)
    from finalize_ok [OF run Some] obtain w where cap: "has_cap M (q_capabilities q) (multi_results_required (is_bin q))"
      and w: "write_finalizer B M (q_capabilities q) (with_more M True f) (q_writer q) = (Inr (), w)"
      and q': "q' = q\<lparr>last_end := None, q_writer := w,
        session_status := session_status_flags M (finalizer_status (with_more M True f))\<rparr>" by auto
    have "sent B M caps w0 (s @ rs) (q_writer q)" "q_capabilities q = caps" "is_bin q = bin" "preceding M caps s"
      using a by (simp_all add: announced_def)
    moreover from this have "sent B M caps w0 (s @ rs @ [Terminator (with_more M True f)]) w"
      using sent_after [OF _ finalizer_emits [OF B] reliable_finalizer w] by simp
    moreover have "preceding M caps (s @ rs @ [Terminator (with_more M True f)])"
      using another calculation(4) l Some by simp
    ultimately show ?thesis using a cap
      by (intro exI [of _ "s @ rs @ [Terminator (with_more M True f)]"]) (simp add: announced_def q')
  qed
qed

lemma no_more_results_inv:
  assumes B: "byteorder_spec B" and q: "idle_inv B M caps bin w0 q" and run: "no_more_results B M q = (r, q')"
  shows "spent_inv B M caps bin w0 q'"
proof (cases "\<exists>f v. last_end q = Some f \<and> finalize B M False q = (Inr (), v)")
  case True
  then obtain f v where f: "last_end q = Some f" and v: "finalize B M False q = (Inr (), v)" by blast
  with run have q': "q' = v\<lparr>completion := True\<rparr>" by (auto simp: no_more_results_def then_io_Inr)
  obtain s rs where a: "announced B M caps bin w0 s rs q" and l: "result_body M caps rs f"
    using q f by (auto simp: idle_inv_def)
  from finalize_ok(2) [OF v f] obtain w where w: "write_finalizer B M (q_capabilities q) (with_more M False f) (q_writer q) = (Inr (), w)"
    and v': "v = q\<lparr>last_end := None, q_writer := w,
      session_status := session_status_flags M (finalizer_status (with_more M False f))\<rparr>" by auto
  have "sent B M caps w0 (s @ rs @ [Terminator (with_more M False f)]) w"
    using sent_after [OF _ finalizer_emits [OF B] reliable_finalizer w] a by (simp add: announced_def)
  moreover have "final_result M caps (rs @ [Terminator (with_more M False f)]) (Some (with_more M False f))"
    using last_result l by blast
  ultimately show ?thesis using a unfolding spent_inv_def
    by (intro impI exI [of _ s] exI [of _ "rs @ [Terminator (with_more M False f)]"]
        exI [of _ "Some (with_more M False f)"]) (simp add: q' v' announced_def)
next
  case False
  have "\<not> completion q" using q by (auto simp: idle_inv_def announced_def)
  with False run finalize_completion [of B M False q] have "\<not> completion q'"
    by (cases "finalize B M False q"; cases "last_end q"; cases "fst (finalize B M False q)")
      (auto simp: no_more_results_def then_io_Inl)
  then show ?thesis ..
qed

lemma query_error_inv:
  assumes B: "byteorder_spec B" and q: "idle_inv B M caps bin w0 q \<or>
      last_end q = None \<and> (\<exists>s rs f. announced B M caps bin w0 s rs q \<and> result_body M caps rs f)"
    and run: "query_error B M kind msg q = (r, q')"
  shows "spent_inv B M caps bin w0 q'"
proof -
  have nc: "\<not> completion q" using q by (auto simp: idle_inv_def announced_def)
  obtain r1 v where v: "finalize B M True q = (r1, v)" by fastforce
  show ?thesis
  proof (cases r1)
    case (Inl e)
    with run v have "q' = v" by (simp add: query_error_def then_io_Inl)
    with nc finalize_completion [OF v] show ?thesis by auto
  next
    case (Inr u)
    have "\<exists>s rs f. announced B M caps bin w0 s rs v \<and> result_body M caps rs f"
      using q
    proof
      assume "idle_inv B M caps bin w0 q"
      from finalize_more [OF B this v [unfolded Inr]] show ?thesis using without_rows by blast
    next
      assume "last_end q = None \<and> (\<exists>s rs f. announced B M caps bin w0 s rs q \<and> result_body M caps rs f)"
      with v show ?thesis by auto
    qed
    then obtain s rs f where a: "announced B M caps bin w0 s rs v" "result_body M caps rs f" by blast
    obtain r2 w where w: "write_err B kind msg (q_writer v) = (r2, w)" by fastforce
    show ?thesis
    proof (cases r2)
      case (Inl e)
      with run v Inr w have "q' = v\<lparr>q_writer := w\<rparr>"
        by (simp add: query_error_def then_io_def and_then_def via_writer_def)
      with a show ?thesis by (auto simp: announced_def)
    next
      case (Inr u')
      with run v \<open>r1 = Inr u\<close> w have q': "q' = v\<lparr>q_writer := w,
          session_status := session_status_flags M (default_status v), completion := True\<rparr>"
        by (simp add: query_error_def then_io_def and_then_def via_writer_def)
      have "sent B M caps w0 (s @ rs @ [Failure kind msg]) w"
        using sent_after [OF _ failure_emits [OF B] reliable_err w [unfolded Inr]] a(1) by (simp add: announced_def)
      moreover have "final_result M caps (rs @ [Failure kind msg]) None"
        using failed_result a(2) by blast
      ultimately show ?thesis using a(1) unfolding spent_inv_def
        by (intro impI exI [of _ s] exI [of _ "rs @ [Failure kind msg]"] exI [of _ None])
          (simp add: q' announced_def)
    qed
  qed
qed

lemma announced_fields [simp]:
  "announced B M caps bin w0 s rs (q\<lparr>default_status := d\<rparr>) = announced B M caps bin w0 s rs q"
  "announced B M caps bin w0 s rs (q\<lparr>last_end := f\<rparr>) = announced B M caps bin w0 s rs q"
  "announced B M caps bin w0 s rs (q\<lparr>session_status := d\<rparr>) = announced B M caps bin w0 s rs q"
  by (simp_all add: announced_def)

lemma announced_send:
  assumes a: "announced B M caps bin w0 s rs q" and m: "emits m (item_packets B M caps i)" "preserves writer_reliable m"
    and run: "via_writer m q = (Inr u, q')"
  shows "announced B M caps bin w0 s (rs @ [i]) q'" "last_end q' = last_end q"
proof -
  obtain w where w: "m (q_writer q) = (Inr u, w)" "q' = q\<lparr>q_writer := w\<rparr>"
    using run by (auto simp: via_writer_cases)
  have "sent B M caps w0 (s @ rs @ [i]) w"
    using sent_after [OF _ m w(1)] a by (simp add: announced_def)
  with a show "announced B M caps bin w0 s (rs @ [i]) q'" by (simp add: announced_def w(2))
  show "last_end q' = last_end q" by (simp add: w(2))
qed

lemma complete_one_with_status_inv:
  assumes B: "byteorder_spec B" and q: "idle_inv B M caps bin w0 q"
    and run: "complete_one_with_status B M ok q = (r, q')"
  shows "case r of Inl _ \<Rightarrow> \<not> completion q' | Inr _ \<Rightarrow> idle_inv B M caps bin w0 q'"
proof -
  obtain r1 v where v: "finalize B M True q = (r1, v)" by fastforce
  show ?thesis
  proof (cases r1)
    case (Inl e)
    with run v finalize_completion [OF v] q show ?thesis
      by (auto simp: complete_one_with_status_def then_io_Inl idle_inv_def announced_def)
  next
    case (Inr u)
    from finalize_more [OF B q v [unfolded Inr]] obtain s where a: "announced B M caps bin w0 s [] v" by blast
    from run v Inr have "r = Inr ()" and q': "q' = v\<lparr>default_status := session_status_flags M (ok_status_flags ok),
        last_end := Some (FinOk ok)\<rparr>"
      by (auto simp: complete_one_with_status_def then_io_Inr)
    have "idle_inv B M caps bin w0 q'"
      unfolding idle_inv_def q' by (rule exI [of _ s], rule exI [of _ "[]"]) (use a without_rows in simp)
    with \<open>r = Inr ()\<close> show ?thesis by simp
  qed
qed

lemma complete_one_inv:
  "byteorder_spec B \<Longrightarrow> idle_inv B M caps bin w0 q \<Longrightarrow> complete_one B M ok q = (r, q') \<Longrightarrow>
   case r of Inl _ \<Rightarrow> \<not> completion q' | Inr _ \<Rightarrow> idle_inv B M caps bin w0 q'"
  unfolding complete_one_def by (rule complete_one_with_status_inv)

lemma row_init_fields [simp]:
  "rw_capabilities (row_init q cs) = q_capabilities q" "rw_result (row_init q cs) = q"
  "rw_columns (row_init q cs) = cs" "rw_col (row_init q cs) = 0" "rw_data (row_init q cs) = []"
  "\<not> rw_finished (row_init q cs)" "bitmap_len (row_init q cs) = (length cs + 9) div 8"
  by (simp_all add: row_init_def)

lemma row_new_inv:
  assumes B: "byteorder_spec B" "myc_spec M" and a: "announced B M caps bin w0 s [] q" and l: "last_end q = None"
    and md: "case metadata of None \<Rightarrow> True | Some m \<Rightarrow> length m = length columns"
    and run: "row_new B M q columns metadata = (r, rw)"
  shows "case r of Inl _ \<Rightarrow> \<not> completion (rw_result rw) | Inr _ \<Rightarrow> rows_inv B M caps bin w0 rw"
proof (cases "columns = []")
  case True
  with run have "r = Inr ()" "rw = row_init q columns" by (simp_all add: row_new_def row_start_def)
  with True a l show ?thesis by (auto simp: rows_inv_def announced_def)
next
  case False
  define cs where "cs = (case metadata of Some m \<Rightarrow> zip columns m | None \<Rightarrow> map default_column_metadata columns)"
  have "length cs = length columns" using md by (auto simp: cs_def split: option.splits)
  then have cs: "cs \<noteq> []" using False by auto
  let ?m = "column_definitions B M cs (q_capabilities q) (default_status q)"
  obtain q' where q': "via_writer ?m q = (r, q')" and rw: "rw = (row_init q columns)\<lparr>rw_result := q'\<rparr>"
    using run False
    by (cases metadata; cases "via_writer ?m q") (simp_all add: row_new_def row_start_def via_result_def cs_def)
  show ?thesis
  proof (cases r)
    case (Inl e)
    with a via_writer_completion [OF q'] show ?thesis by (simp add: rw announced_def)
  next
    case (Inr u)
    have caps: "q_capabilities q = caps" using a by (simp add: announced_def)
    from announced_send [OF a header_emits [OF B, of cs caps "default_status q"] reliable_column_definitions, of u q']
    have "announced B M caps bin w0 s [Header cs (default_status q)] q'" "last_end q' = None"
      using q' Inr l by (simp_all add: caps)
    moreover have "row_items columns [Header cs (default_status q)]"
      using False cs by (cases columns) auto
    moreover have "row_bounds n rw" for n by (simp add: row_bounds_def rw)
    ultimately show ?thesis using Inr caps unfolding rows_inv_def rw by auto
  qed
qed

lemma start_inv:
  assumes B: "byteorder_spec B" "myc_spec M" and q: "idle_inv B M caps bin w0 q" and run: "start B M columns q = (r, rw)"
  shows "case r of Inl _ \<Rightarrow> \<not> completion (rw_result rw) | Inr _ \<Rightarrow> rows_inv B M caps bin w0 rw"
proof -
  have nc: "\<not> completion q" using q by (auto simp: idle_inv_def announced_def)
  obtain r1 v where v: "finalize B M True q = (r1, v)" by fastforce
  show ?thesis
  proof (cases r1)
    case (Inl e)
    with run v nc finalize_completion [OF v] show ?thesis by (auto simp: start_def row_init_def)
  next
    case (Inr u)
    from finalize_more [OF B(1) q v [unfolded Inr]] obtain s where "announced B M caps bin w0 s [] v" "last_end v = None"
      by blast
    from row_new_inv [OF B this, where metadata = None and columns = columns and r = r and rw = rw] run v Inr
    show ?thesis by (simp add: start_def)
  qed
qed

lemma start_with_metadata_inv:
  assumes B: "byteorder_spec B" "myc_spec M" and q: "idle_inv B M caps bin w0 q"
    and run: "start_with_metadata B M columns metadata q = (r, rw)"
  shows "case r of Inl _ \<Rightarrow> \<not> completion (rw_result rw) | Inr _ \<Rightarrow> rows_inv B M caps bin w0 rw"
proof -
  have nc: "\<not> completion q" using q by (auto simp: idle_inv_def announced_def)
  obtain r1 v where v: "finalize B M True q = (r1, v)" by fastforce
  show ?thesis
  proof (cases "\<exists>e. validate_metadata M columns metadata = Inl e \<or> r1 = Inl e")
    case True
    with run v nc finalize_completion [OF v] show ?thesis
      by (auto simp: start_with_metadata_def row_init_def split: sum.splits)
  next
    case False
    then obtain u u' where u: "validate_metadata M columns metadata = Inr u" "r1 = Inr u'"
      by (metis old.sum.exhaust)
    then have len: "length metadata = length columns" by (auto simp: validate_metadata_def split: if_splits)
    obtain s where "announced B M caps bin w0 s [] v" "last_end v = None"
      using finalize_more [OF B(1) q v [unfolded u]] by blast
    from row_new_inv [OF B this, where metadata = "Some metadata" and columns = columns and r = r and rw = rw]
    show ?thesis using run v u len by (simp add: start_with_metadata_def)
  qed
qed

subsection \<open>Rows\<close>

lemma row_buffer_write_all_appends:
  "row_buffer_write_all limit ps b = (r, b') \<Longrightarrow> length b \<le> limit \<Longrightarrow>
   length b' \<le> limit \<and> (\<exists>k. b' = b @ k) \<and> (r = Inr () \<longrightarrow> b' = b @ concat ps)"
proof (induction ps arbitrary: b)
  case Nil
  then show ?case by simp
next
  case (Cons p ps)
  show ?case
  proof (cases "p = [] \<or> row_buffer_write limit p b = (Inr (), b @ p) \<and> length (b @ p) \<le> limit")
    case True
    then have "row_buffer_write_all limit ps (b @ p) = (r, b')" "length (b @ p) \<le> limit"
      using Cons.prems by (cases "p = []"; simp)+
    from Cons.IH [OF this] show ?thesis by auto
  next
    case False
    with Cons.prems show ?thesis
      by (auto simp: row_buffer_write_def checked_add_def split: if_splits option.splits)
  qed
qed

text \<open>What encoders write is never empty.\<close>

lemma lenenc_str_nonempty [simp]: "lenenc_str s \<noteq> []"
  by (simp add: lenenc_str_def)

lemma text_nonempty:
  assumes "myc_spec M"
  shows "to_mysql_text M C F v = Inr ps \<Longrightarrow> concat ps \<noteq> []"
proof -
  note str [simp] = myc_specD(8) [OF assms] and [simp del] = concat_eq_Nil_conv
  have time: "write_mysql_time_text M d neg = Inr ps \<Longrightarrow> concat ps \<noteq> []" for d neg
    by (auto simp: write_mysql_time_text_def Let_def split: sum.splits if_splits)
  have myc: "myc_to_mysql_text M F v = Inr ps \<Longrightarrow> concat ps \<noteq> []" for v
    by (cases v) (auto simp: myc_to_mysql_text_def dest: time split: sum.splits)
  show "to_mysql_text M C F v = Inr ps \<Longrightarrow> concat ps \<noteq> []"
    by (induction v) (auto simp: date_to_mysql_text_def datetime_to_mysql_text_def Let_def
        dest: time myc split: sum.splits)
qed

lemma text_with_column_nonempty:
  assumes "myc_spec M"
  shows "to_mysql_text_with_column M C F v c = Inr ps \<Longrightarrow> concat ps \<noteq> []"
proof (induction v)
  case (VMyc v)
  then have "myc_to_mysql_text M F v = Inr ps \<or> (\<exists>b. ps = write_lenenc_str M b)"
    by (auto simp: myc_to_mysql_text_with_column_def split: MycValue.splits if_splits sum.splits)
  then show ?case
    using text_nonempty [OF assms, of C F "VMyc v" ps] myc_specD(8) [OF assms]
    by (auto simp del: concat_eq_Nil_conv)
next
  case (VSome v)
  then show ?case by simp
next
  case (VRef v)
  then show ?case by simp
qed (simp_all only: to_mysql_text_with_column.simps, (erule text_nonempty [OF assms])+)

text \<open>Two row writers that differ only in the row under construction.\<close>

definition same_row_writer :: "RowWriter \<Rightarrow> RowWriter \<Rightarrow> bool" where
  "same_row_writer rw rw' \<longleftrightarrow> rw' = rw\<lparr>rw_data := rw_data rw', rw_col := rw_col rw'\<rparr>"

lemma same_row_writer_intros [simp, intro]:
  "same_row_writer rw rw" "same_row_writer rw (rw\<lparr>rw_data := d\<rparr>)"
  "same_row_writer rw (rw\<lparr>rw_data := d, rw_col := c\<rparr>)"
  by (cases rw; simp add: same_row_writer_def)+

lemma same_row_writer_trans: "same_row_writer u v \<Longrightarrow> same_row_writer v w \<Longrightarrow> same_row_writer u w"
  by (cases u, cases v, cases w) (simp add: same_row_writer_def)

lemma same_row_writer_fields:
  assumes "same_row_writer rw rw'"
  shows "rw_result rw' = rw_result rw" "rw_columns rw' = rw_columns rw" "bitmap_len rw' = bitmap_len rw"
    "rw_capabilities rw' = rw_capabilities rw" "rw_finished rw' = rw_finished rw"
  using assms unfolding same_row_writer_def by (metis RowWriter.select_convs RowWriter.update_convs(4,6) RowWriter.surjective)+

lemma put_value_bounds:
  assumes b: "row_bounds limit rw" and col: "rw_col rw < length (rw_columns rw)"
    and cp: "0 < rw_col rw \<Longrightarrow> checkpoint = length (rw_data rw)"
    and ne: "is_bin (rw_result rw) \<Longrightarrow> length (rw_data rw) \<ge> 1 + bitmap_len rw"
      "\<And>ps. value = Inr ps \<Longrightarrow> \<not> is_bin (rw_result rw) \<Longrightarrow> concat ps \<noteq> []"
    and run: "put_value limit checkpoint value rw = (r, rw')"
  shows "row_bounds limit rw'" "same_row_writer rw rw'"
proof -
  have len: "length (rw_data rw) \<le> limit" using b by (simp add: row_bounds_def)
  show "same_row_writer rw rw'"
    using run by (auto simp: put_value_def split: sum.splits prod.splits)
  show "row_bounds limit rw'"
  proof (cases "\<exists>ps v. value = Inr ps \<and> row_buffer_write_all limit ps (rw_data rw) = (Inr (), v)")
    case True
    then obtain ps v where v: "value = Inr ps" "row_buffer_write_all limit ps (rw_data rw) = (Inr (), v)" by blast
    note row_buffer_write_all_appends [OF v(2) len]
    then have "length v \<le> limit" "v = rw_data rw @ concat ps" by blast+
    moreover have "rw' = rw\<lparr>rw_data := v, rw_col := rw_col rw + 1\<rparr>" using run v by (simp add: put_value_def)
    ultimately show ?thesis
      using b col ne v(1) by (cases "is_bin (rw_result rw)") (auto simp: row_bounds_def simp del: concat_eq_Nil_conv)
  next
    case False
    obtain k where k: "rw' = rw\<lparr>rw_data := take checkpoint (rw_data rw @ k)\<rparr>" "length (rw_data rw @ k) \<le> limit"
    proof (cases "value")
      case (Inl e)
      with run len show ?thesis by (intro that [of "[]"]) (auto simp: put_value_def)
    next
      case (Inr ps)
      obtain r1 v where v: "row_buffer_write_all limit ps (rw_data rw) = (r1, v)" by fastforce
      with False Inr obtain e where "r1 = Inl e" by (cases r1) auto
      with run v Inr have "rw' = rw\<lparr>rw_data := take checkpoint v\<rparr>" by (simp add: put_value_def)
      with row_buffer_write_all_appends [OF v len] that show ?thesis by auto
    qed
    show ?thesis
    proof (cases "rw_col rw")
      case 0
      with b k show ?thesis by (auto simp: row_bounds_def)
    next
      case (Suc n)
      with cp k(1) have "rw' = rw" by simp
      with b show ?thesis by simp
    qed
  qed
qed

lemma put_null_bounds:
  assumes b: "row_bounds limit rw" and col: "rw_col rw < length (rw_columns rw)"
    and bm: "1 + bitmap_len rw \<le> length (rw_data rw)"
  shows "\<exists>rw'. put_null rw = Ret (Inr (), rw') \<and> row_bounds limit rw' \<and> same_row_writer rw rw'"
proof -
  have "(rw_col rw + 2) div 8 < bitmap_len rw"
  proof -
    have "rw_col rw + 2 + 7 \<le> length (rw_columns rw) + 9 - 1" using col by simp
    then have "(rw_col rw + 2 + 8) div 8 \<le> (length (rw_columns rw) + 9) div 8"
      by (intro div_le_mono) simp
    then show ?thesis using b by (simp add: row_bounds_def)
  qed
  then have "1 + (rw_col rw + 2) div 8 < length (rw_data rw)" using bm by simp
  then show ?thesis
    using b col bm by (auto simp: put_null_def Let_def row_bounds_def)
qed

lemma write_col_bounds:
  assumes M: "myc_spec M" and rd: "ready (q_writer (rw_result rw))"
    and limit: "max_packet_size (packet_builder (q_writer (rw_result rw))) = limit"
    and b: "row_bounds limit rw" and ne: "rw_columns rw \<noteq> []"
    and run: "write_col B M C F v rw = Ret (r, rw')"
  shows "row_bounds limit rw' \<and> same_row_writer rw rw'"
proof -
  have cap: "remaining_packet_capacity (q_writer (rw_result rw)) = limit"
    using rd limit by (simp add: remaining_packet_capacity_def ready_def)
  show ?thesis
  proof (cases "length (rw_columns rw) \<le> rw_col rw")
    case True
    with run ne b show ?thesis by (simp add: write_col_def)
  next
    case col: False
    show ?thesis
    proof (cases "is_bin (rw_result rw)")
      case False
      let ?v = "to_mysql_text_with_column M C F v (rw_columns rw ! rw_col rw)"
      have "put_value limit (length (rw_data rw)) ?v rw = (r, rw')"
        using run ne col False by (simp add: write_col_def cap Let_def)
      from put_value_bounds [OF b _ _ _ _ this] col False text_with_column_nonempty [OF M]
      show ?thesis by (simp del: concat_eq_Nil_conv) blast
    next
      case bin: True
      show ?thesis
      proof (cases "rw_col rw = 0 \<and> 1 + bitmap_len rw > limit")
        case True
        with run ne col bin b show ?thesis by (simp add: write_col_def cap Let_def)
      next
        case fits: False
        define rw1 where "rw1 = (if rw_col rw = 0 then rw\<lparr>rw_data := resize (1 + bitmap_len rw) (rw_data rw)\<rparr> else rw)"
        have b1: "row_bounds limit rw1" "1 + bitmap_len rw1 \<le> length (rw_data rw1)"
          and f1: "rw_columns rw1 = rw_columns rw" "rw_col rw1 = rw_col rw" "rw_result rw1 = rw_result rw"
            "same_row_writer rw rw1" "0 < rw_col rw \<Longrightarrow> rw1 = rw"
          using b fits bin by (auto simp: rw1_def row_bounds_def resize_def)
        let ?c = "rw_columns rw ! rw_col rw"
        consider (null) "value_is_null v" | (panic) "\<not> value_is_null v" "to_mysql_bin B M C F v ?c = Panicked"
          | (val) x where "\<not> value_is_null v" "to_mysql_bin B M C F v ?c = Ret x"
          by (cases "to_mysql_bin B M C F v ?c") auto
        then show ?thesis
        proof cases
          case null
          have "(r = Inl (IoError InvalidData (ascii ''given NULL value for NOT NULL column'')) \<and> rw' = rw1) \<or>
              put_null rw1 = Ret (r, rw')"
            using run ne col bin fits null by (auto simp: write_col_def cap Let_def rw1_def split: if_splits)
          then show ?thesis
            using b1 put_null_bounds [OF b1(1) _ b1(2)] col f1(1,2,4) by (auto intro: same_row_writer_trans)
        next
          case panic
          with run ne col bin fits show ?thesis by (auto simp: write_col_def cap Let_def split: if_splits)
        next
          case val
          have "put_value limit (length (rw_data rw)) x rw1 = (r, rw')"
            using run ne col bin fits val by (auto simp: write_col_def cap Let_def rw1_def split: if_splits)
          from put_value_bounds [OF b1(1) _ _ _ _ this] col bin f1 b1(2)
          show ?thesis by (auto intro: same_row_writer_trans)
        qed
      qed
    qed
  qed
qed

lemma rows_inv_bounds:
  assumes "rows_inv B M caps bin w0 rw" and "rw_columns rw \<noteq> []"
  shows "ready (q_writer (rw_result rw))"
    "max_packet_size (packet_builder (q_writer (rw_result rw))) = max_packet_size (packet_builder w0)"
    "row_bounds (max_packet_size (packet_builder w0)) rw"
  using assms sent_ready sent_limit by (auto simp: rows_inv_def announced_def)

lemma rows_inv_same:
  assumes "rows_inv B M caps bin w0 rw" and "same_row_writer rw rw'"
    and "rw_columns rw \<noteq> [] \<Longrightarrow> row_bounds (max_packet_size (packet_builder w0)) rw'"
  shows "rows_inv B M caps bin w0 rw'"
  using assms(1,3) same_row_writer_fields [OF assms(2)] by (simp add: rows_inv_def)

lemma write_col_inv:
  assumes M: "myc_spec M" and inv: "rows_inv B M caps bin w0 rw" and run: "write_col B M C F v rw = Ret (r, rw')"
  shows "rows_inv B M caps bin w0 rw'"
proof (cases "rw_columns rw = []")
  case True
  with run inv show ?thesis by (simp add: write_col_def)
next
  case False
  from write_col_bounds [OF M rows_inv_bounds [OF inv False] False run] show ?thesis
    using rows_inv_same [OF inv] by blast
qed

lemma write_cols_inv:
  "myc_spec M \<Longrightarrow> rows_inv B M caps bin w0 rw \<Longrightarrow> write_cols B M C F vs rw = Ret (r, rw') \<Longrightarrow>
   rows_inv B M caps bin w0 rw'"
proof (induction vs arbitrary: rw)
  case (Cons v vs)
  obtain r1 rw1 where w: "write_col B M C F v rw = Ret (r1, rw1)"
    using Cons.prems(3) by (cases "write_col B M C F v rw") auto
  with Cons.prems have "rows_inv B M caps bin w0 rw1" using write_col_inv by blast
  with Cons w show ?case by (cases r1) auto
qed simp

lemma end_row_inv:
  assumes B: "byteorder_spec B" and inv: "rows_inv B M caps bin w0 rw" and run: "end_row B rw = (r, rw')"
  shows "rows_inv B M caps bin w0 rw'" "r = Inr () \<Longrightarrow> rw_col rw' = 0 \<or> rw_columns rw = []"
proof -
  have "rows_inv B M caps bin w0 rw' \<and> (r = Inr () \<longrightarrow> rw_col rw' = 0 \<or> rw_columns rw = [])"
  proof (cases "rw_columns rw = [] \<or> rw_col rw \<noteq> length (rw_columns rw)")
    case True
    have "rw' = rw \<and> r \<noteq> Inr () \<or> rw_columns rw = [] \<and> rw' = rw\<lparr>rw_col := rw_col rw + 1\<rparr>"
      using True run by (auto simp: end_row_def split: if_splits)
    with inv show ?thesis by (auto simp: rows_inv_def)
  next
    case False
    then have ne: "rw_columns rw \<noteq> []" and full: "rw_col rw = length (rw_columns rw)" by simp_all
    let ?q = "rw_result rw" and ?d = "rw_data rw"
    obtain s rs where a: "announced B M caps bin w0 s rs ?q" and it: "row_items (rw_columns rw) rs"
      using inv by (auto simp: rows_inv_def)
    note b = rows_inv_bounds [OF inv ne]
    have rel: "writer_reliable (q_writer ?q)" using a by (simp add: announced_def sent_def)
    have d: "?d \<noteq> []" "length ?d \<le> max_packet_size (packet_builder (q_writer ?q))"
      using b ne full by (auto simp: row_bounds_def)
    obtain w where w: "write_packet B ?d (q_writer ?q) = (Inr (), w)"
      using write_packet_reliable [OF _ d rel] b(1) by (auto simp: ready_def)
    define q' where "q' = ?q\<lparr>q_writer := w\<rparr>"
    have v: "via_writer (write_packet B ?d) ?q = (Inr (), q')" using w by (simp add: via_writer_def q'_def)
    have rw': "r = Inr ()" "rw' = rw\<lparr>rw_result := q', rw_data := [], rw_col := 0\<rparr>"
      using run ne full v by (simp_all add: end_row_def then_io_def and_then_def via_result_def)
    have "emits (write_packet B ?d) (item_packets B M caps (Row ?d))" using write_packet_emits [OF B d(1)] by simp
    from announced_send [OF a this reliable_write_packet v]
    have a': "announced B M caps bin w0 s (rs @ [Row ?d]) q'" "last_end q' = last_end ?q" by simp_all
    obtain cs status rows where "cs \<noteq> []" "rs = Header cs status # map Row rows"
      using it ne by (cases "rw_columns rw") auto
    then have "rs @ [Row ?d] = Header cs status # map Row (rows @ [?d])" by simp
    then have "row_items (rw_columns rw) (rs @ [Row ?d])"
      using \<open>cs \<noteq> []\<close> ne by (cases "rw_columns rw") (simp, metis row_items.simps(2))
    with a' inv b(3) show ?thesis by (auto simp: rows_inv_def rw' row_bounds_def)
  qed
  then show "rows_inv B M caps bin w0 rw'" "r = Inr () \<Longrightarrow> rw_col rw' = 0 \<or> rw_columns rw = []" by simp_all
qed

lemma write_row_inv:
  assumes B: "byteorder_spec B" "myc_spec M" and inv: "rows_inv B M caps bin w0 rw"
    and run: "write_row B M C F vs rw = Ret (r, rw')"
  shows "rows_inv B M caps bin w0 rw'"
proof -
  obtain r1 rw1 where w: "(if rw_columns rw \<noteq> [] then write_cols B M C F vs rw else Ret (Inr (), rw)) = Ret (r1, rw1)"
    using run by (auto simp: write_row_def split: rust.splits prod.splits sum.splits if_splits)
  then have "rows_inv B M caps bin w0 rw1" using inv write_cols_inv [OF B(2) inv] by (auto split: if_splits)
  with run w end_row_inv(1) [OF B(1) this] show ?thesis
    by (cases r1) (auto simp: write_row_def)
qed

lemma row_set_status_flags_inv:
  "rows_inv B M caps bin w0 rw \<Longrightarrow> rows_inv B M caps bin w0 (row_set_status_flags status rw)"
  by (auto simp: rows_inv_def row_set_status_flags_def query_set_status_flags_def row_bounds_def)

lemma row_items_body:
  "row_items columns rs \<Longrightarrow> result_body M caps rs (row_finalizer M caps columns status extra_info)"
  by (cases columns) (auto simp: row_finalizer_def default_ok_def intro: without_rows intro!: with_rows)

lemma row_items_some_body: "row_items columns rs \<Longrightarrow> \<exists>f. result_body M caps rs f"
  using row_items_body by blast

lemma finish_one_inv:
  assumes B: "byteorder_spec B" and inv: "rows_inv B M caps bin w0 rw"
    and run: "finish_one_with_info B M extra_info rw = (r, q')"
  shows "case r of Inl _ \<Rightarrow> \<not> completion q' | Inr _ \<Rightarrow> idle_inv B M caps bin w0 q'"
proof -
  let ?rw = "rw\<lparr>rw_finished := True\<rparr>"
  have nf: "\<not> rw_finished rw" and caps: "rw_capabilities rw = caps" using inv by (simp_all add: rows_inv_def)
  define m where "m = (\<lambda>rw. if rw_columns rw \<noteq> [] \<and> rw_col rw \<noteq> 0 then end_row B rw else (Inr (), rw))"
  obtain r1 v where v: "m rw = (r1, v)" by fastforce
  have "end_row B ?rw = (case end_row B rw of (r, v) \<Rightarrow> (r, v\<lparr>rw_finished := True\<rparr>))"
    by (auto simp: end_row_def then_io_def and_then_def via_result_def split: prod.split sum.split)
  with v have m: "m ?rw = (r1, v\<lparr>rw_finished := True\<rparr>)" by (auto simp: m_def split: if_splits)
  have vi: "rows_inv B M caps bin w0 v"
    using v inv end_row_inv(1) [OF B inv] by (auto simp: m_def split: if_splits)
  have cols: "rw_columns v = rw_columns rw"
    using v by (auto simp: m_def end_row_def then_io_def and_then_def via_result_def
        split: if_splits prod.splits sum.splits)
  obtain s rs where a: "announced B M caps bin w0 s rs (rw_result v)" and it: "row_items (rw_columns v) rs"
    using vi by (auto simp: rows_inv_def)
  have run': "finish_inner B M extra_info True rw = then_io m
      (\<lambda>rw. (Inr (), let q = rw_result rw; status = default_status q in
           rw\<lparr>rw_result := q\<lparr>last_end := Some (row_finalizer M (rw_capabilities rw) (rw_columns rw) status extra_info),
             default_status := session_status_flags M status\<rparr>\<rparr>)) ?rw"
    using nf by (simp add: finish_inner_def m_def)
  show ?thesis
  proof (cases r1)
    case (Inl e)
    with run run' m a show ?thesis
      by (auto simp: finish_one_with_info_def then_io_Inl announced_def)
  next
    case (Inr u)
    have vc: "rw_capabilities v = caps" using vi by (simp add: rows_inv_def)
    define status where "status = default_status (rw_result v)"
    have "r = Inr ()" and q': "q' = (rw_result v)\<lparr>last_end := Some (row_finalizer M caps (rw_columns v) status extra_info),
        default_status := session_status_flags M status\<rparr>"
      using run run' m Inr by (auto simp: finish_one_with_info_def then_io_Inr Let_def vc status_def)
    have "announced B M caps bin w0 s rs q'" using a by (simp add: q')
    moreover have "result_body M caps rs (row_finalizer M caps (rw_columns v) status extra_info)"
      by (rule row_items_body [OF it])
    ultimately have "idle_inv B M caps bin w0 q'" unfolding idle_inv_def
      by (intro exI [of _ s] exI [of _ rs]) (simp add: q')
    with \<open>r = Inr ()\<close> show ?thesis by simp
  qed
qed

lemma finish_inv:
  assumes B: "byteorder_spec B" and inv: "rows_inv B M caps bin w0 rw"
    and run: "finish_with_info B M extra_info rw = (r, q')"
  shows "spent_inv B M caps bin w0 q'"
proof -
  obtain r1 q where q: "finish_one_with_info B M extra_info rw = (r1, q)" by fastforce
  note one = finish_one_inv [OF B inv q]
  show ?thesis
  proof (cases r1)
    case (Inl e)
    with run q one show ?thesis by (auto simp: finish_with_info_def)
  next
    case (Inr u)
    with run q one no_more_results_inv [OF B, of M caps bin w0 q] show ?thesis by (auto simp: finish_with_info_def)
  qed
qed

lemma finish_error_inv:
  assumes B: "byteorder_spec B" and inv: "rows_inv B M caps bin w0 rw"
    and run: "finish_error B M kind msg rw = (r, q')"
  shows "spent_inv B M caps bin w0 q'"
proof (rule query_error_inv [OF B])
  show "idle_inv B M caps bin w0 (rw_result rw) \<or> last_end (rw_result rw) = None \<and>
      (\<exists>s rs f. announced B M caps bin w0 s rs (rw_result rw) \<and> result_body M caps rs f)"
    using inv row_items_some_body by (fastforce simp: rows_inv_def)
  show "query_error B M kind msg (rw_result rw) = (r, q')" using run by (simp add: finish_error_def)
qed

lemma completed_inv:
  assumes B: "byteorder_spec B" and q: "idle_inv B M caps bin w0 q"
    and one: "\<And>r q'. m q = (r, q') \<Longrightarrow> case r of Inl _ \<Rightarrow> \<not> completion q' | Inr _ \<Rightarrow> idle_inv B M caps bin w0 q'"
    and run: "then_io m (no_more_results B M) q = (r, q')"
  shows "spent_inv B M caps bin w0 q'"
proof -
  obtain r1 v where v: "m q = (r1, v)" by fastforce
  show ?thesis
  proof (cases r1)
    case (Inl e)
    with run v one [OF v] show ?thesis by (auto simp: then_io_Inl)
  next
    case (Inr u)
    with run v one [OF v] no_more_results_inv [OF B, of M caps bin w0 v] show ?thesis by (auto simp: then_io_Inr)
  qed
qed

lemma to_response_inv:
  "(case fst x of Inl _ \<Rightarrow> \<not> completion (rw_result (snd x)) | Inr _ \<Rightarrow> rows_inv B M caps bin w0 (snd x)) \<Longrightarrow>
     response_inv B M caps bin w0 (snd (to_rows x))"
  "(case fst y of Inl _ \<Rightarrow> \<not> completion (snd y) | Inr _ \<Rightarrow> idle_inv B M caps bin w0 (snd y)) \<Longrightarrow>
     response_inv B M caps bin w0 (snd (to_idle y))"
  "spent_inv B M caps bin w0 (snd y) \<Longrightarrow> response_inv B M caps bin w0 (snd (to_spent y))"
  "rows_inv B M caps bin w0 (snd x) \<Longrightarrow> response_inv B M caps bin w0 (snd (in_rows x))"
  by (auto simp: to_rows_def to_idle_def to_spent_def in_rows_def split: prod.splits sum.splits)

lemma respond_inv:
  assumes B: "byteorder_spec B" "myc_spec M" and inv: "response_inv B M caps bin w0 r"
    and run: "respond B M C F op r = Some (Ret (res, r'))"
  shows "response_inv B M caps bin w0 r'"
proof (cases r)
  case (Spent q)
  with run show ?thesis by (cases op) simp_all
next
  case (Idle q)
  with inv have q: "idle_inv B M caps bin w0 q" by simp
  note r' = arg_cong [where f = snd]
  show ?thesis
  proof (cases op)
    case (SetStatus x1)
    with run Idle q have "r' = Idle (query_set_status_flags x1 q)" by simp
    with q show ?thesis by (auto simp: idle_inv_def query_set_status_flags_def)
  next
    case (Start x2)
    with run Idle have "r' = snd (to_rows (start B M x2 q))" by (simp add: prod_eq_iff)
    with start_inv [OF B q] to_response_inv(1) show ?thesis by (cases "start B M x2 q") fastforce
  next
    case (StartWithMetadata x31 x32)
    with run Idle have "r' = snd (to_rows (start_with_metadata B M x31 x32 q))" by (simp add: prod_eq_iff)
    with start_with_metadata_inv [OF B q] to_response_inv(1) show ?thesis
      by (cases "start_with_metadata B M x31 x32 q") fastforce
  next
    case (CompleteOne x4)
    with run Idle have "r' = snd (to_idle (complete_one B M x4 q))" by (simp add: prod_eq_iff)
    with complete_one_inv [OF B(1) q] to_response_inv(2) show ?thesis by (cases "complete_one B M x4 q") fastforce
  next
    case (CompleteOneWithStatus x5)
    with run Idle have "r' = snd (to_idle (complete_one_with_status B M x5 q))" by (simp add: prod_eq_iff)
    with complete_one_with_status_inv [OF B(1) q] to_response_inv(2) show ?thesis
      by (cases "complete_one_with_status B M x5 q") fastforce
  next
    case (Completed x6)
    with run Idle have "r' = snd (to_spent (completed B M x6 q))" by (simp add: prod_eq_iff)
    with completed_inv [OF B(1) q complete_one_inv [OF B(1) q]] to_response_inv(3) show ?thesis
      by (cases "completed B M x6 q") (fastforce simp: completed_def)
  next
    case (CompletedWithStatus x7)
    with run Idle have "r' = snd (to_spent (completed_with_status B M x7 q))" by (simp add: prod_eq_iff)
    with completed_inv [OF B(1) q complete_one_with_status_inv [OF B(1) q]] to_response_inv(3) show ?thesis
      by (cases "completed_with_status B M x7 q") (fastforce simp: completed_with_status_def)
  next
    case (Error x81 x82)
    with run Idle have "r' = snd (to_spent (query_error B M x81 x82 q))" by (simp add: prod_eq_iff)
    with query_error_inv [OF B(1) disjI1 [OF q]] to_response_inv(3) show ?thesis
      by (cases "query_error B M x81 x82 q") fastforce
  next
    case NoMoreResults
    with run Idle have "r' = snd (to_spent (no_more_results B M q))" by (simp add: prod_eq_iff)
    with no_more_results_inv [OF B(1) q] to_response_inv(3) show ?thesis
      by (cases "no_more_results B M q") fastforce
  qed (use run Idle in simp_all)
next
  case (InRows rw)
  with inv have rw: "rows_inv B M caps bin w0 rw" by simp
  show ?thesis
  proof (cases op)
    case (SetStatus x1)
    with run InRows rw row_set_status_flags_inv show ?thesis by auto
  next
    case (WriteCol x10)
    with run InRows obtain x where "write_col B M C F x10 rw = Ret x" "r' = snd (in_rows x)"
      by (cases "write_col B M C F x10 rw") (auto simp: prod_eq_iff)
    with write_col_inv [OF B(2) rw] to_response_inv(4) show ?thesis by (cases x) fastforce
  next
    case EndRow
    with run InRows have "r' = snd (in_rows (end_row B rw))" by (simp add: prod_eq_iff)
    with end_row_inv(1) [OF B(1) rw] to_response_inv(4) show ?thesis by (cases "end_row B rw") fastforce
  next
    case (WriteRow x12)
    with run InRows obtain x where "write_row B M C F x12 rw = Ret x" "r' = snd (in_rows x)"
      by (cases "write_row B M C F x12 rw") (auto simp: prod_eq_iff)
    with write_row_inv [OF B rw] to_response_inv(4) show ?thesis by (cases x) fastforce
  next
    case (FinishOne x13)
    with run InRows have "r' = snd (to_idle (finish_one_with_info B M x13 rw))" by (simp add: prod_eq_iff)
    with finish_one_inv [OF B(1) rw] to_response_inv(2) show ?thesis
      by (cases "finish_one_with_info B M x13 rw") fastforce
  next
    case (Finish x14)
    with run InRows have "r' = snd (to_spent (finish_with_info B M x14 rw))" by (simp add: prod_eq_iff)
    with finish_inv [OF B(1) rw] to_response_inv(3) show ?thesis
      by (cases "finish_with_info B M x14 rw") fastforce
  next
    case (FinishError x151 x152)
    with run InRows have "r' = snd (to_spent (finish_error B M x151 x152 rw))" by (simp add: prod_eq_iff)
    with finish_error_inv [OF B(1) rw] to_response_inv(3) show ?thesis
      by (cases "finish_error B M x151 x152 rw") fastforce
  qed (use run InRows in simp_all)
qed

lemma new_response_inv:
  assumes "ready w0" and "writer_reliable w0"
  shows "response_inv B M caps bin w0 (Idle (query_new_tracked w0 bin caps status))"
proof -
  have "announced B M caps bin w0 [] [] (query_new_tracked w0 bin caps status)"
    using assms by (simp add: announced_def query_new_tracked_def sent_def emitted_def preceding.nothing)
  then show ?thesis by (auto simp: idle_inv_def query_new_tracked_def)
qed

lemma reaches_inv:
  assumes "byteorder_spec B" and "myc_spec M" and "reaches B M C F r0 r" and "response_inv B M caps bin w0 r0"
  shows "response_inv B M caps bin w0 r"
  using assms(3,4)
proof (induction rule: reaches.induct)
  case (step r op res r')
  then show ?case using respond_inv [OF assms(1,2)] by blast
qed

subsection \<open>Properties of responses\<close>

text \<open>C8: whatever sequence of operations a backend performs, with whatever errors it ignores, a
  response that counts as completed is, on the wire, a word of the grammar: finished result sets
  that announce another one, then a last result set or an error, with consecutive sequence
  numbers. More than one result set is sent only to a client that negotiated it for the protocol
  in use, and the durable part of the last terminator's status is kept for the session.\<close>

theorem completed_response_well_formed:
  assumes "byteorder_spec B" and "myc_spec M" and "ready w0" and "writer_reliable w0"
    and "reaches B M C F (Idle (query_new_tracked w0 bin caps status)) r" and "completion (response_writer r)"
  shows "\<exists>s rest e. preceding M caps s \<and> final_result M caps rest e \<and>
     (s = [] \<or> has_cap M caps (multi_results_required bin)) \<and>
     emitted w0 (response_packets B M caps (s @ rest)) (q_writer (response_writer r)) \<and>
     (e = None \<or> session_status (response_writer r) = session_status_flags M (finalizer_status (the e)))"
proof -
  have "response_inv B M caps bin w0 r"
    using reaches_inv [OF assms(1,2,5)] new_response_inv assms(3,4) by blast
  with assms(6) obtain q where q: "r = Spent q" "spent_inv B M caps bin w0 q" "completion q"
    by (cases r) (auto simp: idle_inv_def rows_inv_def announced_def)
  then obtain s rest e where "preceding M caps s" "final_result M caps rest e"
    "s = [] \<or> has_cap M caps (multi_results_required bin)"
    "emitted w0 (response_packets B M caps (s @ rest)) (q_writer q)"
    "case e of None \<Rightarrow> True | Some f \<Rightarrow> session_status q = session_status_flags M (finalizer_status f)"
    unfolding spent_inv_def sent_def by blast
  with q(1) show ?thesis by (intro exI [of _ s] exI [of _ rest] exI [of _ e]) (cases e; simp)
qed

definition demo_sink :: sink where
  "demo_sink = \<lparr>written = [], flushes = 0, flushed = 0, write_script = [], flush_script = []\<rparr>"

definition demo_query :: response where
  "demo_query = Idle (query_new_tracked (new_writer demo_sink) False 0x200 2)"

definition demo_response :: response where
  "demo_response = (case respond byteorder_ref myc_ref chrono_ref fmt_none (CompletedWithStatus default_ok) demo_query of
     Some (Ret (_, r)) \<Rightarrow> r | _ \<Rightarrow> demo_query)"

lemma demo_response_reached:
  "reaches byteorder_ref myc_ref chrono_ref fmt_none demo_query demo_response"
proof (rule reaches.step [OF reaches.here])
  show "respond byteorder_ref myc_ref chrono_ref fmt_none (CompletedWithStatus default_ok) demo_query =
      Some (Ret (fst (to_spent (completed_with_status byteorder_ref myc_ref default_ok
        (query_new_tracked (new_writer demo_sink) False 0x200 2))), demo_response))"
    by (simp add: demo_response_def demo_query_def split: prod.split)
qed

lemma demo_sink_ready: "ready (new_writer demo_sink)" "writer_reliable (new_writer demo_sink)"
  by (simp_all add: ready_def new_writer_def new_builder_def writer_reliable_def reliable_def demo_sink_def)

text \<open>A command is completed by an OK packet that fits, on a transport that only fragments.\<close>

lemma completed_with_status_succeeds:
  assumes B: "byteorder_spec B" and q: "ready (q_writer q)" "writer_reliable (q_writer q)" "last_end q = None"
    and f: "fits (q_writer q) [finalizer_payload B M (q_capabilities q) (with_more M False (FinOk ok))]"
  shows "\<exists>q'. completed_with_status B M ok q = (Inr (), q') \<and> completion q'"
proof -
  have "completes (write_finalizer B M (q_capabilities q) (with_more M False (FinOk ok)))
      [finalizer_payload B M (q_capabilities q) (with_more M False (FinOk ok))]"
    using ok_emits(2) [OF B] by simp
  from completesD [OF this q(1,2) f] obtain w where
    "write_finalizer B M (q_capabilities q) (with_more M False (FinOk ok)) (q_writer q) = (Inr (), w)" by blast
  with q(3) show ?thesis
    by (simp add: completed_with_status_def complete_one_with_status_def then_io_def and_then_def
        no_more_results_def finalize_def via_writer_def Let_def)
qed

lemma demo_response_completed: "completion (response_writer demo_response)"
proof -
  let ?q = "query_new_tracked (new_writer demo_sink) False 0x200 2"
  have "has_cap myc_ref 0x200 CLIENT_PROTOCOL_41" "\<not> has_cap myc_ref 0x200 CLIENT_SESSION_TRACK"
    by (simp_all add: has_cap_def contains_def myc_ref_def ref_cap_def)
  then have "fits (q_writer ?q) [finalizer_payload byteorder_ref myc_ref (q_capabilities ?q)
      (with_more myc_ref False (FinOk default_ok))]"
    by (simp add: query_new_tracked_def new_writer_def new_builder_def ok_payload_def ok_pieces_def default_ok_def
        myc_specD(7) [OF myc_ref_spec] lenenc_int_def byteorder_ref_def usize_max_def)
  with completed_with_status_succeeds [OF byteorder_ref_spec, of ?q myc_ref default_ok] demo_sink_ready
  show ?thesis
    by (auto simp: query_new_tracked_def demo_response_def demo_query_def to_spent_def)
qed

theorem completed_response_well_formed_witness:
  "\<exists>s rest e. preceding myc_ref 0x200 s \<and> final_result myc_ref 0x200 rest e \<and>
     (s = [] \<or> has_cap myc_ref 0x200 (multi_results_required False)) \<and>
     emitted (new_writer demo_sink) (response_packets byteorder_ref myc_ref 0x200 (s @ rest))
       (q_writer (response_writer demo_response)) \<and>
     (e = None \<or> session_status (response_writer demo_response) =
        session_status_flags myc_ref (finalizer_status (the e)))"
  by (rule completed_response_well_formed [OF byteorder_ref_spec myc_ref_spec demo_sink_ready
        demo_response_reached [unfolded demo_query_def] demo_response_completed])

lemma contains_set_flag:
  "f \<noteq> 0 \<Longrightarrow> contains (set_flag flags f on) f \<longleftrightarrow> on" for f :: "'a::len word"
  by (cases on) (auto simp: contains_def set_flag_def bit_eq_iff bit_simps)

lemma finalizer_more:
  assumes "myc_spec M"
  shows "contains (finalizer_status (with_more M on f)) (status_bits M SERVER_MORE_RESULTS_EXISTS) \<longleftrightarrow> on"
proof -
  have "status_bits M SERVER_MORE_RESULTS_EXISTS \<noteq> 0"
    using myc_specD(2) [OF assms] by (simp add: disjoint_bits_def)
  then show ?thesis by (cases f) (simp_all add: contains_set_flag)
qed

end
