(* ===== verification/Temporal.thy ===== *)
theory Temporal
  imports Encode
begin

text \<open>
  The way back from the wire to the calendar types: what \<open>NaiveDate::try_from\<close>,
  \<open>to_naive_datetime\<close> and \<open>Duration::try_from\<close> (decode.rs, in the theory Values) make of the
  bytes the encoders of the theory Encode produce.
\<close>

lemma le_words_exist:
  "length b = 2 \<Longrightarrow> \<exists>y. b = le16 y" "length b = 4 \<Longrightarrow> \<exists>d. b = le32 d"
proof -
  show "\<exists>y. b = le16 y" if "length b = 2"
  proof
    have "of_le b < 65536" using of_le_bound [of b] that by simp
    then have "unat (word_of_nat (of_le b) :: u16) = of_le b" by (simp add: unat_of_nat)
    with that le_bytes_of_le [of b] show "b = le16 (word_of_nat (of_le b))" by (simp add: le16_def)
  qed
  show "\<exists>d. b = le32 d" if "length b = 4"
  proof
    have "of_le b < 4294967296" using of_le_bound [of b] that by simp
    then have "unat (word_of_nat (of_le b) :: u32) = of_le b" by (simp add: unat_of_nat)
    with that le_bytes_of_le [of b] show "b = le32 (word_of_nat (of_le b))" by (simp add: le32_def)
  qed
qed

lemma split_at: "length b = n + k \<Longrightarrow> \<exists>x y. b = x @ y \<and> length x = n \<and> length y = k"
  by (rule exI [of _ "take n b"], rule exI [of _ "drop n b"]) simp

lemma date_shape: "length b = 4 \<Longrightarrow> \<exists>y m d. b = le16 y @ [m, d]"
  using split_at [of b 2 2] le_words_exist(1) by (fastforce simp: length_Suc_conv numeral_2_eq_2)

lemma five: "length b = 5 \<Longrightarrow> \<exists>v w x y z. b = [v, w, x, y, z]"
  by (auto simp: length_Suc_conv numeral_eq_Suc)

lemma three: "length b = 3 \<Longrightarrow> \<exists>x y z. b = [x, y, z]"
  by (auto simp: length_Suc_conv numeral_eq_Suc)

lemma datetime_shape:
  "length b = 7 \<Longrightarrow> \<exists>y m d h mi s. b = le16 y @ [m, d, h, mi, s]"
  "length b = 11 \<Longrightarrow> \<exists>y m d h mi s us. b = le16 y @ [m, d, h, mi, s] @ le32 us"
proof -
  show short: "\<exists>y m d h mi s. b = le16 y @ [m, d, h, mi, s]" if l: "length b = 7" for b :: bytes
  proof -
    obtain u v where "b = u @ v" "length u = 2" "length v = 5" using split_at [of b 2 5] l by auto
    then show ?thesis using le_words_exist(1) [of u] five [of v] by blast
  qed
  show "\<exists>y m d h mi s us. b = le16 y @ [m, d, h, mi, s] @ le32 us" if l: "length b = 11"
  proof -
    obtain u v where b: "b = u @ v" "length u = 7" "length v = 4" using split_at [of b 7 4] l by auto
    obtain y m d h mi s where "u = le16 y @ [m, d, h, mi, s]" using short [OF b(2)] by blast
    moreover obtain us where "v = le32 us" using le_words_exist(2) [OF b(3)] by blast
    ultimately show ?thesis using b(1) by auto
  qed
qed

lemma time_shape:
  "length b = 8 \<Longrightarrow> \<exists>n d h m s. b = [n] @ le32 d @ [h, m, s]"
  "length b = 12 \<Longrightarrow> \<exists>n d h m s us. b = [n] @ le32 d @ [h, m, s] @ le32 us"
proof -
  show short: "\<exists>n d h m s. b = [n] @ le32 d @ [h, m, s]" if l: "length b = 8" for b :: bytes
  proof -
    obtain n t where "b = n # t" "length t = 7" using l by (cases b) auto
    moreover then obtain u v where "t = u @ v" "length u = 4" "length v = 3" using split_at [of t 4 3] by auto
    ultimately show ?thesis using le_words_exist(2) [of u] three [of v] by force
  qed
  show "\<exists>n d h m s us. b = [n] @ le32 d @ [h, m, s] @ le32 us" if l: "length b = 12"
  proof -
    obtain u v where b: "b = u @ v" "length u = 8" "length v = 4" using split_at [of b 8 4] l by auto
    obtain n d h m s where "u = [n] @ le32 d @ [h, m, s]" using short [OF b(2)] by blast
    moreover obtain us where "v = le32 us" using le_words_exist(2) [OF b(3)] by blast
    ultimately show ?thesis using b(1) by auto
  qed
qed

subsection \<open>The conversions, in terms of the fields\<close>

lemma try_into_date_fields:
  assumes B: "byteorder_spec B" and b: "length b = 4" "date_fields b = (y, m, d, h, mi, s, us)"
    and x: "from_ymd_opt C (int y) m d = Some x"
  shows "try_into_date B C dbg (Date b) = Inr x"
proof -
  obtain y' m' d' where b': "b = le16 y' @ [m', d']" using date_shape [OF b(1)] by blast
  moreover then have "uint y' = int y" using b(2) by (simp add: date_fields_forms uint_nat)
  ultimately show ?thesis using b(2) x
    by (simp add: try_into_date_def byteorder_specD [OF B] date_fields_forms)
qed

lemma ref_read_ends [simp]: "ref_read 4 (le32 d) = Inr (d, [])"
  using ref_read_words(3) [of d "[]"] by simp

lemma timestamp_parts_forms:
  assumes B: "byteorder_spec B" and C: "chrono_spec C"
    and x: "from_ymd_opt C (uint y) (unat m) (unat d) = Some x"
  shows "and_hms_micro_opt C x (unat h) (unat mi) (unat s) 0 = Some t \<Longrightarrow>
      timestamp_parts B C (le16 y @ [m, d, h, mi, s]) = Ret (Some t)"
    "and_hms_micro_opt C x (unat h) (unat mi) (unat s) (unat us) = Some t \<Longrightarrow> unat us < 1000000 \<Longrightarrow>
      timestamp_parts B C (le16 y @ [m, d, h, mi, s] @ le32 us) = Ret (Some t)"
proof -
  have ymd: "read_ymd B (le16 y @ [m, d] @ r) = Some ((uint y, unat m, unat d), r)" for r
    by (simp add: read_ymd_def byteorder_specD [OF B])
  have hms: "read_hms B ([h, mi, s] @ r) = Some ((unat h, unat mi, unat s), r)" for r
    by (simp add: read_hms_def byteorder_specD [OF B])
  show "and_hms_micro_opt C x (unat h) (unat mi) (unat s) 0 = Some t \<Longrightarrow>
      timestamp_parts B C (le16 y @ [m, d, h, mi, s]) = Ret (Some t)"
    using ymd [of "[h, mi, s]"] hms [of "[]"] x by (simp add: timestamp_parts_def chrono_specD(7) [OF C])
  show "and_hms_micro_opt C x (unat h) (unat mi) (unat s) (unat us) = Some t \<Longrightarrow> unat us < 1000000 \<Longrightarrow>
      timestamp_parts B C (le16 y @ [m, d, h, mi, s] @ le32 us) = Ret (Some t)"
    using ymd [of "[h, mi, s] @ le32 us"] hms [of "le32 us"] x
    by (simp add: timestamp_parts_def byteorder_specD [OF B])
qed

lemma to_naive_datetime_fields:
  assumes B: "byteorder_spec B" and C: "chrono_spec C" and b: "length b \<in> {7, 11}" "date_fields b = (y, m, d, h, mi, s, us)"
    and x: "from_ymd_opt C (int y) m d = Some x" and t: "and_hms_micro_opt C x h mi s us = Some t"
    and us: "us < 1000000"
  shows "to_naive_datetime B C dbg (Datetime b) = Ret (Inr t)"
proof -
  have "timestamp_parts B C b = Ret (Some t)"
  proof (cases "length b = 7")
    case True
    obtain y' m' d' h' mi' s' where b': "b = le16 y' @ [m', d', h', mi', s']" using datetime_shape(1) [OF True] by blast
    then have f: "y = unat y'" "m = unat m'" "d = unat d'" "h = unat h'" "mi = unat mi'" "s = unat s'" "us = 0"
      using b(2) by (simp_all add: date_fields_forms)
    then have "from_ymd_opt C (uint y') (unat m') (unat d') = Some x" using x by simp
    from timestamp_parts_forms(1) [OF B C this] t show ?thesis unfolding b' f by blast
  next
    case False
    then obtain y' m' d' h' mi' s' us' where b': "b = le16 y' @ [m', d', h', mi', s'] @ le32 us'"
      using datetime_shape(2) [of b] b(1) by blast
    then have f: "y = unat y'" "m = unat m'" "d = unat d'" "h = unat h'" "mi = unat mi'" "s = unat s'" "us = unat us'"
      using b(2) date_fields_forms(4) [of y' m' d' h' mi' s' us'] by simp_all
    then have "from_ymd_opt C (uint y') (unat m') (unat d') = Some x" using x by simp
    from timestamp_parts_forms(2) [OF B C this] t us show ?thesis unfolding b' f by blast
  qed
  with b(1) show ?thesis by (auto simp: to_naive_datetime_def)
qed

lemma try_into_duration_fields:
  assumes B: "byteorder_spec B" and b: "length b \<in> {0, 8, 12}" "time_fields b = (False, secs, us)"
    and us: "us < 1000000"
  shows "try_into_duration B dbg (Time b) = Inr \<lparr>as_secs = secs, subsec_nanos = us * 1000\<rparr>"
proof -
  consider "b = []" | "length b = 8" | "length b = 12" using b(1) by auto
  then show ?thesis
  proof cases
    case 1
    with b(2) show ?thesis by (simp add: try_into_duration_def time_fields_forms)
  next
    case 2
    obtain n d h m s where "b = [n] @ le32 d @ [h, m, s]" using time_shape(1) [OF 2] by blast
    with b(2) show ?thesis using time_fields_forms(2) [of n d h m s]
      by (simp add: try_into_duration_def read_duration_def byteorder_specD [OF B])
  next
    case 3
    obtain n d h m s u where "b = [n] @ le32 d @ [h, m, s] @ le32 u" using time_shape(2) [OF 3] by blast
    with b(2) us show ?thesis using time_fields_forms(3) [of n d h m s u]
      by (simp add: try_into_duration_def read_duration_def byteorder_specD [OF B])
  qed
qed

text \<open>
  Reading back a decoded value at the type it was written from. A duration loses what is below
  a microsecond, which MySQL does not store.
\<close>

fun reads_back :: "byteorder_ops \<Rightarrow> ('d, 'dt) chrono_ops \<Rightarrow> (ValueInner \<Rightarrow> bytes) \<Rightarrow>
    ('d, 'dt) to_mysql_value \<Rightarrow> ValueInner \<Rightarrow> bool" where
  "reads_back B C dbg (VNaiveDate d) x = (try_into_date B C dbg x = Inr d)"
| "reads_back B C dbg (VNaiveDateTime t) x = (to_naive_datetime B C dbg x = Ret (Inr t))"
| "reads_back B C dbg (VDuration v) x =
     (try_into_duration B dbg x = Inr \<lparr>as_secs = as_secs v, subsec_nanos = subsec_nanos v div 1000 * 1000\<rparr>)"
| "reads_back B C dbg _ x = False"

fun is_temporal :: "('d, 'dt) to_mysql_value \<Rightarrow> bool" where
  "is_temporal (VNaiveDate d) = True"
| "is_temporal (VNaiveDateTime t) = True"
| "is_temporal (VDuration v) = True"
| "is_temporal _ = False"

lemma denotes_reads_back:
  assumes B: "byteorder_spec B" and C: "chrono_spec C"
    and v: "is_temporal v" "proper_value C v" "denotes C v x"
    and ns: "\<And>t. v = VNaiveDateTime t \<Longrightarrow> dt_nanosecond C t < 1000000000"
  shows "reads_back B C dbg v x"
  using v(1)
proof (cases v rule: is_temporal.cases)
  case (1 d)
  with v obtain b where "x = Date b" "length b = 4" "0 \<le> d_year C d"
      "date_fields b = (nat (d_year C d), d_month C d, d_day C d, 0, 0, 0, 0)" by auto
  with 1 v try_into_date_fields [OF B this(2,4), of C d dbg] show ?thesis by (simp add: real_date_def)
next
  case (2 t)
  let ?d = "dt_date C t"
  from 2 v obtain b where b: "x = Datetime b" "length b \<in> {7, 11}" "0 \<le> d_year C ?d"
      "date_fields b = (nat (d_year C ?d), d_month C ?d, d_day C ?d, dt_hour C t, dt_minute C t,
         dt_second C t, dt_nanosecond C t div 1000)" by (auto simp: real_datetime_def)
  have "from_ymd_opt C (int (nat (d_year C ?d))) (d_month C ?d) (d_day C ?d) = Some ?d"
    "and_hms_micro_opt C ?d (dt_hour C t) (dt_minute C t) (dt_second C t) (dt_nanosecond C t div 1000) = Some t"
    using 2 v(2) b(3) by (simp_all add: real_datetime_def real_date_def)
  from to_naive_datetime_fields [OF B C b(2,4) this] 2 ns b(1) show ?thesis by simp
next
  case (3 u)
  with v obtain b where "x = Time b" "length b \<in> {0, 8, 12}" "time_fields b = (False, as_secs u, subsec_micros u)"
    by auto
  with 3 v try_into_duration_fields [OF B this(2,3), of dbg] show ?thesis by (simp add: subsec_micros_def)
qed auto

lemma datetime_accepted_nanos:
  assumes "datetime_to_mysql_bin B M C F t c = Inr ps"
  shows "dt_nanosecond C t < 1000000000"
proof -
  have "coltype c \<in> {MYSQL_TYPE_DATETIME, MYSQL_TYPE_TIMESTAMP}"
    using assms unfolding datetime_to_mysql_bin_def by (rule contrapos_pp) simp
  then obtain y where "validate_chrono_datetime C t = Inr y"
    using assms unfolding datetime_to_mysql_bin_def by (cases "validate_chrono_datetime C t") simp_all
  then show ?thesis by (simp add: validate_chrono_datetime_ok)
qed

text \<open>C34: dates, dates with times and durations survive the wire and the conversion back to their
  Rust types: whatever the encoder accepts for a column, the decoder followed by the conversion to
  the type it came from yields the same date, the same date and time, and the same duration down
  to microseconds.\<close>

theorem chrono_values_roundtrip:
  assumes "byteorder_spec B" and "myc_spec M" and "chrono_spec C" and "proper_value C v" and "is_temporal v"
    and "to_mysql_bin B M C F v c = Ret (Inr ps)"
  shows "\<exists>x. parse_from B M (concat ps @ rest) (coltype c) (is_unsigned_column M c) = Inr (x, rest) \<and>
     reads_back B C dbg v x"
proof -
  obtain x where x: "parse_from B M (concat ps @ rest) (coltype c) (is_unsigned_column M c) = Inr (x, rest)"
      "denotes C v x"
    using value_decodes [OF assms(1,2,3,4,6)] by blast
  moreover have "dt_nanosecond C t < 1000000000" if "v = VNaiveDateTime t" for t
    using assms(6) that datetime_accepted_nanos [of B M C F t c ps] by simp
  ultimately show ?thesis using denotes_reads_back [OF assms(1,3,5,4)] by blast
qed

definition demo_instant :: "(int \<times> nat \<times> nat) \<times> nat \<times> nat \<times> nat \<times> nat" where
  "demo_instant = ((2024, 2, 29), 23, 59, 58, 7000)"

definition datetime_column :: Column where
  "datetime_column = \<lparr>table = [], column = [97], collen = 0, coltype = MYSQL_TYPE_DATETIME, colflags = 0\<rparr>"

lemma demo_instant_encoded:
  "to_mysql_bin byteorder_ref myc_ref chrono_ref fmt_none (VNaiveDateTime demo_instant) datetime_column =
     Ret (Inr [[11], le16 2024, [2], [29], [23], [59], [58], le32 7])"
  by (simp add: datetime_to_mysql_bin_def datetime_column_def demo_instant_def validate_chrono_datetime_def
      mysql_chrono_year_def chrono_ref_def byteorder_ref_def Let_def)

lemma demo_instant_proper: "real_datetime chrono_ref demo_instant"
  by (simp add: real_datetime_def real_date_def demo_instant_def chrono_ref_def ref_month_days_def)

theorem chrono_values_roundtrip_witness:
  "\<exists>x. parse_from byteorder_ref myc_ref
       (concat [[11], le16 2024, [2], [29], [23], [59], [58], le32 7] @ [1]) (coltype datetime_column)
       (is_unsigned_column myc_ref datetime_column) = Inr (x, [1]) \<and>
     reads_back byteorder_ref chrono_ref (\<lambda>_. []) (VNaiveDateTime demo_instant) x"
  using chrono_values_roundtrip [OF byteorder_ref_spec myc_ref_spec chrono_ref_spec _ _ demo_instant_encoded]
    demo_instant_proper by simp

end
