(* ===== verification/Text.thy ===== *)
theory Text
  imports Prelude
begin

text \<open>
  The string functions of Rust's standard library that the session uses on queries and schema
  names: \<open>str::from_utf8\<close> with its error, \<open>starts_with\<close>, \<open>trim\<close>, \<open>trim_matches\<close>,
  \<open>trim_end_matches\<close> and \<open>to_lowercase\<close>. A \<open>str\<close> is the list of its bytes.
\<close>

subsection \<open>UTF-8\<close>

text \<open>
  \<open>Utf8Error\<close>: the offset of the first bad byte, and the length of the bad sequence unless the
  text ends within a sequence that is correct so far.
\<close>

datatype Utf8Error = Utf8Error (valid_up_to: nat) (error_len: "nat option")

datatype utf8_char = Char nat | BadSequence "nat option"

definition byte_in :: "nat \<Rightarrow> nat \<Rightarrow> u8 \<Rightarrow> bool" where
  "byte_in lo hi b \<longleftrightarrow> lo \<le> unat b \<and> unat b \<le> hi"

text \<open>The bytes after the first one, each within its bounds.\<close>

fun continuations :: "nat \<Rightarrow> (nat \<times> nat) list \<Rightarrow> bytes \<Rightarrow> utf8_char" where
  "continuations n [] i = Char n"
| "continuations n (r # rs) [] = BadSequence None"
| "continuations n ((lo, hi) # rs) (b # i) =
     (if byte_in lo hi b then continuations (n + 1) rs i else BadSequence (Some n))"

text \<open>What may follow a first byte: the table of well-formed sequences, \<open>None\<close> for no first byte.\<close>

definition utf8_table :: "u8 \<Rightarrow> (nat \<times> nat) list option" where
  "utf8_table b =
     (if byte_in 0x00 0x7F b then Some []
      else if byte_in 0xC2 0xDF b then Some [(0x80, 0xBF)]
      else if b = 0xE0 then Some [(0xA0, 0xBF), (0x80, 0xBF)]
      else if b = 0xED then Some [(0x80, 0x9F), (0x80, 0xBF)]
      else if byte_in 0xE1 0xEF b then Some [(0x80, 0xBF), (0x80, 0xBF)]
      else if b = 0xF0 then Some [(0x90, 0xBF), (0x80, 0xBF), (0x80, 0xBF)]
      else if b = 0xF4 then Some [(0x80, 0x8F), (0x80, 0xBF), (0x80, 0xBF)]
      else if byte_in 0xF1 0xF3 b then Some [(0x80, 0xBF), (0x80, 0xBF), (0x80, 0xBF)]
      else None)"

fun utf8_char_at :: "bytes \<Rightarrow> utf8_char" where
  "utf8_char_at [] = BadSequence None"
| "utf8_char_at (b # i) = (case utf8_table b of None \<Rightarrow> BadSequence (Some 1) | Some rs \<Rightarrow> continuations 1 rs i)"

lemma continuations_length: "continuations n rs i = Char k \<Longrightarrow> k = n + length rs \<and> length rs \<le> length i"
  by (induction n rs i rule: continuations.induct) (auto split: if_splits)

lemma utf8_char_length: "utf8_char_at i = Char k \<Longrightarrow> 0 < k \<and> k \<le> length i"
  by (cases i) (auto dest!: continuations_length split: option.splits)

text \<open>\<open>str::from_utf8\<close>: \<open>None\<close> when the bytes are a string.\<close>

function utf8_check :: "nat \<Rightarrow> bytes \<Rightarrow> Utf8Error option" where
  "utf8_check at i =
     (if i = [] then None
      else case utf8_char_at i of
        BadSequence n \<Rightarrow> Some (Utf8Error at n)
      | Char k \<Rightarrow> utf8_check (at + k) (drop k i))"
  by pat_completeness auto
termination
  by (relation "measure (\<lambda>(at, i). length i)") (auto dest: utf8_char_length)

declare utf8_check.simps [simp del]

definition from_utf8 :: "bytes \<Rightarrow> Utf8Error option" where
  "from_utf8 i = utf8_check 0 i"

text \<open>\<open>Display\<close> of the error.\<close>

definition show_utf8_error :: "Utf8Error \<Rightarrow> bytes" where
  "show_utf8_error e = (case error_len e of
     Some n \<Rightarrow> ascii ''invalid utf-8 sequence of '' @ dec n @ ascii '' bytes from index '' @ dec (valid_up_to e)
   | None \<Rightarrow> ascii ''incomplete utf-8 byte sequence from index '' @ dec (valid_up_to e))"

lemma from_utf8_Nil [simp]: "from_utf8 [] = None"
  by (simp add: from_utf8_def utf8_check.simps)

text \<open>ASCII is UTF-8, and so is what follows it.\<close>

lemma utf8_check_ascii: "\<forall>b \<in> set i. unat b < 128 \<Longrightarrow> utf8_check at i = None"
proof (induction i arbitrary: at)
  case Nil
  then show ?case by (simp add: utf8_check.simps)
next
  case (Cons b i)
  then show ?case
    by (subst utf8_check.simps) (simp add: utf8_table_def byte_in_def)
qed

lemma from_utf8_ascii: "\<forall>b \<in> set i. unat b < 128 \<Longrightarrow> from_utf8 i = None"
  by (simp add: from_utf8_def utf8_check_ascii)

subsection \<open>Prefixes and trimming\<close>

definition starts_with :: "bytes \<Rightarrow> bytes \<Rightarrow> bool" where
  "starts_with p s \<longleftrightarrow> take (length p) s = p"

text \<open>Removing characters, given by their encodings, from the front and from the back.\<close>

function trim_front :: "bytes list \<Rightarrow> bytes \<Rightarrow> bytes" where
  "trim_front cs s =
     (case find (\<lambda>c. c \<noteq> [] \<and> starts_with c s) cs of None \<Rightarrow> s | Some c \<Rightarrow> trim_front cs (drop (length c) s))"
  by pat_completeness auto
termination
proof (relation "measure (\<lambda>(cs, s). length s)", goal_cases)
  case (2 cs s c)
  then have "c \<noteq> []" "take (length c) s = c" by (auto simp: find_Some_iff starts_with_def)
  then have "s \<noteq> []" by auto
  with \<open>c \<noteq> []\<close> show ?case by simp
qed simp

declare trim_front.simps [simp del]

definition trim_back :: "bytes list \<Rightarrow> bytes \<Rightarrow> bytes" where
  "trim_back cs s = rev (trim_front (map rev cs) (rev s))"

text \<open>The characters with the Unicode property \<open>White_Space\<close>.\<close>

definition white_space :: "bytes list" where
  "white_space =
     [[0x09], [0x0A], [0x0B], [0x0C], [0x0D], [0x20], [0xC2, 0x85], [0xC2, 0xA0], [0xE1, 0x9A, 0x80],
      [0xE2, 0x80, 0x80], [0xE2, 0x80, 0x81], [0xE2, 0x80, 0x82], [0xE2, 0x80, 0x83], [0xE2, 0x80, 0x84],
      [0xE2, 0x80, 0x85], [0xE2, 0x80, 0x86], [0xE2, 0x80, 0x87], [0xE2, 0x80, 0x88], [0xE2, 0x80, 0x89],
      [0xE2, 0x80, 0x8A], [0xE2, 0x80, 0xA8], [0xE2, 0x80, 0xA9], [0xE2, 0x80, 0xAF], [0xE2, 0x81, 0x9F],
      [0xE3, 0x80, 0x80]]"

definition trim :: "bytes \<Rightarrow> bytes" where
  "trim s = trim_back white_space (trim_front white_space s)"

definition trim_end_matches :: "u8 \<Rightarrow> bytes \<Rightarrow> bytes" where
  "trim_end_matches c s = trim_back [[c]] s"

definition trim_matches :: "u8 \<Rightarrow> bytes \<Rightarrow> bytes" where
  "trim_matches c s = trim_back [[c]] (trim_front [[c]] s)"

lemma trim_front_single: "trim_front [[c]] s = dropWhile (\<lambda>b. b = c) s"
proof (induction s)
  case Nil
  then show ?case by (simp add: trim_front.simps starts_with_def)
next
  case (Cons b s)
  then show ?case by (subst trim_front.simps) (simp add: starts_with_def)
qed

lemma trim_front_none: "\<forall>c \<in> set cs. \<not> starts_with c s \<Longrightarrow> trim_front cs s = s"
  by (subst trim_front.simps) (auto split: option.split dest!: find_Some_iff [THEN iffD1])

subsection \<open>Lower case\<close>

text \<open>
  \<open>to_lowercase\<close>, as far as the ASCII characters of the result are concerned: besides the upper-case
  letters, only the Kelvin sign becomes an ASCII character. The sources compare the result with
  ASCII text, so a character whose lower case is not all ASCII may stay as it is.
\<close>

fun to_lowercase :: "bytes \<Rightarrow> bytes" where
  "to_lowercase [] = []"
| "to_lowercase (b # i) =
     (if byte_in 0x41 0x5A b then (b + 0x20) # to_lowercase i
      else if b = 0xE2 \<and> starts_with [0x84, 0xAA] i then 0x6B # to_lowercase (drop 2 i)
      else b # to_lowercase i)"

end
