(* ===== verification/Conversions.thy ===== *)
theory Conversions
  imports Values Text
begin

text \<open>
  The rest of \<open>value/decode.rs\<close>: the newtype \<open>Value\<close> around \<open>ValueInner\<close>, and the conversions to
  \<open>&str\<close>, with the error of the UTF-8 check, and to \<open>f32\<close>, whose narrowing rounds to the nearest
  representable number, ties to even. Which NaN a NaN becomes is left open by Rust: it is the
  parameter \<open>nan\<close>.
\<close>

subsection \<open>The newtype\<close>

datatype Value = Value (into_inner: ValueInner)

definition null_value :: Value where
  "null_value = Value NULL"

definition value_null :: "Value \<Rightarrow> bool" where
  "value_null v \<longleftrightarrow> is_null (into_inner v)"

definition value_bytes :: "bytes \<Rightarrow> Value" where
  "value_bytes input = Value (Bytes input)"

definition value_parse_from :: "byteorder_ops \<Rightarrow> myc_ops \<Rightarrow> bytes \<Rightarrow> ColumnType \<Rightarrow> bool \<Rightarrow> (Value \<times> bytes) io_result" where
  "value_parse_from B M input ct u = map_ok Value (parse_from B M input ct u)"

subsection \<open>Text\<close>

text \<open>The message for a value that is no text renders the \<open>Value\<close>, not its inner value.\<close>

definition try_into_str :: "(Value \<Rightarrow> bytes) \<Rightarrow> Value \<Rightarrow> bytes io_result" where
  "try_into_str dbg val = (case into_inner val of
     Bytes v \<Rightarrow> (case from_utf8 v of
        None \<Rightarrow> Inr v
      | Some e \<Rightarrow> Inl (IoError InvalidData (ascii ''invalid utf8: '' @ show_utf8_error e)))
   | _ \<Rightarrow> Inl (IoError InvalidData (ascii ''invalid type conversion from '' @ dbg val @ ascii '' to string'')))"

subsection \<open>Narrowing\<close>

definition round_even :: "nat \<Rightarrow> nat \<Rightarrow> nat" where
  "round_even m s =
     (let q = m div 2 ^ s; r = m mod 2 ^ s in
      if 2 ^ s < 2 * r \<or> 2 ^ s = 2 * r \<and> odd q then q + 1 else q)"

text \<open>
  The magnitude is \<open>m * 2 ^ (e - 1075)\<close>; a carry out of the rounded significand goes into the
  exponent field, and what does not fit below the exponent of the infinities is infinite.
\<close>

definition f32_from_f64 :: "(u64 \<Rightarrow> u32) \<Rightarrow> u64 \<Rightarrow> u32" where
  "f32_from_f64 nan v =
     (let sign = unat v div 2 ^ 63; ex = unat v div 2 ^ 52 mod 2048; mant = unat v mod 2 ^ 52 in
      if ex = 2047 \<and> mant \<noteq> 0 then nan v
      else let e = max ex 1; m = (if ex = 0 then mant else 2 ^ 52 + mant) in
        word_of_nat (sign * 2 ^ 31 +
          (if ex = 2047 then 255 * 2 ^ 23
           else min (255 * 2 ^ 23) ((e - 897) * 2 ^ 23 + round_even m (29 + (897 - e))))))"

definition try_into_f32 :: "(u64 \<Rightarrow> u32) \<Rightarrow> (ValueInner \<Rightarrow> bytes) \<Rightarrow> Value \<Rightarrow> u32 io_result" where
  "try_into_f32 nan dbg val = (case into_inner val of
     Double d \<Rightarrow> Inr (f32_from_f64 nan d) | v \<Rightarrow> Inl (conversion_error dbg v (ascii ''f32'')))"

text \<open>What is exactly representable is not rounded.\<close>

lemma round_even_exact [simp]: "round_even (q * 2 ^ s) s = q"
  by (simp add: round_even_def)

lemma fields_64:
  assumes "s < 2" "e < 2048" "m < 2 ^ 52"
  shows "unat (word_of_nat (s * 2 ^ 63 + (e * 2 ^ 52 + m)) :: u64) div 2 ^ 63 = s"
    "unat (word_of_nat (s * 2 ^ 63 + (e * 2 ^ 52 + m)) :: u64) div 2 ^ 52 mod 2048 = e"
    "unat (word_of_nat (s * 2 ^ 63 + (e * 2 ^ 52 + m)) :: u64) mod 2 ^ 52 = m"
proof -
  have "s * 2 ^ 63 + (e * 2 ^ 52 + m) < 2 ^ 64" using assms by simp
  then have n: "unat (word_of_nat (s * 2 ^ 63 + (e * 2 ^ 52 + m)) :: u64) = s * 2 ^ 63 + (e * 2 ^ 52 + m)"
    by (simp only: unat_of_nat) simp
  show "unat (word_of_nat (s * 2 ^ 63 + (e * 2 ^ 52 + m)) :: u64) div 2 ^ 63 = s" unfolding n using assms by simp
  have "s * 2 ^ 63 + (e * 2 ^ 52 + m) = (s * 2048 + e) * 2 ^ 52 + m" by simp
  then have "(s * 2 ^ 63 + (e * 2 ^ 52 + m)) mod 2 ^ 52 = m" using assms(3) by (metis mod_less mod_mult_self3)
  then show "unat (word_of_nat (s * 2 ^ 63 + (e * 2 ^ 52 + m)) :: u64) mod 2 ^ 52 = m" unfolding n .
  have "(s * 2 ^ 63 + (e * 2 ^ 52 + m)) div 2 ^ 52 = s * 2048 + e" using assms by simp
  then show "unat (word_of_nat (s * 2 ^ 63 + (e * 2 ^ 52 + m)) :: u64) div 2 ^ 52 mod 2048 = e" unfolding n using assms by simp
qed

lemma narrow_fields:
  assumes "s < 2" "e < 2048" "m < 2 ^ 52"
  shows "f32_from_f64 nan (word_of_nat (s * 2 ^ 63 + (e * 2 ^ 52 + m))) =
    (if e = 2047 \<and> m \<noteq> 0 then nan (word_of_nat (s * 2 ^ 63 + (e * 2 ^ 52 + m)))
     else word_of_nat (s * 2 ^ 31 + (if e = 2047 then 255 * 2 ^ 23
       else min (255 * 2 ^ 23) ((max e 1 - 897) * 2 ^ 23 +
         round_even (if e = 0 then m else 2 ^ 52 + m) (29 + (897 - max e 1))))))"
  unfolding f32_from_f64_def Let_def fields_64 [OF assms] by (rule refl)

lemma top_bit_bounds: "0 < v \<Longrightarrow> v < 2 ^ n \<Longrightarrow> top_bit n v < n \<and> 2 ^ top_bit n v \<le> v \<and> v < 2 ^ Suc (top_bit n v)"
  by (induction n) (auto simp: not_le)

definition is_nan32 :: "u32 \<Rightarrow> bool" where
  "is_nan32 f \<longleftrightarrow> unat f div 2 ^ 23 mod 256 = 255 \<and> unat f mod 2 ^ 23 \<noteq> 0"

text \<open>Widening and narrowing again changes no number.\<close>

lemma narrow_widened:
  assumes "\<not> is_nan32 f"
  shows "f32_from_f64 nan (f64_from_f32 f) = f"
proof -
  define s ex m where d: "s = unat f div 2 ^ 31" "ex = unat f div 2 ^ 23 mod 256" "m = unat f mod 2 ^ 23"
  have f32: "unat f < 2 ^ 32" using unsigned_less [of f, where ?'a = nat] by simp
  have b: "s < 2" "ex < 256" "m < 2 ^ 23" using f32 by (simp_all add: d)
  have "s = unat f div 2 ^ 23 div 256" by (simp add: d div_mult2_eq [symmetric])
  then have "unat f div 2 ^ 23 = s * 256 + ex" by (simp add: d)
  then have "unat f = (s * 256 + ex) * 2 ^ 23 + m" using div_mult_mod_eq [of "unat f" "2 ^ 23"] by (simp add: d)
  then have "unat f = s * 2 ^ 31 + (ex * 2 ^ 23 + m)" by simp
  then have f: "word_of_nat (s * 2 ^ 31 + (ex * 2 ^ 23 + m)) = f" by (metis of_nat_unat ucast_id)
  have wide: "f64_from_f32 f = word_of_nat (s * 2 ^ 63 + (if ex = 255 then 2047 * 2 ^ 52 + m * 2 ^ 29
       else if ex = 0 then (if m = 0 then 0 else (top_bit 23 m + 874) * 2 ^ 52 + (m - 2 ^ top_bit 23 m) * 2 ^ (52 - top_bit 23 m))
       else (ex + 896) * 2 ^ 52 + m * 2 ^ 29))"
    by (simp only: f64_from_f32_def d Let_def)
  consider "ex = 255" "m = 0" | "ex = 0" "m = 0" | "ex = 0" "0 < m" | "0 < ex" "ex < 255"
    using assms b by (fastforce simp: is_nan32_def d)
  then show ?thesis
  proof cases
    case 1
    then show ?thesis using wide narrow_fields [of s 2047 0 nan] b f by simp
  next
    case 2
    then show ?thesis using wide narrow_fields [of s 0 0 nan] b f by (simp add: round_even_def)
  next
    case 3
    let ?p = "top_bit 23 m"
    have p: "?p < 23" "2 ^ ?p \<le> m" "m < 2 ^ Suc ?p" using top_bit_bounds [of m 23] 3 b by simp_all
    have low: "(m - 2 ^ ?p) * 2 ^ (52 - ?p) < 2 ^ 52"
    proof -
      have "m - 2 ^ ?p < 2 ^ ?p" using p by simp
      then have "(m - 2 ^ ?p) * 2 ^ (52 - ?p) < 2 ^ ?p * 2 ^ (52 - ?p)" by simp
      also have "\<dots> = 2 ^ 52" using p by (simp flip: power_add)
      finally show ?thesis .
    qed
    have "2 ^ 52 + (m - 2 ^ ?p) * 2 ^ (52 - ?p) = 2 ^ ?p * 2 ^ (52 - ?p) + (m - 2 ^ ?p) * 2 ^ (52 - ?p)"
      using p by (simp flip: power_add)
    also have "\<dots> = m * 2 ^ (52 - ?p)" using p by (metis le_add_diff_inverse add_mult_distrib)
    finally have m: "2 ^ 52 + (m - 2 ^ ?p) * 2 ^ (52 - ?p) = m * 2 ^ (52 - ?p)" .
    have sh: "29 + (897 - max (?p + 874) 1) = 52 - ?p" "max (?p + 874) 1 - 897 = 0" using p by simp_all
    have "f32_from_f64 nan (f64_from_f32 f) = word_of_nat (s * 2 ^ 31 + min (255 * 2 ^ 23) m)"
      using 3 wide narrow_fields [of s "?p + 874" "(m - 2 ^ ?p) * 2 ^ (52 - ?p)" nan] b p low
      by (simp only: m sh) simp
    with 3 b f show ?thesis by (simp add: min_def)
  next
    case 4
    have m: "2 ^ 52 + m * 2 ^ 29 = (2 ^ 23 + m) * 2 ^ 29" by simp
    have sh: "29 + (897 - max (ex + 896) 1) = 29" "max (ex + 896) 1 - 897 = ex - 1" using 4 by simp_all
    have small: "(ex - 1) * 2 ^ 23 + (2 ^ 23 + m) = ex * 2 ^ 23 + m" "ex * 2 ^ 23 + m < 255 * 2 ^ 23" using 4 b by simp_all
    have wide: "f64_from_f32 f = word_of_nat (s * 2 ^ 63 + ((ex + 896) * 2 ^ 52 + m * 2 ^ 29))" using 4 wide by simp
    have in_range: "ex + 896 < 2048" "m * 2 ^ 29 < 2 ^ 52" "ex + 896 \<noteq> 2047" "ex + 896 \<noteq> 0" using 4 b by simp_all
    have "f32_from_f64 nan (f64_from_f32 f) = word_of_nat (s * 2 ^ 31 + min (255 * 2 ^ 23) (ex * 2 ^ 23 + m))"
      unfolding wide narrow_fields [OF b(1) in_range(1,2)] using in_range(3,4)
      by (simp only: m sh small round_even_exact if_False HOL.simp_thms)
    with small f show ?thesis by (simp add: min_def)
  qed
qed

subsection \<open>What a client sends, in the types of Rust\<close>

inductive encodes_integer :: "ColumnType \<Rightarrow> bool \<Rightarrow> bytes \<Rightarrow> int \<Rightarrow> bool" where
  int_u8: "encodes_integer MYSQL_TYPE_TINY True [w] (uint w)"
| int_i8: "encodes_integer MYSQL_TYPE_TINY False [w] (sint w)"
| int_u16: "ct \<in> {MYSQL_TYPE_SHORT, MYSQL_TYPE_YEAR} \<Longrightarrow> encodes_integer ct True (le16 h) (uint h)"
| int_i16: "ct \<in> {MYSQL_TYPE_SHORT, MYSQL_TYPE_YEAR} \<Longrightarrow> encodes_integer ct False (le16 h) (sint h)"
| int_u32: "ct \<in> {MYSQL_TYPE_LONG, MYSQL_TYPE_INT24} \<Longrightarrow> encodes_integer ct True (le32 d) (uint d)"
| int_i32: "ct \<in> {MYSQL_TYPE_LONG, MYSQL_TYPE_INT24} \<Longrightarrow> encodes_integer ct False (le32 d) (sint d)"
| int_u64: "encodes_integer MYSQL_TYPE_LONGLONG True (le64 q) (uint q)"
| int_i64: "encodes_integer MYSQL_TYPE_LONGLONG False (le64 q) (sint q)"

lemma integer_casts:
  "sint (scast (w :: u8) :: u64) = sint w" "sint (scast (h :: u16) :: u64) = sint h" "sint (scast (d :: u32) :: u64) = sint d"
  "uint (ucast w :: u64) = uint w" "uint (ucast h :: u64) = uint h" "uint (ucast d :: u64) = uint d"
  by (simp_all add: sint_up_scast uint_up_ucast is_up)

lemma integer_encoded:
  "encodes_integer ct u p n \<Longrightarrow> \<exists>v q. encodes ct u p v \<and> (v = UInt q \<and> uint q = n \<or> v = IntV q \<and> sint q = n)"
proof (induction rule: encodes_integer.induct)
  case (int_u8 w)
  show ?case using enc_u8 [of w] integer_casts(4) [of w] by blast
next
  case (int_i8 w)
  show ?case using enc_i8 [of w] integer_casts(1) [of w] by blast
next
  case (int_u16 ct h)
  then show ?case using enc_u16 [of ct h] integer_casts(5) [of h] by blast
next
  case (int_i16 ct h)
  then show ?case using enc_i16 [of ct h] integer_casts(2) [of h] by blast
next
  case (int_u32 ct d)
  then show ?case using enc_u32 [of ct d] integer_casts(6) [of d] by blast
next
  case (int_i32 ct d)
  then show ?case using enc_i32 [of ct d] integer_casts(3) [of d] by blast
qed (use enc_u64 enc_i64 in blast)+

text \<open>C21: what a client sends for a parameter comes out of its conversion to the Rust type unchanged:
  text that is UTF-8 as a string (and any other as an error that says where it stops being
  UTF-8), every FLOAT that is a number as the same number of single precision, although it is
  kept in double precision in between, and an integer of any width and signedness as the same number in every integer type
  that has it, and as an error in every other.\<close>

theorem typed_parameters_read_back:
  assumes "byteorder_spec B" and "myc_spec M"
  shows "(is_string_type ct \<and> length b \<le> usize_max \<longrightarrow>
      (\<exists>v. value_parse_from B M (lenenc_str b @ rest) ct u = Inr (v, rest) \<and>
        try_into_str dbg v = (case from_utf8 b of None \<Rightarrow> Inr b
          | Some e \<Rightarrow> Inl (IoError InvalidData (ascii ''invalid utf8: '' @ show_utf8_error e))))) \<and>
    (\<not> is_nan32 f \<longrightarrow>
      (\<exists>v. value_parse_from B M (le32 f @ rest) MYSQL_TYPE_FLOAT u = Inr (v, rest) \<and> try_into_f32 nan dbg' v = Inr f)) \<and>
    (encodes_integer ct' u' p n \<longrightarrow>
      (\<exists>v. value_parse_from B M (p @ rest) ct' u' = Inr (v, rest) \<and>
        (\<forall>name lo hi. try_into_int dbg' name lo hi (into_inner v) = (if lo \<le> n \<and> n \<le> hi then Inr n
          else Inl (IoError InvalidData (ascii ''value out of bounds for '' @ ascii name))))))"
proof (intro conjI impI)
  note parsed = parse_encoded [OF assms, where i = rest]
  show "\<exists>v. value_parse_from B M (lenenc_str b @ rest) ct u = Inr (v, rest) \<and>
      try_into_str dbg v = (case from_utf8 b of None \<Rightarrow> Inr b
        | Some e \<Rightarrow> Inl (IoError InvalidData (ascii ''invalid utf8: '' @ show_utf8_error e)))"
    if "is_string_type ct \<and> length b \<le> usize_max"
    using that parsed [OF enc_bytes [of ct b u]] by (simp add: value_parse_from_def try_into_str_def)
  show "\<exists>v. value_parse_from B M (le32 f @ rest) MYSQL_TYPE_FLOAT u = Inr (v, rest) \<and> try_into_f32 nan dbg' v = Inr f"
    if "\<not> is_nan32 f"
    using parsed [OF enc_f32 [of u f]] narrow_widened [OF that] by (simp add: value_parse_from_def try_into_f32_def)
  show "\<exists>v. value_parse_from B M (p @ rest) ct' u' = Inr (v, rest) \<and>
      (\<forall>name lo hi. try_into_int dbg' name lo hi (into_inner v) = (if lo \<le> n \<and> n \<le> hi then Inr n
        else Inl (IoError InvalidData (ascii ''value out of bounds for '' @ ascii name))))"
    if "encodes_integer ct' u' p n"
    using integer_encoded [OF that] parsed
    by (fastforce simp: value_parse_from_def try_into_int_def Let_def)
qed

theorem typed_parameters_read_back_witness:
  "(\<exists>v. value_parse_from byteorder_ref myc_ref (lenenc_str [0x61, 0xC3, 0xA9] @ [7]) MYSQL_TYPE_VARCHAR False = Inr (v, [7]) \<and>
      try_into_str (\<lambda>_. []) v = Inr [0x61, 0xC3, 0xA9]) \<and>
   (\<exists>v. value_parse_from byteorder_ref myc_ref (le32 0x00000001 @ [7]) MYSQL_TYPE_FLOAT False = Inr (v, [7]) \<and>
      try_into_f32 (\<lambda>_. 0) (\<lambda>_. []) v = Inr 0x00000001) \<and>
   (\<exists>v. value_parse_from byteorder_ref myc_ref ([0xFE] @ [7]) MYSQL_TYPE_TINY False = Inr (v, [7]) \<and>
      try_into_int (\<lambda>_. []) ''i64'' (- (2 ^ 63)) (2 ^ 63 - 1) (into_inner v) = Inr (- 2) \<and>
      try_into_int (\<lambda>_. []) ''u8'' 0 255 (into_inner v) = Inl (IoError InvalidData (ascii ''value out of bounds for u8'')))"
proof -
  have u: "from_utf8 [0x61, 0xC3, 0xA9] = None"
    by (simp add: from_utf8_def utf8_check.simps utf8_table_def byte_in_def)
  have n: "\<not> is_nan32 0x00000001" by (simp add: is_nan32_def)
  have i: "encodes_integer MYSQL_TYPE_TINY False [0xFE] (- 2)" using int_i8 [of "0xFE"] by simp
  have "is_string_type MYSQL_TYPE_VARCHAR" "length [0x61, 0xC3, 0xA9 :: u8] \<le> usize_max"
    by (simp_all add: is_string_type_def usize_max_def)
  with typed_parameters_read_back [OF byteorder_ref_spec myc_ref_spec, where ct = MYSQL_TYPE_VARCHAR and b = "[0x61, 0xC3, 0xA9]"
      and rest = "[7]" and u = False and dbg = "\<lambda>_. []" and f = "0x00000001" and nan = "\<lambda>_. 0" and dbg' = "\<lambda>_. []"
      and ct' = MYSQL_TYPE_TINY and u' = False and p = "[0xFE]" and n = "- 2"] u n i
  show ?thesis by (force simp: ascii_def)
qed

end
