(* ===== verification/Backend.thy ===== *)
theory Backend
  imports Responses Text
begin

text \<open>
  The trait \<open>AsyncMysqlShim\<close> of \<open>lib.rs\<close>. Its implementation is a user's code: a parameter. What
  such code can do with the object it is given is what the object's methods allow, so a callback
  is a program: a tree of method calls, each followed by the continuation for its result, with
  the callback's own result, or a panic, at the leaves. The methods the trait provides by default are
  programs too. Callbacks end; one that waits for ever is not modelled.
\<close>

subsection \<open>Programs over an object\<close>

datatype ('op, 'r) program = Return 'r | Panic | Call 'op "unit io_result \<Rightarrow> ('op, 'r) program"

text \<open>
  A step is \<open>None\<close> for a method the object does not have, for instance because it has been
  consumed; the type system of Rust excludes such a call, and it counts as a panic here.
\<close>

type_synonym ('op, 'st) object_step = "'op \<Rightarrow> 'st \<Rightarrow> (unit io_result \<times> 'st) rust option"

primrec run_program :: "('op, 'st) object_step \<Rightarrow> ('op, 'r) program \<Rightarrow> 'st \<Rightarrow> ('r \<times> 'st) rust" where
  "run_program step (Return r) st = Ret (r, st)"
| "run_program step Panic st = Panicked"
| "run_program step (Call op k) st =
     (case step op st of
        None \<Rightarrow> Panicked
      | Some Panicked \<Rightarrow> Panicked
      | Some (Ret (res, st')) \<Rightarrow> run_program step (k res) st')"

text \<open>A sequence of calls, each with \<open>?\<close>; the first error is converted to the callback's.\<close>

fun calls :: "(io_error \<Rightarrow> 'r) \<Rightarrow> 'op list \<Rightarrow> ('op, 'r) program \<Rightarrow> ('op, 'r) program" where
  "calls err [] p = p"
| "calls err (op # ops) p = Call op (\<lambda>r. case r of Inl e \<Rightarrow> Return (err e) | Inr _ \<Rightarrow> calls err ops p)"

text \<open>What every method keeps, every program keeps.\<close>

locale object_api =
  fixes step :: "('op, 'st) object_step"
    and inv :: "'st \<Rightarrow> bool"
  assumes step_inv: "inv st \<Longrightarrow> step op st = Some (Ret (res, st')) \<Longrightarrow> inv st'"
begin

lemma run_inv: "inv st \<Longrightarrow> run_program step p st = Ret (r, st') \<Longrightarrow> inv st'"
proof (induction p arbitrary: st)
  case (Return x)
  then show ?case by simp
next
  case Panic
  then show ?case by simp
next
  case (Call op k)
  then obtain res st1 where "step op st = Some (Ret (res, st1))" "run_program step (k res) st1 = Ret (r, st')"
    by (auto split: option.splits rust.splits)
  with Call step_inv show ?case by blast
qed

end

subsection \<open>The objects\<close>

text \<open>An object passed by value to its last method, and what is left of its borrowed parts.\<close>

datatype 'w object = Held 'w | Consumed 'w

fun borrowed :: "'w object \<Rightarrow> 'w" where
  "borrowed (Held w) = w"
| "borrowed (Consumed w) = w"

definition consume :: "unit io_result \<times> 'w \<Rightarrow> unit io_result \<times> 'w object" where
  "consume x = (case x of (r, w) \<Rightarrow> (r, Consumed w))"

definition hold :: "unit io_result \<times> 'w \<Rightarrow> unit io_result \<times> 'w object" where
  "hold x = (case x of (r, w) \<Rightarrow> (r, Held w))"

lemma object_moves [simp]:
  "consume (r, w) = (r, Consumed w)" "hold (r, w) = (r, Held w)"
  by (simp_all add: consume_def hold_def)

datatype init_op = InitSucceed | InitSucceedWithStatus u16 | InitFail ErrorKind bytes

fun init_step :: "byteorder_ops \<Rightarrow> myc_ops \<Rightarrow> (init_op, InitWriter object) object_step" where
  "init_step B M InitSucceed (Held i) = Some (Ret (consume (init_ok B M i)))"
| "init_step B M (InitSucceedWithStatus status) (Held i) = Some (Ret (consume (init_ok_with_status B M status i)))"
| "init_step B M (InitFail kind msg) (Held i) = Some (Ret (consume (init_error B kind msg i)))"
| "init_step B M _ (Consumed i) = None"

datatype prepare_op =
    Reply u32 "Column list" "Column list"
  | ReplyWithMetadata u32 "Column list" "Column list" "ColumnMetadata list" "ColumnMetadata list"
  | PrepareFail ErrorKind bytes

fun prepare_step :: "byteorder_ops \<Rightarrow> myc_ops \<Rightarrow> (prepare_op, StatementMetaWriter object) object_step" where
  "prepare_step B M (Reply i ps cs) (Held s) = Some (Ret (consume (reply B M i ps cs s)))"
| "prepare_step B M (ReplyWithMetadata i ps cs pm cm) (Held s) =
     Some (Ret (consume (reply_with_metadata B M i ps cs pm cm s)))"
| "prepare_step B M (PrepareFail kind msg) (Held s) = Some (Ret (consume (meta_error B kind msg s)))"
| "prepare_step B M _ (Consumed s) = None"

datatype cursor_op =
    CursorSetStatus u16
  | CursorOpen "Column list" "ColumnMetadata list"
  | CursorFail ErrorKind bytes

fun cursor_step :: "byteorder_ops \<Rightarrow> myc_ops \<Rightarrow> (cursor_op, CursorExecuteWriter object) object_step" where
  "cursor_step B M (CursorSetStatus status) (Held ce) =
     Some (Ret (hold (Inr (), cursor_execute_set_status_flags status ce)))"
| "cursor_step B M (CursorOpen columns metadata) (Held ce) =
     Some (Ret (consume (cursor_open B M columns metadata ce)))"
| "cursor_step B M (CursorFail kind msg) (Held ce) = Some (Ret (consume (cursor_execute_error B M kind msg ce)))"
| "cursor_step B M _ (Consumed ce) = None"

text \<open>
  The closure given to \<open>write_row_with\<close> works on a borrowed row writer and cannot wait, so it
  can only add columns and set the status.
\<close>

datatype ('d, 'dt) row_op = PutCol "('d, 'dt) to_mysql_value" | PutStatus u16

fun row_step :: "byteorder_ops \<Rightarrow> myc_ops \<Rightarrow> ('d, 'dt) chrono_ops \<Rightarrow> ('d, 'dt) fmt_ops \<Rightarrow>
    (('d, 'dt) row_op, RowWriter) object_step" where
  "row_step B M C F (PutCol v) rw = Some (write_col B M C F v rw)"
| "row_step B M C F (PutStatus status) rw = Some (Ret (Inr (), row_set_status_flags status rw))"

datatype ('d, 'dt) fetch_op =
    FetchSetStatus u16
  | FetchWriteRow "(('d, 'dt) row_op, unit io_result) program"
  | FetchFinish bool
  | FetchFail ErrorKind bytes

fun fetch_step :: "byteorder_ops \<Rightarrow> myc_ops \<Rightarrow> ('d, 'dt) chrono_ops \<Rightarrow> ('d, 'dt) fmt_ops \<Rightarrow>
    (('d, 'dt) fetch_op, CursorFetchWriter object) object_step" where
  "fetch_step B M C F (FetchSetStatus status) (Held cf) = Some (Ret (hold (Inr (), fetch_set_status_flags status cf)))"
| "fetch_step B M C F (FetchWriteRow encode) (Held cf) =
     Some (map_rust hold (fetch_write_row_with B (run_program (row_step B M C F) encode) cf))"
| "fetch_step B M C F (FetchFinish exhausted) (Held cf) = Some (Ret (consume (fetch_finish B M exhausted cf)))"
| "fetch_step B M C F (FetchFail kind msg) (Held cf) = Some (Ret (consume (fetch_error B M kind msg cf)))"
| "fetch_step B M C F _ (Consumed cf) = None"

subsection \<open>The trait\<close>

text \<open>
  \<open>'s\<close> is the backend's own state, \<open>'e\<close> its error type, into which \<open>from_io\<close> converts. A program
  returns the callback's result and the backend's new state.
\<close>

type_synonym ('op, 's, 'e) callback = "'s \<Rightarrow> ('op, ('e + unit) \<times> 's) program"

record ('s, 'e, 'd, 'dt) shim =
  from_io :: "io_error \<Rightarrow> 'e"
  server_version :: "'s \<Rightarrow> bytes"
  connect_id :: "'s \<Rightarrow> u32 \<times> 's"
  default_auth_plugin :: "'s \<Rightarrow> bytes"
  auth_plugin_for_username :: "'s \<Rightarrow> bytes \<Rightarrow> bytes"
  salt :: "'s \<Rightarrow> bytes \<times> 's"
  authenticate :: "'s \<Rightarrow> bytes \<Rightarrow> bytes \<Rightarrow> bytes \<Rightarrow> bytes \<Rightarrow> bool"
  on_prepare :: "bytes \<Rightarrow> (prepare_op, 's, 'e) callback"
  on_execute :: "u32 \<Rightarrow> Params \<Rightarrow> (('d, 'dt) response_op, 's, 'e) callback"
  on_execute_cursor :: "u32 \<Rightarrow> Params \<Rightarrow> (cursor_op, 's, 'e) callback"
  on_fetch :: "u32 \<Rightarrow> u32 \<Rightarrow> (('d, 'dt) fetch_op, 's, 'e) callback"
  on_close_cursor :: "u32 \<Rightarrow> 's \<Rightarrow> 's"
  on_close :: "u32 \<Rightarrow> 's \<Rightarrow> 's"
  on_reset_connection :: "'s \<Rightarrow> ('e + bool) \<times> 's"
  on_query :: "bytes \<Rightarrow> (('d, 'dt) response_op, 's, 'e) callback"
  on_system_variable :: "nat \<Rightarrow> bytes \<Rightarrow> (('d, 'dt) response_op, 's, 'e) callback"
  on_init :: "bytes \<Rightarrow> (init_op, 's, 'e) callback"

text \<open>The methods with a default body.\<close>

definition MYSQL_NATIVE_PASSWORD :: bytes where
  "MYSQL_NATIVE_PASSWORD = ascii ''mysql_native_password''"

definition CACHING_SHA2_PASSWORD :: bytes where
  "CACHING_SHA2_PASSWORD = ascii ''caching_sha2_password''"

definition default_server_version :: "'s \<Rightarrow> bytes" where
  "default_server_version s = ascii ''5.1.10-alpha-msql-proxy''"

text \<open>The process-wide counter of connections, which a backend reads through a reference it holds.\<close>

definition NEXT_CONNECTION_ID :: u32 where
  "NEXT_CONNECTION_ID = 1"

definition default_connect_id :: "u32 \<Rightarrow> u32 \<times> u32" where
  "default_connect_id next_id = (next_id, next_id + 1)"

definition default_default_auth_plugin :: "'s \<Rightarrow> bytes" where
  "default_default_auth_plugin s = MYSQL_NATIVE_PASSWORD"

definition default_auth_plugin_for_username :: "'s \<Rightarrow> bytes \<Rightarrow> bytes" where
  "default_auth_plugin_for_username s user = MYSQL_NATIVE_PASSWORD"

definition default_authenticate :: "'s \<Rightarrow> bytes \<Rightarrow> bytes \<Rightarrow> bytes \<Rightarrow> bytes \<Rightarrow> bool" where
  "default_authenticate s plugin user challenge auth_data = False"

definition default_on_execute_cursor :: "(io_error \<Rightarrow> 'e) \<Rightarrow> u32 \<Rightarrow> Params \<Rightarrow> (cursor_op, 's, 'e) callback" where
  "default_on_execute_cursor lift i ps s =
     calls (\<lambda>e. (Inl (lift e), s)) [CursorFail ER_UNSUPPORTED_PS (ascii ''backend does not support cursors'')]
       (Return (Inr (), s))"

definition default_on_fetch :: "(io_error \<Rightarrow> 'e) \<Rightarrow> u32 \<Rightarrow> u32 \<Rightarrow> (('d, 'dt) fetch_op, 's, 'e) callback" where
  "default_on_fetch lift i rows s =
     calls (\<lambda>e. (Inl (lift e), s)) [FetchFail ER_STMT_HAS_NO_OPEN_CURSOR (ascii ''no open cursor'')]
       (Return (Inr (), s))"

definition default_on_close_cursor :: "u32 \<Rightarrow> 's \<Rightarrow> 's" where
  "default_on_close_cursor i s = s"

definition default_on_reset_connection :: "'s \<Rightarrow> ('e + bool) \<times> 's" where
  "default_on_reset_connection s = (Inr False, s)"

definition max_allowed_packet_column :: "myc_ops \<Rightarrow> Column" where
  "max_allowed_packet_column M = \<lparr>table = [], column = ascii ''@@max_allowed_packet'', collen = 0,
     coltype = MYSQL_TYPE_LONGLONG, colflags = colflag_bits M UNSIGNED_FLAG\<rparr>"

text \<open>
  \<open>on_system_variable\<close> reads the packet limit of the session's writer; a limit that is not a \<open>u64\<close>
  does not occur. The query starts with \<open>SELECT @@\<close> in either case, of nine bytes.
\<close>

definition default_on_system_variable :: "myc_ops \<Rightarrow> (io_error \<Rightarrow> 'e) \<Rightarrow>
    (bytes \<Rightarrow> (('d, 'dt) response_op, 's, 'e) callback) \<Rightarrow>
    nat \<Rightarrow> bytes \<Rightarrow> (('d, 'dt) response_op, 's, 'e) callback" where
  "default_on_system_variable M lift query packet_limit q s =
     (if drop 9 (to_lowercase q) = ascii ''max_allowed_packet'' then
        calls (\<lambda>e. (Inl (lift e), s))
          [Start [max_allowed_packet_column M], WriteRow [VU64 (word_of_nat packet_limit)], Finish []]
          (Return (Inr (), s))
      else query q s)"

definition default_on_init :: "(io_error \<Rightarrow> 'e) \<Rightarrow> bytes \<Rightarrow> (init_op, 's, 'e) callback" where
  "default_on_init lift schema s =
     calls (\<lambda>e. (Inl (lift e), s)) [InitSucceed] (Return (Inr (), s))"

end
