(* ===== verification/Session.thy ===== *)
theory Session
  imports Backend Commands PacketReader
begin

text \<open>
  The command phase of a connection: \<open>AsyncMysqlIntermediary::run\<close> and the helpers it uses. The
  state is a record of the fields of \<open>AsyncMysqlIntermediary\<close> and the local variables of \<open>run\<close>; one
  definition per arm of the \<open>match\<close> on the command. A handler's result is the session's error, or
  how the arm ends: by falling through to the flush after the \<open>match\<close>, by \<open>continue\<close> or by \<open>break\<close>.
\<close>

subsection \<open>State\<close>

text \<open>The keys of the statement table and of the long data are distinct; their order has no meaning.\<close>

record 's session =
  client_capabilities :: u32
  process_use_statement_on_query :: bool
  reject_connection_on_dbname_absence :: bool
  read_timeout :: "nat option"
  auth_timeout :: "nat option"
  max_long_data_size :: nat
  max_connection_long_data_size :: nat
  max_prepared_statements :: nat
  session_flags :: u16
  initial_status_flags :: u16
  shim_state :: 's
  out :: PacketWriter
  stmts :: statements
  total_long_data_size :: nat

datatype control = Flush | Continue | Break

type_synonym ('s, 'e, 'a) action = "'s session \<Rightarrow> (('e + 'a) \<times> 's session) rust"

definition bind_action :: "('s, 'e, 'a) action \<Rightarrow> ('a \<Rightarrow> ('s, 'e, 'b) action) \<Rightarrow> ('s, 'e, 'b) action" where
  "bind_action m f se =
     (case m se of Panicked \<Rightarrow> Panicked | Ret (Inl e, se') \<Rightarrow> Ret (Inl e, se') | Ret (Inr x, se') \<Rightarrow> f x se')"

definition finish_with :: "'a \<Rightarrow> ('s, 'e, 'a) action" where
  "finish_with x se = Ret (Inr x, se)"

definition change :: "('s session \<Rightarrow> 's session) \<Rightarrow> ('s, 'e, unit) action" where
  "change f se = Ret (Inr (), f se)"

text \<open>A call on the packet writer, with \<open>?\<close>.\<close>

definition write_out :: "(io_error \<Rightarrow> 'e) \<Rightarrow> (PacketWriter, unit) io \<Rightarrow> ('s, 'e, unit) action" where
  "write_out lift m se = (case m (out se) of (r, w) \<Rightarrow>
     Ret ((case r of Inl e \<Rightarrow> Inl (lift e) | Inr _ \<Rightarrow> Inr ()), se\<lparr>out := w\<rparr>))"

definition lift_result :: "(io_error \<Rightarrow> 'e) \<Rightarrow> 'a io_result \<Rightarrow> ('s, 'e, 'a) action" where
  "lift_result lift r se = Ret ((case r of Inl e \<Rightarrow> Inl (lift e) | Inr x \<Rightarrow> Inr x), se)"

subsection \<open>Completion of responses\<close>

definition ensure_response_completed :: "bool \<Rightarrow> string \<Rightarrow> unit io_result" where
  "ensure_response_completed finished command =
     (if finished then Inr ()
      else Inl (IoError InvalidData (ascii ''backend returned without completing '' @ ascii command @ ascii '' response'')))"

fun init_response :: "InitResponse \<Rightarrow> string \<Rightarrow> InitResponse io_result" where
  "init_response InitOk command = Inr InitOk"
| "init_response InitError command = Inr InitError"
| "init_response Pending command =
     Inl (IoError InvalidData (ascii ''backend returned without completing '' @ ascii command @ ascii '' response''))"

definition command_parse_error :: "myc_ops \<Rightarrow> bytes \<Rightarrow> ErrorKind \<times> bytes" where
  "command_parse_error M payload =
     (if payload = [] then (ER_MALFORMED_PACKET, ascii ''malformed command packet'')
      else let cmd = payload ! 0 in
        if cmd \<in> command_u8 M ` {COM_QUERY, COM_FIELD_LIST, COM_INIT_DB, COM_STMT_PREPARE, COM_STMT_EXECUTE,
          COM_STMT_SEND_LONG_DATA, COM_STMT_CLOSE, COM_STMT_RESET, COM_STMT_FETCH, COM_RESET_CONNECTION,
          COM_QUIT, COM_PING}
        then (ER_MALFORMED_PACKET, ascii ''malformed packet for command: 0x'' @ hex2 cmd)
        else (ER_UNKNOWN_COM_ERROR, ascii ''unsupported command: 0x'' @ hex2 cmd))"

subsection \<open>Calling the backend\<close>

text \<open>
  A \<open>QueryResultWriter\<close> borrows the session's writer and status. The callback's own error ends the
  session before the completion is looked at.
\<close>

definition backend_result :: "'e + unit \<Rightarrow> ('s, 'e, unit) action" where
  "backend_result r se = Ret (r, se)"

definition give_back :: "QueryResultWriter \<Rightarrow> 's \<Rightarrow> 's session \<Rightarrow> 's session" where
  "give_back q s se = se\<lparr>out := q_writer q, session_flags := session_status q, shim_state := s\<rparr>"

definition with_results :: "byteorder_ops \<Rightarrow> myc_ops \<Rightarrow> ('d, 'dt) chrono_ops \<Rightarrow> ('d, 'dt) fmt_ops \<Rightarrow>
    (io_error \<Rightarrow> 'e) \<Rightarrow> bool \<Rightarrow> string \<Rightarrow> (('d, 'dt) response_op, 's, 'e) callback \<Rightarrow> ('s, 'e, unit) action" where
  "with_results B M C F lift bin command callback se =
     (case run_program (respond B M C F) (callback (shim_state se))
        (Idle (query_new_tracked (out se) bin (client_capabilities se) (session_flags se))) of
        Panicked \<Rightarrow> Panicked
      | Ret ((r, s), rsp) \<Rightarrow>
          bind_action (backend_result r)
            (\<lambda>_. lift_result lift (ensure_response_completed (completion (response_writer rsp)) command))
            (give_back (response_writer rsp) s se))"

definition with_init :: "byteorder_ops \<Rightarrow> myc_ops \<Rightarrow> (io_error \<Rightarrow> 'e) \<Rightarrow> string \<Rightarrow>
    (init_op, 's, 'e) callback \<Rightarrow> ('s, 'e, InitResponse) action" where
  "with_init B M lift command callback se =
     (case run_program (init_step B M) (callback (shim_state se))
        (Held (init_new_tracked (out se) (client_capabilities se) (session_flags se))) of
        Panicked \<Rightarrow> Panicked
      | Ret ((r, s), obj) \<Rightarrow>
          (let i = borrowed obj in
           bind_action (backend_result r)
             (\<lambda>_. lift_result lift (init_response (iw_completion i) command))
             (se\<lparr>out := iw_writer i, session_flags := iw_status_flags i, shim_state := s\<rparr>)))"

subsection \<open>Tables\<close>

definition statement :: "u32 \<Rightarrow> 's session \<Rightarrow> StatementData option" where
  "statement i se = map_of (stmts se) i"

text \<open>Writing to a statement obtained by \<open>get_mut\<close>.\<close>

definition update_entry :: "'k \<Rightarrow> ('v \<Rightarrow> 'v) \<Rightarrow> ('k \<times> 'v) list \<Rightarrow> ('k \<times> 'v) list" where
  "update_entry k f = map (\<lambda>(i, v). (i, if i = k then f v else v))"

definition remove_entry :: "'k \<Rightarrow> ('k \<times> 'v) list \<Rightarrow> ('k \<times> 'v) list" where
  "remove_entry k = filter (\<lambda>(i, v). i \<noteq> k)"

definition update_statement :: "u32 \<Rightarrow> (StatementData \<Rightarrow> StatementData) \<Rightarrow> 's session \<Rightarrow> 's session" where
  "update_statement i f se = se\<lparr>stmts := update_entry i f (stmts se)\<rparr>"

definition close_cursor :: "('s, 'e, 'd, 'dt) shim \<Rightarrow> u32 \<Rightarrow> 's session \<Rightarrow> 's session" where
  "close_cursor S i se = se\<lparr>shim_state := on_close_cursor S i (shim_state se)\<rparr>"

text \<open>\<open>entry(param).or_insert_with(Vec::new).extend(data)\<close>.\<close>

definition extend_entry :: "'k \<Rightarrow> 'a list \<Rightarrow> ('k \<times> 'a list) list \<Rightarrow> ('k \<times> 'a list) list" where
  "extend_entry k d m = (if map_of m k = None then (k, d) # m else update_entry k (\<lambda>v. v @ d) m)"

text \<open>The two sums over the long data of a statement: saturating, and checked.\<close>

definition retained_long_data :: "StatementData \<Rightarrow> nat" where
  "retained_long_data state = fold (\<lambda>(_, v) total. saturating_add total (length v)) (long_data state) 0"

definition checked_long_data :: "StatementData \<Rightarrow> nat option" where
  "checked_long_data state = fold (\<lambda>(_, v) total. Option.bind total (\<lambda>t. checked_add t (length v)))
     (long_data state) (Some 0)"

definition release_long_data :: "nat \<Rightarrow> 's session \<Rightarrow> 's session" where
  "release_long_data n se = se\<lparr>total_long_data_size := total_long_data_size se - n\<rparr>"

subsection \<open>The commands\<close>

text \<open>An error packet that is flushed at once, and \<open>continue\<close>.\<close>

definition refuse :: "byteorder_ops \<Rightarrow> (io_error \<Rightarrow> 'e) \<Rightarrow> ErrorKind \<Rightarrow> bytes \<Rightarrow> ('s, 'e, control) action" where
  "refuse B lift kind msg =
     bind_action (write_out lift (write_err B kind msg)) (\<lambda>_.
     bind_action (write_out lift flush_all) (\<lambda>_. finish_with Continue))"

definition reply_out :: "(io_error \<Rightarrow> 'e) \<Rightarrow> (PacketWriter, unit) io \<Rightarrow> ('s, 'e, control) action" where
  "reply_out lift m = bind_action (write_out lift m) (\<lambda>_. finish_with Flush)"

definition acknowledge :: "byteorder_ops \<Rightarrow> myc_ops \<Rightarrow> (io_error \<Rightarrow> 'e) \<Rightarrow> ('s, 'e, control) action" where
  "acknowledge B M lift se = reply_out lift (write_ok_packet B M (client_capabilities se)
     (default_ok\<lparr>ok_status_flags := session_flags se\<rparr>)) se"

definition use_schema :: "bytes \<Rightarrow> bytes" where
  "use_schema q = trim_matches 0x60 (trim_end_matches 0x3B (trim (drop 4 q)))"

definition handle_query :: "byteorder_ops \<Rightarrow> myc_ops \<Rightarrow> ('d, 'dt) chrono_ops \<Rightarrow> ('d, 'dt) fmt_ops \<Rightarrow>
    ('s, 'e, 'd, 'dt) shim \<Rightarrow> bytes \<Rightarrow> ('s, 'e, control) action" where
  "handle_query B M C F S q se =
     (case from_utf8 q of
        Some e \<Rightarrow> refuse B (from_io S) ER_MALFORMED_PACKET (ascii ''query is not valid utf-8: '' @ show_utf8_error e) se
      | None \<Rightarrow>
          if starts_with (ascii ''SELECT @@'') q \<or> starts_with (ascii ''select @@'') q then
            bind_action (with_results B M C F (from_io S) False ''query''
                (on_system_variable S (writer_max_packet_size (out se)) q)) (\<lambda>_. finish_with Flush) se
          else if \<not> process_use_statement_on_query se \<and>
              (starts_with (ascii ''USE '') q \<or> starts_with (ascii ''use '') q) then
            bind_action (with_init B M (from_io S) ''USE'' (on_init S (use_schema q))) (\<lambda>_. finish_with Flush) se
          else
            bind_action (with_results B M C F (from_io S) False ''query'' (on_query S q)) (\<lambda>_. finish_with Flush) se)"

definition with_prepare :: "byteorder_ops \<Rightarrow> myc_ops \<Rightarrow> (io_error \<Rightarrow> 'e) \<Rightarrow>
    (prepare_op, 's, 'e) callback \<Rightarrow> ('s, 'e, unit) action" where
  "with_prepare B M lift callback se =
     (case run_program (prepare_step B M) (callback (shim_state se))
        (Held \<lparr>sm_writer = out se, sm_stmts = stmts se, sm_capabilities = client_capabilities se,
           sm_status_flags = session_flags se, sm_completion = False\<rparr>) of
        Panicked \<Rightarrow> Panicked
      | Ret ((r, s), obj) \<Rightarrow>
          (let sm = borrowed obj in
           bind_action (backend_result r)
             (\<lambda>_. lift_result lift (ensure_response_completed (sm_completion sm) ''prepare''))
             (se\<lparr>out := sm_writer sm, stmts := sm_stmts sm, shim_state := s\<rparr>)))"

definition handle_prepare :: "byteorder_ops \<Rightarrow> myc_ops \<Rightarrow> ('s, 'e, 'd, 'dt) shim \<Rightarrow> bytes \<Rightarrow>
    ('s, 'e, control) action" where
  "handle_prepare B M S q se =
     (if length (stmts se) \<ge> max_prepared_statements se then
        refuse B (from_io S) ER_MAX_PREPARED_STMT_COUNT_REACHED
          (ascii ''maximum prepared statement count reached: '' @ dec (max_prepared_statements se)) se
      else case from_utf8 q of
        Some e \<Rightarrow> refuse B (from_io S) ER_MALFORMED_PACKET
          (ascii ''prepare query is not valid utf-8: '' @ show_utf8_error e) se
      | None \<Rightarrow> bind_action (with_prepare B M (from_io S) (on_prepare S q)) (\<lambda>_. finish_with Flush) se)"

text \<open>The result of the two ways to execute is the columns of the cursor that was opened, if one was.\<close>

definition with_cursor :: "byteorder_ops \<Rightarrow> myc_ops \<Rightarrow> (io_error \<Rightarrow> 'e) \<Rightarrow>
    (cursor_op, 's, 'e) callback \<Rightarrow> ('s, 'e, Column list option) action" where
  "with_cursor B M lift callback se =
     (case run_program (cursor_step B M) (callback (shim_state se))
        (Held \<lparr>ce_result = query_new_tracked (out se) True (client_capabilities se) (session_flags se),
           ce_columns = None\<rparr>) of
        Panicked \<Rightarrow> Panicked
      | Ret ((r, s), obj) \<Rightarrow>
          (let ce = borrowed obj in
           bind_action (backend_result r) (\<lambda>_.
           bind_action (lift_result lift (ensure_response_completed (completion (ce_result ce)) ''execute'')) (\<lambda>_.
           finish_with (ce_columns ce)))
             (give_back (ce_result ce) s se)))"

definition call_execute :: "byteorder_ops \<Rightarrow> myc_ops \<Rightarrow> ('d, 'dt) chrono_ops \<Rightarrow> ('d, 'dt) fmt_ops \<Rightarrow>
    ('s, 'e, 'd, 'dt) shim \<Rightarrow> u32 \<Rightarrow> u8 \<Rightarrow> Params \<Rightarrow> ('s, 'e, Column list option) action" where
  "call_execute B M C F S i flags ps =
     (if flags = 1 then with_cursor B M (from_io S) (on_execute_cursor S i ps)
      else bind_action (with_results B M C F (from_io S) True ''execute'' (on_execute S i ps)) (\<lambda>_. finish_with None))"

definition exec_error_kind :: "exec_error \<Rightarrow> ErrorKind" where
  "exec_error_kind e = (case e of IncompatibleLongData \<Rightarrow> ER_WRONG_ARGUMENTS | ExecIo _ \<Rightarrow> ER_MALFORMED_PACKET)"

definition show_exec_error :: "exec_error \<Rightarrow> bytes" where
  "show_exec_error e = (case e of
     IncompatibleLongData \<Rightarrow> ascii ''long data requires a string or blob parameter type'' | ExecIo e \<Rightarrow> err_msg e)"

definition handle_execute :: "byteorder_ops \<Rightarrow> myc_ops \<Rightarrow> ('d, 'dt) chrono_ops \<Rightarrow> ('d, 'dt) fmt_ops \<Rightarrow>
    ('s, 'e, 'd, 'dt) shim \<Rightarrow> u32 \<Rightarrow> u8 \<Rightarrow> u32 \<Rightarrow> bytes \<Rightarrow> ('s, 'e, control) action" where
  "handle_execute B M C F S i flags iterations payload se =
     (if flags > 1 \<or> iterations \<noteq> 1 then
        refuse B (from_io S) ER_UNSUPPORTED_PS (ascii ''unsupported COM_STMT_EXECUTE flags ('' @ dec (unat flags) @
          ascii '') or iteration count ('' @ dec (unat iterations) @ ascii '')'') se
      else case statement i se of
        None \<Rightarrow> refuse B (from_io S) ER_UNKNOWN_STMT_HANDLER (ascii ''unknown statement '' @ dec (unat i)) se
      | Some state \<Rightarrow>
          let se = update_statement i (\<lambda>st. st\<lparr>cursor_columns := None\<rparr>) (close_cursor S i se);
              retained = retained_long_data state in
          (case pending_error state of
             Some (kind, msg) \<Rightarrow> reply_out (from_io S) (write_err B kind msg) se
           | None \<Rightarrow>
               (case param_parser_new B M payload (state\<lparr>cursor_columns := None\<rparr>) of
                  (Inl e, state) \<Rightarrow>
                    bind_action (write_out (from_io S) (write_err B (exec_error_kind e)
                      (ascii ''invalid execute parameters: '' @ show_exec_error e))) (\<lambda>_.
                    bind_action (write_out (from_io S) flush_all) (\<lambda>_.
                    bind_action (change (release_long_data retained)) (\<lambda>_. finish_with Continue)))
                      (update_statement i (\<lambda>_. state\<lparr>long_data := []\<rparr>) se)
                | (Inr ps, state) \<Rightarrow>
                    bind_action (call_execute B M C F S i flags ps) (\<lambda>columns.
                    bind_action (change (update_statement i (\<lambda>st. st\<lparr>cursor_columns := columns\<rparr>))) (\<lambda>_.
                    bind_action (change (if flags = 1 \<and> columns = None then close_cursor S i else id)) (\<lambda>_.
                    bind_action (change (update_statement i (\<lambda>st. st\<lparr>long_data := []\<rparr>))) (\<lambda>_.
                    bind_action (change (release_long_data retained)) (\<lambda>_. finish_with Flush)))))
                      (update_statement i (\<lambda>_. state) se))))"

text \<open>The result of a fetch is the flag the backend's object sets when the cursor is exhausted.\<close>

definition with_fetch :: "byteorder_ops \<Rightarrow> myc_ops \<Rightarrow> ('d, 'dt) chrono_ops \<Rightarrow> ('d, 'dt) fmt_ops \<Rightarrow>
    (io_error \<Rightarrow> 'e) \<Rightarrow> Column list \<Rightarrow> u32 \<Rightarrow> (('d, 'dt) fetch_op, 's, 'e) callback \<Rightarrow> ('s, 'e, bool) action" where
  "with_fetch B M C F lift columns rows callback se =
     (case run_program (fetch_step B M C F) (callback (shim_state se))
        (Held (fetch_new (query_new_tracked (out se) True (client_capabilities se) (session_flags se)) columns rows)) of
        Panicked \<Rightarrow> Panicked
      | Ret ((r, s), obj) \<Rightarrow>
          (let cf = borrowed obj; q = rw_result (cf_rows cf) in
           bind_action (backend_result r) (\<lambda>_.
           bind_action (lift_result lift (ensure_response_completed (completion q) ''fetch'')) (\<lambda>_.
           finish_with (cf_exhausted cf)))
             (give_back q s se)))"

definition handle_fetch :: "byteorder_ops \<Rightarrow> myc_ops \<Rightarrow> ('d, 'dt) chrono_ops \<Rightarrow> ('d, 'dt) fmt_ops \<Rightarrow>
    ('s, 'e, 'd, 'dt) shim \<Rightarrow> u32 \<Rightarrow> u32 \<Rightarrow> ('s, 'e, control) action" where
  "handle_fetch B M C F S i rows se =
     (case Option.bind (statement i se) cursor_columns of
        Some columns \<Rightarrow>
          bind_action (with_fetch B M C F (from_io S) columns rows (on_fetch S i rows)) (\<lambda>exhausted.
          bind_action (change (if exhausted
              then close_cursor S i \<circ> update_statement i (\<lambda>st. st\<lparr>cursor_columns := None\<rparr>) else id)) (\<lambda>_.
          finish_with Flush)) se
      | None \<Rightarrow>
          reply_out (from_io S) (write_err B
            (if statement i se \<noteq> None then ER_STMT_HAS_NO_OPEN_CURSOR else ER_UNKNOWN_STMT_HANDLER)
            (ascii ''statement has no open cursor'')) se)"

definition fail_statement :: "u32 \<Rightarrow> ErrorKind \<Rightarrow> bytes \<Rightarrow> 's session \<Rightarrow> 's session" where
  "fail_statement i kind msg = update_statement i (\<lambda>st. st\<lparr>pending_error := Some (kind, msg)\<rparr>)"

definition handle_send_long_data :: "u32 \<Rightarrow> u16 \<Rightarrow> bytes \<Rightarrow> 's session \<Rightarrow> 's session" where
  "handle_send_long_data i param data se =
     (case statement i se of
        None \<Rightarrow> se
      | Some state \<Rightarrow>
          if pending_error state \<noteq> None then se
          else if param \<ge> params state then
            fail_statement i ER_WRONG_ARGUMENTS (ascii ''got long data for parameter '' @ dec (unat param) @
              ascii '' but statement '' @ dec (unat i) @ ascii '' has '' @ dec (unat (params state)) @
              ascii '' parameters'') se
          else
            (case (Option.bind (checked_long_data state) (\<lambda>n. checked_add n (length data)),
                   checked_add (total_long_data_size se) (length data)) of
               (Some new_size, Some new_connection_size) \<Rightarrow>
                 if new_size \<le> max_long_data_size se \<and> new_connection_size \<le> max_connection_long_data_size se then
                   (update_statement i (\<lambda>st. st\<lparr>long_data := extend_entry param data (long_data st)\<rparr>) se)
                     \<lparr>total_long_data_size := new_connection_size\<rparr>
                 else fail_statement i ER_NET_PACKET_TOO_LARGE
                   (ascii ''long data exceeds configured statement/connection limits: '' @
                     dec (max_long_data_size se) @ ascii '' / '' @ dec (max_connection_long_data_size se) @
                     ascii '' bytes'') se
             | _ \<Rightarrow> fail_statement i ER_NET_PACKET_TOO_LARGE (ascii ''long data size overflow'') se))"

definition handle_close :: "('s, 'e, 'd, 'dt) shim \<Rightarrow> u32 \<Rightarrow> 's session \<Rightarrow> 's session" where
  "handle_close S i se =
     (let se = se\<lparr>shim_state := on_close S i (on_close_cursor S i (shim_state se))\<rparr> in
      case statement i se of
        None \<Rightarrow> se
      | Some state \<Rightarrow> release_long_data (retained_long_data state) (se\<lparr>stmts := remove_entry i (stmts se)\<rparr>))"

definition handle_reset :: "byteorder_ops \<Rightarrow> myc_ops \<Rightarrow> ('s, 'e, 'd, 'dt) shim \<Rightarrow> u32 \<Rightarrow> ('s, 'e, control) action" where
  "handle_reset B M S i se =
     (case statement i se of
        Some state \<Rightarrow>
          acknowledge B M (from_io S) (release_long_data (retained_long_data state)
            (update_statement i (\<lambda>st. st\<lparr>cursor_columns := None, long_data := [], pending_error := None\<rparr>)
              (close_cursor S i se)))
      | None \<Rightarrow> reply_out (from_io S)
          (write_err B ER_UNKNOWN_STMT_HANDLER (ascii ''unknown statement '' @ dec (unat i))) se)"

definition handle_init :: "byteorder_ops \<Rightarrow> myc_ops \<Rightarrow> ('s, 'e, 'd, 'dt) shim \<Rightarrow> bytes \<Rightarrow> ('s, 'e, control) action" where
  "handle_init B M S schema se =
     (case from_utf8 schema of
        Some e \<Rightarrow> refuse B (from_io S) ER_MALFORMED_PACKET
          (ascii ''schema name is not valid utf-8: '' @ show_utf8_error e) se
      | None \<Rightarrow> bind_action (with_init B M (from_io S) ''init database'' (on_init S schema)) (\<lambda>_. finish_with Flush) se)"

definition handle_reset_connection :: "byteorder_ops \<Rightarrow> myc_ops \<Rightarrow> ('s, 'e, 'd, 'dt) shim \<Rightarrow>
    ('s, 'e, control) action" where
  "handle_reset_connection B M S se =
     (case on_reset_connection S (shim_state se) of
        (Inl e, s) \<Rightarrow> Ret (Inl e, se\<lparr>shim_state := s\<rparr>)
      | (Inr True, s) \<Rightarrow>
          acknowledge B M (from_io S)
            ((fold (close_cursor S) (map fst (stmts se)) (se\<lparr>shim_state := s\<rparr>))
              \<lparr>stmts := [], total_long_data_size := 0, session_flags := initial_status_flags se\<rparr>)
      | (Inr False, s) \<Rightarrow>
          reply_out (from_io S) (write_err B ER_UNKNOWN_COM_ERROR
            (ascii ''COM_RESET_CONNECTION is not supported by this backend'')) (se\<lparr>shim_state := s\<rparr>))"

fun handle_command :: "byteorder_ops \<Rightarrow> myc_ops \<Rightarrow> ('d, 'dt) chrono_ops \<Rightarrow> ('d, 'dt) fmt_ops \<Rightarrow>
    ('s, 'e, 'd, 'dt) shim \<Rightarrow> Command \<Rightarrow> ('s, 'e, control) action" where
  "handle_command B M C F S (Query q) se = handle_query B M C F S q se"
| "handle_command B M C F S (Prepare q) se = handle_prepare B M S q se"
| "handle_command B M C F S (Execute i flags iterations payload) se =
     handle_execute B M C F S i flags iterations payload se"
| "handle_command B M C F S (Fetch i rows) se = handle_fetch B M C F S i rows se"
| "handle_command B M C F S (SendLongData i param data) se =
     finish_with Flush (handle_send_long_data i param data se)"
| "handle_command B M C F S (Close i) se = finish_with Flush (handle_close S i se)"
| "handle_command B M C F S (Reset i) se = handle_reset B M S i se"
| "handle_command B M C F S (ListFields q) se =
     reply_out (from_io S) (write_eof_packet B (session_flags se)) se"
| "handle_command B M C F S (Init schema) se = handle_init B M S schema se"
| "handle_command B M C F S Ping se = acknowledge B M (from_io S) se"
| "handle_command B M C F S ResetConnection se = handle_reset_connection B M S se"
| "handle_command B M C F S Quit se = finish_with Break se"

subsection \<open>The loop\<close>

text \<open>The flush after the \<open>match\<close>.\<close>

fun after_command :: "(io_error \<Rightarrow> 'e) \<Rightarrow> control \<Rightarrow> ('s, 'e, control) action" where
  "after_command lift Flush se = bind_action (write_out lift flush_all) (\<lambda>_. finish_with Continue) se"
| "after_command lift c se = finish_with c se"

definition sequence_error :: bytes where
  "sequence_error = ascii ''command packet sequence id must start at 0''"

definition process_packet :: "byteorder_ops \<Rightarrow> myc_ops \<Rightarrow> ('d, 'dt) chrono_ops \<Rightarrow> ('d, 'dt) fmt_ops \<Rightarrow>
    Command nom_ops \<Rightarrow> ('s, 'e, 'd, 'dt) shim \<Rightarrow> u8 \<Rightarrow> Packet \<Rightarrow> ('s, 'e, control) action" where
  "process_packet B M C F N S sq p se =
     (let se = se\<lparr>out := set_seq (sq + 1) (out se)\<rparr> in
      if first_seq p \<noteq> 0 then
        bind_action (write_out (from_io S) (write_err B ER_MALFORMED_PACKET sequence_error)) (\<lambda>_.
        bind_action (write_out (from_io S) flush_all) (\<lambda>_.
        lift_result (from_io S) (Inl (IoError InvalidData sequence_error)))) se
      else case parse M N (packet_bytes p) of
        Inr (_, cmd) \<Rightarrow> bind_action (handle_command B M C F S cmd) (after_command (from_io S)) se
      | Inl _ \<Rightarrow> (case command_parse_error M (packet_bytes p) of (kind, msg) \<Rightarrow> refuse B (from_io S) kind msg se))"

text \<open>The number of packets read is bounded by the fuel; \<open>None\<close> when it does not suffice.\<close>

fun run :: "byteorder_ops \<Rightarrow> myc_ops \<Rightarrow> ('d, 'dt) chrono_ops \<Rightarrow> ('d, 'dt) fmt_ops \<Rightarrow> Command nom_ops \<Rightarrow>
    ('s, 'e, 'd, 'dt) shim \<Rightarrow> nat \<Rightarrow> PacketReader \<Rightarrow> 's session \<Rightarrow>
    (('e + unit) \<times> PacketReader \<times> 's session) rust option" where
  "run B M C F N S 0 rd se = None"
| "run B M C F N S (Suc fuel) rd se =
     (case read_packet_with_timeout N (read_timeout se) rd of
        (Inl e, rd) \<Rightarrow> Some (Ret (Inl (from_io S e), rd, se))
      | (Inr None, rd) \<Rightarrow> Some (Ret (Inr (), rd, se))
      | (Inr (Some (sq, p)), rd) \<Rightarrow>
          (case process_packet B M C F N S sq p se of
             Panicked \<Rightarrow> Some Panicked
           | Ret (Inl e, se) \<Rightarrow> Some (Ret (Inl e, rd, se))
           | Ret (Inr Break, se) \<Rightarrow> Some (Ret (Inr (), rd, se))
           | Ret (Inr _, se) \<Rightarrow> run B M C F N S fuel rd se))"

end
