(* ===== verification/Callbacks.thy ===== *)
theory Callbacks
  imports Backend
begin

text \<open>
  What a callback can leave behind, for each of the five objects a callback is given: an
  invariant of the object that every method keeps, so that every program keeps it. The
  invariants tell which packets are on the wire when the response counts as completed.
\<close>

subsection \<open>Delivered packets\<close>

definition delivered :: "PacketWriter \<Rightarrow> bytes list \<Rightarrow> PacketWriter \<Rightarrow> bool" where
  "delivered w ps w' \<longleftrightarrow> emitted w ps w' \<and> writer_reliable w'"

definition fresh :: "PacketWriter \<Rightarrow> bool" where
  "fresh w \<longleftrightarrow> ready w \<and> writer_reliable w"

lemma delivered_ready: "delivered w ps w' \<Longrightarrow> fresh w'"
  by (simp add: delivered_def emitted_def fresh_def)

lemma delivered_refl: "fresh w \<Longrightarrow> delivered w [] w"
  by (simp add: delivered_def emitted_def fresh_def)

lemma sent_delivered: "sent B M caps w is w' \<longleftrightarrow> delivered w (response_packets B M caps is) w'"
  by (simp add: sent_def delivered_def)

lemma deliver:
  assumes "fresh w" and "emits m ps" and "preserves writer_reliable m" and "m w = (Inr u, w')"
  shows "delivered w ps w'"
  using assms emitsD [OF assms(2) _ assms(4)] preservesD [OF assms(3), of w]
  by (simp add: delivered_def fresh_def)

lemma delivered_append: "delivered u ps v \<Longrightarrow> delivered v qs w \<Longrightarrow> delivered u (ps @ qs) w"
  by (auto simp: delivered_def intro: emitted_append)

lemma reliable_ok_packet [reliable_intros]: "preserves writer_reliable (write_ok_packet B M caps ok)"
  unfolding write_ok_packet_def by (rule reliable_message)

lemma reliable_eof_packet [reliable_intros]: "preserves writer_reliable (write_eof_packet B status)"
  unfolding write_eof_packet_def by (rule reliable_message)

lemma reliable_prepare [reliable_intros]: "preserves writer_reliable (write_prepare_ok B M i ps cs caps status)"
  unfolding write_prepare_ok_def write_column_definitions_41_def
  by (auto intro!: reliable_intros reliable_seq)

lemma deliver_err:
  "fresh w \<Longrightarrow> byteorder_spec B \<Longrightarrow> write_err B kind msg w = (Inr u, w') \<Longrightarrow>
   delivered w [err_payload kind msg] w'"
  using deliver [OF _ err_emits(1) reliable_err] .

lemma deliver_ok:
  "fresh w \<Longrightarrow> byteorder_spec B \<Longrightarrow> write_ok_packet B M caps ok w = (Inr u, w') \<Longrightarrow>
   delivered w [ok_payload B M caps ok] w'"
  using deliver [OF _ ok_emits(1) reliable_ok_packet] .

text \<open>The packets that answer a command by themselves.\<close>

inductive simple_answer :: "byteorder_ops \<Rightarrow> myc_ops \<Rightarrow> u32 \<Rightarrow> bytes list \<Rightarrow> bool" for B M caps where
  acknowledged: "simple_answer B M caps [ok_payload B M caps ok]"
| refused: "simple_answer B M caps [err_payload kind msg]"

subsection \<open>USE and the initial database\<close>

fun init_inv :: "byteorder_ops \<Rightarrow> myc_ops \<Rightarrow> u32 \<Rightarrow> PacketWriter \<Rightarrow> InitWriter object \<Rightarrow> bool" where
  "init_inv B M caps w0 (Held i) \<longleftrightarrow>
     byteorder_spec B \<and> fresh w0 \<and> iw_writer i = w0 \<and> iw_capabilities i = caps \<and> iw_completion i = Pending"
| "init_inv B M caps w0 (Consumed i) \<longleftrightarrow>
     (case iw_completion i of
        Pending \<Rightarrow> True
      | InitOk \<Rightarrow> (\<exists>ok. delivered w0 [ok_payload B M caps ok] (iw_writer i))
      | InitError \<Rightarrow> (\<exists>kind msg. delivered w0 [err_payload kind msg] (iw_writer i)))"

lemma init_ok_inv:
  assumes "init_inv B M caps w0 (Held i)" and "init_ok_with_status B M status i = (r, i')"
  shows "init_inv B M caps w0 (Consumed i')"
proof -
  let ?m = "write_ok_packet B M caps (default_ok\<lparr>ok_status_flags := status\<rparr>)"
  obtain x w where w: "?m w0 = (x, w)" by fastforce
  show ?thesis
  proof (cases x)
    case (Inl e)
    with assms w show ?thesis
      by (auto simp: init_ok_with_status_def via_init_def then_io_def and_then_def)
  next
    case (Inr u)
    then have "delivered w0 [ok_payload B M caps (default_ok\<lparr>ok_status_flags := status\<rparr>)] w"
      using deliver_ok [of w0 B] assms(1) w by simp
    with assms w Inr show ?thesis
      by (auto simp: init_ok_with_status_def via_init_def then_io_def and_then_def)
  qed
qed

lemma init_error_inv:
  assumes "init_inv B M caps w0 (Held i)" and "init_error B kind msg i = (r, i')"
  shows "init_inv B M caps w0 (Consumed i')"
proof -
  obtain x w where w: "write_err B kind msg w0 = (x, w)" by fastforce
  show ?thesis
  proof (cases x)
    case (Inl e)
    with assms w show ?thesis
      by (auto simp: init_error_def via_init_def then_io_def and_then_def)
  next
    case (Inr u)
    then have "delivered w0 [err_payload kind msg] w"
      using deliver_err [of w0 B] assms(1) w by simp
    moreover have "iw_writer i' = w" "iw_completion i' = InitError"
      using assms w Inr by (auto simp: init_error_def via_init_def then_io_def and_then_def)
    ultimately show ?thesis unfolding init_inv.simps by auto
  qed
qed

interpretation init_api: object_api "init_step B M" "init_inv B M caps w0"
  for B M caps w0
proof
  fix st op res st'
  assume inv: "init_inv B M caps w0 st" and run: "init_step B M op st = Some (Ret (res, st'))"
  show "init_inv B M caps w0 st'"
  proof (cases st)
    case (Held i)
    with run inv show ?thesis
      by (cases op) (auto simp: init_ok_def consume_def simp del: init_inv.simps split: prod.splits
          intro: init_ok_inv init_error_inv)
  next
    case (Consumed i)
    with run show ?thesis by (cases op) simp_all
  qed
qed

subsection \<open>PREPARE\<close>

text \<open>A new statement is in the table exactly when the client has been told of it.\<close>

definition prepared :: "byteorder_ops \<Rightarrow> myc_ops \<Rightarrow> u32 \<Rightarrow> u16 \<Rightarrow> PacketWriter \<Rightarrow> statements \<Rightarrow>
    u32 \<Rightarrow> nat \<Rightarrow> PacketWriter \<Rightarrow> statements \<Rightarrow> bool" where
  "prepared B M caps status w0 st0 i n w st \<longleftrightarrow>
     n \<le> 65535 \<and> map_of st0 i = None \<and> st = (i, new_statement\<lparr>params := word_of_nat n\<rparr>) # st0 \<and>
     (\<exists>ps cs. length ps = n \<and> length cs \<le> 65535 \<and>
        delivered w0 (prepare_packets B M i ps cs caps status) w)"

fun prepare_inv :: "byteorder_ops \<Rightarrow> myc_ops \<Rightarrow> u32 \<Rightarrow> u16 \<Rightarrow> PacketWriter \<Rightarrow> statements \<Rightarrow>
    StatementMetaWriter object \<Rightarrow> bool" where
  "prepare_inv B M caps status w0 st0 (Held s) \<longleftrightarrow>
     byteorder_spec B \<and> fresh w0 \<and> sm_writer s = w0 \<and> sm_stmts s = st0 \<and> sm_capabilities s = caps \<and>
     sm_status_flags s = status \<and> \<not> sm_completion s"
| "prepare_inv B M caps status w0 st0 (Consumed s) \<longleftrightarrow>
     (if sm_completion s
      then (\<exists>i n. prepared B M caps status w0 st0 i n (sm_writer s) (sm_stmts s)) \<or>
        sm_stmts s = st0 \<and> (\<exists>kind msg. delivered w0 [err_payload kind msg] (sm_writer s))
      else sm_stmts s = st0)"

lemma reply_inner_inv:
  assumes inv: "prepare_inv B M caps status w0 st0 (Held s)" and run: "reply_inner B M i ps cs s = (r, s')"
  shows "prepare_inv B M caps status w0 st0 (Consumed s')"
proof (cases "length ps > 65535 \<or> length cs > 65535 \<or> map_of (sm_stmts s) i \<noteq> None")
  case True
  with run have "s' = s" by (auto simp: reply_inner_def split: if_splits)
  with inv show ?thesis by simp
next
  case False
  let ?m = "write_prepare_ok B M i ps cs caps status"
  obtain x w where w: "?m w0 = (x, w)" by fastforce
  show ?thesis
  proof (cases x)
    case (Inl e)
    with inv run False w show ?thesis
      by (auto simp: reply_inner_def via_meta_def then_io_def and_then_def)
  next
    case (Inr u)
    have "fresh w0" "byteorder_spec B" using inv by simp_all
    then have "delivered w0 (prepare_packets B M i ps cs caps status) w"
      using deliver [OF _ prepare_ok_emits(1) reliable_prepare] w Inr by blast
    then have "prepared B M caps status w0 st0 i (length ps) w ((i, new_statement\<lparr>params := word_of_nat (length ps)\<rparr>) # st0)"
      using False inv unfolding prepared_def by (intro conjI exI [of _ ps] exI [of _ cs]) auto
    with inv run False w Inr show ?thesis
      by (auto simp: reply_inner_def via_meta_def then_io_def and_then_def)
  qed
qed

lemma meta_error_inv:
  assumes inv: "prepare_inv B M caps status w0 st0 (Held s)" and run: "meta_error B kind msg s = (r, s')"
  shows "prepare_inv B M caps status w0 st0 (Consumed s')"
proof -
  obtain x w where w: "write_err B kind msg w0 = (x, w)" by fastforce
  show ?thesis
  proof (cases x)
    case (Inl e)
    with inv run w show ?thesis by (auto simp: meta_error_def via_meta_def then_io_def and_then_def)
  next
    case (Inr u)
    with inv w have "delivered w0 [err_payload kind msg] w" using deliver_err [of w0 B] by simp
    with inv run w Inr show ?thesis by (auto simp: meta_error_def via_meta_def then_io_def and_then_def)
  qed
qed

lemma prepare_unchanged:
  "prepare_inv B M caps status w0 st0 (Held s) \<Longrightarrow> prepare_inv B M caps status w0 st0 (Consumed s)"
  by simp

interpretation prepare_api: object_api "prepare_step B M" "prepare_inv B M caps status w0 st0"
  for B M caps status w0 st0
proof
  fix st op res st'
  assume inv: "prepare_inv B M caps status w0 st0 st" and run: "prepare_step B M op st = Some (Ret (res, st'))"
  show "prepare_inv B M caps status w0 st0 st'"
  proof (cases st)
    case (Held s)
    with run inv show ?thesis
      by (cases op)
        (auto simp: reply_def reply_with_metadata_def consume_def simp del: prepare_inv.simps
          split: prod.splits sum.splits intro: reply_inner_inv meta_error_inv prepare_unchanged)
  next
    case (Consumed s)
    with run show ?thesis by (cases op) simp_all
  qed
qed

subsection \<open>Opening a cursor\<close>

text \<open>
  The reply to an execution that opens a cursor: the column definitions, never followed by an
  EOF packet of their own, then a terminator whose status says that the cursor exists.
\<close>

definition cursor_packets :: "byteorder_ops \<Rightarrow> myc_ops \<Rightarrow> u32 \<Rightarrow> (Column \<times> ColumnMetadata) list \<Rightarrow> u16 \<Rightarrow> bytes list" where
  "cursor_packets B M caps cms status =
     item_packets B M (caps OR cap_bits M CLIENT_DEPRECATE_EOF) (Header cms status) @
     item_packets B M caps (Terminator (with_more M False (cursor_finalizer M caps status)))"

definition opened :: "byteorder_ops \<Rightarrow> myc_ops \<Rightarrow> u32 \<Rightarrow> PacketWriter \<Rightarrow> Column list \<Rightarrow> PacketWriter \<Rightarrow> bool" where
  "opened B M caps w0 columns w \<longleftrightarrow>
     columns \<noteq> [] \<and> length columns \<le> 65535 \<and>
     (\<exists>metadata status. length metadata = length columns \<and>
        contains status (status_bits M SERVER_STATUS_CURSOR_EXISTS) \<and>
        delivered w0 (cursor_packets B M caps (zip columns metadata) status) w)"

text \<open>A query writer before anything is sent through it.\<close>

definition untouched :: "u32 \<Rightarrow> PacketWriter \<Rightarrow> QueryResultWriter \<Rightarrow> bool" where
  "untouched caps w q \<longleftrightarrow> q_writer q = w \<and> q_capabilities q = caps \<and> is_bin q \<and> last_end q = None \<and> \<not> completion q"

lemma untouched_update [simp]:
  "untouched caps w (q\<lparr>default_status := d\<rparr>) = untouched caps w q"
  "untouched caps w (query_set_status_flags status q) = untouched caps w q"
  by (simp_all add: untouched_def query_set_status_flags_def)

lemma untouched_new [simp]: "untouched caps w (query_new_tracked w True caps status)"
  by (simp add: untouched_def query_new_tracked_def)

lemma untouched_error:
  assumes "untouched caps w q" and "query_error B M kind msg q = (r, q')"
  shows "(\<exists>e v. write_err B kind msg w = (Inl e, v) \<and> \<not> completion q') \<or>
    (\<exists>v. write_err B kind msg w = (Inr (), v) \<and> q_writer q' = v)"
  using assms
  by (cases "write_err B kind msg w"; cases "fst (write_err B kind msg w)")
    (auto simp: untouched_def query_error_def then_io_def and_then_def via_writer_def)

lemma untouched_finish:
  assumes "untouched caps w q" and "no_more_results B M (q\<lparr>last_end := Some f\<rparr>) = (r, q')"
  shows "(\<exists>e. r = Inl e \<and> \<not> completion q') \<or>
    (\<exists>v. r = Inr () \<and> write_finalizer B M caps (with_more M False f) w = (Inr (), v) \<and> q_writer q' = v \<and> completion q')"
  using assms
  by (cases "write_finalizer B M caps (with_more M False f) w"; cases "fst (write_finalizer B M caps (with_more M False f) w)")
    (auto simp: untouched_def no_more_results_def finalize_def then_io_def and_then_def via_writer_def Let_def)

lemma deliver_finalizer:
  "fresh w \<Longrightarrow> byteorder_spec B \<Longrightarrow> write_finalizer B M caps f w = (Inr u, w') \<Longrightarrow>
   delivered w (item_packets B M caps (Terminator f)) w'"
  using deliver [OF _ finalizer_emits reliable_finalizer] .

lemma deliver_header:
  "fresh w \<Longrightarrow> byteorder_spec B \<Longrightarrow> myc_spec M \<Longrightarrow> column_definitions B M cms caps status w = (Inr u, w') \<Longrightarrow>
   delivered w (item_packets B M caps (Header cms status)) w'"
  using deliver [OF _ header_emits reliable_column_definitions] .

fun cursor_inv :: "byteorder_ops \<Rightarrow> myc_ops \<Rightarrow> u32 \<Rightarrow> PacketWriter \<Rightarrow> CursorExecuteWriter object \<Rightarrow> bool" where
  "cursor_inv B M caps w0 (Held ce) \<longleftrightarrow>
     byteorder_spec B \<and> myc_spec M \<and> fresh w0 \<and> untouched caps w0 (ce_result ce) \<and> ce_columns ce = None"
| "cursor_inv B M caps w0 (Consumed ce) \<longleftrightarrow>
     (if completion (ce_result ce)
      then (case ce_columns ce of
          Some columns \<Rightarrow> opened B M caps w0 columns (q_writer (ce_result ce))
        | None \<Rightarrow> (\<exists>kind msg. delivered w0 [err_payload kind msg] (q_writer (ce_result ce))))
      else ce_columns ce = None)"

lemma validate_each_length: "validate_metadata M columns metadata = Inr u \<Longrightarrow> length metadata = length columns"
  by (simp add: validate_metadata_def split: if_splits)

lemma cursor_open_inv:
  assumes inv: "cursor_inv B M caps w0 (Held ce)" and run: "cursor_open B M columns metadata ce = (r, ce')"
  shows "cursor_inv B M caps w0 (Consumed ce')"
proof (cases "(\<exists>e. validate_metadata M columns metadata = Inl e) \<or> columns = [] \<or> length columns > 65535")
  case True
  have "ce' = ce"
    using True run by (cases "validate_metadata M columns metadata") (auto simp: cursor_open_def split: if_splits)
  with inv show ?thesis by (simp add: untouched_def)
next
  case False
  let ?q = "ce_result ce"
  define status where "status = session_status_flags M (default_status ?q) OR status_bits M SERVER_STATUS_CURSOR_EXISTS"
  have q: "untouched caps w0 ?q" "q_capabilities ?q = caps" "q_writer ?q = w0" "\<not> completion ?q" "ce_columns ce = None"
    and B: "byteorder_spec B" "myc_spec M" and w0: "fresh w0" using inv by (auto simp: untouched_def)
  have valid: "length metadata = length columns" "columns \<noteq> []" "length columns \<le> 65535"
    and val: "validate_metadata M columns metadata = Inr ()"
    using False validate_each_length by (cases "validate_metadata M columns metadata"; auto)+
  obtain r1 w1 where w1: "column_definitions B M (zip columns metadata) (caps OR cap_bits M CLIENT_DEPRECATE_EOF) status w0 = (r1, w1)"
    by fastforce
  define q1 where "q1 = ?q\<lparr>q_writer := w1\<rparr>"
  obtain r2 q2 where q2: "no_more_results B M (q1\<lparr>last_end := Some (cursor_finalizer M caps status)\<rparr>) = (r2, q2)" by fastforce
  have run': "(r, ce') = (case r1 of Inl e \<Rightarrow> (Inl e, ce\<lparr>ce_result := q1\<rparr>)
      | Inr _ \<Rightarrow> (case r2 of Inl e \<Rightarrow> (Inl e, ce\<lparr>ce_result := q2\<rparr>)
          | Inr _ \<Rightarrow> (Inr (), ce\<lparr>ce_result := q2, ce_columns := Some columns\<rparr>)))"
    using run valid w1 q2 q(2,3)
    by (cases r1; cases r2)
      (auto simp: val cursor_open_def Let_def status_def [symmetric] then_io_def and_then_def via_writer_def q1_def)
  show ?thesis
  proof (cases r1)
    case (Inl e)
    with run' q show ?thesis by (simp add: q1_def)
  next
    case (Inr u)
    have d1: "delivered w0 (item_packets B M (caps OR cap_bits M CLIENT_DEPRECATE_EOF)
        (Header (zip columns metadata) status)) w1"
      using deliver_header [OF w0 B] w1 Inr by blast
    have "untouched caps w1 q1" using q(1) by (simp add: untouched_def q1_def)
    from untouched_finish [OF this q2] show ?thesis
    proof
      assume "\<exists>e. r2 = Inl e \<and> \<not> completion q2"
      with run' Inr q(5) show ?thesis by auto
    next
      assume "\<exists>v. r2 = Inr () \<and> write_finalizer B M caps (with_more M False (cursor_finalizer M caps status)) w1 = (Inr (), v) \<and>
          q_writer q2 = v \<and> completion q2"
      then obtain v where v: "r2 = Inr ()" "write_finalizer B M caps (with_more M False (cursor_finalizer M caps status)) w1 = (Inr (), v)"
        "q_writer q2 = v" "completion q2" by blast
      have "delivered w0 (cursor_packets B M caps (zip columns metadata) status) v"
        unfolding cursor_packets_def
        using delivered_append [OF d1 deliver_finalizer [OF delivered_ready [OF d1] B(1) v(2)]] .
      moreover have "contains status (status_bits M SERVER_STATUS_CURSOR_EXISTS)" by (simp add: status_def)
      ultimately have "opened B M caps w0 columns v" using valid unfolding opened_def by blast
      with run' Inr v show ?thesis by simp
    qed
  qed
qed

lemma cursor_fail_inv:
  assumes inv: "cursor_inv B M caps w0 (Held ce)" and run: "cursor_execute_error B M kind msg ce = (r, ce')"
  shows "cursor_inv B M caps w0 (Consumed ce')"
proof -
  obtain r1 q1 where q1: "query_error B M kind msg (ce_result ce) = (r1, q1)" by fastforce
  with run have ce': "ce' = ce\<lparr>ce_result := q1\<rparr>" by (simp add: cursor_execute_error_def)
  have w0: "fresh w0" "byteorder_spec B" "untouched caps w0 (ce_result ce)" "ce_columns ce = None" using inv by simp_all
  from untouched_error [OF w0(3) q1] show ?thesis
  proof
    assume "\<exists>e v. write_err B kind msg w0 = (Inl e, v) \<and> \<not> completion q1"
    with w0 show ?thesis by (auto simp: ce')
  next
    assume "\<exists>v. write_err B kind msg w0 = (Inr (), v) \<and> q_writer q1 = v"
    then have "\<exists>kind msg. delivered w0 [err_payload kind msg] (q_writer q1)"
      using deliver_err [OF w0(1,2)] by blast
    with w0(4) show ?thesis by (simp add: ce')
  qed
qed

interpretation cursor_api: object_api "cursor_step B M" "cursor_inv B M caps w0"
  for B M caps w0
proof
  fix st op res st'
  assume inv: "cursor_inv B M caps w0 st" and run: "cursor_step B M op st = Some (Ret (res, st'))"
  show "cursor_inv B M caps w0 st'"
  proof (cases st)
    case (Held ce)
    show ?thesis
    proof (cases op)
      case (CursorSetStatus status)
      with run Held inv show ?thesis by (auto simp: cursor_execute_set_status_flags_def)
    next
      case (CursorOpen columns metadata)
      with run Held inv cursor_open_inv show ?thesis
        by (auto simp: consume_def simp del: cursor_inv.simps split: prod.splits)
    next
      case (CursorFail kind msg)
      with run Held inv cursor_fail_inv show ?thesis
        by (auto simp: consume_def simp del: cursor_inv.simps split: prod.splits)
    qed
  next
    case (Consumed s)
    with run show ?thesis by (cases op) simp_all
  qed
qed

subsection \<open>Fetching from a cursor\<close>

text \<open>The row writer of a fetch, between two rows or within one.\<close>

definition fetch_row :: "myc_ops \<Rightarrow> u32 \<Rightarrow> Column list \<Rightarrow> PacketWriter \<Rightarrow> RowWriter \<Rightarrow> bool" where
  "fetch_row M caps columns w rw \<longleftrightarrow>
     myc_spec M \<and> ready w \<and> columns \<noteq> [] \<and> rw_columns rw = columns \<and> untouched caps w (rw_result rw) \<and>
     row_bounds (max_packet_size (packet_builder w)) rw"

lemma fetch_row_same:
  "fetch_row M caps columns w rw \<Longrightarrow> same_row_writer rw rw' \<Longrightarrow>
   row_bounds (max_packet_size (packet_builder w)) rw' \<Longrightarrow> fetch_row M caps columns w rw'"
  using same_row_writer_fields by (simp add: fetch_row_def)

lemma fetch_row_status [simp]:
  "fetch_row M caps columns w (row_set_status_flags status rw) = fetch_row M caps columns w rw"
  by (simp add: fetch_row_def row_set_status_flags_def row_bounds_def untouched_def query_set_status_flags_def)

interpretation row_api: object_api "row_step B M C F" "fetch_row M caps columns w"
  for B M C F caps columns w
proof
  fix rw op res rw'
  assume inv: "fetch_row M caps columns w rw" and run: "row_step B M C F op rw = Some (Ret (res, rw'))"
  show "fetch_row M caps columns w rw'"
  proof (cases op)
    case (PutStatus status)
    with inv run show ?thesis by auto
  next
    case (PutCol v)
    then have wc: "write_col B M C F v rw = Ret (res, rw')" using run by simp
    have "row_bounds (max_packet_size (packet_builder w)) rw' \<and> same_row_writer rw rw'"
      by (rule write_col_bounds [OF _ _ _ _ _ wc]) (use inv in \<open>auto simp: fetch_row_def untouched_def\<close>)
    with fetch_row_same [OF inv] show ?thesis by blast
  qed
qed

text \<open>A complete row goes out as one packet.\<close>

lemma fetch_end_row:
  assumes inv: "fetch_row M caps columns w rw" and w: "fresh w" "byteorder_spec B" and run: "end_row B rw = (r, rw')"
  shows "(\<exists>e. r = Inl e \<and> rw' = rw) \<or>
    (\<exists>p v. r = Inr () \<and> delivered w [p] v \<and> fetch_row M caps columns v rw')"
proof (cases "rw_col rw = length (rw_columns rw)")
  case False
  with inv run show ?thesis by (auto simp: fetch_row_def end_row_def split: if_splits)
next
  case True
  let ?d = "rw_data rw"
  have rw: "rw_columns rw \<noteq> []" "q_writer (rw_result rw) = w" "?d \<noteq> []"
    "length ?d \<le> max_packet_size (packet_builder w)"
    using inv True by (auto simp: fetch_row_def untouched_def row_bounds_def)
  obtain v where v: "write_packet B ?d w = (Inr (), v)"
    using write_packet_reliable [OF _ rw(3,4)] w(1) by (auto simp: fresh_def ready_def)
  have r: "r = Inr ()" "rw' = rw\<lparr>rw_result := (rw_result rw)\<lparr>q_writer := v\<rparr>, rw_data := [], rw_col := 0\<rparr>"
    using run True rw(1,2) v by (auto simp: end_row_def then_io_def and_then_def via_result_def via_writer_def)
  have d: "delivered w [?d] v"
    using deliver [OF w(1) write_packet_emits [OF w(2) rw(3)] reliable_write_packet v] .
  then have "ready v" "max_packet_size (packet_builder v) = max_packet_size (packet_builder w)"
    by (auto simp: delivered_def emitted_def same_limits_def)
  with inv have "fetch_row M caps columns v rw'"
    by (auto simp: fetch_row_def untouched_def row_bounds_def r(2))
  with r(1) d show ?thesis by blast
qed

text \<open>
  The packets of a fetch: at most as many rows as asked for, then a terminator whose status says
  whether the cursor is exhausted, or an error.
\<close>

definition fetch_end_packets :: "byteorder_ops \<Rightarrow> myc_ops \<Rightarrow> u32 \<Rightarrow> bool \<Rightarrow> u16 \<Rightarrow> bytes list" where
  "fetch_end_packets B M caps exhausted status =
     item_packets B M caps (Terminator (with_more M False (cursor_finalizer M caps
       (session_status_flags M status OR
        status_bits M (if exhausted then SERVER_STATUS_LAST_ROW_SENT else SERVER_STATUS_CURSOR_EXISTS)))))"

inductive fetched :: "byteorder_ops \<Rightarrow> myc_ops \<Rightarrow> u32 \<Rightarrow> nat \<Rightarrow> bool \<Rightarrow> bytes list \<Rightarrow> bool"
  for B M caps limit where
  fetched_rows: "length rows \<le> limit \<Longrightarrow>
    fetched B M caps limit exhausted (rows @ fetch_end_packets B M caps exhausted status)"
| fetch_failed: "length rows \<le> limit \<Longrightarrow> fetched B M caps limit True (rows @ [err_payload kind msg])"

fun fetch_inv :: "byteorder_ops \<Rightarrow> myc_ops \<Rightarrow> u32 \<Rightarrow> Column list \<Rightarrow> nat \<Rightarrow> PacketWriter \<Rightarrow>
    CursorFetchWriter object \<Rightarrow> bool" where
  "fetch_inv B M caps columns limit w0 (Held cf) \<longleftrightarrow>
     byteorder_spec B \<and> \<not> cf_exhausted cf \<and>
     (\<exists>rows w. delivered w0 rows w \<and> length rows + cf_remaining cf = limit \<and>
        fetch_row M caps columns w (cf_rows cf))"
| "fetch_inv B M caps columns limit w0 (Consumed cf) \<longleftrightarrow>
     (completion (rw_result (cf_rows cf)) \<longrightarrow>
       (\<exists>ps. fetched B M caps limit (cf_exhausted cf) ps \<and> delivered w0 ps (q_writer (rw_result (cf_rows cf)))))"

lemma fetch_write_row_inv:
  assumes inv: "fetch_inv B M caps columns limit w0 (Held cf)"
    and run: "fetch_write_row_with B (run_program (row_step B M C F) encode) cf = Ret (r, cf')"
  shows "fetch_inv B M caps columns limit w0 (Held cf')"
proof (cases "cf_remaining cf = 0")
  case True
  with run inv show ?thesis by (auto simp: fetch_write_row_with_def)
next
  case False
  obtain rows w where d: "delivered w0 rows w" "length rows + cf_remaining cf = limit"
    and rw: "fetch_row M caps columns w (cf_rows cf)" and B: "byteorder_spec B" and x: "\<not> cf_exhausted cf"
    using inv by auto
  obtain x1 rw1 where e: "run_program (row_step B M C F) encode (cf_rows cf) = Ret (x1, rw1)"
    using run False by (cases "run_program (row_step B M C F) encode (cf_rows cf)") (auto simp: fetch_write_row_with_def)
  have rw1: "fetch_row M caps columns w rw1" using row_api.run_inv [OF rw e] .
  obtain x2 rw2 where er: "end_row B rw1 = (x2, rw2)" by fastforce
  have "cf' = cf\<lparr>cf_rows := rw1\<rparr> \<or> cf' = cf\<lparr>cf_rows := rw2\<rparr> \<and> (\<exists>e. x2 = Inl e) \<or>
      cf' = cf\<lparr>cf_rows := rw2, cf_remaining := cf_remaining cf - 1\<rparr> \<and> x2 = Inr ()"
    using run False e er by (auto simp: fetch_write_row_with_def split: sum.splits)
  then show ?thesis
  proof (elim disjE conjE)
    assume "cf' = cf\<lparr>cf_rows := rw1\<rparr>"
    with d rw1 B x show ?thesis by auto
  next
    assume "cf' = cf\<lparr>cf_rows := rw2\<rparr>" "\<exists>e. x2 = Inl e"
    moreover from this have "rw2 = rw1"
      using fetch_end_row [OF rw1 delivered_ready [OF d(1)] B er] by auto
    ultimately show ?thesis using d rw1 B x by auto
  next
    assume cf': "cf' = cf\<lparr>cf_rows := rw2, cf_remaining := cf_remaining cf - 1\<rparr>" and "x2 = Inr ()"
    then obtain p v where "delivered w [p] v" "fetch_row M caps columns v rw2"
      using fetch_end_row [OF rw1 delivered_ready [OF d(1)] B er] by auto
    moreover from this have "delivered w0 (rows @ [p]) v" using delivered_append [OF d(1)] by blast
    moreover have "length (rows @ [p]) + cf_remaining cf' = limit" using d(2) False by (simp add: cf')
    ultimately show ?thesis using B x unfolding cf' fetch_inv.simps
      by (intro conjI exI [of _ "rows @ [p]"] exI [of _ v]) simp_all
  qed
qed

lemma fetch_finish_inv:
  assumes inv: "fetch_inv B M caps columns limit w0 (Held cf)" and run: "fetch_finish B M exhausted cf = (r, cf')"
  shows "fetch_inv B M caps columns limit w0 (Consumed cf')"
proof -
  obtain rows w where d: "delivered w0 rows w" "length rows \<le> limit"
    and q: "untouched caps w (rw_result (cf_rows cf))" and B: "byteorder_spec B"
    using inv by (auto simp: fetch_row_def)
  let ?q = "rw_result (cf_rows cf)"
  let ?f = "cursor_finalizer M caps (session_status_flags M (default_status ?q) OR
      status_bits M (if exhausted then SERVER_STATUS_LAST_ROW_SENT else SERVER_STATUS_CURSOR_EXISTS))"
  obtain r1 q1 where q1: "no_more_results B M (?q\<lparr>last_end := Some ?f\<rparr>) = (r1, q1)" by fastforce
  show ?thesis
  proof (cases "rw_col (cf_rows cf) = 0")
    case False
    with run q show ?thesis by (auto simp: fetch_finish_def untouched_def)
  next
    case True
    have cap: "q_capabilities ?q = caps" using q by (simp add: untouched_def)
    have cf': "cf' = (case r1 of Inl e \<Rightarrow> cf\<lparr>cf_rows := (cf_rows cf)\<lparr>rw_result := q1\<rparr>\<rparr>
        | Inr _ \<Rightarrow> cf\<lparr>cf_rows := (cf_rows cf)\<lparr>rw_result := q1\<rparr>, cf_exhausted := exhausted\<rparr>)"
      using run True q1 cap by (cases r1) (auto simp: fetch_finish_def Let_def split: if_splits)
    from untouched_finish [OF q q1] show ?thesis
    proof
      assume "\<exists>e. r1 = Inl e \<and> \<not> completion q1"
      then show ?thesis by (auto simp: cf')
    next
      assume "\<exists>v. r1 = Inr () \<and> write_finalizer B M caps (with_more M False ?f) w = (Inr (), v) \<and>
          q_writer q1 = v \<and> completion q1"
      then obtain v where v: "r1 = Inr ()" "write_finalizer B M caps (with_more M False ?f) w = (Inr (), v)"
        "q_writer q1 = v" by blast
      have "delivered w (fetch_end_packets B M caps exhausted (default_status ?q)) v"
        unfolding fetch_end_packets_def using deliver_finalizer [OF delivered_ready [OF d(1)] B v(2)] .
      then have "delivered w0 (rows @ fetch_end_packets B M caps exhausted (default_status ?q)) v"
        by (rule delivered_append [OF d(1)])
      with fetched_rows [OF d(2)] have "\<exists>ps. fetched B M caps limit exhausted ps \<and> delivered w0 ps v" by blast
      with v show ?thesis by (simp add: cf')
    qed
  qed
qed

lemma fetch_fail_inv:
  assumes inv: "fetch_inv B M caps columns limit w0 (Held cf)" and run: "fetch_error B M kind msg cf = (r, cf')"
  shows "fetch_inv B M caps columns limit w0 (Consumed cf')"
proof -
  obtain rows w where d: "delivered w0 rows w" "length rows \<le> limit"
    and q: "untouched caps w (rw_result (cf_rows cf))" and B: "byteorder_spec B"
    using inv by (auto simp: fetch_row_def)
  obtain r1 q1 where q1: "query_error B M kind msg (rw_result (cf_rows cf)) = (r1, q1)" by fastforce
  with run have cf': "cf' = cf\<lparr>cf_rows := (cf_rows cf)\<lparr>rw_result := q1\<rparr>, cf_exhausted := True\<rparr>"
    by (auto simp: fetch_error_def finish_error_def)
  from untouched_error [OF q q1] show ?thesis
  proof
    assume "\<exists>e v. write_err B kind msg w = (Inl e, v) \<and> \<not> completion q1"
    then show ?thesis by (auto simp: cf')
  next
    assume "\<exists>v. write_err B kind msg w = (Inr (), v) \<and> q_writer q1 = v"
    then obtain v where v: "write_err B kind msg w = (Inr (), v)" "q_writer q1 = v" by blast
    have "delivered w0 (rows @ [err_payload kind msg]) v"
      using delivered_append [OF d(1) deliver_err [OF delivered_ready [OF d(1)] B v(1)]] .
    with fetch_failed [OF d(2)] have "\<exists>ps. fetched B M caps limit True ps \<and> delivered w0 ps v" by blast
    with v show ?thesis by (simp add: cf')
  qed
qed

interpretation fetch_api: object_api "fetch_step B M C F" "fetch_inv B M caps columns limit w0"
  for B M C F caps columns limit w0
proof
  fix st op res st'
  assume inv: "fetch_inv B M caps columns limit w0 st" and run: "fetch_step B M C F op st = Some (Ret (res, st'))"
  show "fetch_inv B M caps columns limit w0 st'"
  proof (cases st)
    case (Held cf)
    show ?thesis
    proof (cases op)
      case (FetchSetStatus status)
      then have "st' = Held (fetch_set_status_flags status cf)" using run Held by simp
      moreover have "fetch_inv B M caps columns limit w0 (Held (fetch_set_status_flags status cf)) =
          fetch_inv B M caps columns limit w0 (Held cf)"
        by (simp add: fetch_set_status_flags_def)
      ultimately show ?thesis using inv Held by simp
    next
      case (FetchWriteRow encode)
      obtain r cf' where "fetch_write_row_with B (run_program (row_step B M C F) encode) cf = Ret (r, cf')" "st' = Held cf'"
        using run Held FetchWriteRow
        by (cases "fetch_write_row_with B (run_program (row_step B M C F) encode) cf")
          (auto simp: hold_def split: prod.splits)
      with fetch_write_row_inv [OF inv [unfolded Held]] show ?thesis by blast
    next
      case (FetchFinish exhausted)
      with run Held inv fetch_finish_inv show ?thesis
        by (auto simp: consume_def simp del: fetch_inv.simps split: prod.splits)
    next
      case (FetchFail kind msg)
      with run Held inv fetch_fail_inv show ?thesis
        by (auto simp: consume_def simp del: fetch_inv.simps split: prod.splits)
    qed
  next
    case (Consumed s)
    with run show ?thesis by (cases op) simp_all
  qed
qed

lemma fetch_new_inv:
  assumes "byteorder_spec B" "myc_spec M" "fresh w0" "columns \<noteq> []"
  shows "fetch_inv B M caps columns (unat rows) w0 (Held (fetch_new (query_new_tracked w0 True caps status) columns rows))"
proof -
  have "fetch_row M caps columns w0 (cf_rows (fetch_new (query_new_tracked w0 True caps status) columns rows))"
    using assms by (simp add: fetch_row_def fetch_new_def row_bounds_def fresh_def)
  with delivered_refl [OF assms(3)] assms(1) show ?thesis
    by (auto simp: fetch_new_def intro!: exI [of _ "[]"] exI [of _ w0])
qed

subsection \<open>Queries and executions\<close>

interpretation response_api: object_api "respond B M C F"
    "\<lambda>r. byteorder_spec B \<and> myc_spec M \<and> response_inv B M caps bin w0 r"
  for B M C F caps bin w0
  by unfold_locales (use respond_inv in blast)

text \<open>The packets of a response: a word of the grammar.\<close>

inductive response_answer :: "byteorder_ops \<Rightarrow> myc_ops \<Rightarrow> u32 \<Rightarrow> bool \<Rightarrow> bytes list \<Rightarrow> bool" for B M caps bin where
  "preceding M caps s \<Longrightarrow> final_result M caps rest e \<Longrightarrow>
   s = [] \<or> has_cap M caps (multi_results_required bin) \<Longrightarrow>
   response_answer B M caps bin (response_packets B M caps (s @ rest))"

lemma response_inv_answer:
  assumes "response_inv B M caps bin w0 r" and "completion (response_writer r)"
  shows "\<exists>ps. response_answer B M caps bin ps \<and> delivered w0 ps (q_writer (response_writer r))"
proof -
  obtain q where q: "r = Spent q" "spent_inv B M caps bin w0 q" "completion q"
    using assms by (cases r) (auto simp: idle_inv_def rows_inv_def announced_def)
  then obtain s rest e where "preceding M caps s" "final_result M caps rest e"
    "s = [] \<or> has_cap M caps (multi_results_required bin)"
    "delivered w0 (response_packets B M caps (s @ rest)) (q_writer q)"
    unfolding spent_inv_def sent_delivered by blast
  from response_answer.intros [OF this(1,2,3), of B] this(4) q(1)
  have "response_answer B M caps bin (response_packets B M caps (s @ rest))"
    "delivered w0 (response_packets B M caps (s @ rest)) (q_writer (response_writer r))" by simp_all
  then show ?thesis by blast
qed

subsection \<open>Whatever the transport does\<close>

text \<open>The statement table grows by at most one new statement, and an opened cursor has columns.\<close>

fun prepare_table :: "statements \<Rightarrow> StatementMetaWriter object \<Rightarrow> bool" where
  "prepare_table st0 (Held s) \<longleftrightarrow> sm_stmts s = st0"
| "prepare_table st0 (Consumed s) \<longleftrightarrow> sm_stmts s = st0 \<or>
     (\<exists>i n. map_of st0 i = None \<and> sm_stmts s = (i, new_statement\<lparr>params := word_of_nat n\<rparr>) # st0)"

lemma prepare_table_same: "sm_stmts s = st0 \<Longrightarrow> prepare_table st0 (Consumed s)"
  by simp

lemma via_meta_stmts: "via_meta m s = (r, s') \<Longrightarrow> sm_stmts s' = sm_stmts s"
  by (auto simp: via_meta_def split: prod.splits)

lemma reply_inner_table:
  assumes run: "reply_inner B M i ps cs s = (r, s')"
  shows "prepare_table (sm_stmts s) (Consumed s')"
proof (cases "length ps > 65535 \<or> length cs > 65535 \<or> map_of (sm_stmts s) i \<noteq> None")
  case True
  with run have "s' = s" by (auto simp: reply_inner_def split: if_splits)
  then show ?thesis by simp
next
  case False
  obtain x s1 where w: "via_meta (write_prepare_ok B M i ps cs (sm_capabilities s) (sm_status_flags s)) s = (x, s1)"
    by fastforce
  with run False via_meta_stmts [OF w] show ?thesis
    by (cases x) (auto simp: reply_inner_def then_io_def and_then_def)
qed

interpretation table_api: object_api "prepare_step B M" "prepare_table st0"
  for B M st0
proof
  fix st op res st'
  assume inv: "prepare_table st0 st" and run: "prepare_step B M op st = Some (Ret (res, st'))"
  have err: "sm_stmts s' = sm_stmts s" if "meta_error B kind msg s = (r, s')" for kind msg s r s'
    using that by (auto simp: meta_error_def then_io_def and_then_def dest: via_meta_stmts split: prod.splits sum.splits)
  show "prepare_table st0 st'"
  proof (cases st)
    case (Held s)
    with run inv reply_inner_table show ?thesis
      by (cases op)
        (auto simp: reply_def reply_with_metadata_def consume_def simp del: prepare_table.simps(2)
          split: prod.splits sum.splits dest!: err intro: prepare_table_same)
  next
    case (Consumed s)
    with run show ?thesis by (cases op) simp_all
  qed
qed

fun cursor_some :: "CursorExecuteWriter object \<Rightarrow> bool" where
  "cursor_some (Held ce) \<longleftrightarrow> ce_columns ce = None"
| "cursor_some (Consumed ce) \<longleftrightarrow> ce_columns ce \<noteq> Some []"

interpretation columns_api: object_api "cursor_step B M" cursor_some
  for B M
proof
  fix st op res st'
  assume inv: "cursor_some st" and run: "cursor_step B M op st = Some (Ret (res, st'))"
  show "cursor_some st'"
  proof (cases st)
    case (Held ce)
    with run inv show ?thesis
      by (cases op)
        (auto simp: cursor_execute_set_status_flags_def cursor_open_def cursor_execute_error_def consume_def Let_def
          split: prod.splits sum.splits if_splits)
  next
    case (Consumed s)
    with run show ?thesis by (cases op) simp_all
  qed
qed

end
