(* ===== verification/SessionTables.thy ===== *)
theory SessionTables
  imports Session Callbacks
begin

text \<open>
  The statement table of a session and its accounting: the invariant that bounds what a client
  can make the server keep, and its preservation by every command, whatever the backend does.
\<close>

subsection \<open>Sequencing\<close>

named_theorems action_simps

lemma bind_action_Inr [action_simps]:
  "bind_action m f se = Ret (Inr y, se'') \<longleftrightarrow> (\<exists>x se'. m se = Ret (Inr x, se') \<and> f x se' = Ret (Inr y, se''))"
  by (auto simp: bind_action_def split: rust.splits prod.splits sum.splits)

lemma finish_with_Inr [action_simps]: "finish_with x se = Ret (Inr y, se') \<longleftrightarrow> y = x \<and> se' = se"
  by (auto simp: finish_with_def)

lemma change_Inr [action_simps]: "change f se = Ret (Inr u, se') \<longleftrightarrow> se' = f se"
  by (auto simp: change_def)

lemma backend_result_Inr [action_simps]: "backend_result r se = Ret (Inr u, se') \<longleftrightarrow> r = Inr () \<and> se' = se"
  by (auto simp: backend_result_def)

lemma lift_result_Inr [action_simps]: "lift_result lift r se = Ret (Inr x, se') \<longleftrightarrow> r = Inr x \<and> se' = se"
  by (auto simp: lift_result_def split: sum.splits)

lemma write_out_Inr [action_simps]:
  "write_out lift m se = Ret (Inr u, se') \<longleftrightarrow> (\<exists>w. m (out se) = (Inr (), w) \<and> se' = se\<lparr>out := w\<rparr>)"
  by (auto simp: write_out_def split: prod.splits sum.splits)

lemma ensure_completed_Inr [action_simps]: "ensure_response_completed b c = Inr u \<longleftrightarrow> b"
  by (simp add: ensure_response_completed_def)

text \<open>Calls on the writer and the backend leave the tables and the configuration alone.\<close>

definition only_io :: "'s session \<Rightarrow> 's session \<Rightarrow> bool" where
  "only_io se se' \<longleftrightarrow> se' = se\<lparr>out := out se', session_flags := session_flags se', shim_state := shim_state se'\<rparr>"

lemma only_io_refl [simp]: "only_io se se"
  by (simp add: only_io_def)

lemma only_io_trans: "only_io se se1 \<Longrightarrow> only_io se1 se2 \<Longrightarrow> only_io se se2"
  by (cases se; cases se1; cases se2) (simp add: only_io_def)

lemma only_io_updates [simp]:
  "only_io se (se\<lparr>out := w\<rparr>)" "only_io se (se\<lparr>shim_state := s\<rparr>)" "only_io se (close_cursor S i se)"
  "only_io se (se\<lparr>out := w, session_flags := fl, shim_state := s\<rparr>)" "only_io se (give_back q s se)"
  by (simp_all add: only_io_def close_cursor_def give_back_def)

lemma only_io_fields:
  assumes "only_io se se'"
  shows "stmts se' = stmts se" "total_long_data_size se' = total_long_data_size se"
    "max_long_data_size se' = max_long_data_size se"
    "max_connection_long_data_size se' = max_connection_long_data_size se"
    "max_prepared_statements se' = max_prepared_statements se"
    "client_capabilities se' = client_capabilities se" "initial_status_flags se' = initial_status_flags se"
    "process_use_statement_on_query se' = process_use_statement_on_query se" "read_timeout se' = read_timeout se"
  using assms by (cases se; cases se'; simp add: only_io_def)+

definition io_action :: "('s, 'e, 'a) action \<Rightarrow> bool" where
  "io_action m \<longleftrightarrow> (\<forall>se x se'. m se = Ret (Inr x, se') \<longrightarrow> only_io se se')"

named_theorems io_actions

lemma io_actionD: "io_action m \<Longrightarrow> m se = Ret (Inr x, se') \<Longrightarrow> only_io se se'"
  by (simp add: io_action_def)

lemma io_action_bind [io_actions]: "io_action m \<Longrightarrow> (\<And>x. io_action (f x)) \<Longrightarrow> io_action (bind_action m f)"
  unfolding io_action_def by (fastforce simp: action_simps intro: only_io_trans)

lemma io_action_basics [io_actions]:
  "io_action (finish_with x)" "io_action (write_out lift m)" "io_action (lift_result lift r)"
  "io_action (backend_result b)"
  by (auto simp: io_action_def action_simps)

lemma io_action_refuse [io_actions]: "io_action (refuse B lift kind msg)"
  unfolding refuse_def by (intro io_actions)

lemma io_action_reply [io_actions]: "io_action (reply_out lift m)"
  unfolding reply_out_def by (intro io_actions)

lemma io_action_acknowledge [io_actions]: "io_action (acknowledge B M lift)"
  using io_action_reply unfolding io_action_def acknowledge_def by blast

lemma io_action_results [io_actions]: "io_action (with_results B M C F lift bin command callback)"
  unfolding io_action_def with_results_def
  by (auto simp: action_simps split: rust.splits prod.splits)

lemma io_action_init [io_actions]: "io_action (with_init B M lift command callback)"
  unfolding io_action_def with_init_def
  by (auto simp: action_simps Let_def split: rust.splits prod.splits)

lemma io_action_cursor [io_actions]: "io_action (with_cursor B M lift callback)"
  unfolding io_action_def with_cursor_def
  by (auto simp: action_simps Let_def split: rust.splits prod.splits)

lemma io_action_fetch [io_actions]: "io_action (with_fetch B M C F lift columns rows callback)"
  unfolding io_action_def with_fetch_def
  by (auto simp: action_simps Let_def split: rust.splits prod.splits)

lemma io_action_execute [io_actions]: "io_action (call_execute B M C F S i flags ps)"
  unfolding call_execute_def by (auto intro: io_actions)

subsection \<open>Tables\<close>

lemma keys_update_entry [simp]: "map fst (update_entry k f m) = map fst m"
  by (auto simp: update_entry_def)

lemma length_update_entry [simp]: "length (update_entry k f m) = length m"
  by (simp add: update_entry_def)

lemma map_of_update_entry: "map_of (update_entry k f m) j = (if j = k then map_option f (map_of m k) else map_of m j)"
  by (induction m) (auto simp: update_entry_def)

lemma set_update_entry: "(j, v) \<in> set (update_entry k f m) \<Longrightarrow> (j, v) \<in> set m \<or> (\<exists>u. j = k \<and> v = f u \<and> (k, u) \<in> set m)"
  by (auto simp: update_entry_def split: if_splits)

lemma update_entry_twice [simp]: "update_entry k f (update_entry k g m) = update_entry k (f \<circ> g) m"
  by (auto simp: update_entry_def)

lemma update_entry_absent: "map_of m k = None \<Longrightarrow> update_entry k f m = m"
  by (induction m) (auto simp: update_entry_def split: if_splits)

lemma update_entry_const:
  "distinct (map fst m) \<Longrightarrow> map_of m k = Some u \<Longrightarrow> update_entry k f m = update_entry k (\<lambda>_. f u) m"
  by (auto simp: update_entry_def dest!: map_of_SomeD intro: arg_cong [OF eq_key_imp_eq_value])

text \<open>A sum over a table changes by the entry that changes.\<close>

definition table_sum :: "('v \<Rightarrow> nat) \<Rightarrow> ('k \<times> 'v) list \<Rightarrow> nat" where
  "table_sum g m = sum_list (map (g \<circ> snd) m)"

lemma table_sum_simps [simp]: "table_sum g [] = 0" "table_sum g ((k, v) # m) = g v + table_sum g m"
  by (simp_all add: table_sum_def)

lemma table_sum_update:
  "distinct (map fst m) \<Longrightarrow> map_of m k = Some u \<Longrightarrow> table_sum g (update_entry k f m) + g u = table_sum g m + g (f u)"
proof (induction m)
  case (Cons a m)
  obtain j v where a: "a = (j, v)" by fastforce
  show ?case
  proof (cases "j = k")
    case True
    with Cons a have "map_of m k = None" "u = v" by (auto simp: map_of_eq_None_iff)
    then show ?thesis using True a update_entry_absent [of m k f] by (simp add: update_entry_def)
  next
    case False
    with Cons a show ?thesis by (simp add: update_entry_def)
  qed
qed simp

lemma table_sum_remove:
  "distinct (map fst m) \<Longrightarrow> map_of m k = Some u \<Longrightarrow> table_sum g (remove_entry k m) + g u = table_sum g m"
proof (induction m)
  case (Cons a m)
  obtain j v where a: "a = (j, v)" by fastforce
  show ?case
  proof (cases "j = k")
    case True
    with Cons a have "k \<notin> fst ` set m" "u = v" by auto
    then have "remove_entry k m = m" by (force simp: remove_entry_def filter_id_conv)
    with \<open>u = v\<close> show ?thesis using True a by (simp add: remove_entry_def)
  next
    case False
    with Cons a show ?thesis by (simp add: remove_entry_def)
  qed
qed simp

lemma remove_entry_facts:
  "distinct (map fst m) \<Longrightarrow> distinct (map fst (remove_entry k m))"
  "(j, v) \<in> set (remove_entry k m) \<Longrightarrow> (j, v) \<in> set m"
  "length (remove_entry k m) \<le> length m"
  by (simp_all add: remove_entry_def distinct_map_filter)

lemma map_of_remove_entry: "map_of (remove_entry k m) j = (if j = k then None else map_of m j)"
  by (induction m) (auto simp: remove_entry_def)

lemma table_sum_member: "(k, v) \<in> set m \<Longrightarrow> g v \<le> table_sum g m"
  by (induction m) auto

subsection \<open>What the session retains\<close>

definition data_size :: "StatementData \<Rightarrow> nat" where
  "data_size st = table_sum length (long_data st)"

lemma fold_saturating:
  "n \<le> usize_max \<Longrightarrow> fold (\<lambda>(_, v) total. saturating_add total (length v)) m n = min (n + table_sum length m) usize_max"
proof (induction m arbitrary: n)
  case (Cons a m)
  have "saturating_add n (length (snd a)) \<le> usize_max" by (simp add: saturating_add_def)
  with Cons show ?case by (cases a) (auto simp: saturating_add_def)
qed simp

lemma retained_size: "data_size st \<le> usize_max \<Longrightarrow> retained_long_data st = data_size st"
  by (simp add: retained_long_data_def fold_saturating data_size_def)

lemma fold_checked_none: "fold (\<lambda>(_, v) total. Option.bind total (\<lambda>t. checked_add t (length v))) m None = None"
  by (induction m) auto

lemma fold_checked:
  "n \<le> usize_max \<Longrightarrow> fold (\<lambda>(_, v) total. Option.bind total (\<lambda>t. checked_add t (length v))) m (Some n) =
     (if n + table_sum length m \<le> usize_max then Some (n + table_sum length m) else None)"
proof (induction m arbitrary: n)
  case (Cons a m)
  obtain k v where a: "a = (k, v)" by fastforce
  show ?case
  proof (cases "n + length v \<le> usize_max")
    case True
    with Cons.IH [OF True] show ?thesis by (simp add: a checked_add_def add.assoc)
  next
    case False
    then show ?thesis by (simp add: a checked_add_def fold_checked_none [unfolded checked_add_def])
  qed
qed simp

lemma checked_size: "data_size st \<le> usize_max \<Longrightarrow> checked_long_data st = Some (data_size st)"
  by (simp add: checked_long_data_def fold_checked data_size_def)

text \<open>
  A statement keeps long data for its own parameters only and within the limit of a statement, and
  at most one type for each of them; a cursor has columns, and a deferred error is one of the
  variants of \<open>ErrorKind\<close>. The connection's counter is the exact sum over the table and within the
  limit of the connection.
\<close>

definition statement_ok :: "nat \<Rightarrow> StatementData \<Rightarrow> bool" where
  "statement_ok limit st \<longleftrightarrow>
     length (bound_types st) \<le> unat (params st) \<and>
     (case pending_error st of None \<Rightarrow> True | Some (kind, _) \<Rightarrow> is_variant kind) \<and>
     distinct (map fst (long_data st)) \<and> (\<forall>k \<in> fst ` set (long_data st). k < params st) \<and>
     data_size st \<le> limit \<and> (case cursor_columns st of None \<Rightarrow> True | Some columns \<Rightarrow> columns \<noteq> [])"

definition tables_ok :: "nat \<Rightarrow> nat \<Rightarrow> nat \<Rightarrow> statements \<Rightarrow> nat \<Rightarrow> bool" where
  "tables_ok max_data max_total max_count ts held \<longleftrightarrow>
     distinct (map fst ts) \<and> (\<forall>st \<in> snd ` set ts. statement_ok max_data st) \<and>
     held = table_sum data_size ts \<and> held \<le> max_total \<and> length ts \<le> max_count"

definition session_inv :: "'s session \<Rightarrow> bool" where
  "session_inv se \<longleftrightarrow> max_long_data_size se \<le> usize_max \<and> max_connection_long_data_size se \<le> usize_max \<and>
     tables_ok (max_long_data_size se) (max_connection_long_data_size se) (max_prepared_statements se)
       (stmts se) (total_long_data_size se)"

lemma session_inv_io: "only_io se se' \<Longrightarrow> session_inv se' = session_inv se"
  by (simp add: session_inv_def only_io_fields)

lemma tables_ok_statement:
  "tables_ok d t n ts held \<Longrightarrow> map_of ts i = Some st \<Longrightarrow> statement_ok d st \<and> data_size st \<le> held"
  unfolding tables_ok_def using table_sum_member [of i st ts data_size] by (force dest: map_of_SomeD)

lemma tables_ok_update:
  assumes ok: "tables_ok d t n ts held" and st: "map_of ts i = Some st" and f: "statement_ok d (f st)"
    and held': "held' = held - data_size st + data_size (f st)" "held' \<le> t"
  shows "tables_ok d t n (update_entry i f ts) held'"
proof -
  have "distinct (map fst ts)" using ok by (simp add: tables_ok_def)
  note sum = table_sum_update [OF this st, of data_size f]
  have "statement_ok d v" if "(j, v) \<in> set (update_entry i f ts)" for j v
    using set_update_entry [OF that]
  proof
    assume "(j, v) \<in> set ts"
    with ok show ?thesis by (force simp: tables_ok_def)
  next
    assume "\<exists>u. j = i \<and> v = f u \<and> (i, u) \<in> set ts"
    with map_of_is_SomeI [OF \<open>distinct (map fst ts)\<close>] st f show ?thesis by force
  qed
  moreover have "data_size st \<le> table_sum data_size ts" using table_sum_member map_of_SomeD [OF st] by fast
  ultimately show ?thesis using sum held' ok by (auto simp: tables_ok_def)
qed

lemma tables_ok_remove:
  assumes ok: "tables_ok d t n ts held" and st: "map_of ts i = Some st"
  shows "tables_ok d t n (remove_entry i ts) (held - data_size st)"
proof -
  have "distinct (map fst ts)" using ok by (simp add: tables_ok_def)
  from table_sum_remove [OF this st, of data_size] remove_entry_facts(1) [OF this, of i] ok
  show ?thesis using remove_entry_facts(2) [of _ _ i ts] remove_entry_facts(3) [of i ts]
    by (fastforce simp: tables_ok_def)
qed

lemma tables_ok_insert:
  assumes "tables_ok d t n ts held" and "length ts < n" and "map_of ts i = None" and "long_data st = []"
    and "cursor_columns st = None" and "bound_types st = []" and "pending_error st = None"
  shows "tables_ok d t n ((i, st) # ts) held"
  using assms by (auto simp: tables_ok_def statement_ok_def data_size_def map_of_eq_None_iff)

lemma data_size_simps [simp]:
  "data_size (st\<lparr>cursor_columns := c\<rparr>) = data_size st" "data_size (st\<lparr>bound_types := b\<rparr>) = data_size st"
  "data_size (st\<lparr>pending_error := e\<rparr>) = data_size st" "data_size (st\<lparr>long_data := []\<rparr>) = 0"
  by (simp_all add: data_size_def)

text \<open>Extending one parameter's data.\<close>

lemma extend_entry_facts:
  assumes "distinct (map fst m)"
  shows "distinct (map fst (extend_entry k d m))"
    "table_sum length (extend_entry k d m) = table_sum length m + length d"
    "fst ` set (extend_entry k d m) = insert k (fst ` set m)"
    "map_of (extend_entry k d m) j = (if j = k then Some (case map_of m k of None \<Rightarrow> d | Some v \<Rightarrow> v @ d) else map_of m j)"
proof -
  have keys: "fst ` set (update_entry k f m) = fst ` set m" for f :: "'b list \<Rightarrow> 'b list"
    by (metis keys_update_entry list.set_map)
  show "distinct (map fst (extend_entry k d m))"
    using assms by (auto simp: extend_entry_def map_of_eq_None_iff)
  show "fst ` set (extend_entry k d m) = insert k (fst ` set m)"
    using keys map_of_eq_None_iff [of m k] by (cases "map_of m k") (auto simp: extend_entry_def)
  show "map_of (extend_entry k d m) j = (if j = k then Some (case map_of m k of None \<Rightarrow> d | Some v \<Rightarrow> v @ d) else map_of m j)"
    by (auto simp: extend_entry_def map_of_update_entry split: option.split)
  show "table_sum length (extend_entry k d m) = table_sum length m + length d"
  proof (cases "map_of m k")
    case None
    then show ?thesis by (simp add: extend_entry_def)
  next
    case (Some v)
    with table_sum_update [OF assms Some, of length "\<lambda>v. v @ d"] show ?thesis by (simp add: extend_entry_def)
  qed
qed

subsection \<open>Every command keeps the invariant\<close>

text \<open>An action keeps a property when it does so whenever it does not end the session.\<close>

definition keeps :: "('s session \<Rightarrow> bool) \<Rightarrow> ('s, 'e, 'a) action \<Rightarrow> bool" where
  "keeps P m \<longleftrightarrow> (\<forall>se x se'. P se \<longrightarrow> m se = Ret (Inr x, se') \<longrightarrow> P se')"

lemma keepsD: "keeps P m \<Longrightarrow> P se \<Longrightarrow> m se = Ret (Inr x, se') \<Longrightarrow> P se'"
  by (simp add: keeps_def)

lemma keeps_io: "io_action m \<Longrightarrow> keeps session_inv m"
  using session_inv_io by (fastforce simp: keeps_def io_action_def)

lemma keeps_bind: "keeps P m \<Longrightarrow> (\<And>x. keeps P (f x)) \<Longrightarrow> keeps P (bind_action m f)"
  unfolding keeps_def by (metis bind_action_Inr)

lemma session_inv_statement:
  assumes "session_inv se" and "statement i se = Some st"
  shows "statement_ok (max_long_data_size se) st" "data_size st \<le> total_long_data_size se"
    "retained_long_data st = data_size st" "checked_long_data st = Some (data_size st)"
proof -
  have "statement_ok (max_long_data_size se) st \<and> data_size st \<le> total_long_data_size se"
    using assms tables_ok_statement unfolding session_inv_def statement_def by blast
  moreover from this assms(1) have "data_size st \<le> usize_max" by (simp add: session_inv_def statement_ok_def)
  ultimately show "statement_ok (max_long_data_size se) st" "data_size st \<le> total_long_data_size se"
    "retained_long_data st = data_size st" "checked_long_data st = Some (data_size st)"
    by (simp_all add: retained_size checked_size)
qed

lemma session_inv_total: "session_inv se \<Longrightarrow> total_long_data_size se \<le> max_connection_long_data_size se"
  by (simp add: session_inv_def tables_ok_def)

text \<open>A change of one statement, its long data released or extended.\<close>

lemma session_inv_update:
  assumes inv: "session_inv se" and st: "statement i se = Some st"
    and f: "statement_ok (max_long_data_size se) (f st)"
    and se': "stmts se' = update_entry i f (stmts se)" "total_long_data_size se' = total_long_data_size se - data_size st + data_size (f st)"
      "max_long_data_size se' = max_long_data_size se" "max_connection_long_data_size se' = max_connection_long_data_size se"
      "max_prepared_statements se' = max_prepared_statements se"
    and le: "total_long_data_size se' \<le> max_connection_long_data_size se"
  shows "session_inv se'"
  using inv tables_ok_update [of _ _ _ "stmts se" "total_long_data_size se" i st f, OF _ _ f se'(2)] st le
  by (simp add: session_inv_def se'(1,3,4,5) statement_def)

lemma session_inv_release:
  assumes inv: "session_inv se" and st: "statement i se = Some st"
    and f: "statement_ok (max_long_data_size se) (f st)" "data_size (f st) = 0"
    and se': "stmts se' = update_entry i f (stmts se)" "total_long_data_size se' = total_long_data_size se - retained_long_data st"
      "max_long_data_size se' = max_long_data_size se" "max_connection_long_data_size se' = max_connection_long_data_size se"
      "max_prepared_statements se' = max_prepared_statements se"
  shows "session_inv se'"
proof (rule session_inv_update [OF inv st f(1) se'(1) _ se'(3,4,5)])
  show "total_long_data_size se' = total_long_data_size se - data_size st + data_size (f st)"
    using session_inv_statement [OF inv st] se'(2) f(2) by simp
  show "total_long_data_size se' \<le> max_connection_long_data_size se"
    using session_inv_total [OF inv] se'(2) by linarith
qed

lemma session_inv_same_data:
  assumes inv: "session_inv se" and st: "statement i se = Some st"
    and f: "statement_ok (max_long_data_size se) (f st)" "data_size (f st) = data_size st"
    and se': "stmts se' = update_entry i f (stmts se)" "total_long_data_size se' = total_long_data_size se"
      "max_long_data_size se' = max_long_data_size se" "max_connection_long_data_size se' = max_connection_long_data_size se"
      "max_prepared_statements se' = max_prepared_statements se"
  shows "session_inv se'"
proof (rule session_inv_update [OF inv st f(1) se'(1) _ se'(3,4,5)])
  show "total_long_data_size se' = total_long_data_size se - data_size st + data_size (f st)"
    using session_inv_statement(2) [OF inv st] se'(2) f(2) by simp
  show "total_long_data_size se' \<le> max_connection_long_data_size se"
    using inv se'(2) by (simp add: session_inv_def tables_ok_def)
qed

lemma statement_ok_simps [simp]:
  "statement_ok n st \<Longrightarrow> length b \<le> unat (params st) \<Longrightarrow> statement_ok n (st\<lparr>bound_types := b\<rparr>)"
  "statement_ok n st \<Longrightarrow> is_variant kind \<Longrightarrow> statement_ok n (st\<lparr>pending_error := Some (kind, msg)\<rparr>)"
  "statement_ok n st \<Longrightarrow> statement_ok n (st\<lparr>cursor_columns := None\<rparr>)"
  "statement_ok n st \<Longrightarrow> statement_ok n (st\<lparr>long_data := []\<rparr>)"
  by (simp_all add: statement_ok_def)

lemma handle_close_inv: "session_inv se \<Longrightarrow> session_inv (handle_close S i se)"
  using tables_ok_remove session_inv_statement(3)
  by (fastforce simp: handle_close_def Let_def statement_def session_inv_def release_long_data_def split: option.split)

lemma handle_send_long_data_inv:
  assumes inv: "session_inv se"
  shows "session_inv (handle_send_long_data i param data se)"
proof (cases "statement i se")
  case None
  with inv show ?thesis by (simp add: handle_send_long_data_def)
next
  case (Some st)
  note ok = session_inv_statement [OF inv Some]
  have fail: "session_inv (fail_statement i kind msg se)" if "is_variant kind" for kind msg
    by (rule session_inv_same_data [OF inv Some, where f = "\<lambda>st. st\<lparr>pending_error := Some (kind, msg)\<rparr>"])
      (use ok that in \<open>simp_all add: fail_statement_def update_statement_def\<close>)
  have kinds: "is_variant ER_WRONG_ARGUMENTS" "is_variant ER_NET_PACKET_TOO_LARGE"
    by (simp_all add: is_variant_def ER_WRONG_ARGUMENTS_def ER_NET_PACKET_TOO_LARGE_def)
  let ?n = "data_size st + length data" and ?t = "total_long_data_size se + length data"
  show ?thesis
  proof (cases "pending_error st = None \<and> param < params st \<and> ?n \<le> max_long_data_size se \<and>
      ?t \<le> max_connection_long_data_size se")
    case True
    let ?f = "\<lambda>st. st\<lparr>long_data := extend_entry param data (long_data st)\<rparr>"
    have d: "distinct (map fst (long_data st))" using ok by (simp add: statement_ok_def)
    note e = extend_entry_facts [OF this, of param data]
    have "?n \<le> usize_max" "?t \<le> usize_max" using True inv by (auto simp: session_inv_def)
    then have "handle_send_long_data i param data se =
        (update_statement i ?f se)\<lparr>total_long_data_size := ?t\<rparr>"
      using True Some ok by (auto simp: handle_send_long_data_def checked_add_def)
    moreover have "session_inv ((update_statement i ?f se)\<lparr>total_long_data_size := ?t\<rparr>)"
      by (rule session_inv_update [OF inv Some, where f = ?f])
        (use ok e True in \<open>auto simp: statement_ok_def update_statement_def data_size_def\<close>)
    ultimately show ?thesis by simp
  next
    case False
    then show ?thesis using Some fail kinds inv ok
      by (auto simp: handle_send_long_data_def checked_add_def split: if_splits)
  qed
qed

lemma with_prepare_inv:
  assumes inv: "session_inv se" and room: "length (stmts se) < max_prepared_statements se"
    and run: "with_prepare B M lift callback se = Ret (Inr x, se')"
  shows "session_inv se'"
proof -
  let ?s = "\<lparr>sm_writer = out se, sm_stmts = stmts se, sm_capabilities = client_capabilities se,
     sm_status_flags = session_flags se, sm_completion = False\<rparr>"
  obtain r s obj where prog: "run_program (prepare_step B M) (callback (shim_state se)) (Held ?s) = Ret ((r, s), obj)"
    and se': "se' = se\<lparr>out := sm_writer (borrowed obj), stmts := sm_stmts (borrowed obj), shim_state := s\<rparr>"
    using run by (auto simp: with_prepare_def Let_def action_simps split: rust.splits prod.splits)
  have "prepare_table (stmts se) obj" by (rule table_api.run_inv [OF _ prog]) simp
  then consider "sm_stmts (borrowed obj) = stmts se"
    | i n where "map_of (stmts se) i = None" "sm_stmts (borrowed obj) = (i, new_statement\<lparr>params := word_of_nat n\<rparr>) # stmts se"
    by (cases obj) auto
  then show ?thesis
  proof cases
    case 1
    with inv show ?thesis by (simp add: se' session_inv_def)
  next
    case (2 i n)
    with inv tables_ok_insert [OF _ room, of _ _ _ i "new_statement\<lparr>params := word_of_nat n\<rparr>"]
    show ?thesis by (auto simp: se' session_inv_def new_statement_def)
  qed
qed

lemma handle_prepare_keeps: "keeps session_inv (handle_prepare B M S q)"
  unfolding keeps_def
proof (intro allI impI)
  fix se x se' assume inv: "session_inv se" and run: "handle_prepare B M S q se = Ret (Inr x, se')"
  note refused = keepsD [OF keeps_io [OF io_action_refuse] inv]
  show "session_inv se'"
  proof (cases "length (stmts se) < max_prepared_statements se \<and> from_utf8 q = None")
    case True
    with run obtain u where "with_prepare B M (from_io S) (on_prepare S q) se = Ret (Inr u, se')"
      by (auto simp: handle_prepare_def action_simps)
    with with_prepare_inv [OF inv] True show ?thesis by blast
  next
    case False
    with run refused show ?thesis by (auto simp: handle_prepare_def split: if_splits option.splits)
  qed
qed

lemma call_execute_columns:
  assumes "call_execute B M C F S i flags ps se = Ret (Inr columns, se')"
  shows "columns \<noteq> Some []"
proof (cases "flags = 1")
  case False
  with assms show ?thesis by (auto simp: call_execute_def action_simps)
next
  case True
  with assms have run: "with_cursor B M (from_io S) (on_execute_cursor S i ps) se = Ret (Inr columns, se')"
    by (simp add: call_execute_def)
  let ?ce = "\<lparr>ce_result = query_new_tracked (out se) True (client_capabilities se) (session_flags se), ce_columns = None\<rparr>"
  obtain r s obj where prog: "run_program (cursor_step B M) (on_execute_cursor S i ps (shim_state se)) (Held ?ce) = Ret ((r, s), obj)"
    and c: "columns = ce_columns (borrowed obj)"
    using run by (auto simp: with_cursor_def Let_def action_simps split: rust.splits prod.splits)
  have "cursor_some obj" by (rule columns_api.run_inv [OF _ prog]) simp
  with c show ?thesis by (cases obj) auto
qed

text \<open>Validation only changes the types of a statement, to at most one for each parameter.\<close>

definition rebinds :: "StatementData \<Rightarrow> StatementData \<Rightarrow> bool" where
  "rebinds st st' \<longleftrightarrow> (\<exists>b. st' = st\<lparr>bound_types := b\<rparr> \<and>
     (length (bound_types st) \<le> unat (params st) \<longrightarrow> length b \<le> unat (params st)))"

lemma bind_types_length: "bind_types M ts bound = (r, bound') \<Longrightarrow> 2 * length bound' \<le> 2 * length bound + length ts"
  by (induction M ts bound arbitrary: bound' rule: bind_types.induct) (fastforce split: sum.splits)+

lemma validate_binding_length:
  assumes "validate_binding M n input bound = (r, bound')" and "length bound \<le> unat n"
  shows "length bound' \<le> unat n"
  using assms bind_types_length [of M "take (2 * unat n) (drop 1 input)" "[]"]
  by (auto simp: validate_binding_def Let_def split: if_splits prod.splits sum.splits)

lemma param_parser_state: "param_parser_new B M payload st = (r, st') \<Longrightarrow> rebinds st st'"
  unfolding rebinds_def using validate_binding_length [of M "params st" "drop (nullmap_len (unat (params st))) payload" "bound_types st"]
  by (cases st) (auto simp: param_parser_new_def validate_def Let_def split: prod.splits sum.splits if_splits)

lemma update_statement_fields [simp]:
  "stmts (update_statement i f se) = update_entry i f (stmts se)"
  "statement i (update_statement i f se) = map_option f (statement i se)"
  "total_long_data_size (update_statement i f se) = total_long_data_size se"
  "max_long_data_size (update_statement i f se) = max_long_data_size se"
  "max_connection_long_data_size (update_statement i f se) = max_connection_long_data_size se"
  "max_prepared_statements (update_statement i f se) = max_prepared_statements se"
  "out (update_statement i f se) = out se" "session_flags (update_statement i f se) = session_flags se"
  "client_capabilities (update_statement i f se) = client_capabilities se"
  "shim_state (update_statement i f se) = shim_state se"
  by (simp_all add: update_statement_def statement_def map_of_update_entry)

lemma release_fields [simp]:
  "stmts (release_long_data n se) = stmts se" "statement i (release_long_data n se) = statement i se"
  "total_long_data_size (release_long_data n se) = total_long_data_size se - n"
  "max_long_data_size (release_long_data n se) = max_long_data_size se"
  "max_connection_long_data_size (release_long_data n se) = max_connection_long_data_size se"
  "max_prepared_statements (release_long_data n se) = max_prepared_statements se"
  "out (release_long_data n se) = out se" "session_flags (release_long_data n se) = session_flags se"
  "client_capabilities (release_long_data n se) = client_capabilities se"
  by (simp_all add: release_long_data_def statement_def)

lemma close_cursor_fields [simp]:
  "stmts (close_cursor S i se) = stmts se" "statement j (close_cursor S i se) = statement j se"
  "total_long_data_size (close_cursor S i se) = total_long_data_size se"
  "max_long_data_size (close_cursor S i se) = max_long_data_size se"
  "max_connection_long_data_size (close_cursor S i se) = max_connection_long_data_size se"
  "max_prepared_statements (close_cursor S i se) = max_prepared_statements se"
  "out (close_cursor S i se) = out se" "session_flags (close_cursor S i se) = session_flags se"
  "client_capabilities (close_cursor S i se) = client_capabilities se"
  by (simp_all add: close_cursor_def statement_def)

lemma update_entry_const_id: "map_of m k = Some u \<Longrightarrow> distinct (map fst m) \<Longrightarrow> f u = g u \<Longrightarrow> update_entry k f m = update_entry k g m"
  using update_entry_const [of m k u f] update_entry_const [of m k u g] by simp

text \<open>How an execution ends, when it does not end the session.\<close>

lemma handle_execute_cases:
  assumes run: "handle_execute B M C F S i flags iterations payload se = Ret (Inr x, se')"
  obtains (refused) kind msg where "refuse B (from_io S) kind msg se = Ret (Inr x, se')"
  | (failed) st kind msg where "statement i se = Some st"
      "reply_out (from_io S) (write_err B kind msg)
         (update_statement i (\<lambda>st. st\<lparr>cursor_columns := None\<rparr>) (close_cursor S i se)) = Ret (Inr x, se')"
  | (malformed) st st' kind msg se1 where "statement i se = Some st" "rebinds (st\<lparr>cursor_columns := None\<rparr>) st'"
      "refuse B (from_io S) kind msg (update_statement i (\<lambda>_. st'\<lparr>long_data := []\<rparr>)
         (update_statement i (\<lambda>st. st\<lparr>cursor_columns := None\<rparr>) (close_cursor S i se))) = Ret (Inr x, se1)"
      "se' = release_long_data (retained_long_data st) se1"
  | (executed) st st' ps columns se1 where "statement i se = Some st" "flags \<le> 1"
      "rebinds (st\<lparr>cursor_columns := None\<rparr>) st'"
      "call_execute B M C F S i flags ps (update_statement i (\<lambda>_. st')
         (update_statement i (\<lambda>st. st\<lparr>cursor_columns := None\<rparr>) (close_cursor S i se))) = Ret (Inr columns, se1)"
      "x = Flush"
      "se' = release_long_data (retained_long_data st) (update_statement i (\<lambda>st. st\<lparr>long_data := []\<rparr>)
         ((if flags = 1 \<and> columns = None then close_cursor S i else id)
           (update_statement i (\<lambda>st. st\<lparr>cursor_columns := columns\<rparr>) se1)))"
proof (cases "flags > 1 \<or> iterations \<noteq> 1")
  case True
  with run refused show ?thesis by (auto simp: handle_execute_def)
next
  case flags: False
  show ?thesis
  proof (cases "statement i se")
    case None
    with run flags refused show ?thesis by (auto simp: handle_execute_def)
  next
    case (Some st)
    show ?thesis
    proof (cases "pending_error st")
      case (Some e)
      with run flags \<open>statement i se = Some st\<close> failed show ?thesis
        by (cases e) (auto simp: handle_execute_def Let_def)
    next
      case None
      obtain r st' where pp: "param_parser_new B M payload (st\<lparr>cursor_columns := None\<rparr>) = (r, st')" by fastforce
      note st' = param_parser_state [OF pp]
      show ?thesis
      proof (cases r)
        case (Inl e)
        let ?r = "refuse B (from_io S) (exec_error_kind e) (ascii ''invalid execute parameters: '' @ show_exec_error e)
            (update_statement i (\<lambda>_. st'\<lparr>long_data := []\<rparr>)
              (update_statement i (\<lambda>st. st\<lparr>cursor_columns := None\<rparr>) (close_cursor S i se)))"
        have "\<exists>se1. ?r = Ret (Inr x, se1) \<and> se' = release_long_data (retained_long_data st) se1"
          using run flags Some None pp Inl by (auto simp: handle_execute_def Let_def action_simps refuse_def)
        with malformed [OF Some st'] show ?thesis by blast
      next
        case (Inr ps)
        from run flags Some None pp Inr show ?thesis
          by (auto simp: handle_execute_def Let_def action_simps not_less intro!: executed [OF Some _ st'])
      qed
    qed
  qed
qed

lemma handle_execute_keeps: "keeps session_inv (handle_execute B M C F S i flags iterations payload)"
  unfolding keeps_def
proof (intro allI impI)
  fix se x se' assume inv: "session_inv se"
    and run: "handle_execute B M C F S i flags iterations payload se = Ret (Inr x, se')"
  have dist: "distinct (map fst (stmts se))" using inv by (simp add: session_inv_def tables_ok_def)
  from run show "session_inv se'"
  proof (cases rule: handle_execute_cases)
    case (refused kind msg)
    with keepsD [OF keeps_io [OF io_action_refuse] inv] show ?thesis by blast
  next
    case (failed st kind msg)
    note io = only_io_fields [OF io_actionD [OF io_action_reply failed(2)]]
    show ?thesis
      by (rule session_inv_same_data [OF inv failed(1), where f = "\<lambda>st. st\<lparr>cursor_columns := None\<rparr>"])
        (use session_inv_statement(1) [OF inv failed(1)] in \<open>simp_all add: io\<close>)
  next
    case (malformed st st' kind msg se1)
    note io = only_io_fields [OF io_actionD [OF io_action_refuse malformed(3)]]
    obtain b where st': "st' = st\<lparr>cursor_columns := None, bound_types := b\<rparr>" "length b \<le> unat (params st)"
      using malformed(2) session_inv_statement(1) [OF inv malformed(1)] by (auto simp: rebinds_def statement_ok_def)
    let ?f = "\<lambda>_. st'\<lparr>long_data := []\<rparr>"
    show ?thesis
      by (rule session_inv_release [OF inv malformed(1), where f = ?f])
        (use session_inv_statement(1) [OF inv malformed(1)] in \<open>simp_all add: io malformed(4) st' comp_def\<close>)
  next
    case (executed st st' ps columns se1)
    note io = only_io_fields [OF io_actionD [OF io_action_execute executed(4)]]
    obtain b where st': "st' = st\<lparr>cursor_columns := None, bound_types := b\<rparr>" "length b \<le> unat (params st)"
      using executed(3) session_inv_statement(1) [OF inv executed(1)] by (auto simp: rebinds_def statement_ok_def)
    have c: "columns \<noteq> Some []" using call_execute_columns [OF executed(4)] .
    let ?f = "\<lambda>_. st'\<lparr>cursor_columns := columns, long_data := []\<rparr>"
    have "statement_ok (max_long_data_size se) (?f st)"
      using c st'(2) session_inv_statement(1) [OF inv executed(1)]
      by (auto simp: st'(1) statement_ok_def data_size_def split: option.splits)
    then show ?thesis
      by (intro session_inv_release [OF inv executed(1), where f = ?f])
        (simp_all add: io executed(6) comp_def data_size_def)
  qed
qed

lemma handle_fetch_keeps: "keeps session_inv (handle_fetch B M C F S i rows)"
  unfolding keeps_def
proof (intro allI impI)
  fix se x se' assume inv: "session_inv se" and run: "handle_fetch B M C F S i rows se = Ret (Inr x, se')"
  show "session_inv se'"
  proof (cases "Option.bind (statement i se) cursor_columns")
    case None
    with run keepsD [OF keeps_io [OF io_action_reply] inv] show ?thesis by (auto simp: handle_fetch_def)
  next
    case (Some columns)
    then obtain st where st: "statement i se = Some st" by (cases "statement i se") auto
    obtain exhausted se1 where f: "with_fetch B M C F (from_io S) columns rows (on_fetch S i rows) se = Ret (Inr exhausted, se1)"
      and se': "se' = (if exhausted then close_cursor S i \<circ> update_statement i (\<lambda>st. st\<lparr>cursor_columns := None\<rparr>) else id) se1"
      using run Some by (auto simp: handle_fetch_def action_simps)
    have io: "only_io se se1" using io_actionD [OF io_action_fetch f] .
    show ?thesis
    proof (cases exhausted)
      case False
      with se' session_inv_io [OF io] inv show ?thesis by simp
    next
      case True
      show ?thesis
        by (rule session_inv_same_data [OF inv st, where f = "\<lambda>st. st\<lparr>cursor_columns := None\<rparr>"])
          (use session_inv_statement(1) [OF inv st] True in \<open>simp_all add: se' only_io_fields [OF io]\<close>)
    qed
  qed
qed

lemma handle_reset_keeps: "keeps session_inv (handle_reset B M S i)"
  unfolding keeps_def
proof (intro allI impI)
  fix se x se' assume inv: "session_inv se" and run: "handle_reset B M S i se = Ret (Inr x, se')"
  show "session_inv se'"
  proof (cases "statement i se")
    case None
    with run keepsD [OF keeps_io [OF io_action_reply] inv] show ?thesis by (auto simp: handle_reset_def)
  next
    case (Some st)
    let ?f = "\<lambda>st. st\<lparr>cursor_columns := None, long_data := [], pending_error := None\<rparr>"
    have "acknowledge B M (from_io S) (release_long_data (retained_long_data st) (update_statement i ?f (close_cursor S i se))) =
        Ret (Inr x, se')" using run Some by (simp add: handle_reset_def)
    note io = only_io_fields [OF io_actionD [OF io_action_acknowledge this]]
    show ?thesis
      by (rule session_inv_release [OF inv Some, where f = ?f])
        (use session_inv_statement(1) [OF inv Some] in \<open>simp_all add: io statement_ok_def data_size_def\<close>)
  qed
qed

lemma fold_close_cursor: "only_io se (fold (close_cursor S) ids se)"
proof (induction ids arbitrary: se)
  case (Cons i ids)
  have "only_io se (close_cursor S i se)" by simp
  with Cons show ?case using only_io_trans by fastforce
qed simp

lemma handle_reset_connection_keeps: "keeps session_inv (handle_reset_connection B M S)"
  unfolding keeps_def
proof (intro allI impI)
  fix se x se' assume inv: "session_inv se" and run: "handle_reset_connection B M S se = Ret (Inr x, se')"
  obtain b s where r: "on_reset_connection S (shim_state se) = (Inr b, s)"
    using run by (cases "on_reset_connection S (shim_state se)"; cases "fst (on_reset_connection S (shim_state se))")
      (auto simp: handle_reset_connection_def)
  show "session_inv se'"
  proof (cases b)
    case False
    with r run have "reply_out (from_io S) (write_err B ER_UNKNOWN_COM_ERROR
        (ascii ''COM_RESET_CONNECTION is not supported by this backend'')) (se\<lparr>shim_state := s\<rparr>) = Ret (Inr x, se')"
      by (simp add: handle_reset_connection_def)
    from io_actionD [OF io_action_reply this] inv show ?thesis
      by (simp add: session_inv_def only_io_fields)
  next
    case True
    let ?se = "(fold (close_cursor S) (map fst (stmts se)) (se\<lparr>shim_state := s\<rparr>))
        \<lparr>stmts := [], total_long_data_size := 0, session_flags := initial_status_flags se\<rparr>"
    have "acknowledge B M (from_io S) ?se = Ret (Inr x, se')"
      using True r run by (simp add: handle_reset_connection_def)
    note io = only_io_fields [OF io_actionD [OF io_action_acknowledge this]]
    note close = only_io_fields [OF fold_close_cursor, of S "map fst (stmts se)" "se\<lparr>shim_state := s\<rparr>"]
    from inv show ?thesis by (simp add: session_inv_def tables_ok_def io close)
  qed
qed

lemma handle_command_keeps: "keeps session_inv (handle_command B M C F S cmd)"
proof (cases cmd)
  case (SendLongData i param data)
  then show ?thesis using handle_send_long_data_inv by (auto simp: keeps_def action_simps)
next
  case (Close i)
  then show ?thesis using handle_close_inv by (auto simp: keeps_def action_simps)
next
  case (Query q)
  have "io_action (handle_query B M C F S q)"
    unfolding io_action_def handle_query_def
    by (auto split: option.splits if_splits simp: action_simps
        intro: io_actionD [OF io_action_refuse] io_actionD [OF io_action_results] io_actionD [OF io_action_init])
  with Query show ?thesis using keeps_io by (simp add: keeps_def)
next
  case (Init schema)
  have "io_action (handle_init B M S schema)"
    unfolding io_action_def handle_init_def
    by (auto split: option.splits simp: action_simps
        intro: io_actionD [OF io_action_refuse] io_actionD [OF io_action_init])
  with Init show ?thesis using keeps_io by (simp add: keeps_def)
next
  case (ListFields q)
  then show ?thesis using keepsD [OF keeps_io [OF io_action_reply]] by (auto simp: keeps_def)
next
  case Ping
  then show ?thesis using keepsD [OF keeps_io [OF io_action_acknowledge]] by (auto simp: keeps_def)
next
  case Quit
  then show ?thesis by (auto simp: keeps_def action_simps)
next
  case (Prepare q)
  then show ?thesis using handle_prepare_keeps [of B M S q] by (simp add: keeps_def)
next
  case (Execute i flags iterations payload)
  then show ?thesis using handle_execute_keeps [of B M C F S i flags iterations payload] by (simp add: keeps_def)
next
  case (Fetch i rows)
  then show ?thesis using handle_fetch_keeps [of B M C F S i rows] by (simp add: keeps_def)
next
  case (Reset i)
  then show ?thesis using handle_reset_keeps [of B M S i] by (simp add: keeps_def)
next
  case ResetConnection
  then show ?thesis using handle_reset_connection_keeps [of B M S] by (simp add: keeps_def)
qed

lemma io_action_after [io_actions]: "io_action (after_command lift c)"
  by (cases c) (auto simp: io_action_def action_simps)

lemma process_packet_keeps: "keeps session_inv (process_packet B M C F N S sq p)"
  unfolding keeps_def
proof (intro allI impI)
  fix se x se' assume inv: "session_inv se" and run: "process_packet B M C F N S sq p se = Ret (Inr x, se')"
  let ?se = "se\<lparr>out := set_seq (sq + 1) (out se)\<rparr>"
  have inv': "session_inv ?se" using inv session_inv_io [of se ?se] by simp
  have first: "first_seq p = 0"
    using run by (auto simp: process_packet_def Let_def action_simps split: if_splits)
  show "session_inv se'"
  proof (cases "parse M N (packet_bytes p)")
    case (Inl e)
    with run first keepsD [OF keeps_io [OF io_action_refuse] inv'] show ?thesis
      by (auto simp: process_packet_def Let_def split: prod.splits)
  next
    case (Inr cmd)
    with run first have "bind_action (handle_command B M C F S (snd cmd)) (after_command (from_io S)) ?se = Ret (Inr x, se')"
      by (auto simp: process_packet_def Let_def split: prod.splits)
    then obtain c se1 where "handle_command B M C F S (snd cmd) ?se = Ret (Inr c, se1)"
      "after_command (from_io S) c se1 = Ret (Inr x, se')" by (auto simp: action_simps)
    with keepsD [OF handle_command_keeps inv'] keepsD [OF keeps_io [OF io_action_after]] show ?thesis by blast
  qed
qed

subsection \<open>The configuration never changes\<close>

definition config :: "'s session \<Rightarrow> u32 \<times> bool \<times> nat option \<times> nat \<times> nat \<times> nat \<times> u16" where
  "config se = (client_capabilities se, process_use_statement_on_query se, read_timeout se, max_long_data_size se,
     max_connection_long_data_size se, max_prepared_statements se, initial_status_flags se)"

lemma config_io: "only_io se se' \<Longrightarrow> config se' = config se"
  by (simp add: config_def only_io_fields)

lemma config_updates [simp]:
  "config (update_statement i f se) = config se" "config (release_long_data n se) = config se"
  "config (close_cursor S i se) = config se" "config (se\<lparr>total_long_data_size := n\<rparr>) = config se"
  "config (se\<lparr>stmts := ts\<rparr>) = config se" "config (se\<lparr>shim_state := s\<rparr>) = config se"
  "config (se\<lparr>session_flags := fl\<rparr>) = config se" "config (se\<lparr>out := w\<rparr>) = config se"
  by (simp_all add: config_def update_statement_def release_long_data_def close_cursor_def)

lemma io_action_config: "io_action m \<Longrightarrow> m se = Ret (Inr x, se') \<Longrightarrow> config se' = config se"
  by (rule config_io [OF io_actionD])

lemmas io_config = io_action_config [OF io_action_reply] io_action_config [OF io_action_acknowledge]
  io_action_config [OF io_action_refuse] io_action_config [OF io_action_execute] io_action_config [OF io_action_fetch]
  io_action_config [OF io_action_results] io_action_config [OF io_action_init] io_action_config [OF io_action_after]

lemma handle_command_config:
  assumes run: "handle_command B M C F S cmd se = Ret (Inr x, se')"
  shows "config se' = config se"
proof (cases cmd)
  case (Execute i flags iterations payload)
  with run have "handle_execute B M C F S i flags iterations payload se = Ret (Inr x, se')" by simp
  then show ?thesis
  proof (cases rule: handle_execute_cases)
    case (executed st st' ps columns se1)
    with io_config(4) [OF executed(4)] show ?thesis by simp
  qed (auto dest: io_config)
next
  case (Fetch i rows)
  with run show ?thesis
    by (auto simp: handle_fetch_def action_simps dest!: io_config split: option.splits if_splits)
next
  case (Prepare q)
  with run show ?thesis
    by (auto simp: handle_prepare_def with_prepare_def Let_def action_simps dest!: io_config
        split: option.splits if_splits rust.splits prod.splits)
next
  case (SendLongData i param data)
  with run show ?thesis
    by (auto simp: handle_send_long_data_def fail_statement_def action_simps split: option.splits)
next
  case (Close i)
  with run show ?thesis by (auto simp: handle_close_def Let_def action_simps split: option.splits)
next
  case (Reset i)
  with run show ?thesis by (auto simp: handle_reset_def dest!: io_config split: option.splits)
next
  case ResetConnection
  have "config (fold (close_cursor S) ids (se\<lparr>shim_state := s\<rparr>)) = config se" for ids s
    using config_io [OF fold_close_cursor, of S ids "se\<lparr>shim_state := s\<rparr>"] by simp
  with ResetConnection run show ?thesis
    by (auto simp: handle_reset_connection_def dest!: io_config split: prod.splits sum.splits bool.splits)
next
  case (Query q)
  with run show ?thesis
    by (auto simp: handle_query_def action_simps dest!: io_config split: option.splits if_splits)
next
  case (Init schema)
  with run show ?thesis
    by (auto simp: handle_init_def action_simps dest!: io_config split: option.splits)
qed (use run in \<open>auto simp: action_simps dest!: io_config\<close>)

lemma process_packet_config:
  assumes run: "process_packet B M C F N S sq p se = Ret (Inr x, se')"
  shows "config se' = config se"
proof -
  have "first_seq p = 0" using run by (auto simp: process_packet_def Let_def action_simps split: if_splits)
  with run show ?thesis
    by (auto simp: process_packet_def Let_def action_simps split: prod.splits sum.splits
        dest!: io_config handle_command_config)
qed

subsection \<open>Reachable sessions\<close>

text \<open>The states between two packets, as long as no error ends the session.\<close>

inductive serves :: "byteorder_ops \<Rightarrow> myc_ops \<Rightarrow> ('d, 'dt) chrono_ops \<Rightarrow> ('d, 'dt) fmt_ops \<Rightarrow>
    Command nom_ops \<Rightarrow> ('s, 'e, 'd, 'dt) shim \<Rightarrow> 's session \<Rightarrow> (u8 \<times> Packet) list \<Rightarrow> 's session \<Rightarrow> bool"
  for B M C F N S se0 where
  idle: "serves B M C F N S se0 [] se0"
| packet: "serves B M C F N S se0 ps se \<Longrightarrow> process_packet B M C F N S sq p se = Ret (Inr c, se') \<Longrightarrow>
    serves B M C F N S se0 (ps @ [(sq, p)]) se'"

lemma serves_inv:
  assumes "serves B M C F N S se0 ps se" and "session_inv se0"
  shows "session_inv se" "config se = config se0"
  using assms(1)
  by (induction rule: serves.induct)
    (use assms(2) in \<open>auto dest: keepsD [OF process_packet_keeps] process_packet_config\<close>)

lemma long_data_served:
  assumes "nom_spec N" and "myc_spec M" and "first_seq p = 0"
    and "packet_bytes p = command_bytes M (SendLongData i param data)" and "fresh (out se)"
  shows "\<exists>w. process_packet B M C F N S sq p se =
    Ret (Inr Continue, (handle_send_long_data i param data (se\<lparr>out := set_seq (sq + 1) (out se)\<rparr>))\<lparr>out := w\<rparr>)"
proof -
  let ?w = "set_seq (sq + 1) (out se)"
  have "writer_reliable ?w" using assms(5) by (simp add: fresh_def set_seq_def)
  from flush_output_reliable [OF this] obtain w where "flush_all ?w = (Inr (), w)" by (auto simp: flush_all_def)
  moreover have "out (handle_send_long_data i param data (se\<lparr>out := ?w\<rparr>)) = ?w"
    by (auto simp: handle_send_long_data_def fail_statement_def split: option.splits)
  ultimately show ?thesis
    using assms(3,4) parse_command_bytes [OF assms(1,2), of "SendLongData i param data"]
    by (intro exI [of _ w]) (simp add: process_packet_def Let_def bind_action_def finish_with_def write_out_def)
qed

subsection \<open>The limits of a connection\<close>

text \<open>C4: whatever a client sends and whatever the backend does, a connection never retains more
  prepared statements, nor more long data per statement or in total, than it is configured to,
  and its counter of long data is always the exact amount retained.\<close>

theorem session_limits:
  assumes "serves B M C F N S se0 ps se" and "stmts se0 = [] \<and> total_long_data_size se0 = 0"
    and "max_long_data_size se0 \<le> usize_max \<and> max_connection_long_data_size se0 \<le> usize_max"
  shows "length (stmts se) \<le> max_prepared_statements se0 \<and>
    total_long_data_size se = table_sum data_size (stmts se) \<and>
    total_long_data_size se \<le> max_connection_long_data_size se0 \<and>
    list_all (\<lambda>(i, st). data_size st \<le> max_long_data_size se0 \<and> (\<forall>k. map_of (long_data st) k \<noteq> None \<longrightarrow> k < params st))
      (stmts se)"
proof -
  have "session_inv se0" using assms(2,3) by (simp add: session_inv_def tables_ok_def)
  from serves_inv [OF assms(1) this] show ?thesis
    unfolding session_inv_def tables_ok_def config_def
    by (force simp: list_all_iff statement_ok_def dest: map_of_SomeD)
qed

definition demo_shim :: "(unit, io_error, 'd, 'dt) shim" where
  "demo_shim = \<lparr>from_io = id, server_version = default_server_version, connect_id = (\<lambda>s. (7, s)),
     default_auth_plugin = default_default_auth_plugin, auth_plugin_for_username = default_auth_plugin_for_username,
     salt = (\<lambda>s. (replicate 20 0x41, s)), authenticate = default_authenticate,
     on_prepare = (\<lambda>q s. Return (Inr (), s)), on_execute = (\<lambda>i ps s. Return (Inr (), s)),
     on_execute_cursor = default_on_execute_cursor id, on_fetch = default_on_fetch id,
     on_close_cursor = default_on_close_cursor, on_close = (\<lambda>i s. s),
     on_reset_connection = default_on_reset_connection, on_query = (\<lambda>q s. Return (Inr (), s)),
     on_system_variable = (\<lambda>n q s. Return (Inr (), s)), on_init = default_on_init id\<rparr>"

definition demo_session :: "unit session" where
  "demo_session = \<lparr>client_capabilities = 0x200, process_use_statement_on_query = False,
     reject_connection_on_dbname_absence = False, read_timeout = None, auth_timeout = None,
     max_long_data_size = 10, max_connection_long_data_size = 15, max_prepared_statements = 2, session_flags = 2,
     initial_status_flags = 2, shim_state = (), out = new_writer demo_sink, stmts = [], total_long_data_size = 0\<rparr>"

lemma demo_session_fresh: "fresh (out demo_session)"
  using demo_sink_ready by (simp add: demo_session_def fresh_def)

definition demo_long_packet :: Packet where
  "demo_long_packet = \<lparr>packet_bytes = command_bytes myc_ref (SendLongData 7 0 [1, 2]), first_seq = 0\<rparr>"

lemma demo_served:
  "\<exists>se. serves byteorder_ref myc_ref chrono_ref fmt_none nom_ref demo_shim demo_session [(0, demo_long_packet)] se"
proof -
  have "first_seq demo_long_packet = 0" "packet_bytes demo_long_packet = command_bytes myc_ref (SendLongData 7 0 [1, 2])"
    by (simp_all add: demo_long_packet_def)
  from long_data_served [OF nom_ref_spec myc_ref_spec this demo_session_fresh]
  show ?thesis using serves.packet [OF serves.idle, of byteorder_ref myc_ref chrono_ref fmt_none nom_ref demo_shim 0
      demo_long_packet demo_session] by fastforce
qed

theorem session_limits_witness:
  "\<exists>se. serves byteorder_ref myc_ref chrono_ref fmt_none nom_ref demo_shim demo_session [(0, demo_long_packet)] se \<and>
     length (stmts se) \<le> 2 \<and> total_long_data_size se = table_sum data_size (stmts se)"
proof -
  obtain se where se: "serves byteorder_ref myc_ref chrono_ref fmt_none nom_ref demo_shim demo_session [(0, demo_long_packet)] se"
    using demo_served by blast
  from session_limits [OF this] show ?thesis using se by (auto simp: demo_session_def usize_max_def)
qed

end
