(* ===== verification/Serving.thy ===== *)
theory Serving
  imports SessionTables
begin

text \<open>
  What a client receives for its commands. The abstract specification says which packets answer
  which command; the session refines it: as long as a session goes on, each command has been
  answered by exactly one answer, with the sequence numbers following the command's, whatever
  the backend did.
\<close>

subsection \<open>The specification\<close>

fun silent :: "Command \<Rightarrow> bool" where
  "silent (Close i) = True"
| "silent (SendLongData i param data) = True"
| "silent Quit = True"
| "silent _ = False"

inductive answer :: "byteorder_ops \<Rightarrow> myc_ops \<Rightarrow> u32 \<Rightarrow> Command \<Rightarrow> bytes list \<Rightarrow> bool" for B M caps where
  no_answer: "silent cmd \<Longrightarrow> answer B M caps cmd []"
| error_answer: "\<not> silent cmd \<Longrightarrow> answer B M caps cmd [err_payload kind msg]"
| query_answer: "response_answer B M caps False ps \<Longrightarrow> answer B M caps (Query q) ps"
| ok_answer: "cmd \<in> {Query q, Init q, Reset i, Ping, ResetConnection} \<Longrightarrow> answer B M caps cmd [ok_payload B M caps ok]"
| prepare_answer: "length ps \<le> 65535 \<Longrightarrow> length cs \<le> 65535 \<Longrightarrow>
    answer B M caps (Prepare q) (prepare_packets B M i ps cs caps status)"
| execute_answer: "response_answer B M caps True ps \<Longrightarrow> answer B M caps (Execute i 0 n payload) ps"
| cursor_answer: "columns \<noteq> [] \<Longrightarrow> length columns \<le> 65535 \<Longrightarrow> length metadata = length columns \<Longrightarrow>
    contains status (status_bits M SERVER_STATUS_CURSOR_EXISTS) \<Longrightarrow>
    answer B M caps (Execute i 1 n payload) (cursor_packets B M caps (zip columns metadata) status)"
| fetch_answer: "fetched B M caps (unat rows) exhausted ps \<Longrightarrow> answer B M caps (Fetch i rows) ps"
| fields_answer: "answer B M caps (ListFields q) [eof_payload status]"

text \<open>The answer to a packet: an error when it is not a command.\<close>

inductive packet_answer :: "byteorder_ops \<Rightarrow> myc_ops \<Rightarrow> Command nom_ops \<Rightarrow> u32 \<Rightarrow> bytes \<Rightarrow> bytes list \<Rightarrow> bool"
  for B M N caps where
  understood: "parse M N payload = Inr (rest, cmd) \<Longrightarrow> answer B M caps cmd ps \<Longrightarrow> packet_answer B M N caps payload ps"
| not_understood: "parse M N payload = Inl e \<Longrightarrow> command_parse_error M payload = (kind, msg) \<Longrightarrow>
    packet_answer B M N caps payload [err_payload kind msg]"

subsection \<open>Actions that deliver packets\<close>

text \<open>
  \<open>yields P m\<close>: on a transport that only fragments, an action that does not end the session
  delivers packets that satisfy \<open>P\<close> for its result.
\<close>

definition yields :: "('s session \<Rightarrow> 'a \<Rightarrow> bytes list \<Rightarrow> bool) \<Rightarrow> ('s, 'e, 'a) action \<Rightarrow> bool" where
  "yields P m \<longleftrightarrow> (\<forall>se x se'. fresh (out se) \<longrightarrow> m se = Ret (Inr x, se') \<longrightarrow>
     (\<exists>ps. P se x ps \<and> delivered (out se) ps (out se')))"

lemma yieldsD: "yields P m \<Longrightarrow> fresh (out se) \<Longrightarrow> m se = Ret (Inr x, se') \<Longrightarrow> \<exists>ps. P se x ps \<and> delivered (out se) ps (out se')"
  by (simp add: yields_def)

lemma delivered_flush:
  assumes "delivered w ps v" and "flush_all v = (Inr (), v')"
  shows "delivered w ps v'"
proof -
  have "delivered v [] v'"
    using deliver [OF delivered_ready [OF assms(1)] emits_flush reliable_flush] assms(2) by (simp add: flush_all_def)
  from delivered_append [OF assms(1) this] show ?thesis by simp
qed

lemma yields_refuse:
  assumes "byteorder_spec B"
  shows "yields (\<lambda>se x ps. x = Continue \<and> ps = [err_payload kind msg]) (refuse B lift kind msg)"
  unfolding yields_def
proof (intro allI impI)
  fix se x se' assume w: "fresh (out se)" and run: "refuse B lift kind msg se = Ret (Inr x, se')"
  then obtain v where v: "write_err B kind msg (out se) = (Inr (), v)" "flush_all v = (Inr (), out se')" "x = Continue"
    by (auto simp: refuse_def action_simps)
  from delivered_flush [OF deliver_err [OF w assms v(1)] v(2)] v(3)
  show "\<exists>ps. (x = Continue \<and> ps = [err_payload kind msg]) \<and> delivered (out se) ps (out se')" by blast
qed

lemma yields_reply_err:
  assumes "byteorder_spec B"
  shows "yields (\<lambda>se x ps. x = Flush \<and> ps = [err_payload kind msg]) (reply_out lift (write_err B kind msg))"
  using deliver_err [OF _ assms] by (auto simp: yields_def reply_out_def action_simps)

lemma yields_reply_eof:
  assumes "byteorder_spec B"
  shows "yields (\<lambda>se x ps. x = Flush \<and> ps = [eof_payload status]) (reply_out lift (write_eof_packet B status))"
  using deliver [OF _ eof_emits(1) [OF assms] reliable_eof_packet] by (auto simp: yields_def reply_out_def action_simps)

lemma yields_acknowledge:
  assumes "byteorder_spec B"
  shows "yields (\<lambda>se x ps. x = Flush \<and> ps = [ok_payload B M (client_capabilities se) (default_ok\<lparr>ok_status_flags := session_flags se\<rparr>)])
    (acknowledge B M lift)"
  using deliver_ok [OF _ assms] by (auto simp: yields_def acknowledge_def reply_out_def action_simps)

lemma yields_results:
  assumes "byteorder_spec B" and "myc_spec M"
  shows "yields (\<lambda>se x ps. response_answer B M (client_capabilities se) bin ps) (with_results B M C F lift bin command callback)"
  unfolding yields_def
proof (intro allI impI)
  fix se x se' assume w: "fresh (out se)" and run: "with_results B M C F lift bin command callback se = Ret (Inr x, se')"
  let ?q = "query_new_tracked (out se) bin (client_capabilities se) (session_flags se)"
  obtain r s rsp where prog: "run_program (respond B M C F) (callback (shim_state se)) (Idle ?q) = Ret ((r, s), rsp)"
    and c: "completion (response_writer rsp)" and se': "se' = give_back (response_writer rsp) s se"
    using run by (auto simp: with_results_def action_simps split: rust.splits prod.splits)
  have "response_inv B M (client_capabilities se) bin (out se) (Idle ?q)"
    using new_response_inv w by (auto simp: fresh_def)
  with response_api.run_inv [OF _ prog] assms
  have "response_inv B M (client_capabilities se) bin (out se) rsp" by blast
  from response_inv_answer [OF this c]
  show "\<exists>ps. response_answer B M (client_capabilities se) bin ps \<and> delivered (out se) ps (out se')"
    by (simp add: se' give_back_def)
qed

text \<open>What the client has been told is what the session takes the callback's answer for.\<close>

fun told :: "byteorder_ops \<Rightarrow> myc_ops \<Rightarrow> u32 \<Rightarrow> InitResponse \<Rightarrow> bytes list \<Rightarrow> bool" where
  "told B M caps Pending ps = False"
| "told B M caps InitOk ps = (\<exists>ok. ps = [ok_payload B M caps ok])"
| "told B M caps InitError ps = (\<exists>kind msg. ps = [err_payload kind msg])"

lemma yields_init_told:
  assumes "byteorder_spec B"
  shows "yields (\<lambda>se. told B M (client_capabilities se)) (with_init B M lift command callback)"
  unfolding yields_def
proof (intro allI impI)
  fix se x se' assume w: "fresh (out se)" and run: "with_init B M lift command callback se = Ret (Inr x, se')"
  let ?i = "init_new_tracked (out se) (client_capabilities se) (session_flags se)"
  obtain r s obj where prog: "run_program (init_step B M) (callback (shim_state se)) (Held ?i) = Ret ((r, s), obj)"
    and c: "init_response (iw_completion (borrowed obj)) command = Inr x" and se': "out se' = iw_writer (borrowed obj)"
    using run by (auto simp: with_init_def Let_def action_simps split: rust.splits prod.splits)
  have "init_inv B M (client_capabilities se) (out se) obj"
    by (rule init_api.run_inv [OF _ prog]) (use assms w in \<open>simp add: init_new_tracked_def\<close>)
  then show "\<exists>ps. told B M (client_capabilities se) x ps \<and> delivered (out se) ps (out se')"
  proof (cases obj)
    case (Held i)
    with \<open>init_inv B M (client_capabilities se) (out se) obj\<close> c show ?thesis by simp
  next
    case (Consumed i)
    note inv = \<open>init_inv B M (client_capabilities se) (out se) obj\<close>
    show ?thesis
    proof (cases "iw_completion i")
      case Pending
      with c Consumed show ?thesis by simp
    next
      case InitOk
      with inv Consumed se' obtain ok where "delivered (out se) [ok_payload B M (client_capabilities se) ok] (out se')" by auto
      moreover have "x = InitOk" using c Consumed InitOk by simp
      ultimately show ?thesis by auto
    next
      case InitError
      with inv Consumed se' obtain kind msg where "delivered (out se) [err_payload kind msg] (out se')" by auto
      moreover have "x = InitError" using c Consumed InitError by simp
      ultimately show ?thesis by auto
    qed
  qed
qed

lemma yields_init:
  assumes "byteorder_spec B"
  shows "yields (\<lambda>se x ps. simple_answer B M (client_capabilities se) ps) (with_init B M lift command callback)"
proof -
  have "told B M caps x ps \<Longrightarrow> simple_answer B M caps ps" for caps x ps
    by (cases x) (auto intro: acknowledged refused)
  then show ?thesis using yields_init_told [OF assms] unfolding yields_def by blast
qed

lemma yields_prepare:
  assumes "byteorder_spec B"
  shows "yields (\<lambda>se x ps. answer B M (client_capabilities se) (Prepare q) ps) (with_prepare B M lift callback)"
  unfolding yields_def
proof (intro allI impI)
  fix se x se' assume w: "fresh (out se)" and run: "with_prepare B M lift callback se = Ret (Inr x, se')"
  let ?s = "\<lparr>sm_writer = out se, sm_stmts = stmts se, sm_capabilities = client_capabilities se,
     sm_status_flags = session_flags se, sm_completion = False\<rparr>"
  obtain r s obj where prog: "run_program (prepare_step B M) (callback (shim_state se)) (Held ?s) = Ret ((r, s), obj)"
    and c: "sm_completion (borrowed obj)" and se': "out se' = sm_writer (borrowed obj)"
    using run by (auto simp: with_prepare_def Let_def action_simps split: rust.splits prod.splits)
  have "prepare_inv B M (client_capabilities se) (session_flags se) (out se) (stmts se) obj"
    by (rule prepare_api.run_inv [OF _ prog]) (use assms w in simp)
  then show "\<exists>ps. answer B M (client_capabilities se) (Prepare q) ps \<and> delivered (out se) ps (out se')"
  proof (cases obj)
    case (Held sm)
    with \<open>prepare_inv _ _ _ _ _ _ obj\<close> c show ?thesis by simp
  next
    case (Consumed sm)
    with \<open>prepare_inv _ _ _ _ _ _ obj\<close> c consider
        (prepared) i n where "prepared B M (client_capabilities se) (session_flags se) (out se) (stmts se) i n (sm_writer sm) (sm_stmts sm)"
      | (err) kind msg where "delivered (out se) [err_payload kind msg] (sm_writer sm)" by auto
    then show ?thesis
    proof cases
      case (prepared i n)
      then obtain ps cs where "length ps \<le> 65535" "length cs \<le> 65535"
        "delivered (out se) (prepare_packets B M i ps cs (client_capabilities se) (session_flags se)) (sm_writer sm)"
        by (auto simp: prepared_def)
      with Consumed se' prepare_answer show ?thesis by fastforce
    next
      case (err kind msg)
      with Consumed se' error_answer [of "Prepare q" B M "client_capabilities se" kind msg] show ?thesis by auto
    qed
  qed
qed

lemma yields_cursor:
  assumes "byteorder_spec B" and "myc_spec M"
  shows "yields (\<lambda>se x ps. answer B M (client_capabilities se) (Execute i 1 n payload) ps) (with_cursor B M lift callback)"
  unfolding yields_def
proof (intro allI impI)
  fix se x se' assume w: "fresh (out se)" and run: "with_cursor B M lift callback se = Ret (Inr x, se')"
  let ?ce = "\<lparr>ce_result = query_new_tracked (out se) True (client_capabilities se) (session_flags se), ce_columns = None\<rparr>"
  obtain r s obj where prog: "run_program (cursor_step B M) (callback (shim_state se)) (Held ?ce) = Ret ((r, s), obj)"
    and c: "completion (ce_result (borrowed obj))" and se': "out se' = q_writer (ce_result (borrowed obj))"
    using run by (auto simp: with_cursor_def Let_def action_simps give_back_def split: rust.splits prod.splits)
  have inv: "cursor_inv B M (client_capabilities se) (out se) obj"
    by (rule cursor_api.run_inv [OF _ prog]) (use assms w in simp)
  show "\<exists>ps. answer B M (client_capabilities se) (Execute i 1 n payload) ps \<and> delivered (out se) ps (out se')"
  proof (cases obj)
    case (Held ce)
    with inv c show ?thesis by (simp add: untouched_def)
  next
    case (Consumed ce)
    show ?thesis
    proof (cases "ce_columns ce")
      case None
      with inv c Consumed se' obtain kind msg where "delivered (out se) [err_payload kind msg] (out se')" by auto
      with error_answer [of "Execute i 1 n payload" B M "client_capabilities se" kind msg] show ?thesis by auto
    next
      case (Some columns)
      with inv c Consumed se' have "opened B M (client_capabilities se) (out se) columns (out se')" by simp
      with cursor_answer show ?thesis unfolding opened_def by blast
    qed
  qed
qed

lemma yields_fetch:
  assumes "byteorder_spec B" and "myc_spec M" and "columns \<noteq> []"
  shows "yields (\<lambda>se x ps. fetched B M (client_capabilities se) (unat rows) x ps) (with_fetch B M C F lift columns rows callback)"
  unfolding yields_def
proof (intro allI impI)
  fix se x se' assume w: "fresh (out se)" and run: "with_fetch B M C F lift columns rows callback se = Ret (Inr x, se')"
  let ?cf = "fetch_new (query_new_tracked (out se) True (client_capabilities se) (session_flags se)) columns rows"
  obtain r s obj where prog: "run_program (fetch_step B M C F) (callback (shim_state se)) (Held ?cf) = Ret ((r, s), obj)"
    and c: "completion (rw_result (cf_rows (borrowed obj)))" and x: "x = cf_exhausted (borrowed obj)"
    and se': "out se' = q_writer (rw_result (cf_rows (borrowed obj)))"
    using run by (auto simp: with_fetch_def Let_def action_simps give_back_def split: rust.splits prod.splits)
  have "fetch_inv B M (client_capabilities se) columns (unat rows) (out se) (Held ?cf)"
    by (rule fetch_new_inv) (use assms w in simp_all)
  from fetch_api.run_inv [OF this prog]
  show "\<exists>ps. fetched B M (client_capabilities se) (unat rows) x ps \<and> delivered (out se) ps (out se')"
    using c x se' by (cases obj) (auto simp: fetch_row_def untouched_def)
qed

subsection \<open>Every handler answers its command\<close>

text \<open>\<open>answered cmd se se'\<close>: between the two states exactly one answer to the command has been sent.\<close>

definition answered :: "byteorder_ops \<Rightarrow> myc_ops \<Rightarrow> Command \<Rightarrow> 's session \<Rightarrow> 's session \<Rightarrow> bool" where
  "answered B M cmd se se' \<longleftrightarrow> (\<exists>ps. answer B M (client_capabilities se) cmd ps \<and> delivered (out se) ps (out se'))"

lemma answeredI: "answer B M (client_capabilities se) cmd ps \<Longrightarrow> delivered (out se) ps (out se') \<Longrightarrow> answered B M cmd se se'"
  unfolding answered_def by blast

lemma answered_same:
  "answered B M cmd se1 se2 \<Longrightarrow> client_capabilities se1 = client_capabilities se \<Longrightarrow> out se1 = out se \<Longrightarrow>
   out se2 = out se' \<Longrightarrow> answered B M cmd se se'"
  by (simp add: answered_def)

lemma refuse_answers:
  assumes B: "byteorder_spec B" and "\<not> silent cmd" "fresh (out se)" "refuse B lift kind msg se = Ret (Inr x, se')"
  shows "answered B M cmd se se'"
  using yieldsD [OF yields_refuse [OF B] assms(3,4)] answeredI [OF error_answer [OF assms(2)]] by blast

lemma reply_err_answers:
  assumes B: "byteorder_spec B" and "\<not> silent cmd" "fresh (out se)"
    and "reply_out lift (write_err B kind msg) se = Ret (Inr x, se')"
  shows "answered B M cmd se se'"
  using yieldsD [OF yields_reply_err [OF B] assms(3,4)] answeredI [OF error_answer [OF assms(2)]] by blast

lemma acknowledge_answers:
  assumes B: "byteorder_spec B" and "cmd \<in> {Reset i, Ping, ResetConnection}" "fresh (out se)"
    and "acknowledge B M lift se = Ret (Inr x, se')"
  shows "answered B M cmd se se'"
  using yieldsD [OF yields_acknowledge [OF B] assms(3,4)] answeredI [OF ok_answer [where cmd = cmd and i = i]] assms(2) by blast

lemma results_answer:
  assumes B: "byteorder_spec B" and M: "myc_spec M" and w: "fresh (out se)" and run: "with_results B M C F lift bin command callback se = Ret (Inr x, se')"
    and ans: "\<And>ps. response_answer B M (client_capabilities se) bin ps \<Longrightarrow> answer B M (client_capabilities se) cmd ps"
  shows "answered B M cmd se se'"
  using yieldsD [OF yields_results [OF B M] w run] ans answeredI by blast

lemma init_answer:
  assumes B: "byteorder_spec B" and w: "fresh (out se)" and run: "with_init B M lift command callback se = Ret (Inr x, se')"
    and cmd: "cmd \<in> {Query q, Init q}"
  shows "answered B M cmd se se'"
proof -
  obtain ps where ps: "simple_answer B M (client_capabilities se) ps" "delivered (out se) ps (out se')"
    using yieldsD [OF yields_init [OF B] w run] by blast
  from ps(1) have "answer B M (client_capabilities se) cmd ps"
    using cmd by cases (auto intro: error_answer ok_answer)
  with ps(2) show ?thesis by (rule answeredI [rotated])
qed

lemma handle_query_answers:
  assumes B: "byteorder_spec B" and M: "myc_spec M" and w: "fresh (out se)" and run: "handle_query B M C F S q se = Ret (Inr x, se')"
  shows "answered B M (Query q) se se'"
  using run w
  by (auto simp: handle_query_def action_simps split: option.splits if_splits
      intro: refuse_answers [OF B _ w] results_answer [OF B M w] init_answer [OF B w] query_answer)

lemma handle_prepare_answers:
  assumes B: "byteorder_spec B" and M: "myc_spec M" and w: "fresh (out se)" and run: "handle_prepare B M S q se = Ret (Inr x, se')"
  shows "answered B M (Prepare q) se se'"
proof (cases "length (stmts se) \<ge> max_prepared_statements se \<or> from_utf8 q \<noteq> None")
  case True
  with run show ?thesis
    by (auto simp: handle_prepare_def split: option.splits if_splits intro: refuse_answers [OF B _ w])
next
  case False
  with run obtain u where "with_prepare B M (from_io S) (on_prepare S q) se = Ret (Inr u, se')"
    by (auto simp: handle_prepare_def action_simps)
  from yieldsD [OF yields_prepare [OF B] w this] show ?thesis using answeredI by blast
qed

lemma call_execute_answers:
  assumes B: "byteorder_spec B" and M: "myc_spec M" and w: "fresh (out se)" and fl: "flags \<le> 1"
    and run: "call_execute B M C F S i flags ps se = Ret (Inr columns, se')"
  shows "answered B M (Execute i flags n payload) se se'"
proof (cases "flags = 1")
  case True
  with run have "with_cursor B M (from_io S) (on_execute_cursor S i ps) se = Ret (Inr columns, se')"
    by (simp add: call_execute_def)
  from yieldsD [OF yields_cursor [OF B M] w this] True show ?thesis using answeredI by blast
next
  case False
  then have "unat flags = 0" using fl by (simp add: word_le_nat_alt word_unat_eq_iff)
  then have "flags = 0" by (simp add: word_unat_eq_iff)
  with run show ?thesis
    by (auto simp: call_execute_def action_simps intro: results_answer [OF B M w] execute_answer)
qed

lemma handle_execute_answers:
  assumes B: "byteorder_spec B" and M: "myc_spec M" and w: "fresh (out se)" and run: "handle_execute B M C F S i flags iterations payload se = Ret (Inr x, se')"
  shows "answered B M (Execute i flags iterations payload) se se'"
  using run
proof (cases rule: handle_execute_cases)
  case (refused kind msg)
  show ?thesis by (rule refuse_answers [OF B _ w refused]) simp
next
  case (failed st kind msg)
  let ?se = "update_statement i (\<lambda>st. st\<lparr>cursor_columns := None\<rparr>) (close_cursor S i se)"
  have "answered B M (Execute i flags iterations payload) ?se se'"
    by (rule reply_err_answers [OF B _ _ failed(2)]) (use w in simp_all)
  then show ?thesis by (rule answered_same) simp_all
next
  case (malformed st st' kind msg se1)
  have "answered B M (Execute i flags iterations payload) (update_statement i (\<lambda>_. st'\<lparr>long_data := []\<rparr>)
         (update_statement i (\<lambda>st. st\<lparr>cursor_columns := None\<rparr>) (close_cursor S i se))) se1"
    by (rule refuse_answers [OF B _ _ malformed(3)]) (use w in simp_all)
  then show ?thesis by (rule answered_same) (simp_all add: malformed(4))
next
  case (executed st st' ps columns se1)
  have "answered B M (Execute i flags iterations payload) (update_statement i (\<lambda>_. st')
         (update_statement i (\<lambda>st. st\<lparr>cursor_columns := None\<rparr>) (close_cursor S i se))) se1"
    by (rule call_execute_answers [OF B M _ executed(2,4)]) (use w in simp)
  then show ?thesis by (rule answered_same) (simp_all add: executed(6))
qed

lemma handle_fetch_answers:
  assumes B: "byteorder_spec B" and M: "myc_spec M" and w: "fresh (out se)" and inv: "session_inv se" and run: "handle_fetch B M C F S i rows se = Ret (Inr x, se')"
  shows "answered B M (Fetch i rows) se se'"
proof (cases "Option.bind (statement i se) cursor_columns")
  case None
  with run show ?thesis by (auto simp: handle_fetch_def intro: reply_err_answers [OF B _ w])
next
  case (Some columns)
  then obtain st where st: "statement i se = Some st" "cursor_columns st = Some columns" by (cases "statement i se") auto
  then have ne: "columns \<noteq> []" using session_inv_statement(1) [OF inv st(1)] by (simp add: statement_ok_def)
  obtain exhausted se1 where f: "with_fetch B M C F (from_io S) columns rows (on_fetch S i rows) se = Ret (Inr exhausted, se1)"
    and se': "out se' = out se1"
    using run Some by (auto simp: handle_fetch_def action_simps)
  from yieldsD [OF yields_fetch [OF B M ne] w f] se' show ?thesis using answeredI [OF fetch_answer] by (metis answered_same)
qed

lemma handle_reset_answers:
  assumes B: "byteorder_spec B" and w: "fresh (out se)" and run: "handle_reset B M S i se = Ret (Inr x, se')"
  shows "answered B M (Reset i) se se'"
proof (cases "statement i se")
  case None
  with run show ?thesis by (auto simp: handle_reset_def intro: reply_err_answers [OF B _ w])
next
  case (Some st)
  let ?se = "release_long_data (retained_long_data st) (update_statement i
      (\<lambda>st. st\<lparr>cursor_columns := None, long_data := [], pending_error := None\<rparr>) (close_cursor S i se))"
  have "acknowledge B M (from_io S) ?se = Ret (Inr x, se')" using run Some by (simp add: handle_reset_def)
  then have "answered B M (Reset i) ?se se'" by (rule acknowledge_answers [OF B, rotated 2]) (use w in simp_all)
  then show ?thesis by (rule answered_same) simp_all
qed

lemma handle_reset_connection_answers:
  assumes B: "byteorder_spec B" and w: "fresh (out se)" and run: "handle_reset_connection B M S se = Ret (Inr x, se')"
  shows "answered B M ResetConnection se se'"
proof -
  obtain b s where r: "on_reset_connection S (shim_state se) = (Inr b, s)"
    using run by (cases "on_reset_connection S (shim_state se)"; cases "fst (on_reset_connection S (shim_state se))")
      (auto simp: handle_reset_connection_def)
  show ?thesis
  proof (cases b)
    case False
    with r run have "reply_out (from_io S) (write_err B ER_UNKNOWN_COM_ERROR
        (ascii ''COM_RESET_CONNECTION is not supported by this backend'')) (se\<lparr>shim_state := s\<rparr>) = Ret (Inr x, se')"
      by (simp add: handle_reset_connection_def)
    then have "answered B M ResetConnection (se\<lparr>shim_state := s\<rparr>) se'"
      by (rule reply_err_answers [OF B, rotated 2]) (use w in simp_all)
    then show ?thesis by (rule answered_same) simp_all
  next
    case True
    let ?f = "fold (close_cursor S) (map fst (stmts se)) (se\<lparr>shim_state := s\<rparr>)"
    let ?se = "?f\<lparr>stmts := [], total_long_data_size := 0, session_flags := initial_status_flags se\<rparr>"
    have o: "out (fold (close_cursor S) ids se) = out se" for ids se
      by (induction ids arbitrary: se) simp_all
    have "client_capabilities ?f = client_capabilities se"
      using only_io_fields(6) [OF fold_close_cursor, of S "map fst (stmts se)" "se\<lparr>shim_state := s\<rparr>"] by simp
    moreover have "acknowledge B M (from_io S) ?se = Ret (Inr x, se')"
      using True r run by (simp add: handle_reset_connection_def)
    then have "answered B M ResetConnection ?se se'"
      by (rule acknowledge_answers [OF B, rotated 2]) (use w in \<open>simp_all add: o\<close>)
    ultimately show ?thesis by (elim answered_same) (simp_all add: o)
  qed
qed

lemma handle_command_answers:
  assumes B: "byteorder_spec B" and M: "myc_spec M" and w: "fresh (out se)" and inv: "session_inv se" and run: "handle_command B M C F S cmd se = Ret (Inr x, se')"
  shows "answered B M cmd se se'"
proof (cases cmd)
  case (SendLongData i param data)
  have "out (handle_send_long_data i param data se) = out se"
    by (auto simp: handle_send_long_data_def fail_statement_def split: option.splits)
  with SendLongData run show ?thesis
    by (auto simp: action_simps intro!: answeredI no_answer delivered_refl w)
next
  case (Close i)
  have "out (handle_close S i se) = out se" by (auto simp: handle_close_def Let_def split: option.splits)
  with Close run show ?thesis by (auto simp: action_simps intro!: answeredI no_answer delivered_refl w)
next
  case Quit
  with run show ?thesis by (auto simp: action_simps intro!: answeredI no_answer delivered_refl w)
next
  case (ListFields q)
  with run have "reply_out (from_io S) (write_eof_packet B (session_flags se)) se = Ret (Inr x, se')" by simp
  from yieldsD [OF yields_reply_eof [OF B] w this] ListFields show ?thesis by (auto intro: answeredI fields_answer)
next
  case Ping
  with run show ?thesis by (auto intro: acknowledge_answers [OF B _ w])
next
  case (Init schema)
  with run w show ?thesis
    by (auto simp: handle_init_def action_simps split: option.splits
        intro: refuse_answers [OF B _ w] init_answer [OF B w])
qed (use run in \<open>auto intro: handle_query_answers [OF B M w] handle_prepare_answers [OF B M w]
      handle_execute_answers [OF B M w] handle_fetch_answers [OF B M w inv] handle_reset_answers [OF B w]
      handle_reset_connection_answers [OF B w]\<close>)

subsection \<open>Whole packets\<close>

lemma set_seq_simps [simp]:
  "fresh (set_seq n w) = fresh w" "wire (set_seq n w) = wire w" "seq (packet_builder (set_seq n w)) = n"
  "max_packet_size (packet_builder (set_seq n w)) = max_packet_size (packet_builder w)"
  by (simp_all add: fresh_def set_seq_def ready_def writer_reliable_def has_timeout_def)

lemma process_packet_answers:
  assumes B: "byteorder_spec B" and M: "myc_spec M" and w: "fresh (out se)" and inv: "session_inv se"
    and run: "process_packet B M C F N S sq p se = Ret (Inr x, se')"
  shows "first_seq p = 0 \<and> (\<exists>ps. packet_answer B M N (client_capabilities se) (packet_bytes p) ps \<and>
    delivered (set_seq (sq + 1) (out se)) ps (out se'))"
proof
  let ?se = "se\<lparr>out := set_seq (sq + 1) (out se)\<rparr>"
  have w': "fresh (out ?se)" and inv': "session_inv ?se" using w inv session_inv_io [of se ?se] by simp_all
  show first: "first_seq p = 0"
    using run by (auto simp: process_packet_def Let_def action_simps split: if_splits)
  show "\<exists>ps. packet_answer B M N (client_capabilities se) (packet_bytes p) ps \<and>
    delivered (set_seq (sq + 1) (out se)) ps (out se')"
  proof (cases "parse M N (packet_bytes p)")
    case (Inl e)
    obtain kind msg where k: "command_parse_error M (packet_bytes p) = (kind, msg)" by fastforce
    with run first Inl have "refuse B (from_io S) kind msg ?se = Ret (Inr x, se')"
      by (simp add: process_packet_def Let_def)
    from yieldsD [OF yields_refuse [OF B] w' this] not_understood [OF Inl k] show ?thesis by auto
  next
    case (Inr y)
    obtain rest cmd where y: "y = (rest, cmd)" by fastforce
    with run first Inr obtain c se1 where h: "handle_command B M C F S cmd ?se = Ret (Inr c, se1)"
      and a: "after_command (from_io S) c se1 = Ret (Inr x, se')"
      by (auto simp: process_packet_def Let_def action_simps)
    obtain ps where ps: "answer B M (client_capabilities se) cmd ps" "delivered (set_seq (sq + 1) (out se)) ps (out se1)"
      using handle_command_answers [OF B M w' inv' h] by (auto simp: answered_def)
    have "delivered (set_seq (sq + 1) (out se)) ps (out se')"
      using a delivered_flush [OF ps(2)] ps(2) by (cases c) (auto simp: action_simps)
    with understood [OF Inr [unfolded y] ps(1)] show ?thesis by blast
  qed
qed

text \<open>
  A conversation, as the bytes the server sends: after each command its answer, numbered from the
  sequence number after the command's last frame.
\<close>

inductive conversation :: "byteorder_ops \<Rightarrow> myc_ops \<Rightarrow> Command nom_ops \<Rightarrow> u32 \<Rightarrow> (u8 \<times> Packet) list \<Rightarrow> bytes \<Rightarrow> bool"
  for B M N caps where
  nothing_said: "conversation B M N caps [] []"
| turn: "conversation B M N caps qs said \<Longrightarrow> first_seq p = 0 \<Longrightarrow>
    packet_answer B M N caps (packet_bytes p) ps \<Longrightarrow>
    conversation B M N caps (qs @ [(sq, p)]) (said @ packets_wire (sq + 1) ps)"

lemma serves_conversation:
  assumes "serves B M C F N S se0 qs se" and "byteorder_spec B" and "myc_spec M" and "fresh (out se0)"
    and "session_inv se0"
  shows "fresh (out se) \<and> (\<exists>said. wire (out se) = wire (out se0) @ said \<and> conversation B M N (client_capabilities se0) qs said)"
  using assms(1)
proof (induction rule: serves.induct)
  case idle
  then show ?case using assms(4) nothing_said by auto
next
  case (packet qs se sq p c se')
  from packet.IH obtain said where w: "fresh (out se)" and said: "wire (out se) = wire (out se0) @ said"
    "conversation B M N (client_capabilities se0) qs said" by blast
  note inv = serves_inv [OF packet.hyps(1) assms(5)]
  then have caps: "client_capabilities se = client_capabilities se0" by (simp add: config_def)
  from process_packet_answers [OF assms(2,3) w inv(1) packet.hyps(2)] caps
  obtain ps where "first_seq p = 0" "packet_answer B M N (client_capabilities se0) (packet_bytes p) ps"
    and d: "delivered (set_seq (sq + 1) (out se)) ps (out se')" by auto
  with turn [OF said(2)] have "conversation B M N (client_capabilities se0) (qs @ [(sq, p)]) (said @ packets_wire (sq + 1) ps)"
    by blast
  moreover have "wire (out se') = wire (out se0) @ said @ packets_wire (sq + 1) ps"
    using d said(1) by (simp add: delivered_def emitted_def)
  ultimately show ?case using delivered_ready [OF d] by blast
qed

text \<open>C3: a session refines the protocol: whatever sequence of packets a client sends and whatever
  the backend does with them, the bytes sent by a session that goes on are, command by command,
  exactly one answer the protocol allows for that command, numbered consecutively after it, and
  nothing else.\<close>

theorem session_refines_protocol:
  assumes "byteorder_spec B" and "myc_spec M" and "serves B M C F N S se0 qs se" and "fresh (out se0)"
    and "stmts se0 = [] \<and> total_long_data_size se0 = 0"
    and "max_long_data_size se0 \<le> usize_max \<and> max_connection_long_data_size se0 \<le> usize_max"
  shows "\<exists>said. wire (out se) = wire (out se0) @ said \<and> conversation B M N (client_capabilities se0) qs said"
proof -
  have "session_inv se0" using assms(5,6) by (simp add: session_inv_def tables_ok_def)
  from serves_conversation [OF assms(3,1,2,4) this] show ?thesis by blast
qed

subsection \<open>Progress\<close>

lemma write_out_completes:
  assumes B: "emits m ps" "completes m ps" "preserves writer_reliable m" and w: "fresh (out se)" "fits (out se) ps"
  shows "\<exists>w. write_out lift m se = Ret (Inr (), se\<lparr>out := w\<rparr>) \<and> delivered (out se) ps w"
proof -
  obtain w' where w': "m (out se) = (Inr (), w')"
    using completesD [OF B(2)] w by (auto simp: fresh_def)
  with deliver [OF w(1) B(1,3)] show ?thesis by (auto simp: write_out_def)
qed

lemma after_flush:
  assumes "fresh (out se)"
  shows "\<exists>w. after_command lift Flush se = Ret (Inr Continue, se\<lparr>out := w\<rparr>)"
proof -
  obtain w where "flush_all (out se) = (Inr (), w)"
    using flush_output_reliable assms by (auto simp: fresh_def flush_all_def)
  then show ?thesis by (auto simp: bind_action_def write_out_def finish_with_def)
qed

lemma set_seq_fits [simp]: "fits (set_seq n w) ps = fits w ps"
  by (simp add: fits_def set_seq_def)

lemma command_progress:
  assumes N: "nom_spec N" and M: "myc_spec M" and p: "first_seq p = 0" "packet_bytes p = command_bytes M cmd"
    and h: "\<exists>se1. handle_command B M C F S cmd (se\<lparr>out := set_seq (sq + 1) (out se)\<rparr>) = Ret (Inr Flush, se1) \<and> fresh (out se1)"
  shows "\<exists>se'. process_packet B M C F N S sq p se = Ret (Inr Continue, se')"
proof -
  obtain se1 where "handle_command B M C F S cmd (se\<lparr>out := set_seq (sq + 1) (out se)\<rparr>) = Ret (Inr Flush, se1)"
    and "fresh (out se1)" using h by blast
  with after_flush [of se1 "from_io S"] show ?thesis
    using p parse_command_bytes [OF N M, of cmd]
    by (auto simp: process_packet_def Let_def bind_action_def)
qed

lemma reply_progress:
  assumes "emits m ps" "completes m ps" "preserves writer_reliable m" "fresh (out se)" "fits (out se) ps"
  shows "\<exists>se1. reply_out lift m se = Ret (Inr Flush, se1) \<and> fresh (out se1)"
proof -
  obtain w where "write_out lift m se = Ret (Inr (), se\<lparr>out := w\<rparr>)" "delivered (out se) ps w"
    using write_out_completes [OF assms] by blast
  with delivered_ready show ?thesis by (fastforce simp: reply_out_def bind_action_def finish_with_def)
qed

lemma acknowledge_progress:
  assumes "byteorder_spec B" "fresh (out se)"
    and "fits (out se) [ok_payload B M (client_capabilities se) (default_ok\<lparr>ok_status_flags := session_flags se\<rparr>)]"
  shows "\<exists>se1. acknowledge B M lift se = Ret (Inr Flush, se1) \<and> fresh (out se1)"
  unfolding acknowledge_def using assms
  by (intro reply_progress [OF ok_emits(1) ok_emits(2) reliable_ok_packet])

definition demo_ping :: Packet where
  "demo_ping = \<lparr>packet_bytes = command_bytes myc_ref Ping, first_seq = 0\<rparr>"

lemma demo_fits:
  "fits (out demo_session) [ok_payload byteorder_ref myc_ref (client_capabilities demo_session)
      (default_ok\<lparr>ok_status_flags := session_flags demo_session\<rparr>), eof_payload 2,
      err_payload ER_UNKNOWN_STMT_HANDLER (ascii ''unknown statement '' @ dec 0)]"
proof -
  have "has_cap myc_ref 0x200 CLIENT_PROTOCOL_41" "\<not> has_cap myc_ref 0x200 CLIENT_SESSION_TRACK"
    by (simp_all add: has_cap_def contains_def myc_ref_def ref_cap_def)
  then show ?thesis
    by (simp add: demo_session_def new_writer_def new_builder_def ok_payload_def ok_pieces_def default_ok_def
        eof_payload_def err_payload_def myc_specD(7) [OF myc_ref_spec] lenenc_int_def byteorder_ref_def ascii_def usize_max_def)
qed

lemma demo_ping_served:
  "\<exists>se. serves byteorder_ref myc_ref chrono_ref fmt_none nom_ref demo_shim demo_session [(0, demo_ping)] se"
proof -
  let ?se = "demo_session\<lparr>out := set_seq (0 + 1) (out demo_session)\<rparr>"
  have "\<exists>se1. acknowledge byteorder_ref myc_ref (from_io demo_shim) ?se = Ret (Inr Flush, se1) \<and> fresh (out se1)"
    by (rule acknowledge_progress) (use demo_session_fresh demo_fits in simp_all)
  then have "\<exists>se1. handle_command byteorder_ref myc_ref chrono_ref fmt_none demo_shim Ping ?se = Ret (Inr Flush, se1) \<and> fresh (out se1)"
    by simp
  from command_progress [OF nom_ref_spec myc_ref_spec _ _ this, of demo_ping] obtain se
    where "process_packet byteorder_ref myc_ref chrono_ref fmt_none nom_ref demo_shim 0 demo_ping demo_session = Ret (Inr Continue, se)"
    by (auto simp: demo_ping_def)
  from serves.packet [OF serves.idle this] show ?thesis by auto
qed

theorem session_refines_protocol_witness:
  "\<exists>se said. serves byteorder_ref myc_ref chrono_ref fmt_none nom_ref demo_shim demo_session [(0, demo_ping)] se \<and>
     wire (out se) = wire (out demo_session) @ said \<and>
     conversation byteorder_ref myc_ref nom_ref 0x200 [(0, demo_ping)] said"
proof -
  obtain se where se: "serves byteorder_ref myc_ref chrono_ref fmt_none nom_ref demo_shim demo_session [(0, demo_ping)] se"
    using demo_ping_served by blast
  from session_refines_protocol [OF byteorder_ref_spec myc_ref_spec this demo_session_fresh] se
  show ?thesis by (auto simp: demo_session_def usize_max_def)
qed

end
