(* ===== verification/Statements.thy ===== *)
theory Statements
  imports Serving
begin

text \<open>
  What a session knows of its prepared statements: the shape of its table in every reachable state,
  long data that arrives in pieces, and commands that do not start a sequence.
\<close>

subsection \<open>The shape of the table\<close>

text \<open>C6: in every state that a session can reach, its statements have distinct ids, each of them has
  at most one bound type and one piece of long data for each of its parameters, an open cursor has
  columns, and a deferred error has a kind that the client can be told.\<close>

theorem statements_well_typed:
  assumes "serves B M C F N S se0 ps se" and "stmts se0 = [] \<and> total_long_data_size se0 = 0"
    and "max_long_data_size se0 \<le> usize_max \<and> max_connection_long_data_size se0 \<le> usize_max"
  shows "distinct (map fst (stmts se)) \<and>
    list_all (\<lambda>(i, st). length (bound_types st) \<le> unat (params st) \<and>
      distinct (map fst (long_data st)) \<and> list_all (\<lambda>(k, v). k < params st) (long_data st) \<and>
      cursor_columns st \<noteq> Some [] \<and>
      (case pending_error st of None \<Rightarrow> True | Some (kind, msg) \<Rightarrow> is_variant kind)) (stmts se)"
proof -
  have "session_inv se0" using assms(2,3) by (simp add: session_inv_def tables_ok_def)
  from serves_inv(1) [OF assms(1) this] show ?thesis
    unfolding session_inv_def tables_ok_def
    by (fastforce simp: list_all_iff statement_ok_def split: option.splits)
qed

theorem statements_well_typed_witness:
  "\<exists>se. serves byteorder_ref myc_ref chrono_ref fmt_none nom_ref demo_shim demo_session [(0, demo_long_packet)] se \<and>
    distinct (map fst (stmts se))"
proof -
  obtain se where se: "serves byteorder_ref myc_ref chrono_ref fmt_none nom_ref demo_shim demo_session [(0, demo_long_packet)] se"
    using demo_served by blast
  from statements_well_typed [OF this] show ?thesis using se by (auto simp: demo_session_def usize_max_def)
qed

subsection \<open>Long data in pieces\<close>

definition held_long_data :: "StatementData \<Rightarrow> u16 \<Rightarrow> bytes" where
  "held_long_data st k = (case map_of (long_data st) k of None \<Rightarrow> [] | Some v \<Rightarrow> v)"

definition long_data_packet :: "myc_ops \<Rightarrow> u32 \<Rightarrow> u16 \<Rightarrow> u8 \<times> bytes \<Rightarrow> u8 \<times> Packet" where
  "long_data_packet M i k = (\<lambda>(sq, d). (sq, \<lparr>packet_bytes = command_bytes M (SendLongData i k d), first_seq = 0\<rparr>))"

text \<open>A piece that is accepted only extends the data of its parameter.\<close>

lemma long_data_accepted:
  assumes inv: "session_inv se" and st: "statement i se = Some st" "pending_error st = None" "k < params st"
    and room: "data_size st + length d \<le> max_long_data_size se"
      "total_long_data_size se + length d \<le> max_connection_long_data_size se"
  shows "handle_send_long_data i k d se =
    (update_statement i (\<lambda>st. st\<lparr>long_data := extend_entry k d (long_data st)\<rparr>) se)
      \<lparr>total_long_data_size := total_long_data_size se + length d\<rparr>"
proof -
  have "data_size st + length d \<le> usize_max" "total_long_data_size se + length d \<le> usize_max"
    using room inv by (auto simp: session_inv_def)
  then show ?thesis using assms session_inv_statement(4) [OF inv st(1)]
    by (simp add: handle_send_long_data_def checked_add_def)
qed

text \<open>What a session with pieces \<open>d\<close> received has in common with the one before.\<close>

definition received :: "u32 \<Rightarrow> u16 \<Rightarrow> bytes \<Rightarrow> 's session \<Rightarrow> 's session \<Rightarrow> bool" where
  "received i k d se se' \<longleftrightarrow>
     (\<exists>st st'. statement i se = Some st \<and> statement i se' = Some st' \<and>
        st' = st\<lparr>long_data := long_data st'\<rparr> \<and> distinct (map fst (long_data st')) \<and>
        data_size st' = data_size st + length d \<and> held_long_data st' k = held_long_data st k @ d \<and>
        (\<forall>j. j \<noteq> k \<longrightarrow> held_long_data st' j = held_long_data st j)) \<and>
     (\<forall>j. j \<noteq> i \<longrightarrow> statement j se' = statement j se) \<and>
     total_long_data_size se' = total_long_data_size se + length d \<and> config se' = config se \<and>
     shim_state se' = shim_state se \<and> session_flags se' = session_flags se \<and> wire (out se') = wire (out se)"

lemma received_none:
  assumes "session_inv se" and "statement i se = Some st"
  shows "received i k [] se se"
proof -
  have "distinct (map fst (long_data st))" using session_inv_statement(1) [OF assms] by (simp add: statement_ok_def)
  with assms(2) show ?thesis by (simp add: received_def)
qed

lemma received_more:
  assumes before: "received i k d se0 se" and inv: "session_inv se" and st: "statement i se = Some st" "pending_error st = None" "k < params st"
    and room: "data_size st + length d' \<le> max_long_data_size se"
      "total_long_data_size se + length d' \<le> max_connection_long_data_size se"
    and w: "wire w = wire (out se)"
  shows "received i k (d @ d') se0 ((handle_send_long_data i k d' (se\<lparr>out := v\<rparr>))\<lparr>out := w\<rparr>)"
proof -
  let ?se = "(handle_send_long_data i k d' (se\<lparr>out := v\<rparr>))\<lparr>out := w\<rparr>"
  let ?f = "\<lambda>st. st\<lparr>long_data := extend_entry k d' (long_data st)\<rparr>"
  have inv': "session_inv (se\<lparr>out := v\<rparr>)" using inv session_inv_io [of se "se\<lparr>out := v\<rparr>"] by simp
  have "handle_send_long_data i k d' (se\<lparr>out := v\<rparr>) =
      (update_statement i ?f (se\<lparr>out := v\<rparr>))\<lparr>total_long_data_size := total_long_data_size (se\<lparr>out := v\<rparr>) + length d'\<rparr>"
    by (rule long_data_accepted [OF inv']) (use st room in \<open>simp_all add: statement_def\<close>)
  then have se': "?se = (update_statement i ?f se)\<lparr>total_long_data_size := total_long_data_size se + length d', out := w\<rparr>"
    by (simp add: update_statement_def)
  obtain st0 where st0: "statement i se0 = Some st0" "st = st0\<lparr>long_data := long_data st\<rparr>" "data_size st = data_size st0 + length d"
      "held_long_data st k = held_long_data st0 k @ d" "\<And>j. j \<noteq> k \<Longrightarrow> held_long_data st j = held_long_data st0 j"
      "distinct (map fst (long_data st))"
    using before st(1) by (auto simp: received_def)
  note e = extend_entry_facts [OF st0(6), of k d']
  have same: "statement j ?se = (if j = i then Some (?f st) else statement j se)" for j
    using st(1) by (simp add: se' statement_def update_statement_def map_of_update_entry)
  have "?f st = st0\<lparr>long_data := long_data (?f st)\<rparr>" using st0(2) by (metis StatementData.surjective StatementData.update_convs(2))
  moreover have "data_size (?f st) = data_size st0 + length (d @ d')" using e(2) st0(3) by (simp add: data_size_def)
  moreover have "held_long_data (?f st) k = held_long_data st0 k @ (d @ d')"
    using st0(4) by (simp add: held_long_data_def e(4) split: option.splits)
  moreover have "held_long_data (?f st) j = held_long_data st0 j" if "j \<noteq> k" for j
    using st0(5) [OF that] that by (simp add: held_long_data_def e(4))
  ultimately have "\<exists>st st'. statement i se0 = Some st \<and> statement i ?se = Some st' \<and>
        st' = st\<lparr>long_data := long_data st'\<rparr> \<and> distinct (map fst (long_data st')) \<and>
        data_size st' = data_size st + length (d @ d') \<and> held_long_data st' k = held_long_data st k @ (d @ d') \<and>
        (\<forall>j. j \<noteq> k \<longrightarrow> held_long_data st' j = held_long_data st j)"
    using st0(1) same [of i] e(1) by (intro exI [of _ st0] exI [of _ "?f st"]) simp
  with before w same show ?thesis
    by (simp add: received_def se' config_def update_statement_def del: append_assoc)
qed

lemma long_data_step:
  assumes N: "nom_spec N" and M: "myc_spec M" and w: "fresh (out se)"
  obtains w where "process_packet B M C F N S sq (snd (long_data_packet M i k (sq, d))) se =
      Ret (Inr Continue, (handle_send_long_data i k d (se\<lparr>out := set_seq (sq + 1) (out se)\<rparr>))\<lparr>out := w\<rparr>)"
    "fresh w" "wire w = wire (out se)"
proof -
  let ?w = "set_seq (sq + 1) (out se)"
  have ready: "fresh ?w" using w by simp
  then obtain v where fl: "flush_all ?w = (Inr (), v)"
    using flush_output_reliable by (auto simp: fresh_def flush_all_def)
  have v: "delivered ?w [] v" by (rule delivered_flush [OF delivered_refl [OF ready] fl])
  have "out (handle_send_long_data i k d (se\<lparr>out := ?w\<rparr>)) = ?w"
    by (auto simp: handle_send_long_data_def fail_statement_def split: option.splits)
  then have "process_packet B M C F N S sq (snd (long_data_packet M i k (sq, d))) se =
      Ret (Inr Continue, (handle_send_long_data i k d (se\<lparr>out := ?w\<rparr>))\<lparr>out := v\<rparr>)"
    using fl parse_command_bytes [OF N M, of "SendLongData i k d"]
    by (simp add: long_data_packet_def process_packet_def Let_def bind_action_def finish_with_def write_out_def)
  moreover have "fresh v" "wire v = wire (out se)"
    using v delivered_ready [OF v] by (simp_all add: delivered_def emitted_def)
  ultimately show ?thesis by (rule that)
qed

lemma long_data_received:
  assumes N: "nom_spec N" and M: "myc_spec M" and w: "fresh (out se)" and inv: "session_inv se"
    and st: "statement i se = Some st" "pending_error st = None" "k < params st"
  shows "data_size st + length (concat (map snd ds)) \<le> max_long_data_size se \<Longrightarrow>
    total_long_data_size se + length (concat (map snd ds)) \<le> max_connection_long_data_size se \<Longrightarrow>
    \<exists>se'. serves B M C F N S se (map (long_data_packet M i k) ds) se' \<and> fresh (out se') \<and>
      received i k (concat (map snd ds)) se se'"
proof (induction ds rule: rev_induct)
  case Nil
  show ?case using w received_none [OF inv st(1)] by (auto intro: serves.idle)
next
  case (snoc x ds)
  obtain sq d where x: "x = (sq, d)" by fastforce
  obtain se1 where sv: "serves B M C F N S se (map (long_data_packet M i k) ds) se1" and w1: "fresh (out se1)"
    and r1: "received i k (concat (map snd ds)) se se1" using snoc by auto
  note inv1 = serves_inv [OF sv inv]
  obtain st1 where st1: "statement i se1 = Some st1" "st1 = st\<lparr>long_data := long_data st1\<rparr>"
      "data_size st1 = data_size st + length (concat (map snd ds))"
    using r1 st(1) by (auto simp: received_def)
  have kept: "pending_error st1 = None" "k < params st1"
    using st(2,3) by (subst st1(2); simp)+
  have total: "total_long_data_size se1 = total_long_data_size se + length (concat (map snd ds))"
    using r1 by (simp add: received_def)
  obtain v where step: "process_packet B M C F N S sq (snd (long_data_packet M i k (sq, d))) se1 =
      Ret (Inr Continue, (handle_send_long_data i k d (se1\<lparr>out := set_seq (sq + 1) (out se1)\<rparr>))\<lparr>out := v\<rparr>)"
      "fresh v" "wire v = wire (out se1)"
    by (rule long_data_step [OF N M w1])
  have "received i k (concat (map snd ds) @ d) se
      ((handle_send_long_data i k d (se1\<lparr>out := set_seq (sq + 1) (out se1)\<rparr>))\<lparr>out := v\<rparr>)"
    by (rule received_more [OF r1 inv1(1) st1(1) kept _ _ step(3)])
      (use snoc.prems st1(3) total inv1(2) x in \<open>simp_all add: config_def\<close>)
  moreover have "long_data_packet M i k (sq, d) = (sq, snd (long_data_packet M i k (sq, d)))"
    by (simp add: long_data_packet_def)
  ultimately show ?case
    using serves.packet [OF sv step(1)] step(2) x by (intro exI conjI) (assumption | simp)+
qed

text \<open>C5: long data that a client sends in pieces, in any number of packets, is put together in the
  order of the packets: as long as it stays within the limits, the parameter holds its earlier data
  followed by the pieces, the data of all other parameters and statements is what it was, and the
  client is sent nothing.\<close>

theorem long_data_accumulates:
  assumes "nom_spec N" and "myc_spec M" and "fresh (out se)" and "session_inv se"
    and "statement i se = Some st" and "pending_error st = None" and "k < params st"
    and "data_size st + length (concat (map snd ds)) \<le> max_long_data_size se"
    and "total_long_data_size se + length (concat (map snd ds)) \<le> max_connection_long_data_size se"
  shows "\<exists>se' st'. serves B M C F N S se (map (long_data_packet M i k) ds) se' \<and> statement i se' = Some st' \<and>
    held_long_data st' k = held_long_data st k @ concat (map snd ds) \<and>
    (\<forall>j. j \<noteq> k \<longrightarrow> held_long_data st' j = held_long_data st j) \<and>
    (\<forall>j. j \<noteq> i \<longrightarrow> statement j se' = statement j se) \<and> pending_error st' = None \<and>
    shim_state se' = shim_state se \<and> wire (out se') = wire (out se)"
proof -
  obtain se' where sv: "serves B M C F N S se (map (long_data_packet M i k) ds) se'"
    and r: "received i k (concat (map snd ds)) se se'"
    using long_data_received [OF assms] by blast
  obtain st' where st': "statement i se' = Some st'" "st' = st\<lparr>long_data := long_data st'\<rparr>"
      "held_long_data st' k = held_long_data st k @ concat (map snd ds)" "\<And>j. j \<noteq> k \<Longrightarrow> held_long_data st' j = held_long_data st j"
    using r assms(5) by (auto simp: received_def)
  have "pending_error st' = None" using assms(6) by (subst st'(2)) simp
  with sv r st' show ?thesis by (intro exI [of _ se'] exI [of _ st']) (simp add: received_def)
qed

definition demo_statement_session :: "unit session" where
  "demo_statement_session = demo_session\<lparr>stmts := [(7, new_statement\<lparr>params := 2, long_data := [(1, [5])]\<rparr>)],
     total_long_data_size := 1\<rparr>"

theorem long_data_accumulates_witness:
  "\<exists>se' st'. serves byteorder_ref myc_ref chrono_ref fmt_none nom_ref demo_shim demo_statement_session
      (map (long_data_packet myc_ref 7 1) [(0, [6, 7]), (0, []), (0, [8])]) se' \<and>
    statement 7 se' = Some st' \<and> held_long_data st' 1 = [5, 6, 7, 8] \<and> held_long_data st' 0 = []"
proof -
  let ?st = "new_statement\<lparr>params := 2, long_data := [(1, [5])]\<rparr>"
  have st: "statement 7 demo_statement_session = Some ?st" by (simp add: demo_statement_session_def statement_def)
  have "fresh (out demo_statement_session)" using demo_session_fresh by (simp add: demo_statement_session_def)
  moreover have "session_inv demo_statement_session"
    by (simp add: demo_statement_session_def demo_session_def session_inv_def tables_ok_def statement_ok_def data_size_def
        new_statement_def usize_max_def)
  ultimately obtain se' st' where "serves byteorder_ref myc_ref chrono_ref fmt_none nom_ref demo_shim demo_statement_session
      (map (long_data_packet myc_ref 7 1) [(0, [6, 7]), (0, []), (0, [8])]) se'" "statement 7 se' = Some st'"
    "held_long_data st' 1 = held_long_data ?st 1 @ concat (map snd [(0 :: u8, [6, 7]), (0, []), (0, [8])])"
    "\<forall>j. j \<noteq> 1 \<longrightarrow> held_long_data st' j = held_long_data ?st j"
    using long_data_accumulates [OF nom_ref_spec myc_ref_spec _ _ st, of 1 "[(0, [6, 7]), (0, []), (0, [8])]"
        byteorder_ref chrono_ref fmt_none demo_shim]
    by (auto simp: demo_statement_session_def demo_session_def data_size_def new_statement_def)
  then show ?thesis
    by (intro exI [of _ se'] exI [of _ st']) (simp add: held_long_data_def new_statement_def)
qed

subsection \<open>Commands out of sequence\<close>

text \<open>C31: a packet that does not start a new sequence is not taken for a command: the client gets one
  error packet with the next sequence number and the session ends with an error, without the
  backend being called and with the session otherwise as it was.\<close>

theorem out_of_sequence_ends_session:
  assumes "byteorder_spec B" and "fresh (out se)" and "first_seq p \<noteq> 0"
    and "fits (out se) [err_payload ER_MALFORMED_PACKET sequence_error]"
  shows "\<exists>w. process_packet B M C F N S sq p se =
      Ret (Inl (from_io S (IoError InvalidData sequence_error)), se\<lparr>out := w\<rparr>) \<and>
    wire w = wire (out se) @ frames (sq + 1) (err_payload ER_MALFORMED_PACKET sequence_error)"
proof -
  let ?se = "se\<lparr>out := set_seq (sq + 1) (out se)\<rparr>"
  have "fresh (out ?se)" "fits (out ?se) [err_payload ER_MALFORMED_PACKET sequence_error]" using assms(2,4) by simp_all
  from write_out_completes [OF err_emits(1) err_emits(2) reliable_err this] assms(1)
  obtain v where v: "write_out (from_io S) (write_err B ER_MALFORMED_PACKET sequence_error) ?se = Ret (Inr (), ?se\<lparr>out := v\<rparr>)"
    "delivered (out ?se) [err_payload ER_MALFORMED_PACKET sequence_error] v" by blast
  obtain w where fl: "flush_all v = (Inr (), w)"
    using flush_output_reliable delivered_ready [OF v(2)] by (auto simp: fresh_def flush_all_def)
  have "delivered (out ?se) [err_payload ER_MALFORMED_PACKET sequence_error] w" by (rule delivered_flush [OF v(2) fl])
  then have "wire w = wire (out se) @ frames (sq + 1) (err_payload ER_MALFORMED_PACKET sequence_error)"
    by (simp add: delivered_def emitted_def)
  moreover have "process_packet B M C F N S sq p se =
      Ret (Inl (from_io S (IoError InvalidData sequence_error)), se\<lparr>out := w\<rparr>)"
    using assms(3) v(1) fl by (simp add: process_packet_def Let_def bind_action_def write_out_def lift_result_def)
  ultimately show ?thesis by blast
qed

theorem out_of_sequence_ends_session_witness:
  "\<exists>w. process_packet byteorder_ref myc_ref chrono_ref fmt_none nom_ref demo_shim 4
      \<lparr>packet_bytes = command_bytes myc_ref Ping, first_seq = 4\<rparr> demo_session =
      Ret (Inl (IoError InvalidData sequence_error), demo_session\<lparr>out := w\<rparr>) \<and>
    wire w = wire (out demo_session) @ frames 5 (err_payload ER_MALFORMED_PACKET sequence_error)"
proof -
  have "fits (out demo_session) [err_payload ER_MALFORMED_PACKET sequence_error]"
    by (simp add: fits_def demo_session_def new_writer_def new_builder_def err_payload_def ascii_def usize_max_def sequence_error_def)
  from out_of_sequence_ends_session [OF byteorder_ref_spec demo_session_fresh _ this, of _ myc_ref chrono_ref fmt_none nom_ref demo_shim 4]
  show ?thesis by (simp add: demo_shim_def)
qed

end
