(* ===== verification/Handshake.thy ===== *)
theory Handshake
  imports Session
begin

text \<open>
  The connection phase: the greeting and the client's first packet
  (\<open>init_before_ssl_with_config_and_options\<close>), the login (\<open>init_after_ssl\<close>), the entry points that
  lead from there into the command loop (\<open>run_with_options\<close> and those of \<open>tls.rs\<close>), and the
  functions that make and check authentication data.
\<close>

subsection \<open>Authentication data\<close>

definition SCRAMBLE_SIZE :: nat where "SCRAMBLE_SIZE = 20"
definition CACHING_SHA2_DIGEST_LENGTH :: nat where "CACHING_SHA2_DIGEST_LENGTH = 32"
definition AUTH_PLUGIN_DATA_PART_1_LENGTH :: nat where "AUTH_PLUGIN_DATA_PART_1_LENGTH = 8"

text \<open>The bytes that a challenge must not contain: the terminator and \<open>$\<close>.\<close>

definition delimiter :: "u8 \<Rightarrow> bool" where
  "delimiter b \<longleftrightarrow> b = 0 \<or> b = 0x24"

text \<open>
  \<open>fill\<close> is \<open>getrandom::fill\<close>: it draws a number of bytes from the random source, or fails. The
  rejection of a byte repeats until an acceptable one is drawn, so it may not return.
\<close>

type_synonym 'g random = "nat \<Rightarrow> 'g \<Rightarrow> (io_error + bytes) \<times> 'g"

partial_function (option) acceptable_byte :: "'g random \<Rightarrow> u8 \<Rightarrow> 'g \<Rightarrow> ((io_error + u8) \<times> 'g) option" where
  "acceptable_byte fill b g =
     (if 127 < b \<or> delimiter b
      then (case fill 1 g of (Inl e, g) \<Rightarrow> Some (Inl e, g) | (Inr bs, g) \<Rightarrow> acceptable_byte fill (bs ! 0) g)
      else Some (Inr b, g))"

fun acceptable_bytes :: "'g random \<Rightarrow> bytes \<Rightarrow> 'g \<Rightarrow> ((io_error + bytes) \<times> 'g) option" where
  "acceptable_bytes fill [] g = Some (Inr [], g)"
| "acceptable_bytes fill (b # bs) g =
     (case acceptable_byte fill b g of
        None \<Rightarrow> None
      | Some (Inl e, g) \<Rightarrow> Some (Inl e, g)
      | Some (Inr b, g) \<Rightarrow>
          map_option (\<lambda>(r, g). (case r of Inl e \<Rightarrow> Inl e | Inr bs \<Rightarrow> Inr (b # bs), g)) (acceptable_bytes fill bs g))"

definition generate_scramble :: "'g random \<Rightarrow> 'g \<Rightarrow> ((io_error + bytes) \<times> 'g) option" where
  "generate_scramble fill g =
     (case fill SCRAMBLE_SIZE g of (Inl e, g) \<Rightarrow> Some (Inl e, g) | (Inr bs, g) \<Rightarrow> acceptable_bytes fill bs g)"

definition default_salt :: "'g random \<Rightarrow> 'g \<Rightarrow> (bytes \<times> 'g) option" where
  "default_salt fill g =
     map_option (\<lambda>(r, g). (case r of Inl e \<Rightarrow> replicate SCRAMBLE_SIZE 0 | Inr bs \<Rightarrow> bs, g)) (generate_scramble fill g)"

text \<open>
  The digests of \<open>mysql_common\<close>, from the challenge and the password; the second is only defined
  on challenges of twenty bytes.
\<close>

record digest_ops =
  scramble_native :: "bytes \<Rightarrow> bytes \<Rightarrow> bytes option"
  myc_scramble_sha256 :: "bytes \<Rightarrow> bytes \<Rightarrow> bytes option"

definition verify_mysql_native_password :: "digest_ops \<Rightarrow> bytes \<Rightarrow> bytes \<Rightarrow> bytes \<Rightarrow> bool" where
  "verify_mysql_native_password D password nonce auth_data =
     (case scramble_native D nonce password of Some expected \<Rightarrow> auth_data = expected | None \<Rightarrow> auth_data = [])"

definition scramble_sha256 :: "digest_ops \<Rightarrow> bytes \<Rightarrow> bytes \<Rightarrow> bytes option" where
  "scramble_sha256 D nonce password =
     (if length nonce = 20 then myc_scramble_sha256 D nonce password else None)"

definition verify_caching_sha2_password :: "digest_ops \<Rightarrow> bytes \<Rightarrow> bytes \<Rightarrow> bytes \<Rightarrow> bool" where
  "verify_caching_sha2_password D password nonce auth_data =
     (let auth_data = if auth_data = [0] then [] else auth_data in
      case scramble_sha256 D nonce password of Some expected \<Rightarrow> auth_data = expected | None \<Rightarrow> auth_data = [])"

definition verify_auth_plugin_data :: "digest_ops \<Rightarrow> bytes \<Rightarrow> bytes \<Rightarrow> bytes \<Rightarrow> bytes \<Rightarrow> bool" where
  "verify_auth_plugin_data D plugin password nonce auth_data =
     (if plugin = MYSQL_NATIVE_PASSWORD then verify_mysql_native_password D password nonce auth_data
      else if plugin = CACHING_SHA2_PASSWORD then verify_caching_sha2_password D password nonce auth_data
      else False)"

subsection \<open>Options\<close>

record IntermediaryOptions =
  opt_process_use_statement_on_query :: bool
  opt_reject_connection_on_dbname_absence :: bool
  opt_read_buffer_size :: "nat option"
  opt_write_buffer_size :: "nat option"
  opt_max_packet_size :: "nat option"
  opt_read_timeout :: "nat option"
  opt_auth_timeout :: "nat option"
  opt_write_timeout :: "nat option"
  opt_write_high_watermark :: "nat option"
  opt_max_prepared_statements :: "nat option"
  opt_max_connection_long_data_size :: "nat option"
  opt_initial_status_flags :: u16
  opt_initial_collation :: u8
  opt_enable_multi_results :: bool

definition default_options :: "myc_ops \<Rightarrow> IntermediaryOptions" where
  "default_options M = \<lparr>opt_process_use_statement_on_query = False,
     opt_reject_connection_on_dbname_absence = False, opt_read_buffer_size = None, opt_write_buffer_size = None,
     opt_max_packet_size = None, opt_read_timeout = None, opt_auth_timeout = None, opt_write_timeout = Some 60,
     opt_write_high_watermark = None, opt_max_prepared_statements = None, opt_max_connection_long_data_size = None,
     opt_initial_status_flags = status_bits M SERVER_STATUS_AUTOCOMMIT,
     opt_initial_collation = ucast (UTF8MB4_GENERAL_CI M), opt_enable_multi_results = True\<rparr>"

definition packet_size_limit :: "IntermediaryOptions \<Rightarrow> nat" where
  "packet_size_limit opts = (case opt_max_packet_size opts of Some n \<Rightarrow> n | None \<Rightarrow> DEFAULT_MAX_PACKET_SIZE)"

definition packet_reader :: "IntermediaryOptions \<Rightarrow> rd_event list \<Rightarrow> PacketReader" where
  "packet_reader opts es = new_with_max_packet_size es (packet_size_limit opts)"

definition packet_writer :: "IntermediaryOptions \<Rightarrow> sink \<Rightarrow> PacketWriter" where
  "packet_writer opts s =
     (let w = new_writer s;
          w = (case opt_write_high_watermark opts of Some n \<Rightarrow> set_flush_threshold n w | None \<Rightarrow> w)
      in set_write_timeout (opt_write_timeout opts) (set_max_packet_size (packet_size_limit opts) w))"

subsection \<open>The greeting and the first response\<close>

text \<open>
  Whether the crate is built with the feature \<open>tls\<close>, and if so whether the server offers it
  (\<open>tls_conf.is_some()\<close>).
\<close>

datatype tls = WithoutTls | WithTls bool

record ServerHandshakeConfig =
  cfg_version :: bytes
  cfg_connection_id :: u32
  cfg_default_auth_plugin :: bytes
  cfg_scramble :: bytes

definition server_capabilities :: "myc_ops \<Rightarrow> IntermediaryOptions \<Rightarrow> tls \<Rightarrow> u32" where
  "server_capabilities M opts T =
     fold (\<lambda>c caps. caps OR cap_bits M c)
       ((if opt_enable_multi_results opts then [CLIENT_MULTI_RESULTS, CLIENT_PS_MULTI_RESULTS] else []) @
        (if T = WithTls True then [CLIENT_SSL] else []))
       (fold (\<lambda>c caps. caps OR cap_bits M c)
         [CLIENT_LONG_FLAG, CLIENT_SECURE_CONNECTION, CLIENT_PLUGIN_AUTH, CLIENT_PLUGIN_AUTH_LENENC_CLIENT_DATA,
          CLIENT_CONNECT_WITH_DB, CLIENT_SESSION_TRACK, CLIENT_DEPRECATE_EOF]
         (cap_bits M CLIENT_PROTOCOL_41))"

definition greeting_pieces :: "myc_ops \<Rightarrow> IntermediaryOptions \<Rightarrow> tls \<Rightarrow> ServerHandshakeConfig \<Rightarrow> bytes list" where
  "greeting_pieces M opts T cfg =
     (let caps = le32 (server_capabilities M opts T); scramble = cfg_scramble cfg in
      [[10], cfg_version cfg, [0], le32 (cfg_connection_id cfg),
       take AUTH_PLUGIN_DATA_PART_1_LENGTH scramble, [0], take 2 caps, [opt_initial_collation opts],
       le16 (opt_initial_status_flags opts), drop 2 caps,
       (if cfg_default_auth_plugin cfg = [] then [0] else [word_of_nat (SCRAMBLE_SIZE + 1)]),
       replicate 10 0, drop AUTH_PLUGIN_DATA_PART_1_LENGTH scramble, [0], cfg_default_auth_plugin cfg, [0]])"

definition write_greeting :: "byteorder_ops \<Rightarrow> myc_ops \<Rightarrow> IntermediaryOptions \<Rightarrow> tls \<Rightarrow> ServerHandshakeConfig \<Rightarrow>
    (PacketWriter, unit) io" where
  "write_greeting B M opts T cfg = then_io (message B (greeting_pieces M opts T cfg)) flush_all"

definition malformed_handshake :: bytes where
  "malformed_handshake = ascii ''malformed client handshake''"

definition parse_client_handshake :: "byteorder_ops \<Rightarrow> myc_ops \<Rightarrow> Command nom_ops \<Rightarrow> bytes \<Rightarrow> bool \<Rightarrow>
    (PacketWriter, ClientHandshake) io" where
  "parse_client_handshake B M N payload after_tls =
     (case client_handshake M N after_tls payload of
        Inr (_, handshake) \<Rightarrow> ok_io handshake
      | Inl _ \<Rightarrow> then_io (write_err B ER_MALFORMED_PACKET malformed_handshake)
                   (then_io flush_all (err_io (IoError InvalidData malformed_handshake))))"

definition peer_terminated :: io_error where
  "peer_terminated = IoError ConnectionAborted (ascii ''peer terminated connection'')"

text \<open>What the connection phase hands over: whether the client asked for TLS, and \<open>init_params\<close>.\<close>

type_synonym init_params = "ClientHandshake \<times> u8 \<times> u32 \<times> PacketReader"

definition init_before_ssl :: "byteorder_ops \<Rightarrow> myc_ops \<Rightarrow> Command nom_ops \<Rightarrow> tls \<Rightarrow> ServerHandshakeConfig \<Rightarrow>
    rd_event list \<Rightarrow> IntermediaryOptions \<Rightarrow> (sink, bool \<times> init_params) io" where
  "init_before_ssl B M N T cfg input opts s =
     (if \<exists>b \<in> set (cfg_scramble cfg). delimiter b then
        (Inl (IoError InvalidInput (ascii ''authentication challenge contains a protocol delimiter'')), s)
      else case validate_collation M (ucast (opt_initial_collation opts)) of
        Inl (_, msg) \<Rightarrow> (Inl (IoError InvalidInput msg), s)
      | Inr _ \<Rightarrow>
          (case write_greeting B M opts T cfg (packet_writer opts s) of
             (Inl e, w) \<Rightarrow> (Inl e, output_stream w)
           | (Inr _, w) \<Rightarrow>
               (case read_packet_with_timeout N (opt_auth_timeout opts) (packet_reader opts input) of
                  (Inl e, rd) \<Rightarrow> (Inl e, output_stream w)
                | (Inr None, rd) \<Rightarrow> (Inl peer_terminated, output_stream w)
                | (Inr (Some (sq, p)), rd) \<Rightarrow>
                    if first_seq p \<noteq> 1 then
                      (Inl (IoError InvalidData (ascii ''unexpected initial handshake sequence'')), output_stream w)
                    else (case parse_client_handshake B M N (packet_bytes p) False (set_seq (sq + 1) w) of
                       (Inl e, w) \<Rightarrow> (Inl e, output_stream w)
                     | (Inr h, w) \<Rightarrow>
                         let ssl = has_cap M (capabilities h) CLIENT_SSL in
                         if ssl \<and> T = WithoutTls then
                           (Inl (IoError InvalidData
                             (ascii ''client requested SSL despite us not advertising support for it'')), output_stream w)
                         else (Inr (ssl, h\<lparr>server_scramble := Some (cfg_scramble cfg)\<rparr>, sq,
                                server_capabilities M opts T, rd), output_stream w)))))"

end
