(* ===== verification/Transport.thy ===== *)
theory Transport
  imports PacketReader PacketWriter
begin

text \<open>
  The glue of \<open>tls.rs\<close> between the plain transport and the TLS implementation: \<open>Duplex\<close> makes one
  transport of a reader and a writer by delegating every poll to one of them. The traits
  \<open>AsyncRead\<close> and \<open>AsyncWrite\<close> of tokio are records of their methods; an implementation is a value
  of the record, so that \<open>Duplex\<close>'s implementations are functions of those of its halves. A poll
  answers at once or is pending.
\<close>

subsection \<open>The traits\<close>

datatype 'a poll = Pending | Ready 'a

text \<open>A read of no bytes, with room for some, is the end of the stream.\<close>

record 'r async_read =
  read_poll :: "nat \<Rightarrow> 'r \<Rightarrow> bytes io_result poll \<times> 'r"

record 'w async_write =
  write_poll :: "bytes \<Rightarrow> 'w \<Rightarrow> nat io_result poll \<times> 'w"
  flush_poll :: "'w \<Rightarrow> unit io_result poll \<times> 'w"
  shutdown_poll :: "'w \<Rightarrow> unit io_result poll \<times> 'w"
  write_vectored_poll :: "bytes list \<Rightarrow> 'w \<Rightarrow> nat io_result poll \<times> 'w"
  write_vectored_supported :: "'w \<Rightarrow> bool"

subsection \<open>Duplex\<close>

record ('r, 'w) Duplex =
  duplex_reader :: 'r
  duplex_writer :: 'w

definition new_duplex :: "'r \<Rightarrow> 'w \<Rightarrow> ('r, 'w) Duplex" where
  "new_duplex r w = \<lparr>duplex_reader = r, duplex_writer = w\<rparr>"

definition on_reader :: "('r \<Rightarrow> 'a \<times> 'r) \<Rightarrow> ('r, 'w) Duplex \<Rightarrow> 'a \<times> ('r, 'w) Duplex" where
  "on_reader f d = (case f (duplex_reader d) of (a, r) \<Rightarrow> (a, d\<lparr>duplex_reader := r\<rparr>))"

definition on_writer :: "('w \<Rightarrow> 'a \<times> 'w) \<Rightarrow> ('r, 'w) Duplex \<Rightarrow> 'a \<times> ('r, 'w) Duplex" where
  "on_writer f d = (case f (duplex_writer d) of (a, w) \<Rightarrow> (a, d\<lparr>duplex_writer := w\<rparr>))"

definition duplex_read :: "'r async_read \<Rightarrow> ('r, 'w) Duplex async_read" where
  "duplex_read R = \<lparr>read_poll = (\<lambda>room. on_reader (read_poll R room))\<rparr>"

definition duplex_write :: "'w async_write \<Rightarrow> ('r, 'w) Duplex async_write" where
  "duplex_write W = \<lparr>write_poll = (\<lambda>buf. on_writer (write_poll W buf)), flush_poll = on_writer (flush_poll W),
     shutdown_poll = on_writer (shutdown_poll W), write_vectored_poll = (\<lambda>bufs. on_writer (write_vectored_poll W bufs)),
     write_vectored_supported = (\<lambda>d. write_vectored_supported W (duplex_writer d))\<rparr>"

text \<open>The reader's own implementation of \<open>AsyncRead\<close>, over the scripted transport.\<close>

fun poll_event :: "rd_event option \<Rightarrow> bytes io_result poll" where
  "poll_event None = Ready (Inr [])"
| "poll_event (Some (RData d)) = Ready (Inr d)"
| "poll_event (Some (RFail e)) = Ready (Inl e)"
| "poll_event (Some RStall) = Pending"

definition packet_reader_read :: "PacketReader async_read" where
  "packet_reader_read = \<lparr>read_poll = (\<lambda>room rd. case poll_read room rd of (ev, rd) \<Rightarrow> (poll_event ev, rd))\<rparr>"

text \<open>
  \<open>accept\<close> is the negotiation of tokio-rustls, with its configuration, and what \<open>tokio::io::split\<close>
  makes of its result: the streams inside TLS, a failure, or a negotiation that does not end.
\<close>

type_synonym tls_accept = "(PacketReader, sink) Duplex \<Rightarrow> (io_error + rd_event list \<times> sink) option"

definition switch_to_tls :: "tls_accept \<Rightarrow> PacketReader \<Rightarrow> sink \<Rightarrow> (io_error + rd_event list \<times> sink) option" where
  "switch_to_tls accept rd s = accept (new_duplex rd s)"

subsection \<open>The halves are independent\<close>

text \<open>Any use of a transport: a sequence of polls, and the answers.\<close>

datatype write_call = CallWrite bytes | CallFlush | CallShutdown | CallWriteVectored "bytes list"
datatype transport_call = CallRead nat | OnWriter write_call

datatype write_answer = Accepted "nat io_result poll" | Finished "unit io_result poll"
datatype transport_answer = Delivered "bytes io_result poll" | FromWriter write_answer

fun call_writer :: "'w async_write \<Rightarrow> write_call \<Rightarrow> 'w \<Rightarrow> write_answer \<times> 'w" where
  "call_writer W (CallWrite buf) w = apfst Accepted (write_poll W buf w)"
| "call_writer W CallFlush w = apfst Finished (flush_poll W w)"
| "call_writer W CallShutdown w = apfst Finished (shutdown_poll W w)"
| "call_writer W (CallWriteVectored bufs) w = apfst Accepted (write_vectored_poll W bufs w)"

fun call_transport :: "'t async_read \<Rightarrow> 't async_write \<Rightarrow> transport_call \<Rightarrow> 't \<Rightarrow> transport_answer \<times> 't" where
  "call_transport R W (CallRead room) t = apfst Delivered (read_poll R room t)"
| "call_transport R W (OnWriter c) t = apfst FromWriter (call_writer W c t)"

fun all_calls :: "('c \<Rightarrow> 't \<Rightarrow> 'a \<times> 't) \<Rightarrow> 'c list \<Rightarrow> 't \<Rightarrow> 'a list \<times> 't" where
  "all_calls f [] t = ([], t)"
| "all_calls f (c # cs) t = (case f c t of (a, t) \<Rightarrow> apfst ((#) a) (all_calls f cs t))"

fun read_calls :: "transport_call list \<Rightarrow> nat list" where
  "read_calls [] = []"
| "read_calls (CallRead room # cs) = room # read_calls cs"
| "read_calls (OnWriter c # cs) = read_calls cs"

fun write_calls :: "transport_call list \<Rightarrow> write_call list" where
  "write_calls [] = []"
| "write_calls (CallRead room # cs) = write_calls cs"
| "write_calls (OnWriter c # cs) = c # write_calls cs"

fun read_answers :: "transport_answer list \<Rightarrow> bytes io_result poll list" where
  "read_answers [] = []"
| "read_answers (Delivered r # as) = r # read_answers as"
| "read_answers (FromWriter a # as) = read_answers as"

fun write_answers :: "transport_answer list \<Rightarrow> write_answer list" where
  "write_answers [] = []"
| "write_answers (Delivered r # as) = write_answers as"
| "write_answers (FromWriter a # as) = a # write_answers as"

lemma duplex_writer_call: "call_writer (duplex_write W) c d = on_writer (call_writer W c) d"
  by (cases c) (auto simp: duplex_write_def on_writer_def split: prod.splits)

lemma duplex_calls:
  "all_calls (call_transport (duplex_read R) (duplex_write W)) cs d = (as, d') \<Longrightarrow>
    all_calls (read_poll R) (read_calls cs) (duplex_reader d) = (read_answers as, duplex_reader d') \<and>
    all_calls (call_writer W) (write_calls cs) (duplex_writer d) = (write_answers as, duplex_writer d')"
proof (induction cs arbitrary: d as)
  case Nil
  then show ?case by simp
next
  case (Cons c cs)
  show ?case
  proof (cases c)
    case (CallRead room)
    obtain x r where x: "read_poll R room (duplex_reader d) = (x, r)" by fastforce
    obtain as1 where rest: "all_calls (call_transport (duplex_read R) (duplex_write W)) cs (d\<lparr>duplex_reader := r\<rparr>) = (as1, d')"
      "as = Delivered x # as1"
      using Cons.prems x CallRead by (auto simp: duplex_read_def on_reader_def apfst_def map_prod_def split: prod.splits)
    from Cons.IH [OF rest(1)] x CallRead rest(2) show ?thesis by simp
  next
    case (OnWriter wc)
    obtain x w where x: "call_writer W wc (duplex_writer d) = (x, w)" by fastforce
    obtain as1 where rest: "all_calls (call_transport (duplex_read R) (duplex_write W)) cs (d\<lparr>duplex_writer := w\<rparr>) = (as1, d')"
      "as = FromWriter x # as1"
      using Cons.prems x OnWriter by (auto simp: duplex_writer_call on_writer_def apfst_def map_prod_def split: prod.splits)
    from Cons.IH [OF rest(1)] x OnWriter rest(2) show ?thesis by simp
  qed
qed

text \<open>The bytes that the reads of a transport have delivered.\<close>

fun delivered_bytes :: "bytes io_result poll \<Rightarrow> bytes" where
  "delivered_bytes (Ready (Inr d)) = d"
| "delivered_bytes (Ready (Inl e)) = []"
| "delivered_bytes Pending = []"

lemma poll_read_delivers:
  "read_poll packet_reader_read room rd = (x, rd') \<Longrightarrow> delivered_bytes x @ unread rd' = unread rd"
  by (auto simp: packet_reader_read_def poll_read_def unread_def Let_def split: if_splits list.splits rd_event.splits)

lemma polls_deliver:
  "all_calls (read_poll packet_reader_read) rooms rd = (xs, rd') \<Longrightarrow>
    concat (map delivered_bytes xs) @ unread rd' = unread rd"
proof (induction rooms arbitrary: rd xs)
  case Nil
  then show ?case by simp
next
  case (Cons room rooms)
  obtain x rd1 where x: "read_poll packet_reader_read room rd = (x, rd1)" by fastforce
  with Cons.prems obtain xs1 where "all_calls (read_poll packet_reader_read) rooms rd1 = (xs1, rd')" "xs = x # xs1"
    by (auto simp: apfst_def map_prod_def split: prod.splits)
  with Cons.IH [OF this(1)] poll_read_delivers [OF x] show ?case by simp
qed

text \<open>C22: the transport that the TLS implementation is given is the client's: however it mixes reads,
  writes, flushes and shutdowns, its reads deliver the client's bytes in order, those first that
  the server had already buffered, and none is lost; its writes have the answers and the effect
  that the same writes alone have on the plain writer, so neither half disturbs the other.\<close>

theorem tls_transport_faithful:
  assumes "all_calls (call_transport (duplex_read packet_reader_read) (duplex_write W)) cs (new_duplex rd w) = (as, d)"
  shows "concat (map delivered_bytes (read_answers as)) @ unread (duplex_reader d) = unread rd \<and>
    all_calls (call_writer W) (write_calls cs) w = (write_answers as, duplex_writer d)"
  using duplex_calls [OF assms] by (auto simp: new_duplex_def intro: polls_deliver)

text \<open>A writer that takes what it is given, for an example.\<close>

definition log_write :: "bytes async_write" where
  "log_write = \<lparr>write_poll = (\<lambda>buf w. (Ready (Inr (length buf)), w @ buf)), flush_poll = Pair (Ready (Inr ())),
     shutdown_poll = Pair (Ready (Inr ())), write_vectored_poll = (\<lambda>bufs w. (Ready (Inr (length (concat bufs))), w @ concat bufs)),
     write_vectored_supported = (\<lambda>w. True)\<rparr>"

theorem tls_transport_faithful_witness:
  "\<exists>as d. all_calls (call_transport (duplex_read packet_reader_read) (duplex_write log_write))
      [CallRead 1, OnWriter (CallWrite [7]), CallRead 3, OnWriter CallFlush]
      (new_duplex \<lparr>rd_bytes = [1, 2], rd_stream = [RData [3]], rd_max_packet_size = 0\<rparr> []) = (as, d) \<and>
    read_answers as = [Ready (Inr [1]), Ready (Inr [2])] \<and> unread (duplex_reader d) = [3] \<and> duplex_writer d = [7]"
proof -
  obtain as d where run: "all_calls (call_transport (duplex_read packet_reader_read) (duplex_write log_write))
      [CallRead 1, OnWriter (CallWrite [7]), CallRead 3, OnWriter CallFlush]
      (new_duplex \<lparr>rd_bytes = [1, 2], rd_stream = [RData [3]], rd_max_packet_size = 0\<rparr> []) = (as, d)"
    by fastforce
  have "read_answers as = [Ready (Inr [1]), Ready (Inr [2])]"
    using run by (auto simp: new_duplex_def duplex_read_def duplex_write_def on_reader_def on_writer_def packet_reader_read_def
        poll_read_def log_write_def Let_def)
  with tls_transport_faithful [OF run] run show ?thesis
    by (auto simp: unread_def log_write_def)
qed

end
