(* ===== verification/Login.thy ===== *)
theory Login
  imports Handshake Transport
begin

text \<open>
  The login (\<open>init_after_ssl\<close>) and the entry points. The state is the reader and the session. A
  login that fails sends an error packet, flushes it and ends the session with an error.
\<close>

subsection \<open>Sequencing\<close>

type_synonym ('s, 'e, 'a) login = "PacketReader \<times> 's session \<Rightarrow> (('e + 'a) \<times> PacketReader \<times> 's session) rust"

definition bind_login :: "('s, 'e, 'a) login \<Rightarrow> ('a \<Rightarrow> ('s, 'e, 'b) login) \<Rightarrow> ('s, 'e, 'b) login" where
  "bind_login m f c =
     (case m c of Panicked \<Rightarrow> Panicked | Ret (Inl e, c') \<Rightarrow> Ret (Inl e, c') | Ret (Inr x, c') \<Rightarrow> f x c')"

definition proceed :: "'a \<Rightarrow> ('s, 'e, 'a) login" where
  "proceed x c = Ret (Inr x, c)"

definition abort :: "'e \<Rightarrow> ('s, 'e, 'a) login" where
  "abort e c = Ret (Inl e, c)"

definition on_session :: "('s, 'e, 'a) action \<Rightarrow> ('s, 'e, 'a) login" where
  "on_session m = (\<lambda>(rd, se). case m se of Panicked \<Rightarrow> Panicked | Ret (r, se') \<Rightarrow> Ret (r, rd, se'))"

text \<open>Reading the client's next packet.\<close>

definition read_reply :: "Command nom_ops \<Rightarrow> (io_error \<Rightarrow> 'e) \<Rightarrow> ('s, 'e, u8 \<times> Packet) login" where
  "read_reply N lift = (\<lambda>(rd, se).
     case read_packet_with_timeout N (auth_timeout se) rd of
       (Inl e, rd') \<Rightarrow> Ret (Inl (lift e), rd', se)
     | (Inr None, rd') \<Rightarrow> Ret (Inl (lift peer_terminated), rd', se)
     | (Inr (Some sp), rd') \<Rightarrow> Ret (Inr sp, rd', se))"

definition with_seq :: "u8 \<Rightarrow> 's session \<Rightarrow> 's session" where
  "with_seq n se = se\<lparr>out := set_seq n (out se)\<rparr>"

definition refuse_login :: "byteorder_ops \<Rightarrow> (io_error \<Rightarrow> 'e) \<Rightarrow> ErrorKind \<Rightarrow> bytes \<Rightarrow> io_error \<Rightarrow> ('s, 'e, 'a) action" where
  "refuse_login B lift kind msg e =
     bind_action (write_out lift (write_err B kind msg)) (\<lambda>_.
     bind_action (write_out lift flush_all) (\<lambda>_. lift_result lift (Inl e)))"

subsection \<open>The steps of a login\<close>

text \<open>
  After the switch to TLS the client sends its response again, this time with credentials.
  \<open>with_tls\<close> says whether the crate is built with the feature \<open>tls\<close>.
\<close>

definition parse_again :: "byteorder_ops \<Rightarrow> myc_ops \<Rightarrow> Command nom_ops \<Rightarrow> (io_error \<Rightarrow> 'e) \<Rightarrow> bytes \<Rightarrow>
    ('s, 'e, ClientHandshake) action" where
  "parse_again B M N lift payload se =
     (case parse_client_handshake B M N payload True (out se) of
        (r, w) \<Rightarrow> lift_result lift r (se\<lparr>out := w\<rparr>))"

definition second_response :: "byteorder_ops \<Rightarrow> myc_ops \<Rightarrow> Command nom_ops \<Rightarrow> (io_error \<Rightarrow> 'e) \<Rightarrow> bool \<Rightarrow>
    ClientHandshake \<Rightarrow> u8 \<Rightarrow> ('s, 'e, ClientHandshake \<times> u8) login" where
  "second_response B M N lift with_tls h sq =
     (if with_tls \<and> has_cap M (capabilities h) CLIENT_SSL then
        bind_login (read_reply N lift) (\<lambda>(sq', p).
          if first_seq p \<noteq> sq + 1 then
            abort (lift (IoError InvalidData (ascii ''unexpected TLS handshake sequence'')))
          else on_session
            (bind_action (change (with_seq (sq' + 1))) (\<lambda>_.
             bind_action (parse_again B M N lift (packet_bytes p)) (\<lambda>h.
             bind_action (change (with_seq (sq' + 1))) (\<lambda>_. finish_with (h, sq'))))))
      else proceed (h, sq))"

definition negotiate :: "byteorder_ops \<Rightarrow> myc_ops \<Rightarrow> (io_error \<Rightarrow> 'e) \<Rightarrow> ClientHandshake \<Rightarrow> u8 \<Rightarrow>
    ('s, 'e, unit) action" where
  "negotiate B M lift h sq =
     (if \<not> has_cap M (capabilities h) CLIENT_PROTOCOL_41 then
        lift_result lift (Inl (IoError ConnectionAborted
          (ascii ''Required capability: CLIENT_PROTOCOL_41, please upgrade your MySQL client version'')))
      else
        bind_action (change (\<lambda>se. se\<lparr>client_capabilities := client_capabilities se AND capabilities h\<rparr>)) (\<lambda>_.
        bind_action (change (with_seq (sq + 1))) (\<lambda>_.
        case validate_collation M (hs_collation h) of
          Inl (kind, msg) \<Rightarrow> refuse_login B lift kind msg (IoError InvalidData msg)
        | Inr _ \<Rightarrow> finish_with ())))"

text \<open>
  A client without plugin negotiation can only use the native password, and only when it has
  announced that it does.
\<close>

definition plugin_usable :: "myc_ops \<Rightarrow> u32 \<Rightarrow> bytes \<Rightarrow> bool" where
  "plugin_usable M caps plugin \<longleftrightarrow>
     has_cap M caps CLIENT_PLUGIN_AUTH \<or>
     has_cap M caps CLIENT_SECURE_CONNECTION \<and> (plugin = [] \<or> plugin = MYSQL_NATIVE_PASSWORD)"

definition auth_switch_pieces :: "bytes \<Rightarrow> bytes \<Rightarrow> bytes list" where
  "auth_switch_pieces plugin scramble = [[0xfe], plugin, [0], scramble, [0]]"

text \<open>The result is the sequence number and the data of the client's last packet.\<close>

definition auth_switch :: "byteorder_ops \<Rightarrow> myc_ops \<Rightarrow> Command nom_ops \<Rightarrow> (io_error \<Rightarrow> 'e) \<Rightarrow> bytes \<Rightarrow> bytes \<Rightarrow>
    ClientHandshake \<Rightarrow> u8 \<Rightarrow> ('s, 'e, u8 \<times> bytes) login" where
  "auth_switch B M N lift plugin scramble h sq c =
     (if has_cap M (client_capabilities (snd c)) CLIENT_PLUGIN_AUTH \<and> plugin \<noteq> [] \<and> auth_plugin h \<noteq> plugin then
        bind_login (on_session
          (bind_action (change (with_seq (sq + 1))) (\<lambda>_.
           bind_action (write_out lift (message B (auth_switch_pieces plugin scramble))) (\<lambda>_.
           write_out lift flush_all)))) (\<lambda>_.
        bind_login (read_reply N lift) (\<lambda>(sq', p).
          if first_seq p \<noteq> sq + 2 then
            abort (lift (IoError InvalidData (ascii ''unexpected auth-switch sequence'')))
          else proceed (sq', packet_bytes p))) c
      else proceed (sq, auth_response h) c)"

text \<open>
  \<open>debug\<close> is the \<open>Debug\<close> rendering of a byte string read as UTF-8 with replacement characters; it
  only occurs in the error message.
\<close>

definition access_denied :: "(bytes \<Rightarrow> bytes) \<Rightarrow> bytes \<Rightarrow> bytes \<Rightarrow> bytes" where
  "access_denied debug user plugin =
     ascii ''Authenticate failed, user: '' @ debug user @ ascii '', auth_plugin: '' @ debug plugin"

definition deny :: "byteorder_ops \<Rightarrow> (io_error \<Rightarrow> 'e) \<Rightarrow> (bytes \<Rightarrow> bytes) \<Rightarrow> bytes \<Rightarrow> bytes \<Rightarrow> ('s, 'e, 'a) action" where
  "deny B lift debug user plugin =
     refuse_login B lift ER_ACCESS_DENIED_ERROR (access_denied debug user plugin)
       (IoError PermissionDenied (access_denied debug user plugin))"

definition check_credentials :: "byteorder_ops \<Rightarrow> (bytes \<Rightarrow> bytes) \<Rightarrow> ('s, 'e, 'd, 'dt) shim \<Rightarrow> bytes \<Rightarrow> bytes \<Rightarrow>
    bytes \<Rightarrow> bytes \<Rightarrow> ('s, 'e, unit) action" where
  "check_credentials B debug S plugin user scramble auth se =
     (let auth = (if plugin = CACHING_SHA2_PASSWORD \<and> auth = [0] then [] else auth) in
      if plugin = CACHING_SHA2_PASSWORD \<and> auth \<noteq> [] \<and> length auth \<noteq> CACHING_SHA2_DIGEST_LENGTH then
        deny B (from_io S) debug user plugin se
      else if \<not> authenticate S (shim_state se) plugin user scramble auth then
        deny B (from_io S) debug user plugin se
      else if plugin = CACHING_SHA2_PASSWORD \<and> length auth = CACHING_SHA2_DIGEST_LENGTH then
        write_out (from_io S) (message B [[0x01, 0x03]]) se
      else finish_with () se)"

definition initial_database :: "byteorder_ops \<Rightarrow> myc_ops \<Rightarrow> ('s, 'e, 'd, 'dt) shim \<Rightarrow> bytes option \<Rightarrow>
    ('s, 'e, unit) action" where
  "initial_database B M S database se =
     (case database of
        Some name \<Rightarrow>
          if from_utf8 name \<noteq> None then
            refuse_login B (from_io S) ER_MALFORMED_PACKET (ascii ''initial database is not valid utf-8'')
              (IoError InvalidData (ascii ''initial database is not valid utf-8'')) se
          else bind_action (with_init B M (from_io S) ''initial database'' (on_init S name)) (\<lambda>r.
            if r = InitError then
              bind_action (write_out (from_io S) flush_all) (\<lambda>_. lift_result (from_io S)
                (Inl (IoError ConnectionAborted (ascii ''initial database was rejected by the backend''))))
            else finish_with ()) se
      | None \<Rightarrow>
          if reject_connection_on_dbname_absence se then
            refuse_login B (from_io S) ER_DATABASE_NAME (ascii ''database required on connection'')
              (IoError ConnectionAborted
                (ascii ''database name requried: please add db name to the connection'')) se
          else write_out (from_io S) (write_ok_packet B M (client_capabilities se)
            (default_ok\<lparr>ok_status_flags := session_flags se\<rparr>)) se)"

definition login_user :: "byteorder_ops \<Rightarrow> myc_ops \<Rightarrow> Command nom_ops \<Rightarrow> (bytes \<Rightarrow> bytes) \<Rightarrow>
    ('s, 'e, 'd, 'dt) shim \<Rightarrow> bytes \<Rightarrow> ClientHandshake \<Rightarrow> u8 \<Rightarrow> bytes \<Rightarrow> ('s, 'e, unit) login" where
  "login_user B M N debug S scramble h sq user c =
     (let plugin = auth_plugin_for_username S (shim_state (snd c)) user in
      if \<not> plugin_usable M (client_capabilities (snd c)) plugin then
        on_session (refuse_login B (from_io S) ER_NOT_SUPPORTED_AUTH_MODE
          (ascii ''client does not support the required authentication protocol'')
          (IoError PermissionDenied (ascii ''unsupported client authentication protocol''))) c
      else
        bind_login (auth_switch B M N (from_io S) plugin scramble h sq) (\<lambda>(sq, auth).
        on_session
          (bind_action (change (with_seq (sq + 1))) (\<lambda>_.
           bind_action (check_credentials B debug S plugin user scramble auth) (\<lambda>_.
           initial_database B M S (db h))))) c)"

definition init_after_ssl :: "byteorder_ops \<Rightarrow> myc_ops \<Rightarrow> Command nom_ops \<Rightarrow> (bytes \<Rightarrow> bytes) \<Rightarrow>
    ('s, 'e, 'd, 'dt) shim \<Rightarrow> bool \<Rightarrow> ClientHandshake \<Rightarrow> u8 \<Rightarrow> ('s, 'e, unit) login" where
  "init_after_ssl B M N debug S with_tls h sq =
     (case server_scramble h of
        None \<Rightarrow> abort (from_io S (IoError InvalidData (ascii ''missing server handshake challenge'')))
      | Some scramble \<Rightarrow>
          bind_login (second_response B M N (from_io S) with_tls h sq) (\<lambda>(h, sq).
          bind_login (on_session (negotiate B M (from_io S) h sq)) (\<lambda>_.
          bind_login (case username h of Some user \<Rightarrow> login_user B M N debug S scramble h sq user | None \<Rightarrow> proceed ()) (\<lambda>_.
          on_session (write_out (from_io S) flush_all)))))"

subsection \<open>Entry points\<close>

text \<open>The session that \<open>run_with_options\<close> and its variants of \<open>tls.rs\<close> construct.\<close>

definition new_session :: "IntermediaryOptions \<Rightarrow> u32 \<Rightarrow> 's \<Rightarrow> sink \<Rightarrow> 's session" where
  "new_session opts caps st s =
     (let limit = packet_size_limit opts in
      \<lparr>client_capabilities = caps,
       process_use_statement_on_query = opt_process_use_statement_on_query opts,
       reject_connection_on_dbname_absence = opt_reject_connection_on_dbname_absence opts,
       read_timeout = opt_read_timeout opts, auth_timeout = opt_auth_timeout opts,
       max_long_data_size = limit,
       max_connection_long_data_size =
         (case opt_max_connection_long_data_size opts of Some n \<Rightarrow> n | None \<Rightarrow> limit),
       max_prepared_statements = (case opt_max_prepared_statements opts of Some n \<Rightarrow> n | None \<Rightarrow> 16382),
       session_flags = opt_initial_status_flags opts, initial_status_flags = opt_initial_status_flags opts,
       shim_state = st, out = packet_writer opts s, stmts = [], total_long_data_size = 0\<rparr>)"

text \<open>How a connection ends: before there is a session, or with one.\<close>

datatype ('s, 'e) outcome = Refused 'e | Ended "'e + unit" PacketReader "'s session" | Crashed

fun outcome_of :: "(('e + unit) \<times> PacketReader \<times> 's session) rust \<Rightarrow> ('s, 'e) outcome" where
  "outcome_of Panicked = Crashed"
| "outcome_of (Ret (r, rd, se)) = Ended r rd se"

text \<open>
  The part that the entry points share: the rest of the client's input becomes the transport of a
  new reader, the client logs in, and its commands are served. The fuel bounds the number of
  packets read by the command loop.
\<close>

definition login_and_run :: "byteorder_ops \<Rightarrow> myc_ops \<Rightarrow> ('d, 'dt) chrono_ops \<Rightarrow> ('d, 'dt) fmt_ops \<Rightarrow>
    Command nom_ops \<Rightarrow> (bytes \<Rightarrow> bytes) \<Rightarrow> ('s, 'e, 'd, 'dt) shim \<Rightarrow> bool \<Rightarrow> nat \<Rightarrow> IntermediaryOptions \<Rightarrow>
    ClientHandshake \<Rightarrow> u8 \<Rightarrow> rd_event list \<Rightarrow> 's session \<Rightarrow> ('s, 'e) outcome option" where
  "login_and_run B M C F N debug S with_tls fuel opts h sq input se =
     (case init_after_ssl B M N debug S with_tls h sq (packet_reader opts input, se) of
        Ret (Inr _, rd, se) \<Rightarrow> map_option outcome_of (run B M C F N S fuel rd se)
      | r \<Rightarrow> Some (outcome_of r))"

definition plain_run_with_options :: "byteorder_ops \<Rightarrow> myc_ops \<Rightarrow> ('d, 'dt) chrono_ops \<Rightarrow> ('d, 'dt) fmt_ops \<Rightarrow>
    Command nom_ops \<Rightarrow> (bytes \<Rightarrow> bytes) \<Rightarrow> ('s, 'e, 'd, 'dt) shim \<Rightarrow> nat \<Rightarrow> 's \<Rightarrow> sink \<Rightarrow>
    IntermediaryOptions \<Rightarrow> init_params \<Rightarrow> ('s, 'e) outcome option" where
  "plain_run_with_options B M C F N debug S fuel st s opts = (\<lambda>(h, sq, caps, rd).
     login_and_run B M C F N debug S True fuel opts h sq (reader_stream rd) (new_session opts caps st s))"

definition tls_timed_out :: io_error where
  "tls_timed_out = IoError TimedOut (ascii ''TLS authentication timed out'')"

definition secure_run_with_options :: "byteorder_ops \<Rightarrow> myc_ops \<Rightarrow> ('d, 'dt) chrono_ops \<Rightarrow> ('d, 'dt) fmt_ops \<Rightarrow>
    Command nom_ops \<Rightarrow> (bytes \<Rightarrow> bytes) \<Rightarrow> ('s, 'e, 'd, 'dt) shim \<Rightarrow> tls_accept \<Rightarrow> nat \<Rightarrow> 's \<Rightarrow> sink \<Rightarrow>
    IntermediaryOptions \<Rightarrow> init_params \<Rightarrow> ('s, 'e) outcome option" where
  "secure_run_with_options B M C F N debug S accept fuel st s opts = (\<lambda>(h, sq, caps, rd).
     case switch_to_tls accept rd s of
       None \<Rightarrow> if opt_auth_timeout opts \<noteq> None then Some (Refused (from_io S tls_timed_out)) else None
     | Some (Inl e) \<Rightarrow> Some (Refused (from_io S e))
     | Some (Inr (input, s)) \<Rightarrow>
         login_and_run B M C F N debug S True fuel opts h sq input (new_session opts caps st s))"

text \<open>The configuration of the greeting that a backend gives.\<close>

definition handshake_config :: "('s, 'e, 'd, 'dt) shim \<Rightarrow> 's \<Rightarrow> ServerHandshakeConfig \<times> 's" where
  "handshake_config S st =
     (let version = server_version S st; (i, st1) = connect_id S st;
          plugin = default_auth_plugin S st1; (challenge, st2) = salt S st1
      in (\<lparr>cfg_version = version, cfg_connection_id = i, cfg_default_auth_plugin = plugin, cfg_scramble = challenge\<rparr>, st2))"

text \<open>Without a TLS configuration; whether the client asked for TLS is not looked at.\<close>

definition run_with_options :: "byteorder_ops \<Rightarrow> myc_ops \<Rightarrow> ('d, 'dt) chrono_ops \<Rightarrow> ('d, 'dt) fmt_ops \<Rightarrow>
    Command nom_ops \<Rightarrow> (bytes \<Rightarrow> bytes) \<Rightarrow> ('s, 'e, 'd, 'dt) shim \<Rightarrow> bool \<Rightarrow> nat \<Rightarrow> 's \<Rightarrow> rd_event list \<Rightarrow> sink \<Rightarrow>
    IntermediaryOptions \<Rightarrow> ('s, 'e) outcome option" where
  "run_with_options B M C F N debug S with_tls fuel st input s opts =
     (case handshake_config S st of (cfg, st) \<Rightarrow>
        (case init_before_ssl B M N (if with_tls then WithTls False else WithoutTls) cfg input opts s of
           (Inl e, s) \<Rightarrow> Some (Refused (from_io S e))
         | (Inr (_, h, sq, caps, rd), s) \<Rightarrow>
             login_and_run B M C F N debug S with_tls fuel opts h sq (reader_stream rd) (new_session opts caps st s)))"

definition run_on :: "byteorder_ops \<Rightarrow> myc_ops \<Rightarrow> ('d, 'dt) chrono_ops \<Rightarrow> ('d, 'dt) fmt_ops \<Rightarrow>
    Command nom_ops \<Rightarrow> (bytes \<Rightarrow> bytes) \<Rightarrow> ('s, 'e, 'd, 'dt) shim \<Rightarrow> bool \<Rightarrow> nat \<Rightarrow> 's \<Rightarrow> rd_event list \<Rightarrow> sink \<Rightarrow>
    ('s, 'e) outcome option" where
  "run_on B M C F N debug S with_tls fuel st input s =
     run_with_options B M C F N debug S with_tls fuel st input s (default_options M)"

end
