(* ===== verification/Greeting.thy ===== *)
theory Greeting
  imports Handshake Callbacks Framing
begin

text \<open>
  What a client reads from the greeting, and what the checks of authentication data accept.
\<close>

subsection \<open>The client's view of the greeting\<close>

record greeting =
  gr_version :: bytes
  gr_connection_id :: u32
  gr_challenge :: bytes
  gr_capabilities :: u32
  gr_collation :: u8
  gr_status :: u16
  gr_plugin :: bytes

text \<open>The protocol's handshake packet, version 10; a client takes the challenge for a C string.\<close>

definition client_greeting :: "bytes \<Rightarrow> greeting iresult" where
  "client_greeting p =
     p_bind (ref_tag [10] p) (\<lambda>i _.
     p_bind (ref_take_until 0 i) (\<lambda>i version.
     p_bind (ref_take 1 i) (\<lambda>i _.
     p_bind (ref_le 4 i) (\<lambda>i conn.
     p_bind (ref_take 8 i) (\<lambda>i part1.
     p_bind (ref_take 1 i) (\<lambda>i _.
     p_bind (ref_le 2 i) (\<lambda>i low.
     p_bind (ref_le 1 i) (\<lambda>i coll.
     p_bind (ref_le 2 i) (\<lambda>i status.
     p_bind (ref_le 2 i) (\<lambda>i high.
     p_bind (ref_le 1 i) (\<lambda>i len.
     p_bind (ref_take 10 i) (\<lambda>i _.
     p_bind (ref_take (max 13 (unat (len :: u8) - 8)) i) (\<lambda>i part2.
     p_bind (ref_take_until 0 i) (\<lambda>i plugin.
     p_bind (ref_take 1 i) (\<lambda>i _.
     Inr (i, \<lparr>gr_version = version, gr_connection_id = conn,
       gr_challenge = takeWhile (\<lambda>b. b \<noteq> 0) (part1 @ part2),
       gr_capabilities = push_bit 16 (ucast (high :: u16)) OR ucast (low :: u16), gr_collation = coll,
       gr_status = status, gr_plugin = plugin\<rparr>))))))))))))))))"

lemma has_cap_or:
  assumes "myc_spec M"
  shows "has_cap M (caps OR cap_bits M c) d \<longleftrightarrow> c = d \<or> has_cap M caps d"
  using myc_specD(1) [OF assms] disjoint_contains_or [of "cap_bits M" d c caps]
  by (cases "c = d") (simp_all add: has_cap_def)

lemma has_cap_only:
  assumes "myc_spec M"
  shows "has_cap M (cap_bits M c) d \<longleftrightarrow> c = d"
proof (cases "c = d")
  case False
  then have "cap_bits M c AND cap_bits M d = 0" "cap_bits M d \<noteq> 0"
    using myc_specD(1) [OF assms] by (simp_all add: disjoint_bits_def)
  with False show ?thesis by (simp add: has_cap_def contains_def)
qed (simp add: has_cap_def contains_def)

lemma server_capabilities_offered:
  assumes "myc_spec M"
  shows "has_cap M (server_capabilities M opts T) c \<longleftrightarrow>
    c \<in> {CLIENT_PROTOCOL_41, CLIENT_LONG_FLAG, CLIENT_SECURE_CONNECTION, CLIENT_PLUGIN_AUTH,
      CLIENT_PLUGIN_AUTH_LENENC_CLIENT_DATA, CLIENT_CONNECT_WITH_DB, CLIENT_SESSION_TRACK, CLIENT_DEPRECATE_EOF} \<or>
    opt_enable_multi_results opts \<and> c \<in> {CLIENT_MULTI_RESULTS, CLIENT_PS_MULTI_RESULTS} \<or>
    T = WithTls True \<and> c = CLIENT_SSL"
  using has_cap_or [OF assms] has_cap_only [OF assms] by (auto simp: server_capabilities_def)

lemma take_le_bytes: "k \<le> n \<Longrightarrow> take k (le_bytes n v) = le_bytes k v"
proof (induction k arbitrary: n v)
  case (Suc k)
  then show ?case by (cases n) simp_all
qed simp

lemma drop_le_bytes: "k \<le> n \<Longrightarrow> drop k (le_bytes n v) = le_bytes (n - k) (v div 256 ^ k)"
proof (induction k arbitrary: n v)
  case (Suc k)
  then show ?case by (cases n) (simp_all add: div_mult2_eq)
qed simp

lemma le_bytes_mod: "le_bytes k (v mod 256 ^ k) = le_bytes k v"
  using le_bytes_of_le [of "le_bytes k v"] by (simp add: of_le_le_bytes)

lemma le32_split:
  "take 2 (le32 w) = le16 (ucast w)" "drop 2 (le32 w) = le16 (ucast (drop_bit 16 w))"
proof -
  have low: "unat (ucast w :: u16) = unat w mod 256 ^ 2"
    by (simp add: unsigned_ucast_eq take_bit_eq_mod)
  have high: "unat (ucast (drop_bit 16 w) :: u16) = (unat w div 256 ^ 2) mod 256 ^ 2"
    by (simp add: unsigned_ucast_eq take_bit_eq_mod drop_bit_eq_div unat_div_distrib)
  show "take 2 (le32 w) = le16 (ucast w)"
    unfolding le32_def le16_def low le_bytes_mod by (simp add: take_le_bytes)
  show "drop 2 (le32 w) = le16 (ucast (drop_bit 16 w))"
    unfolding le32_def le16_def high le_bytes_mod by (simp add: drop_le_bytes)
qed

lemma greeting_read:
  assumes "length (cfg_scramble cfg) = SCRAMBLE_SIZE" and "0 \<notin> set (cfg_version cfg)" "0 \<notin> set (cfg_scramble cfg)"
    "0 \<notin> set (cfg_default_auth_plugin cfg)"
  shows "client_greeting (concat (greeting_pieces M opts T cfg)) = Inr ([],
    \<lparr>gr_version = cfg_version cfg, gr_connection_id = cfg_connection_id cfg, gr_challenge = cfg_scramble cfg,
     gr_capabilities = server_capabilities M opts T, gr_collation = opt_initial_collation opts,
     gr_status = opt_initial_status_flags opts, gr_plugin = cfg_default_auth_plugin cfg\<rparr>)"
proof -
  let ?s = "cfg_scramble cfg" and ?len = "if cfg_default_auth_plugin cfg = [] then 0 else 21 :: u8"
  have part2: "ref_take (max 13 (unat ?len - 8)) (drop 8 ?s @ 0 # i) = Inr (i, drop 8 ?s @ [0])" for i
    using ref_take_append [of "drop 8 ?s @ [0]" 13 i] assms(1) by (simp add: SCRAMBLE_SIZE_def)
  have part1: "ref_take 8 (take 8 ?s @ i) = Inr (i, take 8 ?s)" for i
    using ref_take_append [of "take 8 ?s" 8 i] assms(1) by (simp add: SCRAMBLE_SIZE_def)
  have bytes: "ref_le 1 (b # i) = Inr (i, b)" "ref_take 1 (b # i) = Inr (i, [b])" for b :: u8 and i
    using ref_le_append [of "[b]" 1 i] ref_take_append [of "[b]" 1 i] by simp_all
  have words: "ref_le 4 (le32 v @ i) = Inr (i, v)" "ref_le 2 (le16 u @ i) = Inr (i, u)" for v u i
    by (simp_all add: ref_le_append)
  have filler: "ref_take 10 (replicate 10 0 @ i) = Inr (i, replicate 10 0)" for i
    by (rule ref_take_append) simp
  have challenge: "takeWhile (\<lambda>b. b \<noteq> 0) (take 8 ?s @ drop 8 ?s @ [0]) = ?s"
  proof -
    have "takeWhile (\<lambda>b. b \<noteq> 0) (?s @ [0]) = ?s"
      using assms(3) by (subst takeWhile_append2) auto
    then show ?thesis by (simp flip: append_assoc)
  qed
  have tag: "ref_tag [10] (10 # i) = Inr (i, [10])" for i
    using ref_tag_append [of "[10]" i] by simp
  have until: "ref_take_until 0 (v @ 0 # i) = Inr (0 # i, v)" if "0 \<notin> set v" for v i
    using ref_take_until_append [OF that] .
  show ?thesis
    using assms(2,4) challenge part2 until [of "[]" "[]"] bytes
    by (simp add: client_greeting_def greeting_pieces_def Let_def AUTH_PLUGIN_DATA_PART_1_LENGTH_def
        le32_split tag until bytes words filler part1 word_halves SCRAMBLE_SIZE_def split: if_splits)
qed

subsection \<open>What the connection phase hands over\<close>

lemma parse_client_handshake_Inr:
  "parse_client_handshake B M N payload after_tls w = (Inr h, w') \<longleftrightarrow>
     (\<exists>rest. client_handshake M N after_tls payload = Inr (rest, h)) \<and> w' = w"
  by (auto simp: parse_client_handshake_def then_io_def and_then_eq_Inr split: sum.split)

lemma init_before_ssl_Inr:
  assumes run: "init_before_ssl B M N T cfg input opts s = (Inr (ssl, h, sq, caps, rd), s')"
  obtains w p h0 rest where "\<not> (\<exists>b \<in> set (cfg_scramble cfg). delimiter b)"
    "write_greeting B M opts T cfg (packet_writer opts s) = (Inr (), w)" "s' = output_stream w"
    "read_packet_with_timeout N (opt_auth_timeout opts) (packet_reader opts input) = (Inr (Some (sq, p)), rd)"
    "first_seq p = 1" "client_handshake M N False (packet_bytes p) = Inr (rest, h0)"
    "h = h0\<lparr>server_scramble := Some (cfg_scramble cfg)\<rparr>" "ssl = has_cap M (capabilities h0) CLIENT_SSL"
    "ssl \<longrightarrow> T \<noteq> WithoutTls" "caps = server_capabilities M opts T"
proof -
  have ok: "\<not> (\<exists>b \<in> set (cfg_scramble cfg). delimiter b)"
    and "\<exists>u. validate_collation M (ucast (opt_initial_collation opts)) = Inr u"
    using run by (auto simp: init_before_ssl_def split: if_splits sum.splits)
  then obtain w p rd' sq' where w: "write_greeting B M opts T cfg (packet_writer opts s) = (Inr (), w)"
    and rd: "read_packet_with_timeout N (opt_auth_timeout opts) (packet_reader opts input) = (Inr (Some (sq', p)), rd')"
    and p: "first_seq p = 1"
    using run by (auto simp: init_before_ssl_def split: prod.splits sum.splits option.splits if_splits)
  obtain h0 w2 where h: "parse_client_handshake B M N (packet_bytes p) False (set_seq (sq' + 1) w) = (Inr h0, w2)"
    using run ok w rd p \<open>\<exists>u. _ = Inr u\<close> by (auto simp: init_before_ssl_def split: prod.splits sum.splits)
  then have "w2 = set_seq (sq' + 1) w" and "\<exists>rest. client_handshake M N False (packet_bytes p) = Inr (rest, h0)"
    by (simp_all add: parse_client_handshake_Inr)
  then show ?thesis
    using that ok w rd p h run \<open>\<exists>u. _ = Inr u\<close>
    by (auto simp: init_before_ssl_def Let_def set_seq_def split: if_splits)
qed

lemma packet_writer_fields [simp]:
  "ready (packet_writer opts s)" "output_stream (packet_writer opts s) = s" "seq (packet_builder (packet_writer opts s)) = 0"
  "has_timeout (packet_writer opts s) \<longleftrightarrow> opt_write_timeout opts \<noteq> None"
  "max_packet_size (packet_builder (packet_writer opts s)) = packet_size_limit opts"
  by (simp_all add: packet_writer_def Let_def ready_def new_writer_def new_builder_def set_flush_threshold_def
      set_max_packet_size_def set_write_timeout_def has_timeout_def split: option.split)

lemma greeting_emits:
  assumes "byteorder_spec B"
  shows "emits (write_greeting B M opts T cfg) [concat (greeting_pieces M opts T cfg)]"
    "completes (write_greeting B M opts T cfg) [concat (greeting_pieces M opts T cfg)]"
proof -
  have "concat (greeting_pieces M opts T cfg) \<noteq> []" by (simp add: greeting_pieces_def Let_def)
  note m = message_emits [OF assms this] message_completes [OF this]
  show "emits (write_greeting B M opts T cfg) [concat (greeting_pieces M opts T cfg)]"
    using emits_then [OF m(1) emits_flush] by (simp add: write_greeting_def flush_all_def)
  show "completes (write_greeting B M opts T cfg) [concat (greeting_pieces M opts T cfg)]"
    using completes_then [OF m completes_flush] by (simp add: write_greeting_def flush_all_def)
qed

text \<open>C17: when the connection phase succeeds, the server has sent exactly one packet with sequence
  number 0, the greeting, in which a client reads the version, the connection's id, the whole
  challenge, the collation, the status, the plugin and the server's capabilities; TLS is offered only
  when it is configured, and several result sets only when they are enabled.\<close>

theorem greeting_understood:
  assumes "byteorder_spec B" and "myc_spec M"
    and "init_before_ssl B M N T cfg input opts s = (Inr (ssl, h, sq, caps, rd), s')"
    and "length (cfg_scramble cfg) = SCRAMBLE_SIZE" and "0 \<notin> set (cfg_version cfg)" "0 \<notin> set (cfg_default_auth_plugin cfg)"
  shows "\<exists>payload. written s' = written s @ frames 0 payload \<and>
     client_greeting payload = Inr ([],
       \<lparr>gr_version = cfg_version cfg, gr_connection_id = cfg_connection_id cfg, gr_challenge = cfg_scramble cfg,
        gr_capabilities = caps, gr_collation = opt_initial_collation opts,
        gr_status = opt_initial_status_flags opts, gr_plugin = cfg_default_auth_plugin cfg\<rparr>) \<and>
     (has_cap M caps CLIENT_SSL \<longleftrightarrow> T = WithTls True) \<and>
     (has_cap M caps CLIENT_MULTI_RESULTS \<longleftrightarrow> opt_enable_multi_results opts)"
proof -
  obtain w where del: "\<not> (\<exists>b \<in> set (cfg_scramble cfg). delimiter b)"
    and w: "write_greeting B M opts T cfg (packet_writer opts s) = (Inr (), w)" and s': "s' = output_stream w"
    and caps: "caps = server_capabilities M opts T"
    using init_before_ssl_Inr [OF assms(3)] by metis
  have "emitted (packet_writer opts s) [concat (greeting_pieces M opts T cfg)] w"
    by (rule emitsD [OF greeting_emits(1) [OF assms(1)] _ w]) simp
  then have "written s' = written s @ frames 0 (concat (greeting_pieces M opts T cfg))"
    by (simp add: emitted_def s')
  moreover have "0 \<notin> set (cfg_scramble cfg)" using del by (auto simp: delimiter_def)
  ultimately show ?thesis
    using greeting_read [OF assms(4,5) _ assms(6), of M opts T] caps
    by (auto simp: server_capabilities_offered [OF assms(2)])
qed

text \<open>A client that answers the greeting in time gets through.\<close>

lemma init_before_ssl_completes:
  assumes B: "byteorder_spec B" and N: "nom_spec N"
    and cfg: "list_all (\<lambda>b. \<not> delimiter b) (cfg_scramble cfg)" "validate_collation M (ucast (opt_initial_collation opts)) = Inr u"
    and s: "reliable (opt_write_timeout opts \<noteq> None) s"
      "length (concat (greeting_pieces M opts T cfg)) \<le> packet_size_limit opts" "packet_size_limit opts \<le> usize_max"
    and input: "delivers (opt_auth_timeout opts \<noteq> None) input" "stream_bytes input = frames 1 p @ rest"
      "length p \<le> packet_size_limit opts" "length p < U24_MAX"
    and h: "client_handshake M N False p = Inr (r, h)" "has_cap M (capabilities h) CLIENT_SSL \<longrightarrow> T \<noteq> WithoutTls"
  shows "\<exists>rd s'. init_before_ssl B M N T cfg input opts s =
      (Inr (has_cap M (capabilities h) CLIENT_SSL, h\<lparr>server_scramble := Some (cfg_scramble cfg)\<rparr>, 1,
        server_capabilities M opts T, rd), s') \<and>
    reliable (opt_write_timeout opts \<noteq> None) s' \<and> unread rd = rest \<and> delivers (opt_auth_timeout opts \<noteq> None) (rd_stream rd)"
proof -
  have "writer_reliable (packet_writer opts s)" using s(1) by (simp add: writer_reliable_def)
  then obtain w where w: "write_greeting B M opts T cfg (packet_writer opts s) = (Inr (), w)" "writer_reliable w"
    using completesD [OF greeting_emits(2) [OF B], of "packet_writer opts s" M opts T cfg] s
    by (auto simp: fits_def)
  have "emitted (packet_writer opts s) [concat (greeting_pieces M opts T cfg)] w"
    by (rule emitsD [OF greeting_emits(1) [OF B] _ w(1)]) simp
  then have "has_timeout w \<longleftrightarrow> opt_write_timeout opts \<noteq> None"
    using packet_writer_fields(4) [of opts s] by (simp add: emitted_def same_limits_def has_timeout_def)
  with w(2) have s': "reliable (opt_write_timeout opts \<noteq> None) (output_stream w)" by (simp add: writer_reliable_def)
  obtain rd where rd: "read_packet_with_timeout N (opt_auth_timeout opts) (packet_reader opts input) = (Inr (Some (parsed 1 p)), rd)"
    "unread rd = rest" "delivers (opt_auth_timeout opts \<noteq> None) (rd_stream rd)"
    using read_frames_aux [OF N, of "opt_auth_timeout opts" "packet_reader opts input" 1 p rest] input s(3)
    by (auto simp: packet_reader_def new_with_max_packet_size_def unread_def)
  have "parsed 1 p = (1, \<lparr>packet_bytes = p, first_seq = 1\<rparr>)" using input(4) by (simp add: parsed_def)
  moreover have "parse_client_handshake B M N p False w' = (Inr h, w')" for w'
    by (simp add: parse_client_handshake_Inr h(1))
  moreover have "output_stream (set_seq n w) = output_stream w" for n by (simp add: set_seq_def)
  ultimately show ?thesis
    using cfg w(1) rd h(2) s' by (simp add: init_before_ssl_def Let_def list_all_iff)
qed

definition demo_options :: IntermediaryOptions where
  "demo_options = (default_options myc_ref)\<lparr>opt_write_timeout := None, opt_max_packet_size := Some 1000\<rparr>"

definition demo_config :: ServerHandshakeConfig where
  "demo_config = \<lparr>cfg_version = [56], cfg_connection_id = 7, cfg_default_auth_plugin = [97],
     cfg_scramble = replicate 20 0x41\<rparr>"

definition demo_ssl_request :: bytes where
  "demo_ssl_request = ssl_request_bytes 0xA00 1024 45 (replicate 23 0)"

lemma demo_connected:
  "\<exists>h rd s'. init_before_ssl byteorder_ref myc_ref nom_ref (WithTls True) demo_config [RData (frames 1 demo_ssl_request)]
     demo_options demo_sink = (Inr (True, h, 1, server_capabilities myc_ref demo_options (WithTls True), rd), s')"
proof -
  have caps: "has_cap myc_ref 0xA00 CLIENT_PROTOCOL_41" "has_cap myc_ref 0xA00 CLIENT_SSL"
    by (simp_all add: has_cap_def contains_def myc_ref_def ref_cap_def)
  let ?h = "\<lparr>server_scramble = None, maxps = 1024, capabilities = from_bits_truncate myc_ref 0xA00,
      hs_collation = ucast (45 :: u8), db = None, username = None, auth_response = [], auth_plugin = []\<rparr>"
  have h: "client_handshake myc_ref nom_ref False demo_ssl_request = Inr ([], ?h)"
    using handshake_41_header [OF nom_ref_spec myc_ref_spec caps(1), of "replicate 23 0" False 1024 45 "[]"] caps
    by (simp add: demo_ssl_request_def)
  have ssl: "has_cap myc_ref (capabilities ?h) CLIENT_SSL"
    using caps by (simp add: has_cap_truncate [OF myc_ref_spec])
  have fr: "frames 1 demo_ssl_request \<noteq> []" by (simp add: frames.simps [of 1] frame_def)
  have len: "length demo_ssl_request = 32" by (simp add: demo_ssl_request_def ssl_request_bytes_def)
  have "\<exists>rd s'. init_before_ssl byteorder_ref myc_ref nom_ref (WithTls True) demo_config [RData (frames 1 demo_ssl_request)]
      demo_options demo_sink = (Inr (has_cap myc_ref (capabilities ?h) CLIENT_SSL,
        ?h\<lparr>server_scramble := Some (cfg_scramble demo_config)\<rparr>, 1,
        server_capabilities myc_ref demo_options (WithTls True), rd), s') \<and>
      reliable (opt_write_timeout demo_options \<noteq> None) s' \<and> unread rd = [] \<and>
      delivers (opt_auth_timeout demo_options \<noteq> None) (rd_stream rd)"
    by (rule init_before_ssl_completes [OF byteorder_ref_spec nom_ref_spec _ _ _ _ _ _ _ _ _ h, where u = "()"])
      (use fr len in \<open>simp_all add: list_all_iff demo_config_def delimiter_def demo_options_def default_options_def validate_collation_def
        myc_ref_def reliable_def demo_sink_def packet_size_limit_def greeting_pieces_def Let_def SCRAMBLE_SIZE_def
        AUTH_PLUGIN_DATA_PART_1_LENGTH_def usize_max_def U24_MAX_def\<close>)
  with ssl show ?thesis by auto
qed

theorem greeting_understood_witness:
  "\<exists>payload (s' :: sink). written s' = written demo_sink @ frames 0 payload \<and>
     (\<exists>g. client_greeting payload = Inr ([], g) \<and> gr_challenge g = replicate 20 0x41 \<and> gr_connection_id g = 7)"
proof -
  obtain h rd s' where run: "init_before_ssl byteorder_ref myc_ref nom_ref (WithTls True) demo_config
      [RData (frames 1 demo_ssl_request)] demo_options demo_sink =
      (Inr (True, h, 1, server_capabilities myc_ref demo_options (WithTls True), rd), s')"
    using demo_connected by blast
  have "length (cfg_scramble demo_config) = SCRAMBLE_SIZE" "0 \<notin> set (cfg_version demo_config)"
    "0 \<notin> set (cfg_default_auth_plugin demo_config)" by (simp_all add: demo_config_def SCRAMBLE_SIZE_def)
  from greeting_understood [OF byteorder_ref_spec myc_ref_spec run this] obtain payload
    where "written s' = written demo_sink @ frames 0 payload" "\<exists>g. client_greeting payload = Inr ([], g) \<and>
      gr_challenge g = replicate 20 0x41 \<and> gr_connection_id g = 7"
    by (auto simp: demo_config_def)
  then show ?thesis by blast
qed

subsection \<open>Authentication data\<close>

text \<open>The digests are defined for every password but the empty one.\<close>

definition digest_spec :: "digest_ops \<Rightarrow> bool" where
  "digest_spec D \<longleftrightarrow> (\<forall>nonce password.
     (case scramble_native D nonce password of None \<Rightarrow> password = [] | Some d \<Rightarrow> password \<noteq> [] \<and> length d = 20) \<and>
     (length nonce = 20 \<longrightarrow> (case myc_scramble_sha256 D nonce password of
        None \<Rightarrow> password = [] | Some d \<Rightarrow> password \<noteq> [] \<and> length d = CACHING_SHA2_DIGEST_LENGTH)))"

text \<open>What a client with the password responds.\<close>

definition client_response :: "digest_ops \<Rightarrow> bytes \<Rightarrow> bytes \<Rightarrow> bytes \<Rightarrow> bytes" where
  "client_response D plugin password nonce =
     (if password = [] then []
      else the (if plugin = MYSQL_NATIVE_PASSWORD then scramble_native D nonce password
                else myc_scramble_sha256 D nonce password))"

lemma password_names [simp]: "MYSQL_NATIVE_PASSWORD \<noteq> CACHING_SHA2_PASSWORD" "CACHING_SHA2_PASSWORD \<noteq> MYSQL_NATIVE_PASSWORD"
  by (simp_all add: MYSQL_NATIVE_PASSWORD_def CACHING_SHA2_PASSWORD_def ascii_def)

lemma verified_data:
  assumes "digest_spec D" and "length nonce = SCRAMBLE_SIZE"
  shows "verify_auth_plugin_data D plugin password nonce auth_data \<longleftrightarrow>
    plugin \<in> {MYSQL_NATIVE_PASSWORD, CACHING_SHA2_PASSWORD} \<and>
    (auth_data = client_response D plugin password nonce \<or>
     plugin = CACHING_SHA2_PASSWORD \<and> password = [] \<and> auth_data = [0])"
proof -
  have n: "length nonce = 20" using assms(2) by (simp add: SCRAMBLE_SIZE_def)
  with assms(1) have d: "case scramble_native D nonce password of None \<Rightarrow> password = [] | Some d \<Rightarrow> password \<noteq> [] \<and> length d = 20"
    "case myc_scramble_sha256 D nonce password of None \<Rightarrow> password = []
       | Some d \<Rightarrow> password \<noteq> [] \<and> length d = CACHING_SHA2_DIGEST_LENGTH"
    by (simp_all add: digest_spec_def)
  show ?thesis
  proof (cases "plugin = MYSQL_NATIVE_PASSWORD")
    case True
    with d n show ?thesis
      by (auto simp: verify_auth_plugin_data_def verify_mysql_native_password_def client_response_def split: option.splits)
  next
    case False
    with d n show ?thesis
      by (auto simp: verify_auth_plugin_data_def verify_caching_sha2_password_def scramble_sha256_def client_response_def
          CACHING_SHA2_DIGEST_LENGTH_def Let_def split: option.splits)
  qed
qed

text \<open>C27: authentication data are accepted exactly when they are the response of a client that has the
  password to this very challenge, under a known plugin; a single zero byte counts as no data, for an
  account without a password only.\<close>

theorem authentication_data_checked:
  assumes "digest_spec D" and "length nonce = SCRAMBLE_SIZE"
  shows "verify_auth_plugin_data D plugin password nonce auth_data \<longleftrightarrow>
    plugin \<in> {MYSQL_NATIVE_PASSWORD, CACHING_SHA2_PASSWORD} \<and>
    (auth_data = client_response D plugin password nonce \<or>
     plugin = CACHING_SHA2_PASSWORD \<and> password = [] \<and> auth_data = [0])"
  by (rule verified_data [OF assms])

definition demo_digest :: digest_ops where
  "demo_digest = \<lparr>scramble_native = (\<lambda>n p. if p = [] then None else Some (take 20 (p @ replicate 20 1))),
     myc_scramble_sha256 = (\<lambda>n p. if p = [] then None else Some (take 32 (p @ replicate 32 2)))\<rparr>"

theorem authentication_data_checked_witness:
  "\<not> verify_auth_plugin_data demo_digest CACHING_SHA2_PASSWORD [7] (replicate 20 0x41) [0]"
proof -
  have "digest_spec demo_digest" by (auto simp: digest_spec_def demo_digest_def CACHING_SHA2_DIGEST_LENGTH_def min_def)
  from authentication_data_checked [OF this, of "replicate 20 0x41" CACHING_SHA2_PASSWORD "[7]" "[0]"] show ?thesis
    by (simp add: client_response_def demo_digest_def SCRAMBLE_SIZE_def)
qed

text \<open>A challenge of another length is taken for an account without a password.\<close>

lemma odd_challenge_accepts_empty:
  "length nonce \<noteq> 20 \<Longrightarrow> verify_auth_plugin_data D CACHING_SHA2_PASSWORD password nonce []"
  by (simp add: verify_auth_plugin_data_def verify_caching_sha2_password_def scramble_sha256_def Let_def)

end
