(* ===== verification/Authentication.thy ===== *)
theory Authentication
  imports Login Greeting Serving
begin

text \<open>
  The steps of a login that leave the backend alone: up to the check of the credentials nothing that a
  client sends and nothing that the transport does changes the backend's state or panics. Refusal
  puts them together.
\<close>

subsection \<open>Logins that leave the backend alone\<close>

text \<open>
  \<open>safe st Q m\<close>: started in the backend state \<open>st\<close>, \<open>m\<close> does not panic and leaves that state alone, and
  its results satisfy \<open>Q\<close>; it cannot succeed when \<open>Q\<close> is empty.
\<close>

definition safe :: "'s \<Rightarrow> ('a \<Rightarrow> bool) \<Rightarrow> ('s, 'e, 'a) login \<Rightarrow> bool" where
  "safe st Q m \<longleftrightarrow> (\<forall>rd se. shim_state se = st \<longrightarrow>
     (\<exists>r rd' se'. m (rd, se) = Ret (r, rd', se') \<and> shim_state se' = st \<and> (\<forall>x. r = Inr x \<longrightarrow> Q x)))"

definition safe_action :: "'s \<Rightarrow> ('a \<Rightarrow> bool) \<Rightarrow> ('s, 'e, 'a) action \<Rightarrow> bool" where
  "safe_action st Q m \<longleftrightarrow> (\<forall>se. shim_state se = st \<longrightarrow>
     (\<exists>r se'. m se = Ret (r, se') \<and> shim_state se' = st \<and> (\<forall>x. r = Inr x \<longrightarrow> Q x)))"

named_theorems safe_intros

lemma safeD:
  "safe st Q m \<Longrightarrow> shim_state se = st \<Longrightarrow>
     \<exists>r rd' se'. m (rd, se) = Ret (r, rd', se') \<and> shim_state se' = st \<and> (\<forall>x. r = Inr x \<longrightarrow> Q x)"
  by (simp add: safe_def)

lemma safe_bind [safe_intros]:
  assumes "safe st Q m" and "\<And>x. Q x \<Longrightarrow> safe st R (f x)"
  shows "safe st R (bind_login m f)"
  unfolding safe_def
proof (intro allI impI)
  fix rd and se :: "'a session" assume "shim_state se = st"
  with assms(1) obtain r rd1 se1 where m: "m (rd, se) = Ret (r, rd1, se1)" "shim_state se1 = st" "\<forall>x. r = Inr x \<longrightarrow> Q x"
    unfolding safe_def by blast
  show "\<exists>r rd' se'. bind_login m f (rd, se) = Ret (r, rd', se') \<and> shim_state se' = st \<and> (\<forall>x. r = Inr x \<longrightarrow> R x)"
  proof (cases r)
    case (Inl e)
    with m show ?thesis by (simp add: bind_login_def)
  next
    case (Inr x)
    with m assms(2) have "safe st R (f x)" by blast
    with m Inr show ?thesis unfolding safe_def by (simp add: bind_login_def)
  qed
qed

lemma safe_action_bind [safe_intros]:
  assumes "safe_action st Q m" and "\<And>x. Q x \<Longrightarrow> safe_action st R (f x)"
  shows "safe_action st R (bind_action m f)"
  unfolding safe_action_def
proof (intro allI impI)
  fix se :: "'a session" assume "shim_state se = st"
  with assms(1) obtain r se1 where m: "m se = Ret (r, se1)" "shim_state se1 = st" "\<forall>x. r = Inr x \<longrightarrow> Q x"
    unfolding safe_action_def by blast
  show "\<exists>r se'. bind_action m f se = Ret (r, se') \<and> shim_state se' = st \<and> (\<forall>x. r = Inr x \<longrightarrow> R x)"
  proof (cases r)
    case (Inl e)
    with m show ?thesis by (simp add: bind_action_def)
  next
    case (Inr x)
    with m assms(2) have "safe_action st R (f x)" by blast
    with m Inr show ?thesis unfolding safe_action_def by (simp add: bind_action_def)
  qed
qed

lemma safe_session [safe_intros]: "safe_action st Q m \<Longrightarrow> safe st Q (on_session m)"
  unfolding safe_def safe_action_def on_session_def by fastforce

lemma safe_steps [safe_intros]:
  "Q x \<Longrightarrow> safe st Q (proceed x)" "safe st Q (abort e)" "Q x \<Longrightarrow> safe_action st Q (finish_with x)"
  by (simp_all add: safe_def safe_action_def proceed_def abort_def finish_with_def)

lemma safe_change [safe_intros]:
  "Q () \<Longrightarrow> (\<And>se. shim_state (f se) = shim_state se) \<Longrightarrow> safe_action st Q (change f)"
  by (simp add: safe_action_def change_def)

lemma safe_write [safe_intros]: "Q () \<Longrightarrow> safe_action st Q (write_out lift m)"
  by (auto simp: safe_action_def write_out_def split: prod.split)

lemma safe_error [safe_intros]: "safe_action st Q (lift_result lift (Inl e))"
  by (simp add: safe_action_def lift_result_def)

lemma safe_reply [safe_intros]: "(\<And>sp. Q sp) \<Longrightarrow> safe st Q (read_reply N lift)"
  by (auto simp: safe_def read_reply_def split: prod.split sum.split option.split)

lemma with_seq_simps [simp]: "shim_state (with_seq n se) = shim_state se" "out (with_seq n se) = set_seq n (out se)"
  "client_capabilities (with_seq n se) = client_capabilities se"
  by (simp_all add: with_seq_def)

lemma safe_refuse [safe_intros]: "safe_action st Q (refuse_login B lift kind msg e)"
  unfolding refuse_login_def
  by (rule safe_action_bind [where Q = "\<lambda>_. True"] safe_write TrueI safe_error)+

text \<open>By cases on the state.\<close>

lemma safe_cases:
  assumes "\<And>rd se. shim_state se = st \<Longrightarrow> \<exists>m'. safe st Q m' \<and> m (rd, se) = m' (rd, se)"
  shows "safe st Q m"
  unfolding safe_def
proof (intro allI impI)
  fix rd and se :: "'a session" assume st: "shim_state se = st"
  with assms obtain m' where "safe st Q m'" "m (rd, se) = m' (rd, se)" by blast
  with st show "\<exists>r rd' se'. m (rd, se) = Ret (r, rd', se') \<and> shim_state se' = st \<and> (\<forall>x. r = Inr x \<longrightarrow> Q x)"
    unfolding safe_def by fastforce
qed

lemma safe_action_cases:
  assumes "\<And>se. shim_state se = st \<Longrightarrow> \<exists>m'. safe_action st Q m' \<and> m se = m' se"
  shows "safe_action st Q m"
  unfolding safe_action_def
proof (intro allI impI)
  fix se :: "'a session" assume st: "shim_state se = st"
  with assms obtain m' where "safe_action st Q m'" "m se = m' se" by blast
  with st show "\<exists>r se'. m se = Ret (r, se') \<and> shim_state se' = st \<and> (\<forall>x. r = Inr x \<longrightarrow> Q x)"
    unfolding safe_action_def by fastforce
qed

subsection \<open>The steps before the credentials\<close>

lemma safe_parse_again [safe_intros]: "safe_action st (\<lambda>h. username h \<noteq> None) (parse_again B M N lift payload)"
  unfolding safe_action_def parse_again_def lift_result_def
  by (auto simp: parse_client_handshake_Inr split: prod.split sum.split dest!: handshake_parsed)

lemma safe_second_response:
  assumes "username h = None \<longrightarrow> with_tls \<and> has_cap M (capabilities h) CLIENT_SSL"
  shows "safe st (\<lambda>(h, sq). username h \<noteq> None) (second_response B M N lift with_tls h sq)"
  unfolding second_response_def
  using assms
  by (auto intro!: safe_steps safe_bind [where Q = "\<lambda>_. True"] safe_reply safe_session
      safe_action_bind [where Q = "\<lambda>_. True", OF safe_change] safe_action_bind [OF safe_parse_again]
      split: if_splits)

lemma safe_negotiate: "safe_action st (\<lambda>_. True) (negotiate B M lift h sq)"
  unfolding negotiate_def
  by (auto intro!: safe_error safe_action_bind [where Q = "\<lambda>_. True", OF safe_change] safe_refuse safe_steps
      split: sum.split)

lemma safe_switch: "safe st (\<lambda>_. True) (auth_switch B M N lift plugin scramble h sq)"
proof (rule safe_cases)
  fix rd and se :: "'a session"
  let ?switch = "bind_login (on_session
          (bind_action (change (with_seq (sq + 1))) (\<lambda>_.
           bind_action (write_out lift (message B (auth_switch_pieces plugin scramble))) (\<lambda>_.
           write_out lift flush_all)))) (\<lambda>_.
        bind_login (read_reply N lift) (\<lambda>(sq', p).
          if first_seq p \<noteq> sq + 2 then
            abort (lift (IoError InvalidData (ascii ''unexpected auth-switch sequence'')))
          else proceed (sq', packet_bytes p)))"
  have "safe st (\<lambda>_. True) ?switch"
    by (auto intro!: safe_bind [where Q = "\<lambda>_. True"] safe_session safe_action_bind [where Q = "\<lambda>_. True"]
        safe_change safe_write safe_reply safe_steps)
  moreover have "safe st (\<lambda>_. True) (proceed (sq, auth_response h))" by (rule safe_steps) simp
  ultimately show "\<exists>m'. safe st (\<lambda>_. True) m' \<and> auth_switch B M N lift plugin scramble h sq (rd, se) = m' (rd, se)"
    unfolding auth_switch_def by auto
qed

text \<open>Everything the connection phase hands over carries the server's own challenge.\<close>

lemma handed_over:
  assumes "init_before_ssl B M N T cfg input opts s = (Inr (ssl, h, sq, caps, rd), s')"
  shows "server_scramble h = Some (cfg_scramble cfg)"
    "username h = None \<longrightarrow> T \<noteq> WithoutTls \<and> has_cap M (capabilities h) CLIENT_SSL"
  using assms by (rule init_before_ssl_Inr, auto dest: handshake_parsed)+

lemma new_session_fields [simp]: "shim_state (new_session opts caps st s) = st" "out (new_session opts caps st s) = packet_writer opts s"
  "client_capabilities (new_session opts caps st s) = caps" "stmts (new_session opts caps st s) = []"
  "total_long_data_size (new_session opts caps st s) = 0"
  by (simp_all add: new_session_def Let_def)

end
