(* ===== verification/Admission.thy ===== *)
theory Admission
  imports Authentication
begin

text \<open>
  What a client that is let in has received: the packets of a successful login, and that the
  session is then ready to serve commands.
\<close>

subsection \<open>Steps that succeed\<close>

named_theorems login_simps

lemma bind_login_Inr [login_simps]:
  "bind_login m f c = Ret (Inr y, c'') \<longleftrightarrow> (\<exists>x c'. m c = Ret (Inr x, c') \<and> f x c' = Ret (Inr y, c''))"
  by (auto simp: bind_login_def split: rust.splits prod.splits sum.splits)

lemma on_session_Inr [login_simps]:
  "on_session m (rd, se) = Ret (Inr x, c') \<longleftrightarrow> (\<exists>se'. m se = Ret (Inr x, se') \<and> c' = (rd, se'))"
  by (auto simp: on_session_def split: rust.splits prod.splits)

lemma proceed_Inr [login_simps]: "proceed x c = Ret (Inr y, c') \<longleftrightarrow> y = x \<and> c' = c"
  by (auto simp: proceed_def)

lemma abort_Inr [login_simps]: "abort e c \<noteq> Ret (Inr y, c')"
  by (simp add: abort_def)

lemma read_reply_Inr [login_simps]:
  "read_reply N lift (rd, se) = Ret (Inr sp, c') \<longleftrightarrow>
     (\<exists>rd'. read_packet_with_timeout N (auth_timeout se) rd = (Inr (Some sp), rd') \<and> c' = (rd', se))"
  by (auto simp: read_reply_def split: prod.splits sum.splits option.splits)

lemma refuse_login_Inr [login_simps]: "refuse_login B lift kind msg e se \<noteq> Ret (Inr x, se')"
  by (auto simp: refuse_login_def action_simps)

text \<open>The login changes the output, the negotiated capabilities, the status and the backend, nothing else.\<close>

definition same_tables :: "'s session \<Rightarrow> 's session \<Rightarrow> bool" where
  "same_tables se se' \<longleftrightarrow> stmts se' = stmts se \<and> total_long_data_size se' = total_long_data_size se \<and>
     max_long_data_size se' = max_long_data_size se \<and>
     max_connection_long_data_size se' = max_connection_long_data_size se \<and>
     max_prepared_statements se' = max_prepared_statements se"

lemma same_tables_io: "only_io se se' \<Longrightarrow> same_tables se se'"
  by (simp add: same_tables_def only_io_fields)

lemma same_tables_trans: "same_tables se1 se2 \<Longrightarrow> same_tables se2 se3 \<Longrightarrow> same_tables se1 se3"
  by (simp add: same_tables_def)

lemma same_tables_simps [simp]: "same_tables se se" "same_tables se (with_seq n se)"
  "same_tables se (with_seq n (se\<lparr>client_capabilities := caps\<rparr>))"
  by (simp_all add: same_tables_def with_seq_def)

lemma session_inv_same: "same_tables se se' \<Longrightarrow> session_inv se' = session_inv se"
  by (simp add: same_tables_def session_inv_def)

lemma with_seq_overwrite [simp]:
  "(with_seq n se)\<lparr>out := w\<rparr> = se\<lparr>out := w\<rparr>" "with_seq n (se\<lparr>out := w\<rparr>) = se\<lparr>out := set_seq n w\<rparr>"
  "set_seq n (set_seq k w) = set_seq n w" "se\<lparr>out := set_seq n (out se)\<rparr> = with_seq n se"
  by (simp_all add: with_seq_def set_seq_def)

lemma second_response_Inr:
  assumes "username h = None \<longrightarrow> with_tls \<and> has_cap M (capabilities h) CLIENT_SSL"
    and "second_response B M N lift with_tls h sq (rd, se) = Ret (Inr (h', sq'), rd', se')"
  shows "username h' \<noteq> None" "se' = se \<or> (\<exists>n. se' = with_seq n se)"
    "nom_spec N \<Longrightarrow> \<exists>reply. unread rd = received_wire reply @ unread rd' \<and>
       (if with_tls \<and> has_cap M (capabilities h) CLIENT_SSL
        then \<exists>p r. reply = [(sq', p)] \<and> whole (sq', p) \<and> first_seq p = sq + 1 \<and>
          client_handshake M N True (packet_bytes p) = Inr (r, h')
        else reply = [] \<and> h' = h \<and> sq' = sq)"
proof -
  have "username h' \<noteq> None \<and> (se' = se \<or> (\<exists>n. se' = with_seq n se)) \<and>
    (nom_spec N \<longrightarrow> (\<exists>reply. unread rd = received_wire reply @ unread rd' \<and>
       (if with_tls \<and> has_cap M (capabilities h) CLIENT_SSL
        then \<exists>p r. reply = [(sq', p)] \<and> whole (sq', p) \<and> first_seq p = sq + 1 \<and>
          client_handshake M N True (packet_bytes p) = Inr (r, h')
        else reply = [] \<and> h' = h \<and> sq' = sq)))"
  proof (cases "with_tls \<and> has_cap M (capabilities h) CLIENT_SSL")
    case False
    with assms show ?thesis by (auto simp: second_response_def login_simps)
  next
    case True
    with assms(2) obtain p r where p: "read_packet_with_timeout N (auth_timeout se) rd = (Inr (Some (sq', p)), rd')"
        "first_seq p = sq + 1" "client_handshake M N True (packet_bytes p) = Inr (r, h')"
      and se': "\<exists>n. se' = with_seq n se"
      by (auto simp: second_response_def login_simps action_simps parse_again_def parse_client_handshake_Inr
          split: if_splits prod.splits)
    have "nom_spec N \<longrightarrow> (\<exists>reply. unread rd = received_wire reply @ unread rd' \<and>
        (\<exists>p r. reply = [(sq', p)] \<and> whole (sq', p) \<and> first_seq p = sq + 1 \<and> client_handshake M N True (packet_bytes p) = Inr (r, h')))"
      using read_sound [OF _ p(1)] p(2,3) by (intro impI exI [of _ "[(sq', p)]"]) auto
    with True se' handshake_parsed [OF p(3)] show ?thesis by auto
  qed
  then show "username h' \<noteq> None" "se' = se \<or> (\<exists>n. se' = with_seq n se)"
    "nom_spec N \<Longrightarrow> \<exists>reply. unread rd = received_wire reply @ unread rd' \<and>
       (if with_tls \<and> has_cap M (capabilities h) CLIENT_SSL
        then \<exists>p r. reply = [(sq', p)] \<and> whole (sq', p) \<and> first_seq p = sq + 1 \<and>
          client_handshake M N True (packet_bytes p) = Inr (r, h')
        else reply = [] \<and> h' = h \<and> sq' = sq)"
    by blast+
qed

lemma negotiate_Inr:
  assumes "negotiate B M lift h sq se = Ret (Inr u, se')"
  shows "se' = with_seq (sq + 1) (se\<lparr>client_capabilities := client_capabilities se AND capabilities h\<rparr>)"
    "has_cap M (capabilities h) CLIENT_PROTOCOL_41"
  using assms by (auto simp: negotiate_def action_simps login_simps split: if_splits sum.splits)

definition auth_switch_payload :: "bytes \<Rightarrow> bytes \<Rightarrow> bytes" where
  "auth_switch_payload plugin scramble = concat (auth_switch_pieces plugin scramble)"

lemma deliver_message:
  assumes "byteorder_spec B" "concat ps \<noteq> []" "fresh w" "message B ps w = (Inr u, w')"
  shows "delivered w [concat ps] w'"
  using deliver [OF assms(3) message_emits [OF assms(1,2)] reliable_message assms(4)] .

text \<open>The data that authenticate a client: those of its response, or those it sends after a switch.\<close>

inductive credentials :: "bytes \<Rightarrow> bytes \<Rightarrow> ClientHandshake \<Rightarrow> u8 \<Rightarrow> (u8 \<times> Packet) list \<Rightarrow> bytes list \<Rightarrow> bytes \<Rightarrow> u8 \<Rightarrow> bool"
  for plugin scramble h sq where
  given: "credentials plugin scramble h sq [] [] (auth_response h) sq"
| switched: "whole (sq', p) \<Longrightarrow> first_seq p = sq + 2 \<Longrightarrow>
    credentials plugin scramble h sq [(sq', p)] [auth_switch_payload plugin scramble] (packet_bytes p) sq'"

lemma auth_switch_Inr:
  assumes B: "byteorder_spec B" and N: "nom_spec N" and w: "fresh (out se)"
    and run: "auth_switch B M N lift plugin scramble h sq (rd, se) = Ret (Inr (sq', auth), rd', se')"
  shows "only_io se se' \<and> shim_state se' = shim_state se \<and> session_flags se' = session_flags se \<and> fresh (out se') \<and>
    (\<exists>reply ps. unread rd = received_wire reply @ unread rd' \<and> credentials plugin scramble h sq reply ps auth sq' \<and>
       wire (out se') = wire (out se) @ packets_wire (sq + 1) ps)"
proof (cases "has_cap M (client_capabilities se) CLIENT_PLUGIN_AUTH \<and> plugin \<noteq> [] \<and> auth_plugin h \<noteq> plugin")
  case False
  with run w show ?thesis
    by (auto simp: auth_switch_def login_simps intro!: exI [of _ "[] :: (u8 \<times> Packet) list"] exI [of _ "[] :: bytes list"] credentials.given)
next
  case True
  with run obtain w1 w2 p where w1: "message B (auth_switch_pieces plugin scramble) (set_seq (sq + 1) (out se)) = (Inr (), w1)"
    and w2: "flush_all w1 = (Inr (), w2)" and se': "se' = se\<lparr>out := w2\<rparr>"
    and p: "read_packet_with_timeout N (auth_timeout se) rd = (Inr (Some (sq', p)), rd')" "first_seq p = sq + 2" "auth = packet_bytes p"
    by (auto simp: auth_switch_def login_simps action_simps split: if_splits)
  have "delivered (set_seq (sq + 1) (out se)) [auth_switch_payload plugin scramble] w2"
    unfolding auth_switch_payload_def
    by (rule delivered_flush [OF deliver_message [OF B _ _ w1] w2]) (use w in \<open>simp_all add: auth_switch_pieces_def\<close>)
  then have "fresh w2 \<and> wire w2 = wire (out se) @ packets_wire (sq + 1) [auth_switch_payload plugin scramble]"
    by (simp add: fresh_def delivered_def emitted_def)
  moreover have "unread rd = received_wire [(sq', p)] @ unread rd'" "whole (sq', p)" using read_sound [OF N p(1)] by simp_all
  moreover from this(2) p(2) have "credentials plugin scramble h sq [(sq', p)] [auth_switch_payload plugin scramble] (packet_bytes p) sq'"
    by (rule credentials.switched)
  ultimately show ?thesis unfolding se' p(3)
    by (intro conjI exI [of _ "[(sq', p)]"] exI [of _ "[auth_switch_payload plugin scramble]"]) simp_all
qed

text \<open>A zero byte stands for no data.\<close>

definition effective_auth :: "bytes \<Rightarrow> bytes \<Rightarrow> bytes" where
  "effective_auth plugin auth = (if plugin = CACHING_SHA2_PASSWORD \<and> auth = [0] then [] else auth)"

definition fast_auth_packets :: "bytes \<Rightarrow> bytes \<Rightarrow> bytes list" where
  "fast_auth_packets plugin auth =
     (if plugin = CACHING_SHA2_PASSWORD \<and> length auth = CACHING_SHA2_DIGEST_LENGTH then [[0x01, 0x03]] else [])"

lemma check_credentials_Inr:
  assumes B: "byteorder_spec B" and w: "fresh (out se)"
    and run: "check_credentials B debug S plugin user scramble auth se = Ret (Inr u, se')"
  shows "authenticate S (shim_state se) plugin user scramble (effective_auth plugin auth)"
    "\<exists>w. se' = se\<lparr>out := w\<rparr> \<and> delivered (out se) (fast_auth_packets plugin (effective_auth plugin auth)) w"
proof -
  let ?auth = "effective_auth plugin auth"
  have deny: "deny B (from_io S) debug user plugin se \<noteq> Ret (Inr u, se')"
    by (simp add: deny_def login_simps)
  with run show a: "authenticate S (shim_state se) plugin user scramble ?auth"
    by (auto simp: check_credentials_def Let_def effective_auth_def split: if_splits)
  show "\<exists>w. se' = se\<lparr>out := w\<rparr> \<and> delivered (out se) (fast_auth_packets plugin ?auth) w"
  proof (cases "plugin = CACHING_SHA2_PASSWORD \<and> length ?auth = CACHING_SHA2_DIGEST_LENGTH")
    case True
    with run a deny obtain v where v: "message B [[0x01, 0x03]] (out se) = (Inr (), v)" "se' = se\<lparr>out := v\<rparr>"
      by (auto simp: check_credentials_def Let_def effective_auth_def action_simps split: if_splits)
    have "fast_auth_packets plugin ?auth = [[0x01, 0x03]]"
      unfolding fast_auth_packets_def by (rule if_P [OF True])
    with deliver_message [OF B _ w v(1)] v(2) show ?thesis by auto
  next
    case False
    with run deny have "se' = se"
      by (auto simp: check_credentials_def Let_def effective_auth_def action_simps split: if_splits)
    with False w show ?thesis by (auto simp: fast_auth_packets_def intro: delivered_refl exI [of _ "out se"])
  qed
qed

lemma initial_database_Inr:
  assumes B: "byteorder_spec B" and w: "fresh (out se)"
    and run: "initial_database B M S database se = Ret (Inr u, se')"
  shows "only_io se se'" "\<exists>ok. delivered (out se) [ok_payload B M (client_capabilities se) ok] (out se')"
proof -
  have "only_io se se' \<and> (\<exists>ok. delivered (out se) [ok_payload B M (client_capabilities se) ok] (out se'))"
  proof (cases database)
    case None
    with run obtain v where v: "write_ok_packet B M (client_capabilities se) (default_ok\<lparr>ok_status_flags := session_flags se\<rparr>) (out se) = (Inr (), v)"
      and "se' = se\<lparr>out := v\<rparr>"
      by (auto simp: initial_database_def action_simps login_simps split: if_splits)
    with deliver_ok [OF w B v] show ?thesis by auto
  next
    case (Some name)
    with run obtain r se1 where i: "with_init B M (from_io S) ''initial database'' (on_init S name) se = Ret (Inr r, se1)"
      and r: "r \<noteq> InitError" "se' = se1"
      by (auto simp: initial_database_def action_simps login_simps split: if_splits)
    obtain ps where ps: "told B M (client_capabilities se) r ps" "delivered (out se) ps (out se1)"
      using yieldsD [OF yields_init_told [OF B] w i] by blast
    from ps(1) r(1) obtain ok where "ps = [ok_payload B M (client_capabilities se) ok]" by (cases r) auto
    with ps(2) r(2) io_actionD [OF io_action_init i] show ?thesis by blast
  qed
  then show "only_io se se'" "\<exists>ok. delivered (out se) [ok_payload B M (client_capabilities se) ok] (out se')" by blast+
qed

subsection \<open>The whole login\<close>

text \<open>
  How a client presents itself: with one packet, or inside TLS with a second one after the request to
  switch. The last argument is the sequence number reached.
\<close>

inductive hello :: "myc_ops \<Rightarrow> Command nom_ops \<Rightarrow> bool \<Rightarrow> (u8 \<times> Packet) list \<Rightarrow> ClientHandshake \<Rightarrow> u8 \<Rightarrow> bool"
  for M N with_tls where
  hello_once: "whole (sq, p) \<Longrightarrow> first_seq p = 1 \<Longrightarrow> client_handshake M N False (packet_bytes p) = Inr (r, h) \<Longrightarrow>
    \<not> (with_tls \<and> has_cap M (capabilities h) CLIENT_SSL) \<Longrightarrow> hello M N with_tls [(sq, p)] h sq"
| hello_again: "whole (sq, p) \<Longrightarrow> first_seq p = 1 \<Longrightarrow> client_handshake M N False (packet_bytes p) = Inr (r, h) \<Longrightarrow>
    with_tls \<and> has_cap M (capabilities h) CLIENT_SSL \<Longrightarrow>
    whole (sq', p') \<Longrightarrow> first_seq p' = sq + 1 \<Longrightarrow> client_handshake M N True (packet_bytes p') = Inr (r', h') \<Longrightarrow>
    hello M N with_tls [(sq, p), (sq', p')] h' sq'"

text \<open>
  \<open>admitted\<close>: in the packets \<open>msgs\<close> the client has named a user and sent the authentication data
  that the backend, in the state it was in when the login began, accepts for this user and the
  challenge; the client has been sent at most a request to switch the plugin, then at most the
  confirmation of fast authentication, then an OK packet, each numbered after the client's packet.
\<close>

definition admitted :: "byteorder_ops \<Rightarrow> myc_ops \<Rightarrow> Command nom_ops \<Rightarrow> ('s, 'e, 'd, 'dt) shim \<Rightarrow> bool \<Rightarrow> bytes \<Rightarrow> 's \<Rightarrow>
    u32 \<Rightarrow> (u8 \<times> Packet) list \<Rightarrow> bytes \<Rightarrow> bool" where
  "admitted B M N S with_tls scramble st caps msgs said \<longleftrightarrow>
     (\<exists>hs h sq user reply switch auth sq' ok. let plugin = auth_plugin_for_username S st user in
        msgs = hs @ reply \<and> hello M N with_tls hs h sq \<and> username h = Some user \<and>
        credentials plugin scramble h sq reply switch auth sq' \<and>
        authenticate S st plugin user scramble (effective_auth plugin auth) \<and>
        said = packets_wire (sq + 1) switch @
          packets_wire (sq' + 1) (fast_auth_packets plugin (effective_auth plugin auth) @ [ok_payload B M caps ok]))"

lemma login_user_Inr:
  assumes B: "byteorder_spec B" and N: "nom_spec N" and w: "fresh (out se)"
    and run: "login_user B M N debug S scramble h sq user (rd, se) = Ret (Inr u, rd', se')"
    and plugin: "plugin = auth_plugin_for_username S (shim_state se) user"
  obtains reply switch auth sq' ok where "only_io se se'" "fresh (out se')" "unread rd = received_wire reply @ unread rd'"
    "credentials plugin scramble h sq reply switch auth sq'"
    "authenticate S (shim_state se) plugin user scramble (effective_auth plugin auth)"
    "wire (out se') = wire (out se) @ packets_wire (sq + 1) switch @
       packets_wire (sq' + 1) (fast_auth_packets plugin (effective_auth plugin auth) @ [ok_payload B M (client_capabilities se') ok])"
proof -
  have "plugin_usable M (client_capabilities se) plugin"
    using run by (auto simp: plugin login_user_def Let_def login_simps split: if_splits)
  with run obtain sq' auth se1 where
      sw: "auth_switch B M N (from_io S) plugin scramble h sq (rd, se) = Ret (Inr (sq', auth), rd', se1)"
    and "bind_action (change (with_seq (sq' + 1))) (\<lambda>_.
           bind_action (check_credentials B debug S plugin user scramble auth) (\<lambda>_.
           initial_database B M S (db h))) se1 = Ret (Inr u, se')"
    by (auto simp: plugin login_user_def Let_def login_simps)
  then obtain se2 where cr: "check_credentials B debug S plugin user scramble auth (with_seq (sq' + 1) se1) = Ret (Inr (), se2)"
    and db: "initial_database B M S (db h) se2 = Ret (Inr u, se')"
    by (auto simp: action_simps)
  from auth_switch_Inr [OF B N w sw] obtain reply switch where io1: "only_io se se1" "shim_state se1 = shim_state se" "fresh (out se1)"
    and reply: "unread rd = received_wire reply @ unread rd'" "credentials plugin scramble h sq reply switch auth sq'"
    and said1: "wire (out se1) = wire (out se) @ packets_wire (sq + 1) switch"
    by blast
  have w1: "fresh (out (with_seq (sq' + 1) se1))" using io1(3) by simp
  let ?auth = "effective_auth plugin auth"
  from check_credentials_Inr [OF B w1 cr] obtain v where a: "authenticate S (shim_state se) plugin user scramble ?auth"
    and se2: "se2 = (with_seq (sq' + 1) se1)\<lparr>out := v\<rparr>" and d2: "delivered (set_seq (sq' + 1) (out se1)) (fast_auth_packets plugin ?auth) v"
    using io1(2) by auto
  have w2: "fresh (out se2)" using delivered_ready [OF d2] by (simp add: se2)
  note io3 = initial_database_Inr(1) [OF B w2 db]
  have out2: "out se2 = v" by (simp add: se2)
  from initial_database_Inr(2) [OF B w2 db] obtain ok
    where d3: "delivered v [ok_payload B M (client_capabilities se2) ok] (out se')" unfolding out2 by blast
  have io: "only_io se se'"
  proof -
    have "only_io se1 (se1\<lparr>out := v\<rparr>)" by (rule only_io_updates)
    then have "only_io se1 se2" by (simp only: se2 with_seq_overwrite)
    from only_io_trans [OF io1(1) only_io_trans [OF this io3]] show ?thesis .
  qed
  have "client_capabilities se2 = client_capabilities se'" using only_io_fields [OF io3] by simp
  with delivered_append [OF d2 d3] have "wire (out se') = wire (out se) @ packets_wire (sq + 1) switch @
      packets_wire (sq' + 1) (fast_auth_packets plugin ?auth @ [ok_payload B M (client_capabilities se') ok])"
    using said1 by (simp add: delivered_def emitted_def)
  then show ?thesis by (rule that [OF io delivered_ready [OF d3] reply a])
qed

lemma init_after_ssl_Inr:
  assumes B: "byteorder_spec B" and N: "nom_spec N" and w: "fresh (out se)"
    and p0: "whole (sq, p0)" "first_seq p0 = 1" "client_handshake M N False (packet_bytes p0) = Inr (r0, h0)"
    and h: "h = h0\<lparr>server_scramble := Some scramble\<rparr>" "username h = None \<longrightarrow> with_tls \<and> has_cap M (capabilities h) CLIENT_SSL"
    and run: "init_after_ssl B M N debug S with_tls h sq (rd, se) = Ret (Inr u, rd', se')"
  obtains msgs said where "same_tables se se'" "fresh (out se')" "\<exists>caps. client_capabilities se' = client_capabilities se AND caps"
    "unread rd = received_wire msgs @ unread rd'" "wire (out se') = wire (out se) @ said"
    "admitted B M N S with_tls scramble (shim_state se) (client_capabilities se') ((sq, p0) # msgs) said"
proof -
  from run h(1) obtain h' sq' rd1 se1 where s1: "second_response B M N (from_io S) with_tls h sq (rd, se) = Ret (Inr (h', sq'), rd1, se1)"
    and r1: "bind_login (on_session (negotiate B M (from_io S) h' sq')) (\<lambda>_.
      bind_login (case username h' of Some user \<Rightarrow> login_user B M N debug S scramble h' sq' user | None \<Rightarrow> proceed ()) (\<lambda>_.
      on_session (write_out (from_io S) flush_all))) (rd1, se1) = Ret (Inr u, rd', se')"
    by (auto simp: init_after_ssl_def login_simps)
  note second = second_response_Inr [OF h(2) s1]
  obtain msgs1 h1 where msgs1: "unread rd = received_wire msgs1 @ unread rd1" "hello M N with_tls ((sq, p0) # msgs1) h1 sq'"
    and h1: "username h' = username h1" "auth_response h' = auth_response h1"
  proof (cases "with_tls \<and> has_cap M (capabilities h) CLIENT_SSL")
    case True
    with second(3) [OF N] obtain p r where p: "unread rd = received_wire [(sq', p)] @ unread rd1" "whole (sq', p)"
      "first_seq p = sq + 1" "client_handshake M N True (packet_bytes p) = Inr (r, h')" by auto
    from True have ssl: "with_tls \<and> has_cap M (capabilities h0) CLIENT_SSL" by (simp add: h(1))
    show ?thesis by (rule that [OF p(1) hello_again [OF p0 ssl p(2-4)] refl refl])
  next
    case False
    with second(3) [OF N] have p: "unread rd = received_wire [] @ unread rd1" "h' = h" "sq' = sq" by auto
    from False have plain: "\<not> (with_tls \<and> has_cap M (capabilities h0) CLIENT_SSL)" by (simp add: h(1))
    have "hello M N with_tls [(sq, p0)] h0 sq'" unfolding p(3) by (rule hello_once [OF p0 plain])
    with p(1) show ?thesis by (rule that) (simp_all add: p(2) h(1))
  qed
  from second(1) obtain user where user: "username h' = Some user" by blast
  let ?se2 = "with_seq (sq' + 1) (se1\<lparr>client_capabilities := client_capabilities se1 AND capabilities h'\<rparr>)"
  from r1 user obtain se3 v where "negotiate B M (from_io S) h' sq' se1 = Ret (Inr (), ?se2)"
    and lg: "login_user B M N debug S scramble h' sq' user (rd1, ?se2) = Ret (Inr (), rd', se3)"
    and fl: "flush_all (out se3) = (Inr (), v)" and se': "se' = se3\<lparr>out := v\<rparr>"
    by (auto simp: login_simps action_simps dest: negotiate_Inr(1))
  have se1: "same_tables se se1" "shim_state se1 = shim_state se" "client_capabilities se1 = client_capabilities se"
    "fresh (out se1)" "wire (out se1) = wire (out se)"
    using second(2) w by auto
  have w2: "fresh (out ?se2)" and st2: "shim_state ?se2 = shim_state se" and wire2: "wire (out ?se2) = wire (out se)"
    using se1 by simp_all
  define plugin where "plugin = auth_plugin_for_username S (shim_state se) user"
  have "plugin = auth_plugin_for_username S (shim_state ?se2) user" by (simp add: plugin_def se1(2))
  from login_user_Inr [OF B N w2 lg this] obtain reply switch auth sq2 ok where io: "only_io ?se2 se3" and w3: "fresh (out se3)"
    and reply: "unread rd1 = received_wire reply @ unread rd'" and cred: "credentials plugin scramble h' sq' reply switch auth sq2"
    and a: "authenticate S (shim_state se) plugin user scramble (effective_auth plugin auth)"
    and wire3: "wire (out se3) = wire (out se) @ packets_wire (sq' + 1) switch @
       packets_wire (sq2 + 1) (fast_auth_packets plugin (effective_auth plugin auth) @ [ok_payload B M (client_capabilities se3) ok])"
    unfolding st2 wire2 by blast
  have d: "delivered (out se3) [] (out se')"
    using delivered_flush [OF delivered_refl [OF w3] fl] by (simp add: se')
  have "same_tables ?se2 se3" using io by (rule same_tables_io)
  then have tables: "same_tables se se'" using se1(1) by (simp add: same_tables_def se' with_seq_def)
  have caps: "\<exists>caps. client_capabilities se' = client_capabilities se AND caps"
    using only_io_fields(6) [OF io] se1(3) by (auto simp: se')
  let ?said = "packets_wire (sq' + 1) switch @
       packets_wire (sq2 + 1) (fast_auth_packets plugin (effective_auth plugin auth) @ [ok_payload B M (client_capabilities se') ok])"
  have said: "wire (out se') = wire (out se) @ ?said"
    using d wire3 by (simp add: delivered_def emitted_def se')
  have cred1: "credentials plugin scramble h1 sq' reply switch auth sq2"
    using cred h1(2) by (auto simp: credentials.simps)
  have "admitted B M N S with_tls scramble (shim_state se) (client_capabilities se') ((sq, p0) # (msgs1 @ reply)) ?said"
    unfolding admitted_def Let_def
    by (intro exI [of _ "(sq, p0) # msgs1"] exI [of _ h1] exI [of _ sq'] exI [of _ user] exI [of _ reply] exI [of _ switch]
        exI [of _ auth] exI [of _ sq2] exI [of _ ok] conjI)
      (use msgs1(2) h1(1) user cred1 a in \<open>simp_all add: plugin_def\<close>)
  moreover have "unread rd = received_wire (msgs1 @ reply) @ unread rd'" using msgs1(1) reply by simp
  ultimately show ?thesis using that tables delivered_ready [OF d] caps said by blast
qed

end
