(* ===== verification/Connection.thy ===== *)
theory Connection
  imports Admission
begin

text \<open>
  Whole connections: every connection comes to an end, and everything a server sends, from the
  greeting to the client's leaving, is what the protocol prescribes.
\<close>

subsection \<open>Reading uses up the input\<close>

lemma parse_buffered_consumes:
  assumes "nom_spec N" and "parse_buffered N max_size bs = Inr (Some (rest, x))"
  shows "length rest + 4 \<le> length bs"
proof -
  have "packet N bs = Inr (rest, x)"
    using assms(2) by (auto simp: parse_buffered_def split: if_splits sum.splits nom_err.splits)
  then obtain s p where "bs = frames s p @ rest" by (auto simp: packet_iff [OF assms(1)])
  then show ?thesis using frames_length_ge [of s p] by simp
qed

lemma read_loop_consumes:
  assumes "\<And>bs rest x. step bs = Inr (Some (rest, x)) \<Longrightarrow> length rest + 4 \<le> length bs"
  shows "read_loop step timed bs es = (r, bs', es') \<Longrightarrow>
    length bs' + length (stream_bytes es') + (case r of Inr (Some x) \<Rightarrow> 4 | _ \<Rightarrow> 0) \<le> length bs + length (stream_bytes es)"
proof (induction es arbitrary: bs)
  case Nil
  show ?case
  proof (cases "step bs")
    case (Inr y)
    with Nil assms [of bs] show ?thesis by (cases y) (auto simp: at_eof_def split: if_splits)
  qed (use Nil in auto)
next
  case (Cons e es)
  show ?case
  proof (cases "step bs")
    case (Inr y)
    show ?thesis
    proof (cases y)
      case None
      with Inr Cons.prems Cons.IH [of bs] Cons.IH [of "bs @ rd_data e"] show ?thesis
        by (cases e) (auto simp: at_eof_def split: if_splits)
    next
      case (Some z)
      with Inr Cons.prems assms [of bs] show ?thesis by (cases z) auto
    qed
  qed (use Cons.prems in auto)
qed

lemma read_packet_consumes:
  assumes "nom_spec N" and "read_packet_with_timeout N t rd = (r, rd')"
  shows "length (unread rd') + (case r of Inr (Some x) \<Rightarrow> 4 | _ \<Rightarrow> 0) \<le> length (unread rd)"
proof -
  let ?parse = "parse_buffered N (rd_max_packet_size rd)"
  obtain bs' es' where "read_loop ?parse (t \<noteq> None) (rd_bytes rd) (rd_stream rd) = (r, bs', es')"
    and rd': "rd' = rd\<lparr>rd_bytes := bs', rd_stream := es'\<rparr>"
    using assms(2) by (auto simp: read_packet_timed next_with_timer_def split: prod.splits)
  from read_loop_consumes [OF parse_buffered_consumes [OF assms(1)] this(1)] show ?thesis
    by (simp add: unread_def rd')
qed

lemma read_packet_shorter:
  "nom_spec N \<Longrightarrow> read_packet_with_timeout N t rd = (r, rd') \<Longrightarrow> length (unread rd') \<le> length (unread rd)"
  by (rule le_trans [OF le_add1 read_packet_consumes])

subsection \<open>The loop ends\<close>

lemma run_ends:
  assumes N: "nom_spec N"
  shows "length (unread rd) < 4 * fuel \<Longrightarrow> \<exists>r. run B M C F N S fuel rd se = Some r"
proof (induction fuel arbitrary: rd se)
  case (Suc fuel)
  obtain r rd' where rd: "read_packet_with_timeout N (read_timeout se) rd = (r, rd')" by fastforce
  note less = read_packet_consumes [OF N rd]
  show ?case
  proof (cases r)
    case (Inl e)
    with rd show ?thesis by simp
  next
    case (Inr x)
    show ?thesis
    proof (cases x)
      case None
      with rd Inr show ?thesis by simp
    next
      case (Some sp)
      obtain sq p where sp: "sp = (sq, p)" by fastforce
      have IH: "\<exists>r. run B M C F N S fuel rd' se' = Some r" for se'
        using Suc less Inr Some by auto
      show ?thesis
        using rd Inr Some sp IH
        by (auto split: rust.split sum.split control.split)
    qed
  qed
qed simp

text \<open>The login reads on, and never puts anything back.\<close>

definition reads_on :: "('s, 'e, 'a) login \<Rightarrow> bool" where
  "reads_on m \<longleftrightarrow> (\<forall>rd se r rd' se'. m (rd, se) = Ret (r, rd', se') \<longrightarrow> length (unread rd') \<le> length (unread rd))"

named_theorems reads_on_intros

lemma reads_on_bind [reads_on_intros]: "reads_on m \<Longrightarrow> (\<And>x. reads_on (f x)) \<Longrightarrow> reads_on (bind_login m f)"
  unfolding reads_on_def bind_login_def
  by (fastforce split: rust.splits prod.splits sum.splits intro: le_trans)

lemma reads_on_steps [reads_on_intros]: "reads_on (proceed x)" "reads_on (abort e)" "reads_on (on_session m)"
  by (auto simp: reads_on_def proceed_def abort_def on_session_def split: rust.splits)

lemma reads_on_reply [reads_on_intros]: "nom_spec N \<Longrightarrow> reads_on (read_reply N lift)"
  unfolding reads_on_def read_reply_def
  by (auto split: prod.splits sum.splits option.splits dest: read_packet_shorter)

lemma reads_on_cases: "(\<And>c. \<exists>m'. reads_on m' \<and> m c = m' c) \<Longrightarrow> reads_on m"
  unfolding reads_on_def by metis

lemma reads_on_switch [reads_on_intros]: "nom_spec N \<Longrightarrow> reads_on (auth_switch B M N lift plugin scramble h sq)"
proof (rule reads_on_cases)
  fix c :: "PacketReader \<times> 'a session" assume N: "nom_spec N"
  have "reads_on (bind_login (on_session
          (bind_action (change (with_seq (sq + 1))) (\<lambda>_.
           bind_action (write_out lift (message B (auth_switch_pieces plugin scramble))) (\<lambda>_.
           write_out lift flush_all)))) (\<lambda>_.
        bind_login (read_reply N lift) (\<lambda>(sq', p).
          if first_seq p \<noteq> sq + 2 then
            abort (lift (IoError InvalidData (ascii ''unexpected auth-switch sequence'')))
          else proceed (sq', packet_bytes p))))"
    using N by (auto intro!: reads_on_intros)
  moreover have "reads_on (proceed (sq, auth_response h))" by (rule reads_on_intros)
  ultimately show "\<exists>m'. reads_on m' \<and> auth_switch B M N lift plugin scramble h sq c = m' c"
    unfolding auth_switch_def by auto
qed

lemma reads_on_login [reads_on_intros]: "nom_spec N \<Longrightarrow> reads_on (login_user B M N debug S scramble h sq user)"
proof (rule reads_on_cases)
  fix c :: "PacketReader \<times> 'a session" assume N: "nom_spec N"
  let ?plugin = "auth_plugin_for_username S (shim_state (snd c)) user"
  have "reads_on (bind_login (auth_switch B M N (from_io S) ?plugin scramble h sq) (\<lambda>(sq, auth).
        on_session
          (bind_action (change (with_seq (sq + 1))) (\<lambda>_.
           bind_action (check_credentials B debug S ?plugin user scramble auth) (\<lambda>_.
           initial_database B M S (db h))))))"
    using N by (auto intro!: reads_on_intros)
  then show "\<exists>m'. reads_on m' \<and> login_user B M N debug S scramble h sq user c = m' c"
    unfolding login_user_def Let_def using reads_on_steps(3) by auto
qed

lemma reads_on_init_after_ssl:
  assumes "nom_spec N"
  shows "reads_on (init_after_ssl B M N debug S with_tls h sq)"
  using assms unfolding init_after_ssl_def second_response_def
  by (auto intro!: reads_on_intros split: option.split)

text \<open>C15: every connection comes to an end, with an outcome, once the peer sends no more: however the
  bytes of the client are cut into reads, whatever they are and whatever the backend answers, the
  command loop goes round at most once for every four bytes received.\<close>

theorem connection_ends:
  assumes "nom_spec N" and "length (stream_bytes input) < 4 * fuel"
  shows "\<exists>outcome. run_with_options B M C F N debug S with_tls fuel st input s opts = Some outcome"
proof -
  obtain cfg st1 where cfg: "handshake_config S st = (cfg, st1)" by fastforce
  obtain r s' where r: "init_before_ssl B M N (if with_tls then WithTls False else WithoutTls) cfg input opts s = (r, s')"
    by fastforce
  show ?thesis
  proof (cases r)
    case (Inl e)
    with r cfg show ?thesis by (simp add: run_with_options_def)
  next
    case (Inr x)
    then obtain ssl h sq caps rd where x: "r = Inr (ssl, h, sq, caps, rd)" by (cases x) auto
    obtain p where "read_packet_with_timeout N (opt_auth_timeout opts) (packet_reader opts input) = (Inr (Some (sq, p)), rd)"
      using r unfolding x by (rule init_before_ssl_Inr) blast
    from read_packet_shorter [OF assms(1) this] have "length (unread rd) < 4 * fuel"
      using assms(2) by (simp add: unread_def packet_reader_def new_with_max_packet_size_def)
    moreover have "unread (packet_reader opts (reader_stream rd)) = unread rd"
      by (simp add: unread_def packet_reader_def new_with_max_packet_size_def reader_stream_def)
    ultimately have len: "length (unread (packet_reader opts (reader_stream rd))) < 4 * fuel" by simp
    let ?l = "init_after_ssl B M N debug S with_tls h sq (packet_reader opts (reader_stream rd), new_session opts caps st1 s')"
    have "\<exists>z. login_and_run B M C F N debug S with_tls fuel opts h sq (reader_stream rd) (new_session opts caps st1 s') = Some z"
    proof (cases ?l)
      case Panicked
      then show ?thesis by (simp add: login_and_run_def)
    next
      case (Ret y)
      obtain r' rd' se' where y: "y = (r', rd', se')" by (cases y)
      have "length (unread rd') < 4 * fuel"
        using reads_on_init_after_ssl [OF assms(1)] len Ret y unfolding reads_on_def by fastforce
      from run_ends [OF assms(1) this] Ret y show ?thesis
        by (cases r') (auto simp: login_and_run_def)
    qed
    with r cfg x show ?thesis by (simp add: run_with_options_def)
  qed
qed

theorem connection_ends_witness:
  "\<exists>outcome. run_with_options byteorder_ref myc_ref chrono_ref fmt_none nom_ref id demo_shim True 2 () [RData [1, 2], RStall]
     demo_sink demo_options = Some outcome"
  by (rule connection_ends) simp_all

subsection \<open>What the server says\<close>

lemma packet_reader_again [simp]: "unread (packet_reader opts (reader_stream rd)) = unread rd"
  "delivers timed (rd_stream (packet_reader opts (reader_stream rd))) = delivers timed (rd_stream rd)"
  by (auto simp: unread_def packet_reader_def new_with_max_packet_size_def reader_stream_def)

lemma run_serves:
  assumes N: "nom_spec N"
  shows "serves B M C F N S se0 qs se \<Longrightarrow> run B M C F N S fuel rd se = Some (Ret (Inr u, rd', se')) \<Longrightarrow>
     \<exists>qs'. serves B M C F N S se0 (qs @ qs') se' \<and> unread rd = received_wire qs' @ unread rd'"
proof (induction fuel arbitrary: rd se qs)
  case (Suc fuel)
  obtain r rd1 where rd: "read_packet_with_timeout N (read_timeout se) rd = (r, rd1)" by fastforce
  show ?case
  proof (cases r)
    case (Inl e)
    with Suc rd show ?thesis by simp
  next
    case (Inr x)
    note sound = read_sound(1) [OF N rd [unfolded Inr]]
    show ?thesis
    proof (cases x)
      case None
      with Suc rd Inr sound show ?thesis by (intro exI [of _ "[]"]) auto
    next
      case (Some sp)
      obtain sq p where sp: "sp = (sq, p)" by fastforce
      obtain c se1 where step: "process_packet B M C F N S sq p se = Ret (Inr c, se1)"
        using Suc.prems(2) rd Inr Some sp by (auto split: rust.splits sum.splits)
      note next_serves = serves.packet [OF Suc.prems(1) step]
      show ?thesis
      proof (cases "c = Break")
        case True
        with Suc.prems(2) rd Inr Some sp step next_serves sound show ?thesis by (intro exI [of _ "[(sq, p)]"]) auto
      next
        case False
        with Suc.prems(2) rd Inr Some sp step have "run B M C F N S fuel rd1 se1 = Some (Ret (Inr u, rd', se'))"
          by (cases c) auto
        from Suc.IH [OF next_serves this] obtain qs' where
          "serves B M C F N S se0 ((qs @ [(sq, p)]) @ qs') se'" "unread rd1 = received_wire qs' @ unread rd'" by blast
        with sound Some sp show ?thesis by (intro exI [of _ "(sq, p) # qs'"]) simp
      qed
    qed
  qed
qed simp

lemma reliable_greeting: "preserves writer_reliable (write_greeting B M opts T cfg)"
  unfolding write_greeting_def flush_all_def by (intro preserves_then reliable_message reliable_flush)

lemma new_session_inv:
  assumes "packet_size_limit opts \<le> usize_max" and "\<And>n. opt_max_connection_long_data_size opts = Some n \<Longrightarrow> n \<le> usize_max"
  shows "session_inv (new_session opts caps st s)"
  using assms by (auto simp: session_inv_def tables_ok_def new_session_def Let_def split: option.split)

text \<open>A connection that ends orderly has gone through its three phases.\<close>

lemma orderly_connection:
  assumes "handshake_config S st = (cfg, st1)"
    and "run_with_options B M C F N debug S with_tls fuel st input s opts = Some (Ended (Inr ()) rd se)"
  obtains ssl h sq caps rd1 s1 rd2 se1
    where "init_before_ssl B M N (if with_tls then WithTls False else WithoutTls) cfg input opts s = (Inr (ssl, h, sq, caps, rd1), s1)"
      "init_after_ssl B M N debug S with_tls h sq (packet_reader opts (reader_stream rd1), new_session opts caps st1 s1) = Ret (Inr (), rd2, se1)"
      "run B M C F N S fuel rd2 se1 = Some (Ret (Inr (), rd, se))"
  using assms
  by (auto simp: run_with_options_def login_and_run_def elim!: outcome_of.elims split: rust.splits sum.splits prod.splits)

text \<open>What the greeting has left behind, for every kind of transport.\<close>

lemma greeted:
  assumes "byteorder_spec B" and "nom_spec N" and "reliable (opt_write_timeout opts \<noteq> None) s"
    and connected: "init_before_ssl B M N T cfg input opts s = (Inr (ssl, h, sq, caps, rd1), s1)"
  obtains p r0 h0 where "stream_bytes input = received_wire [(sq, p)] @ unread rd1" "whole (sq, p)" "first_seq p = 1"
    "client_handshake M N False (packet_bytes p) = Inr (r0, h0)" "h = h0\<lparr>server_scramble := Some (cfg_scramble cfg)\<rparr>"
    "caps = server_capabilities M opts T" "written s1 = written s @ frames 0 (concat (greeting_pieces M opts T cfg))"
    "reliable (opt_write_timeout opts \<noteq> None) s1" "ssl = has_cap M (capabilities h0) CLIENT_SSL"
proof -
  obtain w p h0 r0 where w: "write_greeting B M opts T cfg (packet_writer opts s) = (Inr (), w)" "s1 = output_stream w"
    and caps: "caps = server_capabilities M opts T" "ssl = has_cap M (capabilities h0) CLIENT_SSL"
    and p: "read_packet_with_timeout N (opt_auth_timeout opts) (packet_reader opts input) = (Inr (Some (sq, p)), rd1)"
      "first_seq p = 1" "client_handshake M N False (packet_bytes p) = Inr (r0, h0)"
      "h = h0\<lparr>server_scramble := Some (cfg_scramble cfg)\<rparr>"
    using connected by (rule init_before_ssl_Inr) blast
  have "delivered (packet_writer opts s) [concat (greeting_pieces M opts T cfg)] w"
    by (rule deliver [OF _ greeting_emits(1) [OF assms(1)] reliable_greeting w(1)])
      (use assms(3) in \<open>simp add: fresh_def writer_reliable_def\<close>)
  then have s1: "written s1 = written s @ frames 0 (concat (greeting_pieces M opts T cfg))" "reliable (opt_write_timeout opts \<noteq> None) s1"
    using packet_writer_fields(4) [of opts s]
    by (auto simp: w(2) delivered_def emitted_def writer_reliable_def same_limits_def has_timeout_def)
  have "stream_bytes input = received_wire [(sq, p)] @ unread rd1" "whole (sq, p)"
    using read_sound [OF assms(2) p(1)] by (simp_all add: unread_def packet_reader_def new_with_max_packet_size_def)
  then show ?thesis using p s1 caps by (intro that)
qed

lemma login_conversation:
  assumes B: "byteorder_spec B" and M: "myc_spec M" and N: "nom_spec N"
    and p0: "whole (sq, p0)" "first_seq p0 = 1" "client_handshake M N False (packet_bytes p0) = Inr (r0, h0)"
      "h = h0\<lparr>server_scramble := Some scramble\<rparr>"
    and h: "username h = None \<longrightarrow> with_tls \<and> has_cap M (capabilities h) CLIENT_SSL"
    and login: "init_after_ssl B M N debug S with_tls h sq (packet_reader opts input, new_session opts caps st s) = Ret (Inr (), rd1, se1)"
    and run: "run B M C F N S fuel rd1 se1 = Some (Ret (Inr (), rd, se))"
    and s: "reliable (opt_write_timeout opts \<noteq> None) s" and limits: "packet_size_limit opts \<le> usize_max"
      "\<And>n. opt_max_connection_long_data_size opts = Some n \<Longrightarrow> n \<le> usize_max"
  obtains msgs qs said1 said2 where "stream_bytes input = received_wire msgs @ received_wire qs @ unread rd"
    "wire (out se) = written s @ said1 @ said2"
    "admitted B M N S with_tls scramble st (client_capabilities se) ((sq, p0) # msgs) said1"
    "conversation B M N (client_capabilities se) qs said2" "\<exists>caps'. client_capabilities se = caps AND caps'"
proof -
  let ?se0 = "new_session opts caps st s"
  have se0: "fresh (out ?se0)" using s by (simp add: fresh_def writer_reliable_def)
  from init_after_ssl_Inr [OF B N se0 p0 h login] obtain msgs said1
    where tables: "same_tables ?se0 se1" and w1: "fresh (out se1)" and negotiated: "\<exists>caps'. client_capabilities se1 = caps AND caps'"
      and msgs: "unread (packet_reader opts input) = received_wire msgs @ unread rd1" and said1: "wire (out se1) = written s @ said1"
      "admitted B M N S with_tls scramble st (client_capabilities se1) ((sq, p0) # msgs) said1"
    by (auto simp: new_session_fields)
  have inv: "session_inv se1"
    unfolding session_inv_same [OF tables] by (rule new_session_inv) (use limits in auto)
  obtain qs where sv: "serves B M C F N S se1 qs se" and qs: "unread rd1 = received_wire qs @ unread rd"
    using run_serves [OF N serves.idle run] by auto
  obtain said2 where said2: "wire (out se) = wire (out se1) @ said2" "conversation B M N (client_capabilities se1) qs said2"
    using serves_conversation [OF sv B M w1 inv] by blast
  have same: "client_capabilities se = client_capabilities se1"
    using serves_inv(2) [OF sv inv] by (simp add: config_def)
  have "stream_bytes input = received_wire msgs @ received_wire qs @ unread rd"
    using msgs qs by (simp add: unread_def packet_reader_def new_with_max_packet_size_def)
  then show ?thesis by (rule that) (use said1 said2 negotiated same in simp_all)
qed

lemma connection_conversation:
  assumes "byteorder_spec B" and "myc_spec M" and "nom_spec N" and "handshake_config S st = (cfg, st1)"
    and "run_with_options B M C F N debug S with_tls fuel st input s opts = Some (Ended (Inr ()) rd se)"
    and "reliable (opt_write_timeout opts \<noteq> None) s" and "packet_size_limit opts \<le> usize_max"
    and "\<And>n. opt_max_connection_long_data_size opts = Some n \<Longrightarrow> n \<le> usize_max"
  shows "\<exists>T login qs said1 said2. stream_bytes input = received_wire login @ received_wire qs @ unread rd \<and>
    wire (out se) = written s @ frames 0 (concat (greeting_pieces M opts T cfg)) @ said1 @ said2 \<and>
    admitted B M N S with_tls (cfg_scramble cfg) st1 (client_capabilities se) login said1 \<and>
    conversation B M N (client_capabilities se) qs said2 \<and>
    (\<exists>caps. client_capabilities se = server_capabilities M opts T AND caps)"
proof -
  let ?T = "if with_tls then WithTls False else WithoutTls"
  obtain ssl h sq caps rd1 s1 rd2 se1
    where connected: "init_before_ssl B M N ?T cfg input opts s = (Inr (ssl, h, sq, caps, rd1), s1)"
      and login: "init_after_ssl B M N debug S with_tls h sq (packet_reader opts (reader_stream rd1), new_session opts caps st1 s1) = Ret (Inr (), rd2, se1)"
      and run: "run B M C F N S fuel rd2 se1 = Some (Ret (Inr (), rd, se))"
    by (rule orderly_connection [OF assms(4,5)])
  obtain p r0 h0 where first: "stream_bytes input = received_wire [(sq, p)] @ unread rd1" "whole (sq, p)" "first_seq p = 1"
    "client_handshake M N False (packet_bytes p) = Inr (r0, h0)" "h = h0\<lparr>server_scramble := Some (cfg_scramble cfg)\<rparr>"
    and caps: "caps = server_capabilities M opts ?T"
    and s1: "written s1 = written s @ frames 0 (concat (greeting_pieces M opts ?T cfg))" "reliable (opt_write_timeout opts \<noteq> None) s1"
    by (rule greeted [OF assms(1,3,6) connected])
  have h: "username h = None \<longrightarrow> with_tls \<and> has_cap M (capabilities h) CLIENT_SSL"
    using handed_over(2) [OF connected] by (auto split: if_splits)
  have handed: "stream_bytes (reader_stream rd1) = unread rd1" by (simp add: reader_stream_def unread_def)
  obtain msgs qs said1 said2 where "stream_bytes (reader_stream rd1) = received_wire msgs @ received_wire qs @ unread rd"
    "wire (out se) = written s1 @ said1 @ said2"
    "admitted B M N S with_tls (cfg_scramble cfg) st1 (client_capabilities se) ((sq, p) # msgs) said1"
    "conversation B M N (client_capabilities se) qs said2" "\<exists>caps'. client_capabilities se = caps AND caps'"
    by (rule login_conversation [OF assms(1-3) first(2-5) h login run s1(2) assms(7,8)])
  then show ?thesis using first(1) s1(1) caps handed
    by (intro exI [of _ ?T] exI [of _ "(sq, p) # msgs"] exI [of _ qs] exI [of _ said1] exI [of _ said2]) simp
qed

text \<open>C1: a connection that ends with the client leaving has consisted of the greeting, a login in which
  the client has named a user and sent credentials that the backend accepts for this greeting's
  challenge, and a conversation in which every command that has arrived has got exactly one answer;
  the login packets and the commands are all that has been read, nothing else has been sent, and the
  capabilities in force are among those that the greeting offered.\<close>

theorem connection_refines_protocol:
  assumes "byteorder_spec B" and "myc_spec M" and "nom_spec N" and "handshake_config S st = (cfg, st1)"
    and "run_with_options B M C F N debug S with_tls fuel st input s opts = Some (Ended (Inr ()) rd se)"
    and "reliable (opt_write_timeout opts \<noteq> None) s" and "packet_size_limit opts \<le> usize_max"
    and "\<And>n. opt_max_connection_long_data_size opts = Some n \<Longrightarrow> n \<le> usize_max"
  shows "\<exists>T login qs said1 said2. stream_bytes input = received_wire login @ received_wire qs @ unread rd \<and>
    wire (out se) = written s @ frames 0 (concat (greeting_pieces M opts T cfg)) @ said1 @ said2 \<and>
    admitted B M N S with_tls (cfg_scramble cfg) st1 (client_capabilities se) login said1 \<and>
    conversation B M N (client_capabilities se) qs said2 \<and>
    (\<exists>caps. client_capabilities se = server_capabilities M opts T AND caps)"
  by (rule connection_conversation [OF assms])

subsection \<open>Progress of a login\<close>

lemma delivered_limits: "delivered w ps w' \<Longrightarrow> fresh w' \<and> same_limits w w'"
  by (simp add: delivered_def emitted_def fresh_def)

lemma message_progress:
  assumes "byteorder_spec B" "concat ps \<noteq> []" "fresh (out se)" "fits (out se) [concat ps]"
  shows "\<exists>w. write_out lift (message B ps) se = Ret (Inr (), se\<lparr>out := w\<rparr>) \<and> fresh w \<and> same_limits (out se) w"
proof -
  obtain w where "write_out lift (message B ps) se = Ret (Inr (), se\<lparr>out := w\<rparr>)" "delivered (out se) [concat ps] w"
    using write_out_completes [OF message_emits message_completes reliable_message, OF assms(1,2) assms(2-4)] by blast
  with delivered_limits show ?thesis by blast
qed

lemma flush_progress:
  assumes "fresh (out se)"
  shows "\<exists>w. write_out lift flush_all se = Ret (Inr (), se\<lparr>out := w\<rparr>)"
proof -
  obtain w where "flush_all (out se) = (Inr (), w)"
    using flush_output_reliable assms by (auto simp: fresh_def flush_all_def)
  then show ?thesis by (auto simp: write_out_def)
qed

lemma check_credentials_progress:
  assumes B: "byteorder_spec B" and w: "fresh (out se)" "fits (out se) [[0x01, 0x03]]"
    and a: "authenticate S (shim_state se) plugin user scramble (effective_auth plugin auth)"
      "plugin = CACHING_SHA2_PASSWORD \<longrightarrow> length (effective_auth plugin auth) \<in> {0, CACHING_SHA2_DIGEST_LENGTH}"
  shows "\<exists>w. check_credentials B debug S plugin user scramble auth se = Ret (Inr (), se\<lparr>out := w\<rparr>) \<and>
    fresh w \<and> same_limits (out se) w"
proof (cases "plugin = CACHING_SHA2_PASSWORD \<and> length (effective_auth plugin auth) = CACHING_SHA2_DIGEST_LENGTH")
  case True
  obtain w where "write_out (from_io S) (message B [[0x01, 0x03]]) se = Ret (Inr (), se\<lparr>out := w\<rparr>)" "fresh w" "same_limits (out se) w"
    using message_progress [OF B _ w(1), where ps = "[[0x01, 0x03]]"] w(2) by auto
  with True a show ?thesis
    by (intro exI [of _ w]) (auto simp: check_credentials_def Let_def effective_auth_def split: if_splits)
next
  case False
  with a have "check_credentials B debug S plugin user scramble auth se = Ret (Inr (), se\<lparr>out := out se\<rparr>)"
    by (auto simp: check_credentials_def Let_def effective_auth_def finish_with_def split: if_splits)
  with w(1) same_limits_refl show ?thesis by blast
qed

text \<open>The plugin is right from the start, and the client names no database.\<close>

lemma negotiated_completes:
  assumes B: "byteorder_spec B" and w: "fresh (out se)"
    and h: "has_cap M (capabilities h) CLIENT_PROTOCOL_41" "validate_collation M (hs_collation h) = Inr u" "db h = None"
    and caps: "caps = client_capabilities se AND capabilities h"
    and plugin: "plugin = auth_plugin_for_username S (shim_state se) user" "plugin_usable M caps plugin"
      "has_cap M caps CLIENT_PLUGIN_AUTH \<longrightarrow> plugin = [] \<or> auth_plugin h = plugin"
    and a: "authenticate S (shim_state se) plugin user scramble (effective_auth plugin (auth_response h))"
      "plugin = CACHING_SHA2_PASSWORD \<longrightarrow> length (effective_auth plugin (auth_response h)) \<in> {0, CACHING_SHA2_DIGEST_LENGTH}"
    and f: "\<not> reject_connection_on_dbname_absence se"
      "fits (out se) [[0x01, 0x03], ok_payload B M caps (default_ok\<lparr>ok_status_flags := session_flags se\<rparr>)]"
  shows "\<exists>se'. bind_login (on_session (negotiate B M (from_io S) h sq)) (\<lambda>_.
      bind_login (login_user B M N debug S scramble h sq user) (\<lambda>_. on_session (write_out (from_io S) flush_all))) (rd, se) =
      Ret (Inr (), rd, se') \<and> shim_state se' = shim_state se \<and> read_timeout se' = read_timeout se"
proof -
  let ?se1 = "with_seq (sq + 1) (se\<lparr>client_capabilities := caps\<rparr>)" and ?se2 = "with_seq (sq + 1) (with_seq (sq + 1) (se\<lparr>client_capabilities := caps\<rparr>))"
  have neg: "negotiate B M (from_io S) h sq se = Ret (Inr (), ?se1)"
    using h(1,2) by (simp add: negotiate_def bind_action_def change_def finish_with_def caps)
  have sw: "auth_switch B M N (from_io S) plugin scramble h sq (rd, ?se1) = Ret (Inr (sq, auth_response h), rd, ?se1)"
    using plugin(3) by (auto simp: auth_switch_def proceed_def)
  have "fresh (out ?se2)" "fits (out ?se2) [[0x01, 0x03]]" "shim_state ?se2 = shim_state se" using w f(2) by simp_all
  then obtain v where cr: "check_credentials B debug S plugin user scramble (auth_response h) ?se2 = Ret (Inr (), ?se2\<lparr>out := v\<rparr>)"
    and v: "fresh v" "same_limits (out ?se2) v"
    using check_credentials_progress [OF B, of ?se2 S plugin user scramble "auth_response h" debug] a by auto
  let ?se3 = "?se2\<lparr>out := v\<rparr>"
  have s3: "client_capabilities ?se3 = caps" "session_flags ?se3 = session_flags se" "reject_connection_on_dbname_absence ?se3 = reject_connection_on_dbname_absence se"
    by (simp_all add: with_seq_def)
  have "fits (out ?se2) [ok_payload B M caps (default_ok\<lparr>ok_status_flags := session_flags se\<rparr>)]"
    using f(2) by simp
  then have "fits v [ok_payload B M caps (default_ok\<lparr>ok_status_flags := session_flags se\<rparr>)]"
    unfolding fits_limits [OF v(2)] .
  then obtain x where ok: "write_out (from_io S) (write_ok_packet B M caps (default_ok\<lparr>ok_status_flags := session_flags se\<rparr>)) ?se3 =
      Ret (Inr (), ?se3\<lparr>out := x\<rparr>)" and x: "fresh x"
    using write_out_completes [OF ok_emits [OF B] reliable_ok_packet, of ?se3 M caps] v(1) delivered_ready by fastforce
  have db: "initial_database B M S (db h) ?se3 = Ret (Inr (), ?se3\<lparr>out := x\<rparr>)"
    using ok h(3) f(1) s3 by (simp add: initial_database_def)
  obtain y where fl: "write_out (from_io S) flush_all (?se3\<lparr>out := x\<rparr>) = Ret (Inr (), (?se3\<lparr>out := x\<rparr>)\<lparr>out := y\<rparr>)"
    using flush_progress [of "?se3\<lparr>out := x\<rparr>"] x by auto
  have "login_user B M N debug S scramble h sq user (rd, ?se1) = Ret (Inr (), rd, ?se3\<lparr>out := x\<rparr>)"
    using plugin(2) sw cr db plugin(1)
    by (simp add: login_user_def Let_def bind_login_def on_session_def bind_action_def change_def)
  then have "bind_login (on_session (negotiate B M (from_io S) h sq)) (\<lambda>_.
      bind_login (login_user B M N debug S scramble h sq user) (\<lambda>_. on_session (write_out (from_io S) flush_all))) (rd, se) =
      Ret (Inr (), rd, ?se3\<lparr>out := y\<rparr>)"
    using neg fl by (simp add: bind_login_def on_session_def)
  moreover have "shim_state (?se3\<lparr>out := y\<rparr>) = shim_state se" "read_timeout (?se3\<lparr>out := y\<rparr>) = read_timeout se"
    by (simp_all add: with_seq_def)
  ultimately show ?thesis by blast
qed

lemma login_completes:
  assumes B: "byteorder_spec B" and w: "fresh (out se)"
    and h: "server_scramble h = Some scramble" "username h = Some user" "\<not> has_cap M (capabilities h) CLIENT_SSL"
      "has_cap M (capabilities h) CLIENT_PROTOCOL_41" "validate_collation M (hs_collation h) = Inr u" "db h = None"
    and caps: "caps = client_capabilities se AND capabilities h"
    and plugin: "plugin = auth_plugin_for_username S (shim_state se) user" "plugin_usable M caps plugin"
      "has_cap M caps CLIENT_PLUGIN_AUTH \<longrightarrow> plugin = [] \<or> auth_plugin h = plugin"
    and a: "authenticate S (shim_state se) plugin user scramble (effective_auth plugin (auth_response h))"
      "plugin = CACHING_SHA2_PASSWORD \<longrightarrow> length (effective_auth plugin (auth_response h)) \<in> {0, CACHING_SHA2_DIGEST_LENGTH}"
    and f: "\<not> reject_connection_on_dbname_absence se"
      "fits (out se) [[0x01, 0x03], ok_payload B M caps (default_ok\<lparr>ok_status_flags := session_flags se\<rparr>)]"
  shows "\<exists>se'. init_after_ssl B M N debug S with_tls h sq (rd, se) = Ret (Inr (), rd, se') \<and>
    shim_state se' = shim_state se \<and> read_timeout se' = read_timeout se"
  using negotiated_completes [OF B w h(4-6) caps plugin a f, where N = N and debug = debug and sq = sq and rd = rd] h(1-3)
  by (simp add: init_after_ssl_def second_response_def proceed_def bind_login_def)

text \<open>Inside TLS the client presents itself again, with the next sequence number.\<close>

lemma second_response_completes:
  assumes N: "nom_spec N" and tls: "with_tls" "has_cap M (capabilities h) CLIENT_SSL"
    and rd: "delivers (auth_timeout se \<noteq> None) (rd_stream rd)" "unread rd = frames (sq + 1) p @ rest"
      "length p \<le> rd_max_packet_size rd" "rd_max_packet_size rd \<le> usize_max" "length p < U24_MAX"
    and h': "client_handshake M N True p = Inr (r, h')"
  obtains rd' where "second_response B M N lift with_tls h sq (rd, se) = Ret (Inr (h', sq + 1), rd', with_seq (sq + 2) se)"
    "unread rd' = rest" "delivers (auth_timeout se \<noteq> None) (rd_stream rd')" 
proof -
  obtain rd' where rd': "read_packet_with_timeout N (auth_timeout se) rd = (Inr (Some (parsed (sq + 1) p)), rd')"
    "unread rd' = rest" "delivers (auth_timeout se \<noteq> None) (rd_stream rd')"
    using read_frames_aux [OF N rd(1-4)] by blast
  have "parsed (sq + 1) p = (sq + 1, \<lparr>packet_bytes = p, first_seq = sq + 1\<rparr>)" using rd(5) by (simp add: parsed_def)
  moreover have "parse_client_handshake B M N p True w = (Inr h', w)" for w by (simp add: parse_client_handshake_Inr h')
  ultimately have "second_response B M N lift with_tls h sq (rd, se) = Ret (Inr (h', sq + 1), rd', with_seq (sq + 2) se)"
    using rd'(1) tls by (simp add: second_response_def bind_login_def read_reply_def on_session_def bind_action_def change_def parse_again_def
        lift_result_def finish_with_def with_seq_def set_seq_def add.assoc)
  then show ?thesis using rd'(2,3) by (rule that)
qed

lemma read_nothing:
  assumes "unread rd = []" and "delivers (t \<noteq> None) (rd_stream rd)"
  shows "\<exists>rd'. read_packet_with_timeout N t rd = (Inr None, rd')"
proof -
  have "\<exists>es'. read_loop (parse_buffered N m) timed [] es = (Inr None, [], es')" if "stream_bytes es = []" "delivers timed es" for es timed m
    using that
  proof (induction es)
    case Nil
    then show ?case by (simp add: parse_buffered_def at_eof_def)
  next
    case (Cons e es)
    then show ?case by (cases e) (auto simp: parse_buffered_def)
  qed
  moreover have "rd_bytes rd = []" "stream_bytes (rd_stream rd) = []" using assms(1) by (simp_all add: unread_def)
  ultimately obtain es' where "read_loop (parse_buffered N (rd_max_packet_size rd)) (t \<noteq> None) (rd_bytes rd) (rd_stream rd) = (Inr None, [], es')"
    using assms(2) by metis
  then show ?thesis by (simp add: read_packet_timed next_with_timer_def)
qed

lemma run_nothing:
  assumes "unread rd = []" and "delivers (read_timeout se \<noteq> None) (rd_stream rd)" and "0 < fuel"
  shows "\<exists>rd'. run B M C F N S fuel rd se = Some (Ret (Inr (), rd', se))"
proof -
  obtain rd' where "read_packet_with_timeout N (read_timeout se) rd = (Inr None, rd')"
    using read_nothing [OF assms(1,2)] by blast
  then show ?thesis using assms(3) by (cases fuel) simp_all
qed

text \<open>A handshake response that a server with these options and this backend lets in.\<close>

definition good_response :: "myc_ops \<Rightarrow> Command nom_ops \<Rightarrow> ('s, 'e, 'd, 'dt) shim \<Rightarrow> 's \<Rightarrow> u32 \<Rightarrow> bytes \<Rightarrow> bytes \<Rightarrow>
    ClientHandshake \<Rightarrow> bool" where
  "good_response M N S st offered scramble p h \<longleftrightarrow>
     (\<exists>rest user. client_handshake M N False p = Inr (rest, h) \<and> username h = Some user \<and>
        \<not> has_cap M (capabilities h) CLIENT_SSL \<and> has_cap M (capabilities h) CLIENT_PROTOCOL_41 \<and>
        validate_collation M (hs_collation h) = Inr () \<and> db h = None \<and>
        (let plugin = auth_plugin_for_username S st user; caps = offered AND capabilities h;
             auth = effective_auth plugin (auth_response h) in
         plugin_usable M caps plugin \<and> (has_cap M caps CLIENT_PLUGIN_AUTH \<longrightarrow> plugin = [] \<or> auth_plugin h = plugin) \<and>
         authenticate S st plugin user scramble auth \<and>
         (plugin = CACHING_SHA2_PASSWORD \<longrightarrow> length auth \<in> {0, CACHING_SHA2_DIGEST_LENGTH})))"

lemma admission:
  assumes B: "byteorder_spec B" and N: "nom_spec N"
    and cfg: "handshake_config S st = (cfg, st1)" "list_all (\<lambda>b. \<not> delimiter b) (cfg_scramble cfg)"
      "validate_collation M (ucast (opt_initial_collation opts)) = Inr ()"
    and offered: "offered = server_capabilities M opts (if with_tls then WithTls False else WithoutTls)"
    and s: "reliable (opt_write_timeout opts \<noteq> None) s" "packet_size_limit opts \<le> usize_max"
      "length (concat (greeting_pieces M opts (if with_tls then WithTls False else WithoutTls) cfg)) \<le> packet_size_limit opts"
      "length (ok_payload B M (offered AND capabilities h) (default_ok\<lparr>ok_status_flags := opt_initial_status_flags opts\<rparr>)) \<le> packet_size_limit opts"
      "2 \<le> packet_size_limit opts"
    and input: "delivers (opt_auth_timeout opts \<noteq> None) input" "stream_bytes input = frames 1 p @ rest"
      "length p \<le> packet_size_limit opts" "length p < U24_MAX"
    and h: "good_response M N S st1 offered (cfg_scramble cfg) p h"
    and opts: "\<not> opt_reject_connection_on_dbname_absence opts"
  shows "\<exists>rd se. unread rd = rest \<and> delivers (opt_auth_timeout opts \<noteq> None) (rd_stream rd) \<and>
    read_timeout se = opt_read_timeout opts \<and> shim_state se = st1 \<and>
    run_with_options B M C F N debug S with_tls fuel st input s opts = map_option outcome_of (run B M C F N S fuel rd se)"
proof -
  let ?T = "if with_tls then WithTls False else WithoutTls"
  obtain r user where h0: "client_handshake M N False p = Inr (r, h)" "username h = Some user"
      "\<not> has_cap M (capabilities h) CLIENT_SSL" "has_cap M (capabilities h) CLIENT_PROTOCOL_41"
      "validate_collation M (hs_collation h) = Inr ()" "db h = None"
    using h by (auto simp: good_response_def)
  let ?h = "h\<lparr>server_scramble := Some (cfg_scramble cfg)\<rparr>"
  obtain rd s' where c: "init_before_ssl B M N ?T cfg input opts s = (Inr (False, ?h, 1, offered, rd), s')"
    and s': "reliable (opt_write_timeout opts \<noteq> None) s'" and rd: "unread rd = rest" "delivers (opt_auth_timeout opts \<noteq> None) (rd_stream rd)"
    using init_before_ssl_completes [OF B N cfg(2,3) s(1,3,2) input h0(1)] h0(3) offered by auto
  let ?se = "new_session opts offered st1 s'" and ?rd = "packet_reader opts (reader_stream rd)"
  let ?plugin = "auth_plugin_for_username S (shim_state ?se) user"
  have w: "fresh (out ?se)" using s' by (simp add: fresh_def writer_reliable_def)
  have "\<exists>se'. init_after_ssl B M N debug S with_tls ?h 1 (?rd, ?se) = Ret (Inr (), ?rd, se') \<and>
      shim_state se' = shim_state ?se \<and> read_timeout se' = read_timeout ?se"
    by (rule login_completes [OF B w, where user = user and scramble = "cfg_scramble cfg" and plugin = ?plugin and u = "()"
          and caps = "offered AND capabilities h"])
      (use h h0 s opts in \<open>simp_all add: good_response_def Let_def new_session_def fits_def\<close>)
  then obtain se' where l: "init_after_ssl B M N debug S with_tls ?h 1 (?rd, ?se) = Ret (Inr (), ?rd, se')"
    "shim_state se' = st1" "read_timeout se' = opt_read_timeout opts" by (auto simp: new_session_def Let_def)
  show ?thesis
    by (intro exI [of _ ?rd] exI [of _ se']) (use c l rd cfg(1) in \<open>simp add: run_with_options_def login_and_run_def\<close>)
qed

text \<open>C11: a client that sends an acceptable response is let in, however its bytes are cut: when the
  backend accepts its credentials for the challenge, the login succeeds and the connection goes on
  with the command loop, which finds exactly the bytes behind the response still to be read.\<close>

theorem client_admitted:
  assumes "byteorder_spec B" and "nom_spec N"
    and "handshake_config S st = (cfg, st1)" "list_all (\<lambda>b. \<not> delimiter b) (cfg_scramble cfg)"
      "validate_collation M (ucast (opt_initial_collation opts)) = Inr ()"
    and "offered = server_capabilities M opts (if with_tls then WithTls False else WithoutTls)"
    and "reliable (opt_write_timeout opts \<noteq> None) s" "packet_size_limit opts \<le> usize_max"
      "length (concat (greeting_pieces M opts (if with_tls then WithTls False else WithoutTls) cfg)) \<le> packet_size_limit opts"
      "length (ok_payload B M (offered AND capabilities h) (default_ok\<lparr>ok_status_flags := opt_initial_status_flags opts\<rparr>)) \<le> packet_size_limit opts"
      "2 \<le> packet_size_limit opts"
    and "delivers (opt_auth_timeout opts \<noteq> None) input" "stream_bytes input = frames 1 p @ rest"
      "length p \<le> packet_size_limit opts" "length p < U24_MAX"
    and "good_response M N S st1 offered (cfg_scramble cfg) p h"
    and "\<not> opt_reject_connection_on_dbname_absence opts"
  shows "\<exists>rd se. unread rd = rest \<and> delivers (opt_auth_timeout opts \<noteq> None) (rd_stream rd) \<and>
    read_timeout se = opt_read_timeout opts \<and> shim_state se = st1 \<and>
    run_with_options B M C F N debug S with_tls fuel st input s opts = map_option outcome_of (run B M C F N S fuel rd se)"
  by (rule admission [OF assms])

subsection \<open>A connection\<close>

definition demo_backend :: "(unit, io_error, int \<times> nat \<times> nat, (int \<times> nat \<times> nat) \<times> nat \<times> nat \<times> nat \<times> nat) shim" where
  "demo_backend = demo_shim\<lparr>authenticate := (\<lambda>s plugin user challenge auth. auth = [1, 0, 2])\<rparr>"

definition demo_response_packet :: bytes where
  "demo_response_packet = ssl_request_bytes 0x8200 1024 45 (replicate 23 0) @
     credentials_bytes myc_ref 0x8200 [97] [1, 0, 2] [] []"

definition demo_handshake :: ClientHandshake where
  "demo_handshake = \<lparr>server_scramble = None, maxps = 1024, capabilities = from_bits_truncate myc_ref 0x8200,
     hs_collation = 45, db = None, username = Some [97], auth_response = [1, 0, 2], auth_plugin = []\<rparr>"

lemma demo_caps_8200:
  "has_cap myc_ref 0x8200 CLIENT_PROTOCOL_41" "\<not> has_cap myc_ref 0x8200 CLIENT_SSL"
  "\<not> has_cap myc_ref 0x8200 CLIENT_CONNECT_WITH_DB" "\<not> has_cap myc_ref 0x8200 CLIENT_PLUGIN_AUTH"
  "has_cap myc_ref 0x8200 CLIENT_SECURE_CONNECTION"
  "\<not> has_cap myc_ref 0x8200 CLIENT_PLUGIN_AUTH_LENENC_CLIENT_DATA" "\<not> has_cap myc_ref 0x8200 CLIENT_SESSION_TRACK"
  by (simp_all add: has_cap_def contains_def myc_ref_def ref_cap_def)

lemma demo_parsed_handshake: "client_handshake myc_ref nom_ref False demo_response_packet = Inr ([], demo_handshake)"
  using handshake_41_read [OF nom_ref_spec myc_ref_spec demo_caps_8200(1), of "replicate 23 0" False
      "[97]" "[]" "[]" "[1, 0, 2]" 1024 45 "[]"] demo_caps_8200
  by (simp add: demo_response_packet_def demo_handshake_def auth_fits_def)

definition demo_offered :: u32 where
  "demo_offered = server_capabilities myc_ref demo_options (WithTls False)"

lemma demo_negotiated: "demo_offered AND capabilities demo_handshake = 0x8200"
  by (simp add: demo_offered_def server_capabilities_def demo_options_def default_options_def demo_handshake_def
      from_bits_truncate_def myc_ref_def ref_cap_def)

lemma demo_backend_simps [simp]:
  "auth_plugin_for_username demo_backend st user = MYSQL_NATIVE_PASSWORD"
  "authenticate demo_backend st plugin user challenge auth \<longleftrightarrow> auth = [1, 0, 2]"
  by (simp_all add: demo_backend_def demo_shim_def default_auth_plugin_for_username_def)

definition demo_cfg :: ServerHandshakeConfig where
  "demo_cfg = \<lparr>cfg_version = default_server_version (), cfg_connection_id = 7,
     cfg_default_auth_plugin = MYSQL_NATIVE_PASSWORD, cfg_scramble = replicate 20 0x41\<rparr>"

lemma demo_backend_config: "handshake_config demo_backend () = (demo_cfg, ())"
  by (simp add: demo_cfg_def handshake_config_def demo_backend_def demo_shim_def default_default_auth_plugin_def)

lemma demo_good_response:
  "good_response myc_ref nom_ref demo_backend () demo_offered (replicate 20 0x41) demo_response_packet demo_handshake"
proof -
  have "has_cap myc_ref (capabilities demo_handshake) c = has_cap myc_ref 0x8200 c" for c
    by (simp add: demo_handshake_def has_cap_truncate [OF myc_ref_spec])
  moreover have "validate_collation myc_ref (hs_collation demo_handshake) = Inr ()"
    by (simp add: validate_collation_def myc_ref_def demo_handshake_def)
  ultimately show ?thesis
    unfolding good_response_def Let_def demo_negotiated
    using demo_caps_8200
    by (simp add: plugin_usable_def effective_auth_def demo_parsed_handshake [unfolded demo_handshake_def] demo_handshake_def)
qed

definition demo_input :: "rd_event list" where
  "demo_input = [RData (take 7 (frames 1 demo_response_packet)), RData (drop 7 (frames 1 demo_response_packet))]"

lemma demo_lengths:
  "length demo_response_packet = 38" "7 < length (frames 1 demo_response_packet)"
proof -
  show len: "length demo_response_packet = 38"
    using demo_caps_8200
    by (simp add: demo_response_packet_def ssl_request_bytes_def credentials_bytes_def null_str_def auth_bytes_def)
  then show "7 < length (frames 1 demo_response_packet)"
    using frames_length [of demo_response_packet 1] by simp
qed

lemma demo_timeouts:
  "opt_auth_timeout demo_options = None" "opt_read_timeout demo_options = None" "opt_write_timeout demo_options = None"
  "packet_size_limit demo_options = 1000" "\<not> opt_reject_connection_on_dbname_absence demo_options"
  "opt_initial_status_flags demo_options = 2"
  by (simp_all add: demo_options_def default_options_def packet_size_limit_def myc_ref_def ref_status_def)

lemma demo_exchange:
  "list_all (\<lambda>b. \<not> delimiter b) (cfg_scramble demo_cfg)"
  "validate_collation myc_ref (ucast (opt_initial_collation demo_options)) = Inr ()"
  "reliable (opt_write_timeout demo_options \<noteq> None) demo_sink"
  "length (concat (greeting_pieces myc_ref demo_options (if True then WithTls False else WithoutTls) demo_cfg)) \<le> packet_size_limit demo_options"
  "good_response myc_ref nom_ref demo_backend () (server_capabilities myc_ref demo_options (if True then WithTls False else WithoutTls))
     (cfg_scramble demo_cfg) demo_response_packet demo_handshake"
proof -
  show "list_all (\<lambda>b. \<not> delimiter b) (cfg_scramble demo_cfg)" by (simp add: demo_cfg_def list_all_iff delimiter_def)
  show "validate_collation myc_ref (ucast (opt_initial_collation demo_options)) = Inr ()"
    by (simp add: validate_collation_def myc_ref_def demo_options_def default_options_def)
  show "reliable (opt_write_timeout demo_options \<noteq> None) demo_sink" by (simp add: reliable_def demo_sink_def)
  show "length (concat (greeting_pieces myc_ref demo_options (if True then WithTls False else WithoutTls) demo_cfg)) \<le> packet_size_limit demo_options"
    by (simp add: demo_timeouts demo_cfg_def greeting_pieces_def Let_def default_server_version_def MYSQL_NATIVE_PASSWORD_def ascii_def
        AUTH_PLUGIN_DATA_PART_1_LENGTH_def)
  show "good_response myc_ref nom_ref demo_backend () (server_capabilities myc_ref demo_options (if True then WithTls False else WithoutTls))
     (cfg_scramble demo_cfg) demo_response_packet demo_handshake"
    using demo_good_response by (simp add: demo_offered_def demo_cfg_def)
qed

lemma demo_welcome:
  "length (ok_payload byteorder_ref myc_ref (server_capabilities myc_ref demo_options (if True then WithTls False else WithoutTls) AND
     capabilities demo_handshake) (default_ok\<lparr>ok_status_flags := opt_initial_status_flags demo_options\<rparr>)) \<le> packet_size_limit demo_options"
  unfolding if_True demo_negotiated [unfolded demo_offered_def]
  using demo_caps_8200
  by (simp add: demo_timeouts ok_payload_def ok_pieces_def default_ok_def Let_def myc_specD(7) [OF myc_ref_spec] lenenc_int_def
      byteorder_ref_def)

lemmas demo_admission = demo_exchange demo_welcome demo_lengths demo_timeouts

theorem client_admitted_witness:
  "\<exists>rd se. unread rd = [] \<and> shim_state se = () \<and>
    run_with_options byteorder_ref myc_ref chrono_ref fmt_none nom_ref id demo_backend True 1 () demo_input demo_sink demo_options =
    map_option outcome_of (run byteorder_ref myc_ref chrono_ref fmt_none nom_ref demo_backend 1 rd se)"
proof -
  have "\<exists>rd se. unread rd = [] \<and> delivers (opt_auth_timeout demo_options \<noteq> None) (rd_stream rd) \<and>
    read_timeout se = opt_read_timeout demo_options \<and> shim_state se = () \<and>
    run_with_options byteorder_ref myc_ref chrono_ref fmt_none nom_ref id demo_backend True 1 () demo_input demo_sink demo_options =
    map_option outcome_of (run byteorder_ref myc_ref chrono_ref fmt_none nom_ref demo_backend 1 rd se)"
    by (rule client_admitted [OF byteorder_ref_spec nom_ref_spec demo_backend_config _ _ refl, where p = demo_response_packet and h = demo_handshake])
      (use demo_admission in \<open>auto simp: demo_input_def usize_max_def U24_MAX_def\<close>)
  then show ?thesis by blast
qed

text \<open>A client that logs in and leaves.\<close>

lemma demo_connection:
  "\<exists>rd se. run_with_options byteorder_ref myc_ref chrono_ref fmt_none nom_ref id demo_backend True 1 () demo_input demo_sink
     demo_options = Some (Ended (Inr ()) rd se)"
proof -
  have "\<exists>rd se. unread rd = [] \<and> delivers (opt_auth_timeout demo_options \<noteq> None) (rd_stream rd) \<and>
    read_timeout se = opt_read_timeout demo_options \<and> shim_state se = () \<and>
    run_with_options byteorder_ref myc_ref chrono_ref fmt_none nom_ref id demo_backend True 1 () demo_input demo_sink demo_options =
    map_option outcome_of (run byteorder_ref myc_ref chrono_ref fmt_none nom_ref demo_backend 1 rd se)"
    by (rule admission [OF byteorder_ref_spec nom_ref_spec demo_backend_config _ _ refl, where p = demo_response_packet and h = demo_handshake])
      (use demo_admission in \<open>auto simp: demo_input_def usize_max_def U24_MAX_def\<close>)
  then obtain rd se where rd: "unread rd = []" "delivers False (rd_stream rd)" "read_timeout se = None"
    and run: "run_with_options byteorder_ref myc_ref chrono_ref fmt_none nom_ref id demo_backend True 1 () demo_input demo_sink
      demo_options = map_option outcome_of (run byteorder_ref myc_ref chrono_ref fmt_none nom_ref demo_backend 1 rd se)"
    using demo_timeouts by auto
  have "\<exists>rd'. run byteorder_ref myc_ref chrono_ref fmt_none nom_ref demo_backend 1 rd se = Some (Ret (Inr (), rd', se))"
    by (rule run_nothing) (use rd in simp_all)
  with run show ?thesis by auto
qed

theorem connection_refines_protocol_witness:
  "\<exists>rd se T login qs said1 said2. run_with_options byteorder_ref myc_ref chrono_ref fmt_none nom_ref id demo_backend True 1 ()
      demo_input demo_sink demo_options = Some (Ended (Inr ()) rd se) \<and>
    stream_bytes demo_input = received_wire login @ received_wire qs @ unread rd \<and>
    wire (out se) = written demo_sink @ frames 0 (concat (greeting_pieces myc_ref demo_options T demo_cfg)) @ said1 @ said2 \<and>
    admitted byteorder_ref myc_ref nom_ref demo_backend True (replicate 20 0x41) () (client_capabilities se) login said1 \<and>
    conversation byteorder_ref myc_ref nom_ref (client_capabilities se) qs said2"
proof -
  obtain rd se where run: "run_with_options byteorder_ref myc_ref chrono_ref fmt_none nom_ref id demo_backend True 1 ()
      demo_input demo_sink demo_options = Some (Ended (Inr ()) rd se)"
    using demo_connection by blast
  have limits: "packet_size_limit demo_options \<le> usize_max" "opt_max_connection_long_data_size demo_options = None"
    by (simp_all add: packet_size_limit_def demo_options_def default_options_def usize_max_def)
  have "\<exists>T login qs said1 said2. stream_bytes demo_input = received_wire login @ received_wire qs @ unread rd \<and>
    wire (out se) = written demo_sink @ frames 0 (concat (greeting_pieces myc_ref demo_options T demo_cfg)) @ said1 @ said2 \<and>
    admitted byteorder_ref myc_ref nom_ref demo_backend True (cfg_scramble demo_cfg) () (client_capabilities se) login said1 \<and>
    conversation byteorder_ref myc_ref nom_ref (client_capabilities se) qs said2 \<and>
    (\<exists>caps. client_capabilities se = server_capabilities myc_ref demo_options T AND caps)"
    by (rule connection_refines_protocol [OF byteorder_ref_spec myc_ref_spec nom_ref_spec demo_backend_config run demo_exchange(3) limits(1)])
      (simp add: limits(2))
  then obtain T login qs said1 said2 where "stream_bytes demo_input = received_wire login @ received_wire qs @ unread rd"
    "wire (out se) = written demo_sink @ frames 0 (concat (greeting_pieces myc_ref demo_options T demo_cfg)) @ said1 @ said2"
    "admitted byteorder_ref myc_ref nom_ref demo_backend True (cfg_scramble demo_cfg) () (client_capabilities se) login said1"
    "conversation byteorder_ref myc_ref nom_ref (client_capabilities se) qs said2"
    by blast
  moreover have "cfg_scramble demo_cfg = replicate 20 0x41" by (simp add: demo_cfg_def)
  ultimately show ?thesis
    using run by (intro exI [of _ rd] exI [of _ se] exI [of _ T] exI [of _ login] exI [of _ qs] exI [of _ said1] exI [of _ said2]) simp
qed

end
