(* ===== verification/Flushing.thy ===== *)
theory Flushing
  imports Connection
begin

text \<open>
  What a client is owed before the server waits for it: everything written has been flushed, so an
  answer never lingers in a buffer of the transport while the server reads the next command.
\<close>

definition all_flushed :: "PacketWriter \<Rightarrow> bool" where
  "all_flushed w \<longleftrightarrow> flushed (output_stream w) = length (written (output_stream w))"

named_theorems flush_intros

lemma flush_all_flushed: "flush_all w = (Inr (), w') \<Longrightarrow> all_flushed w'"
  by (auto simp: flush_all_def flush_output_def sink_flush_def all_flushed_def split: prod.splits sum.splits)

lemma all_flushed_seq [simp]: "all_flushed (set_seq n w) = all_flushed w"
  by (simp add: all_flushed_def set_seq_def)

lemma write_flush_flushed: "write_out lift flush_all se = Ret (Inr u, se') \<Longrightarrow> all_flushed (out se')"
  by (auto simp: action_simps dest: flush_all_flushed)

text \<open>How the handler of a command can end: asking for the final flush, or having flushed itself.\<close>

definition ends_flushed :: "('s, 'e, control) action \<Rightarrow> bool" where
  "ends_flushed m \<longleftrightarrow> (\<forall>se c se'. m se = Ret (Inr c, se') \<longrightarrow> c = Flush \<or> c = Continue \<and> all_flushed (out se'))"

lemma ends_flushedD: "ends_flushed m \<Longrightarrow> m se = Ret (Inr c, se') \<Longrightarrow> c = Flush \<or> c = Continue \<and> all_flushed (out se')"
  unfolding ends_flushed_def by blast

lemma ends_flushed_bind [flush_intros]: "(\<And>x. ends_flushed (f x)) \<Longrightarrow> ends_flushed (bind_action m f)"
  unfolding ends_flushed_def by (auto simp: action_simps)

lemma ends_flushed_finish [flush_intros]: "ends_flushed (finish_with Flush)"
  by (simp add: ends_flushed_def action_simps)

lemma ends_flushed_refuse [flush_intros]: "ends_flushed (refuse B lift kind msg)"
  by (auto simp: ends_flushed_def refuse_def action_simps dest: flush_all_flushed)

lemma ends_flushed_reply [flush_intros]: "ends_flushed (reply_out lift m)"
  unfolding reply_out_def by (intro flush_intros)

lemma ends_flushed_acknowledge [flush_intros]: "ends_flushed (acknowledge B M lift)"
  using ends_flushed_reply unfolding ends_flushed_def acknowledge_def by blast

lemmas ends_flushed_dests = ends_flushedD [OF ends_flushed_refuse] ends_flushedD [OF ends_flushed_reply]
  ends_flushedD [OF ends_flushed_acknowledge]

lemma handle_command_flushed:
  assumes run: "handle_command B M C F S cmd se = Ret (Inr c, se')"
  shows "c = Flush \<or> c = Continue \<and> all_flushed (out se') \<or> c = Break \<and> se' = se"
proof (cases cmd)
  case (Execute i flags iterations payload)
  with run have "handle_execute B M C F S i flags iterations payload se = Ret (Inr c, se')" by simp
  then show ?thesis
    by (cases rule: handle_execute_cases) (auto dest!: ends_flushed_dests)
next
  case (Query q)
  with run show ?thesis
    by (auto simp: handle_query_def action_simps dest!: ends_flushed_dests split: option.splits if_splits)
next
  case (Prepare q)
  with run show ?thesis
    by (auto simp: handle_prepare_def action_simps dest!: ends_flushed_dests split: option.splits if_splits)
next
  case (Fetch i rows)
  with run show ?thesis
    by (auto simp: handle_fetch_def action_simps dest!: ends_flushed_dests split: option.splits if_splits)
next
  case (Reset i)
  with run show ?thesis
    by (auto simp: handle_reset_def dest!: ends_flushed_dests split: option.splits)
next
  case (Init schema)
  with run show ?thesis
    by (auto simp: handle_init_def action_simps dest!: ends_flushed_dests split: option.splits)
next
  case ResetConnection
  with run show ?thesis
    by (auto simp: handle_reset_connection_def dest!: ends_flushed_dests split: prod.splits sum.splits bool.splits)
qed (use run in \<open>auto simp: action_simps dest!: ends_flushed_dests\<close>)

lemma process_packet_flushed:
  assumes run: "process_packet B M C F N S sq p se = Ret (Inr c, se')" and "all_flushed (out se)"
  shows "all_flushed (out se')"
proof -
  let ?se = "se\<lparr>out := set_seq (sq + 1) (out se)\<rparr>"
  have first: "first_seq p = 0" using run by (auto simp: process_packet_def Let_def action_simps split: if_splits)
  show ?thesis
  proof (cases "parse M N (packet_bytes p)")
    case (Inl e)
    with run first show ?thesis
      by (auto simp: process_packet_def Let_def refuse_def action_simps split: prod.splits dest: flush_all_flushed)
  next
    case (Inr x)
    with run first obtain c1 se1 where h: "handle_command B M C F S (snd x) ?se = Ret (Inr c1, se1)"
      "after_command (from_io S) c1 se1 = Ret (Inr c, se')"
      by (auto simp: process_packet_def Let_def action_simps split: prod.splits)
    from handle_command_flushed [OF h(1)] consider "c1 = Flush" | "c1 = Continue" "all_flushed (out se1)" | "c1 = Break" "se1 = ?se"
      by blast
    then show ?thesis
    proof cases
      case 1
      with h(2) obtain u where "write_out (from_io S) flush_all se1 = Ret (Inr u, se')"
        by (auto simp: bind_action_Inr action_simps)
      then show ?thesis by (rule write_flush_flushed)
    qed (use h(2) assms(2) in \<open>simp_all add: action_simps\<close>)
  qed
qed

lemma serves_flushed: "serves B M C F N S se0 ps se \<Longrightarrow> all_flushed (out se0) \<Longrightarrow> all_flushed (out se)"
  by (induction rule: serves.induct) (auto intro: process_packet_flushed)

lemma login_flushed:
  assumes "init_after_ssl B M N debug S with_tls h sq (rd0, se0) = Ret (Inr u, rd, se)"
  shows "all_flushed (out se)"
  using assms by (auto simp: init_after_ssl_def login_simps dest!: write_flush_flushed split: option.splits prod.splits)

text \<open>C12: whenever a session that has been logged in waits for its next command, everything it has
  written has been flushed: no part of an answer is left behind in a buffering transport, whatever
  the commands were and whatever the backend did.\<close>

theorem answers_flushed:
  assumes "init_after_ssl B M N debug S with_tls h sq (rd0, se0) = Ret (Inr (), rd, se1)"
    and "serves B M C F N S se1 ps se"
  shows "flushed (output_stream (out se)) = length (written (output_stream (out se)))"
  using serves_flushed [OF assms(2) login_flushed [OF assms(1)]] by (simp add: all_flushed_def)

theorem answers_flushed_witness:
  "\<exists>h sq rd0 se0 rd1 se1 se. init_after_ssl byteorder_ref myc_ref nom_ref id demo_backend True h sq (rd0, se0) = Ret (Inr (), rd1, se1) \<and>
     serves byteorder_ref myc_ref chrono_ref fmt_none nom_ref demo_backend se1 [] se \<and>
     flushed (output_stream (out se)) = length (written (output_stream (out se)))"
proof -
  obtain rd se where run: "run_with_options byteorder_ref myc_ref chrono_ref fmt_none nom_ref id demo_backend True 1 () demo_input
      demo_sink demo_options = Some (Ended (Inr ()) rd se)"
    using demo_connection by blast
  obtain ssl h sq caps rd1 s1 rd2 se1 where "init_after_ssl byteorder_ref myc_ref nom_ref id demo_backend True h sq
      (packet_reader demo_options (reader_stream rd1), new_session demo_options caps () s1) = Ret (Inr (), rd2, se1)"
    by (rule orderly_connection [OF demo_backend_config run])
  from this answers_flushed [OF this serves.idle] show ?thesis using serves.idle by blast
qed

end
