(* ===== verification/Secure.thy ===== *)
theory Secure
  imports Connection
begin

text \<open>
  Connections inside TLS (\<open>tls.rs\<close>): the greeting and the request to switch in clear text, the
  negotiation over the two halves of the plain transport, then the login and the commands over the
  streams inside TLS.
\<close>

subsection \<open>What a connection inside TLS is\<close>

lemma secure_conversation:
  assumes B: "byteorder_spec B" and M: "myc_spec M" and N: "nom_spec N"
    and connected: "init_before_ssl B M N T cfg input opts s0 = (Inr (True, h, sq, caps, rd0), s1)"
    and switched: "switch_to_tls accept rd0 s1 = Some (Inr (inner, s2))"
    and run: "secure_run_with_options B M C F N debug S accept fuel st s1 opts (h, sq, caps, rd0) = Some (Ended (Inr ()) rd se)"
    and s: "reliable (opt_write_timeout opts \<noteq> None) s0" "reliable (opt_write_timeout opts \<noteq> None) s2"
    and limits: "packet_size_limit opts \<le> usize_max" "\<And>n. opt_max_connection_long_data_size opts = Some n \<Longrightarrow> n \<le> usize_max"
  obtains request login qs said1 said2 where "stream_bytes input = received_wire [request] @ unread rd0"
    "written s1 = written s0 @ frames 0 (concat (greeting_pieces M opts T cfg))"
    "stream_bytes inner = received_wire login @ received_wire qs @ unread rd" "login \<noteq> []"
    "wire (out se) = written s2 @ said1 @ said2"
    "admitted B M N S True (cfg_scramble cfg) st (client_capabilities se) (request # login) said1"
    "conversation B M N (client_capabilities se) qs said2"
    "\<exists>caps'. client_capabilities se = server_capabilities M opts T AND caps'"
proof -
  obtain p r0 h0 where first: "stream_bytes input = received_wire [(sq, p)] @ unread rd0" "whole (sq, p)" "first_seq p = 1"
    "client_handshake M N False (packet_bytes p) = Inr (r0, h0)" "h = h0\<lparr>server_scramble := Some (cfg_scramble cfg)\<rparr>"
    and caps: "caps = server_capabilities M opts T" and ssl: "has_cap M (capabilities h0) CLIENT_SSL"
    and s1: "written s1 = written s0 @ frames 0 (concat (greeting_pieces M opts T cfg))"
    using greeted [OF B N s(1) connected] by blast
  obtain rd1 se1 where login: "init_after_ssl B M N debug S True h sq (packet_reader opts inner, new_session opts caps st s2) = Ret (Inr (), rd1, se1)"
    and loop: "run B M C F N S fuel rd1 se1 = Some (Ret (Inr (), rd, se))"
    using run switched
    by (auto simp: secure_run_with_options_def login_and_run_def elim!: outcome_of.elims split: rust.splits sum.splits)
  have "username h = None \<longrightarrow> True \<and> has_cap M (capabilities h) CLIENT_SSL" using ssl first(5) by simp
  from login_conversation [OF B M N first(2-5) this login loop s(2) limits] obtain msgs qs said1 said2
    where conv: "stream_bytes inner = received_wire msgs @ received_wire qs @ unread rd" "wire (out se) = written s2 @ said1 @ said2"
      "admitted B M N S True (cfg_scramble cfg) st (client_capabilities se) ((sq, p) # msgs) said1"
      "conversation B M N (client_capabilities se) qs said2" "\<exists>caps'. client_capabilities se = caps AND caps'" by blast
  have "msgs \<noteq> []"
  proof
    assume "msgs = []"
    with conv(3) obtain hs h1 sq1 reply where "[(sq, p)] = hs @ reply" "hello M N True hs h1 sq1"
      by (auto simp: admitted_def Let_def)
    then show False using first(4) ssl by (auto elim!: hello.cases simp: Cons_eq_append_conv)
  qed
  then show ?thesis by (rule that [OF first(1) s1 conv(1) _ conv(2-4)]) (use conv(5) caps in simp)
qed

text \<open>C2: a connection inside TLS that ends with the client leaving: in clear text there have been only
  the greeting and the client's request to switch, from which no credentials have been taken; inside TLS
  the client has sent, first, at least one login packet with a user and credentials that the backend
  accepts for this greeting's challenge, and then commands, each of which has got exactly one
  answer there; nothing else has been read or sent.\<close>

theorem secure_connection_refines_protocol:
  assumes "byteorder_spec B" and "myc_spec M" and "nom_spec N"
    and "init_before_ssl B M N T cfg input opts s0 = (Inr (True, h, sq, caps, rd0), s1)"
    and "switch_to_tls accept rd0 s1 = Some (Inr (inner, s2))"
    and "secure_run_with_options B M C F N debug S accept fuel st s1 opts (h, sq, caps, rd0) = Some (Ended (Inr ()) rd se)"
    and "reliable (opt_write_timeout opts \<noteq> None) s0" "reliable (opt_write_timeout opts \<noteq> None) s2"
    and "packet_size_limit opts \<le> usize_max" "\<And>n. opt_max_connection_long_data_size opts = Some n \<Longrightarrow> n \<le> usize_max"
  shows "\<exists>request login qs said1 said2. stream_bytes input = received_wire [request] @ unread rd0 \<and>
    written s1 = written s0 @ frames 0 (concat (greeting_pieces M opts T cfg)) \<and>
    stream_bytes inner = received_wire login @ received_wire qs @ unread rd \<and> login \<noteq> [] \<and>
    wire (out se) = written s2 @ said1 @ said2 \<and>
    admitted B M N S True (cfg_scramble cfg) st (client_capabilities se) (request # login) said1 \<and>
    conversation B M N (client_capabilities se) qs said2 \<and>
    (\<exists>caps'. client_capabilities se = server_capabilities M opts T AND caps')"
  using secure_conversation [OF assms] by metis

subsection \<open>A connection inside TLS\<close>

text \<open>A response inside TLS that a server with these options and this backend lets in.\<close>

definition good_tls_response :: "myc_ops \<Rightarrow> Command nom_ops \<Rightarrow> ('s, 'e, 'd, 'dt) shim \<Rightarrow> 's \<Rightarrow> u32 \<Rightarrow> bytes \<Rightarrow> bytes \<Rightarrow>
    ClientHandshake \<Rightarrow> bool" where
  "good_tls_response M N S st offered scramble p h \<longleftrightarrow>
     (\<exists>rest user. client_handshake M N True p = Inr (rest, h) \<and> username h = Some user \<and>
        has_cap M (capabilities h) CLIENT_PROTOCOL_41 \<and>
        validate_collation M (hs_collation h) = Inr () \<and> db h = None \<and>
        (let plugin = auth_plugin_for_username S st user; caps = offered AND capabilities h;
             auth = effective_auth plugin (auth_response h) in
         plugin_usable M caps plugin \<and> (has_cap M caps CLIENT_PLUGIN_AUTH \<longrightarrow> plugin = [] \<or> auth_plugin h = plugin) \<and>
         authenticate S st plugin user scramble auth \<and>
         (plugin = CACHING_SHA2_PASSWORD \<longrightarrow> length auth \<in> {0, CACHING_SHA2_DIGEST_LENGTH})))"

text \<open>Such a client is let in, and the command loop starts right behind its response.\<close>

lemma secure_admission:
  assumes B: "byteorder_spec B" and N: "nom_spec N"
    and h: "server_scramble h = Some scramble" "has_cap M (capabilities h) CLIENT_SSL"
    and switched: "switch_to_tls accept rd0 s1 = Some (Inr (inner, s2))"
    and s: "reliable (opt_write_timeout opts \<noteq> None) s2" "packet_size_limit opts \<le> usize_max"
      "length (ok_payload B M (caps AND capabilities h') (default_ok\<lparr>ok_status_flags := opt_initial_status_flags opts\<rparr>)) \<le> packet_size_limit opts"
      "2 \<le> packet_size_limit opts"
    and inner: "delivers (opt_auth_timeout opts \<noteq> None) inner" "stream_bytes inner = frames (sq + 1) p @ rest"
      "length p \<le> packet_size_limit opts" "length p < U24_MAX"
    and good: "good_tls_response M N S st caps scramble p h'"
    and opts: "\<not> opt_reject_connection_on_dbname_absence opts"
  shows "\<exists>rd se. unread rd = rest \<and> delivers (opt_auth_timeout opts \<noteq> None) (rd_stream rd) \<and>
    read_timeout se = opt_read_timeout opts \<and> shim_state se = st \<and>
    secure_run_with_options B M C F N debug S accept fuel st s1 opts (h, sq, caps, rd0) = map_option outcome_of (run B M C F N S fuel rd se)"
proof -
  let ?se = "new_session opts caps st s2" and ?rd = "packet_reader opts inner"
  obtain r user where h': "client_handshake M N True p = Inr (r, h')" "username h' = Some user"
      "has_cap M (capabilities h') CLIENT_PROTOCOL_41" "validate_collation M (hs_collation h') = Inr ()" "db h' = None"
    using good by (auto simp: good_tls_response_def)
  have rd: "delivers (auth_timeout ?se \<noteq> None) (rd_stream ?rd)" "unread ?rd = frames (sq + 1) p @ rest"
    "length p \<le> rd_max_packet_size ?rd" "rd_max_packet_size ?rd \<le> usize_max"
    using inner s(2) by (simp_all add: new_session_def Let_def packet_reader_def new_with_max_packet_size_def unread_def)
  obtain rd1 where second: "second_response B M N (from_io S) True h sq (?rd, ?se) = Ret (Inr (h', sq + 1), rd1, with_seq (sq + 2) ?se)"
    and rd1: "unread rd1 = rest" "delivers (auth_timeout ?se \<noteq> None) (rd_stream rd1)"
    by (rule second_response_completes [OF N _ h(2) rd inner(4) h'(1)]) simp
  let ?se1 = "with_seq (sq + 2) ?se" and ?plugin = "auth_plugin_for_username S st user"
  have same: "shim_state ?se1 = st" "session_flags ?se1 = opt_initial_status_flags opts" "client_capabilities ?se1 = caps"
    "read_timeout ?se1 = opt_read_timeout opts" "\<not> reject_connection_on_dbname_absence ?se1"
    using opts by (simp_all add: with_seq_def new_session_def Let_def)
  have "fresh (out ?se)" using s(1) by (simp add: fresh_def writer_reliable_def)
  then have w: "fresh (out ?se1)" by simp
  have fits: "fits (out ?se1) [[0x01, 0x03], ok_payload B M (caps AND capabilities h') (default_ok\<lparr>ok_status_flags := opt_initial_status_flags opts\<rparr>)]"
    using s by (simp add: new_session_def Let_def fits_def)
  have "\<exists>se'. bind_login (on_session (negotiate B M (from_io S) h' (sq + 1))) (\<lambda>_.
      bind_login (login_user B M N debug S scramble h' (sq + 1) user) (\<lambda>_. on_session (write_out (from_io S) flush_all))) (rd1, ?se1) =
      Ret (Inr (), rd1, se') \<and> shim_state se' = shim_state ?se1 \<and> read_timeout se' = read_timeout ?se1"
    by (rule negotiated_completes [OF B w h'(3-5), where caps = "caps AND capabilities h'" and plugin = ?plugin])
      (use good h' fits same in \<open>simp_all add: good_tls_response_def Let_def\<close>)
  then obtain se' where "init_after_ssl B M N debug S True h sq (?rd, ?se) = Ret (Inr (), rd1, se')"
    "shim_state se' = st" "read_timeout se' = opt_read_timeout opts"
    using second h(1) h'(2) same by (auto simp: init_after_ssl_def bind_login_def)
  then show ?thesis
    by (intro exI [of _ rd1] exI [of _ se'])
      (use rd1 switched in \<open>simp add: secure_run_with_options_def login_and_run_def new_session_def Let_def\<close>)
qed

lemma demo_tls_response: "client_handshake myc_ref nom_ref True demo_response_packet = Inr ([], demo_handshake)"
  using handshake_41_read [OF nom_ref_spec myc_ref_spec demo_caps_8200(1), of "replicate 23 0" True
      "[97]" "[]" "[]" "[1, 0, 2]" 1024 45 "[]"] demo_caps_8200
  by (simp add: demo_response_packet_def demo_handshake_def auth_fits_def)

definition demo_accept :: tls_accept where
  "demo_accept d = Some (Inr ([RData (frames 2 demo_response_packet)], duplex_writer d))"

theorem secure_connection_refines_protocol_witness:
  "\<exists>h rd0 s1 rd se request login qs said1 said2.
    secure_run_with_options byteorder_ref myc_ref chrono_ref fmt_none nom_ref id demo_backend demo_accept 1 () s1 demo_options
      (h, 1, server_capabilities myc_ref demo_options (WithTls True), rd0) = Some (Ended (Inr ()) rd se) \<and>
    frames 2 demo_response_packet = received_wire login @ received_wire qs @ unread rd \<and> login \<noteq> [] \<and>
    wire (out se) = written s1 @ said1 @ said2 \<and>
    admitted byteorder_ref myc_ref nom_ref demo_backend True (replicate 20 0x41) () (client_capabilities se) (request # login) said1 \<and>
    conversation byteorder_ref myc_ref nom_ref (client_capabilities se) qs said2"
proof -
  let ?caps = "server_capabilities myc_ref demo_options (WithTls True)"
  obtain h rd0 s1 where connected: "init_before_ssl byteorder_ref myc_ref nom_ref (WithTls True) demo_config
      [RData (frames 1 demo_ssl_request)] demo_options demo_sink = (Inr (True, h, 1, ?caps, rd0), s1)"
    using demo_connected by blast
  have s0: "reliable (opt_write_timeout demo_options \<noteq> None) demo_sink" by (rule demo_exchange(3))
  obtain p r0 h0 where h0: "h = h0\<lparr>server_scramble := Some (cfg_scramble demo_config)\<rparr>" "has_cap myc_ref (capabilities h0) CLIENT_SSL"
    and s1: "reliable (opt_write_timeout demo_options \<noteq> None) s1"
    using greeted [OF byteorder_ref_spec nom_ref_spec s0 connected] by blast
  then have h: "server_scramble h = Some (replicate 20 0x41)" "has_cap myc_ref (capabilities h) CLIENT_SSL"
    by (simp_all add: demo_config_def)
  have switched: "switch_to_tls demo_accept rd0 s1 = Some (Inr ([RData (frames 2 demo_response_packet)], s1))"
    by (simp add: switch_to_tls_def demo_accept_def new_duplex_def)
  have caps: "?caps AND capabilities demo_handshake = 0x8200"
    by (simp add: server_capabilities_def demo_options_def default_options_def demo_handshake_def
        from_bits_truncate_def myc_ref_def ref_cap_def)
  have ok: "length (ok_payload byteorder_ref myc_ref (?caps AND capabilities demo_handshake)
      (default_ok\<lparr>ok_status_flags := opt_initial_status_flags demo_options\<rparr>)) \<le> packet_size_limit demo_options"
    using demo_welcome demo_negotiated by (simp add: caps demo_offered_def)
  have good: "good_tls_response myc_ref nom_ref demo_backend () ?caps (replicate 20 0x41) demo_response_packet demo_handshake"
    using demo_good_response demo_tls_response
    by (auto simp: good_tls_response_def good_response_def Let_def caps demo_negotiated)
  have nonempty: "frames 2 demo_response_packet \<noteq> []" using frames_length [of demo_response_packet 2] by auto
  have "\<exists>rd se. unread rd = [] \<and> delivers (opt_auth_timeout demo_options \<noteq> None) (rd_stream rd) \<and>
      read_timeout se = opt_read_timeout demo_options \<and> shim_state se = () \<and>
      secure_run_with_options byteorder_ref myc_ref chrono_ref fmt_none nom_ref id demo_backend demo_accept 1 () s1 demo_options
        (h, 1, ?caps, rd0) = map_option outcome_of (run byteorder_ref myc_ref chrono_ref fmt_none nom_ref demo_backend 1 rd se)"
    by (rule secure_admission [OF byteorder_ref_spec nom_ref_spec h switched s1 _ ok _ _ _ _ _ good])
      (use demo_lengths demo_timeouts nonempty in \<open>auto simp: usize_max_def U24_MAX_def\<close>)
  then obtain rd1 se1 where at: "unread rd1 = []" "delivers (opt_auth_timeout demo_options \<noteq> None) (rd_stream rd1)"
      "read_timeout se1 = opt_read_timeout demo_options"
    and run: "secure_run_with_options byteorder_ref myc_ref chrono_ref fmt_none nom_ref id demo_backend demo_accept 1 () s1 demo_options
        (h, 1, ?caps, rd0) = map_option outcome_of (run byteorder_ref myc_ref chrono_ref fmt_none nom_ref demo_backend 1 rd1 se1)"
    by metis
  have in_loop: "unread rd1 = []" "delivers (read_timeout se1 \<noteq> None) (rd_stream rd1)"
    using at demo_timeouts by simp_all
  obtain rd where "run byteorder_ref myc_ref chrono_ref fmt_none nom_ref demo_backend 1 rd1 se1 = Some (Ret (Inr (), rd, se1))"
    using run_nothing [OF in_loop zero_less_one] by blast
  with run have ended: "secure_run_with_options byteorder_ref myc_ref chrono_ref fmt_none nom_ref id demo_backend demo_accept 1 () s1 demo_options
        (h, 1, ?caps, rd0) = Some (Ended (Inr ()) rd se1)" by (simp del: run.simps One_nat_def)
  have limits: "packet_size_limit demo_options \<le> usize_max" "opt_max_connection_long_data_size demo_options = None"
    by (simp_all add: packet_size_limit_def demo_options_def default_options_def usize_max_def)
  show ?thesis
    using secure_connection_refines_protocol [OF byteorder_ref_spec myc_ref_spec nom_ref_spec connected switched ended s0 s1 limits(1)]
      ended limits(2)
    by (simp add: demo_config_def) blast
qed

end
