(* ===== verification/Blocking.thy ===== *)
theory Blocking
  imports Framing
begin

text \<open>
  The blocking variant of the reader's loop (\<open>PacketReader::next\<close>) and the buffers that both
  variants read into (\<open>reuse_or_create_buf\<close>, \<open>read_into_bytesmut\<close>). A read offers the transport the
  spare room of a buffer, and a read of no bytes is taken for the end of the stream, so what matters
  is that the room is never empty. The loop is shown to behave like that of \<open>next_async\<close> on a
  stream that delivers the same bytes in smaller pieces.
\<close>

subsection \<open>Buffers\<close>

definition PACKET_BUFFER_SIZE :: nat where "PACKET_BUFFER_SIZE = 4096"
definition PACKET_LARGE_BUFFER_SIZE :: nat where "PACKET_LARGE_BUFFER_SIZE = 1048576"

definition calc_new_buf_size :: "nat \<Rightarrow> nat" where
  "calc_new_buf_size last_buf_size =
     (if last_buf_size \<ge> PACKET_BUFFER_SIZE * 2 then PACKET_LARGE_BUFFER_SIZE
      else max PACKET_BUFFER_SIZE (last_buf_size * 2))"

text \<open>
  The crate \<open>bytes\<close> decides about capacities. \<open>try_into_mut\<close> gives the capacity of a buffer that
  nobody else refers to; a packet that the caller still holds keeps the buffer shared, so the
  answer may be another one whenever the loop asks, which the position in the stream stands for.
  \<open>reserve\<close> takes capacity, length and the additional room asked for.
\<close>

record bytes_ops =
  try_into_mut :: "rd_event list \<Rightarrow> bytes \<Rightarrow> nat option"
  with_capacity :: "nat \<Rightarrow> nat"
  reserve :: "nat \<Rightarrow> nat \<Rightarrow> nat \<Rightarrow> nat"

definition bytes_spec :: "bytes_ops \<Rightarrow> bool" where
  "bytes_spec K \<longleftrightarrow>
     (\<forall>es bs c. try_into_mut K es bs = Some c \<longrightarrow> length bs \<le> c) \<and>
     (\<forall>n. n \<le> with_capacity K n) \<and>
     (\<forall>c len n. len \<le> c \<longrightarrow> len + n \<le> reserve K c len n)"

record BytesMut =
  bm_bytes :: bytes
  bm_capacity :: nat

text \<open>
  The result is a panic where the multiplication overflows or the assertion fails (both only when
  the crate is built with debug assertions).
\<close>

definition reuse_or_create_buf :: "bytes_ops \<Rightarrow> rd_event list \<Rightarrow> bytes \<Rightarrow> nat \<Rightarrow> BytesMut rust" where
  "reuse_or_create_buf K es old_buf last_buf_size =
     (let new_buf_size = calc_new_buf_size last_buf_size; len = length old_buf in
      case try_into_mut K es old_buf of
        Some capacity \<Rightarrow>
          if new_buf_size \<le> len \<and> len * 2 > usize_max then Panicked
          else let resize_buf = if new_buf_size \<le> len then len * 2 else new_buf_size in
            if \<not> len < resize_buf then Panicked
            else Ret \<lparr>bm_bytes = old_buf, bm_capacity = reserve K capacity len (resize_buf - len)\<rparr>
      | None \<Rightarrow>
          let resize_buf = if new_buf_size \<le> len then (if len * 2 \<le> usize_max then len * 2 else len) else new_buf_size in
          Ret \<lparr>bm_bytes = old_buf, bm_capacity = reserve K (with_capacity K resize_buf) 0 len\<rparr>)"

definition spare_capacity :: "BytesMut \<Rightarrow> nat" where
  "spare_capacity buf = bm_capacity buf - length (bm_bytes buf)"

text \<open>A blocking read into \<open>n\<close> bytes: what does not fit stays with the transport.\<close>

fun read_some :: "nat \<Rightarrow> rd_event list \<Rightarrow> bytes io_result \<times> rd_event list" where
  "read_some n [] = (Inr [], [])"
| "read_some n (RData d # es) = (Inr (take n d), if length d \<le> n then es else RData (drop n d) # es)"
| "read_some n (RFail e # es) = (Inl e, es)"
| "read_some n (RStall # es) = read_some n es"

definition room :: "bytes_ops \<Rightarrow> BytesMut \<Rightarrow> nat" where
  "room K buf =
     (let buf = (if spare_capacity buf = 0
                 then buf\<lparr>bm_capacity := reserve K (bm_capacity buf) (length (bm_bytes buf)) PACKET_BUFFER_SIZE\<rparr> else buf)
      in min (spare_capacity buf) 65536)"

definition read_into_bytesmut :: "bytes_ops \<Rightarrow> BytesMut \<Rightarrow> rd_event list \<Rightarrow> bytes io_result \<times> rd_event list" where
  "read_into_bytesmut K buf es = read_some (room K buf) es"

subsection \<open>The loop\<close>

definition stream_size :: "rd_event list \<Rightarrow> nat" where
  "stream_size es = sum_list (map (\<lambda>e. Suc (length (rd_data e))) es)"

lemma stream_size_simps [simp]: "stream_size [] = 0" "stream_size (e # es) = Suc (length (rd_data e)) + stream_size es"
  by (simp_all add: stream_size_def)

lemma read_some_smaller: "read_some n es = (Inr d, es') \<Longrightarrow> d \<noteq> [] \<Longrightarrow> stream_size es' < stream_size es"
proof (induction n es rule: read_some.induct)
  case (2 n d0 es)
  then show ?case by (auto split: if_splits)
next
  case (4 n es)
  then show ?case by fastforce
qed simp_all

text \<open>
  The buffer is moved out of the reader before each read, so a read that fails leaves it empty.
\<close>

function next_loop :: "bytes_ops \<Rightarrow> (bytes \<Rightarrow> (bytes \<times> u8 \<times> Packet) option io_result) \<Rightarrow> bytes \<Rightarrow> rd_event list \<Rightarrow>
    ((u8 \<times> Packet) option io_result \<times> bytes \<times> rd_event list) rust" where
  "next_loop K parse bs es =
     (case parse bs of
        Inl e \<Rightarrow> Ret (Inl e, bs, es)
      | Inr (Some (rest, p)) \<Rightarrow> Ret (Inr (Some p), rest, es)
      | Inr None \<Rightarrow>
          (case reuse_or_create_buf K es bs (length bs) of
             Panicked \<Rightarrow> Panicked
           | Ret buf \<Rightarrow>
               (case read_into_bytesmut K buf es of
                  (Inl e, es') \<Rightarrow> Ret (Inl e, [], es')
                | (Inr d, es') \<Rightarrow> if d = [] then Ret (at_eof bs, bs, es') else next_loop K parse (bs @ d) es')))"
  by pat_completeness auto
termination
  by (relation "measure (\<lambda>(K, parse, bs, es). stream_size es)") (auto simp: read_into_bytesmut_def dest!: read_some_smaller [OF sym])

declare next_loop.simps [simp del]

definition next_blocking :: "bytes_ops \<Rightarrow> 'c nom_ops \<Rightarrow> PacketReader \<Rightarrow> ((u8 \<times> Packet) option io_result \<times> PacketReader) rust" where
  "next_blocking K N rd =
     (case next_loop K (parse_buffered N (rd_max_packet_size rd)) (rd_bytes rd) (rd_stream rd) of
        Panicked \<Rightarrow> Panicked
      | Ret (r, bs, es) \<Rightarrow> Ret (r, rd\<lparr>rd_bytes := bs, rd_stream := es\<rparr>))"

subsection \<open>There is always room\<close>

lemma bytes_specD:
  assumes "bytes_spec K"
  shows "try_into_mut K es bs = Some c \<Longrightarrow> length bs \<le> c" "n \<le> with_capacity K n"
    "len \<le> c \<Longrightarrow> len + n \<le> reserve K c len n"
  using assms by (auto simp: bytes_spec_def)

lemma buffer_ready:
  assumes K: "bytes_spec K" and "2 * length bs \<le> usize_max"
  shows "\<exists>buf. reuse_or_create_buf K es bs (length bs) = Ret buf \<and> bm_bytes buf = bs \<and> length bs \<le> bm_capacity buf"
proof -
  let ?new = "calc_new_buf_size (length bs)"
  let ?resize = "if ?new \<le> length bs then length bs * 2 else ?new"
  have grows: "length bs < ?resize" "\<not> (?new \<le> length bs \<and> length bs * 2 > usize_max)"
    using assms(2) by (auto simp: calc_new_buf_size_def PACKET_BUFFER_SIZE_def PACKET_LARGE_BUFFER_SIZE_def)
  show ?thesis
  proof (cases "try_into_mut K es bs")
    case None
    let ?resize = "if ?new \<le> length bs then (if length bs * 2 \<le> usize_max then length bs * 2 else length bs) else ?new"
    have buf: "reuse_or_create_buf K es bs (length bs) =
        Ret \<lparr>bm_bytes = bs, bm_capacity = reserve K (with_capacity K ?resize) 0 (length bs)\<rparr>"
      by (simp only: reuse_or_create_buf_def Let_def None option.case)
    have "length bs \<le> reserve K (with_capacity K ?resize) 0 (length bs)"
      using bytes_specD(3) [OF K, of 0] by simp
    then show ?thesis using buf by simp
  next
    case (Some c)
    have buf: "reuse_or_create_buf K es bs (length bs) =
        Ret \<lparr>bm_bytes = bs, bm_capacity = reserve K c (length bs) (?resize - length bs)\<rparr>"
      unfolding reuse_or_create_buf_def Let_def Some option.case if_not_P [OF grows(2)] using grows(1) by simp
    have "length bs + (?resize - length bs) \<le> reserve K c (length bs) (?resize - length bs)"
      by (rule bytes_specD(3) [OF K bytes_specD(1) [OF K Some]])
    then have "length bs \<le> reserve K c (length bs) (?resize - length bs)" by linarith
    then show ?thesis using buf by simp
  qed
qed

lemma room_offered:
  assumes "bytes_spec K" and "length (bm_bytes buf) \<le> bm_capacity buf"
  shows "0 < room K buf" "room K buf \<le> 65536"
  using bytes_specD(3) [OF assms(1,2), of PACKET_BUFFER_SIZE]
  by (auto simp: room_def spare_capacity_def PACKET_BUFFER_SIZE_def)

subsection \<open>The same stream in smaller pieces\<close>

text \<open>\<open>cut fs es\<close>: \<open>fs\<close> delivers what \<open>es\<close> does, with data split up and waiting left out.\<close>

inductive cut :: "rd_event list \<Rightarrow> rd_event list \<Rightarrow> bool" where
  cut_refl: "cut es es"
| cut_stall: "cut fs es \<Longrightarrow> cut fs (RStall # es)"
| cut_event: "cut fs es \<Longrightarrow> cut (e # fs) (e # es)"
| cut_data: "d \<noteq> [] \<Longrightarrow> d' \<noteq> [] \<Longrightarrow> cut fs (RData d' # es) \<Longrightarrow> cut (RData d # fs) (RData (d @ d') # es)"

lemma cut_stream_bytes: "cut fs es \<Longrightarrow> stream_bytes fs = stream_bytes es"
  by (induction rule: cut.induct) simp_all

lemma cut_delivers: "cut fs es \<Longrightarrow> delivers timed es \<Longrightarrow> delivers timed fs"
  by (induction rule: cut.induct) auto

lemma cut_read:
  assumes "0 < n" and "read_some n es = (Inr d, es')" and "d \<noteq> []" and "cut fs es'"
  shows "cut (RData d # fs) es"
  using assms
proof (induction n es rule: read_some.induct)
  case (2 n d0 es)
  show ?case
  proof (cases "length d0 \<le> n")
    case True
    with 2 show ?thesis by (auto intro: cut_event)
  next
    case False
    then have "d0 = take n d0 @ drop n d0" "take n d0 \<noteq> []" "drop n d0 \<noteq> []" using \<open>0 < n\<close> by auto
    moreover have "d = take n d0" "cut fs (RData (drop n d0) # es)" using 2 False by auto
    ultimately show ?thesis using cut_data [of "take n d0" "drop n d0" fs es] by simp
  qed
next
  case (4 n es)
  then show ?case by (auto intro: cut_stall)
qed simp_all

lemma cut_fail: "read_some n es = (Inl e, es') \<Longrightarrow> cut (RFail e # es') es"
  by (induction n es rule: read_some.induct) (auto intro: cut_refl cut_stall)

lemma cut_end:
  assumes "0 < n" and "read_some n es = (Inr [], es')"
  shows "(cut [] es \<and> es' = []) \<or> cut (RData [] # es') es"
  using assms by (induction n es rule: read_some.induct) (auto intro: cut_refl cut_stall split: if_splits)

lemma read_some_bytes: "read_some n es = (Inr d, es') \<Longrightarrow> d @ stream_bytes es' = stream_bytes es"
  by (induction n es rule: read_some.induct) (auto split: if_splits)

lemma read_loop_parsed:
  "parse bs = Inl e \<Longrightarrow> read_loop parse timed bs es = (Inl e, bs, es)"
  "parse bs = Inr (Some (rest, p)) \<Longrightarrow> read_loop parse timed bs es = (Inr (Some p), rest, es)"
  by (cases es; simp)+

lemma next_loop_agrees:
  "bytes_spec K \<Longrightarrow> 2 * length (bs @ stream_bytes es) \<le> usize_max \<Longrightarrow>
    \<exists>fs. cut fs es \<and> next_loop K parse bs es = Ret (read_loop parse False bs fs)"
proof (induction K parse bs es rule: next_loop.induct)
  case (1 K parse bs es)
  note unfold = next_loop.simps [of K parse bs es]
  show ?case
  proof (cases "parse bs")
    case (Inl e)
    then show ?thesis by (intro exI [of _ es] conjI cut_refl) (simp add: unfold read_loop_parsed)
  next
    case (Inr found)
    show ?thesis
    proof (cases found)
      case (Some x)
      with Inr show ?thesis
        by (intro exI [of _ es] conjI cut_refl) (cases x; simp add: unfold read_loop_parsed)
    next
      case None
      have "2 * length bs \<le> usize_max" using "1.prems" by simp
      then obtain buf where buf: "reuse_or_create_buf K es bs (length bs) = Ret buf" "bm_bytes buf = bs" "length bs \<le> bm_capacity buf"
        using buffer_ready [OF "1.prems"(1), of bs es] by blast
      have room: "0 < room K buf" using room_offered(1) [OF "1.prems"(1)] buf by simp
      obtain r es' where read: "read_some (room K buf) es = (r, es')" by fastforce
      note step = unfold [unfolded Inr None buf(1), simplified, unfolded read_into_bytesmut_def read, simplified]
      show ?thesis
      proof (cases r)
        case (Inl e)
        with read Inr None step show ?thesis
          by (intro exI [of _ "RFail e # es'"]) (simp add: cut_fail)
      next
        case (Inr d)
        show ?thesis
        proof (cases "d = []")
          case True
          with cut_end [OF room, of es es'] read Inr consider "cut [] es" "es' = []" | "cut (RData [] # es') es" by auto
          then show ?thesis
          proof cases
            case 1
            then show ?thesis using step \<open>parse bs = Inr found\<close> None Inr True by (intro exI [of _ "[]"]) simp
          next
            case 2
            then show ?thesis using step \<open>parse bs = Inr found\<close> None Inr True by (intro exI [of _ "RData [] # es'"]) simp
          qed
        next
          case False
          have bound: "2 * length ((bs @ d) @ stream_bytes es') \<le> usize_max"
            using "1.prems" read_some_bytes [of "room K buf" es d es'] read Inr by simp
          have next_read: "(r, es') = read_into_bytesmut K buf es" using read by (simp add: read_into_bytesmut_def)
          obtain fs where fs: "cut fs es'" "next_loop K parse (bs @ d) es' = Ret (read_loop parse False (bs @ d) fs)"
            using "1.IH" [OF \<open>parse bs = Inr found\<close> None buf(1) next_read Inr False "1.prems"(1) bound] by blast
          then show ?thesis using step \<open>parse bs = Inr found\<close> None Inr False cut_read [OF room, of es d es' fs] read
            by (intro exI [of _ "RData d # fs"]) simp
        qed
      qed
    qed
  qed
qed

text \<open>C24: the blocking reader behaves exactly as the asynchronous one, results and errors included, on
  a stream that delivers the same bytes in smaller pieces; in particular the buffers it reads into
  always have room, so it never takes a full buffer for the end of the stream, and it does not
  panic as long as no buffer can exceed half of the address space.\<close>

theorem blocking_reader_agrees:
  assumes "bytes_spec K" and "2 * length (unread rd) \<le> usize_max"
  shows "\<exists>fs. cut fs (rd_stream rd) \<and> stream_bytes fs = stream_bytes (rd_stream rd) \<and>
    next_blocking K N rd = Ret (next_async N (rd\<lparr>rd_stream := fs\<rparr>))"
proof -
  obtain fs where "cut fs (rd_stream rd)" and loop: "next_loop K (parse_buffered N (rd_max_packet_size rd)) (rd_bytes rd) (rd_stream rd) =
      Ret (read_loop (parse_buffered N (rd_max_packet_size rd)) False (rd_bytes rd) fs)"
    using next_loop_agrees [OF assms(1), of "rd_bytes rd" "rd_stream rd"] assms(2) by (auto simp: unread_def)
  then show ?thesis using cut_stream_bytes
    by (intro exI [of _ fs])
      (auto simp: next_blocking_def next_async_def next_with_timer_def loop split: prod.split)
qed

text \<open>Buffers of exactly the size asked for, never shared.\<close>

definition exact_bytes :: bytes_ops where
  "exact_bytes = \<lparr>try_into_mut = (\<lambda>es bs. Some (length bs)), with_capacity = (\<lambda>n. n), reserve = (\<lambda>c len n. max c (len + n))\<rparr>"

theorem blocking_reader_agrees_witness:
  "\<exists>rd'. next_blocking exact_bytes (nom_ref :: unit nom_ops)
     \<lparr>rd_bytes = [2], rd_stream = [RData [0], RStall, RData [0, 7, 0xAA], RData [0xBB, 9]], rd_max_packet_size = 2\<rparr> =
       Ret (Inr (Some (parsed 7 [0xAA, 0xBB])), rd') \<and> unread rd' = [9]"
proof -
  define rd where "rd = \<lparr>rd_bytes = [2], rd_stream = [RData [0], RStall, RData [0, 7, 0xAA], RData [0xBB, 9]], rd_max_packet_size = 2\<rparr>"
  have rd: "rd_bytes rd = [2]" "stream_bytes (rd_stream rd) = [0, 0, 7, 0xAA, 0xBB, 9]" "delivers False (rd_stream rd)"
    "rd_max_packet_size rd = 2" by (simp_all add: rd_def)
  have "bytes_spec exact_bytes" by (auto simp: bytes_spec_def exact_bytes_def)
  moreover have "2 * length (unread rd) \<le> usize_max" by (simp add: unread_def rd usize_max_def)
  ultimately have "\<exists>fs. cut fs (rd_stream rd) \<and> stream_bytes fs = stream_bytes (rd_stream rd) \<and>
      next_blocking exact_bytes (nom_ref :: unit nom_ops) rd = Ret (next_async (nom_ref :: unit nom_ops) (rd\<lparr>rd_stream := fs\<rparr>))"
    by (rule blocking_reader_agrees)
  then obtain fs where fs: "delivers False fs" "stream_bytes fs = stream_bytes (rd_stream rd)"
    "next_blocking exact_bytes (nom_ref :: unit nom_ops) rd = Ret (next_async (nom_ref :: unit nom_ops) (rd\<lparr>rd_stream := fs\<rparr>))"
    using cut_delivers rd(3) by blast
  have "\<exists>rd'. read_packet_with_timeout (nom_ref :: unit nom_ops) None (rd\<lparr>rd_stream := fs\<rparr>) = (Inr (Some (parsed 7 [0xAA, 0xBB])), rd') \<and>
      unread rd' = [9] \<and> delivers (None \<noteq> (None :: nat option)) (rd_stream rd') \<and>
      rd_max_packet_size rd' = rd_max_packet_size (rd\<lparr>rd_stream := fs\<rparr>)"
    by (rule read_frames_aux) (use fs(1,2) in
      \<open>simp_all add: rd unread_def frames_short U24_MAX_def frame_def numeral_3_eq_3 usize_max_def\<close>)
  with fs(3) show ?thesis unfolding rd_def by (auto simp: read_packet_with_timeout_def)
qed

end
