(* ===== verification/NomInput.thy ===== *)
theory NomInput
  imports Prelude
begin

text \<open>
  \<open>NomBytes\<close> of \<open>packet_reader.rs\<close>, which makes a \<open>bytes::Bytes\<close> an input of \<open>nom\<close>: the traits that
  nom's parsers use are implemented by the operations of \<open>Bytes\<close>, a parameter of which the documented
  behaviour is used. What nom expects of an input is a locale; in it a split at an index that the input
  has accepted never panics and loses nothing.
\<close>

subsection \<open>Buffers\<close>

text \<open>
  \<open>slice\<close> of a range and \<open>split_off\<close>, which keeps the front and returns the rest; both panic out of
  range. \<open>compare\<close> and \<open>compare_no_case\<close> are those of nom on slices.
\<close>

datatype CompareResult = CompareOk | CompareIncomplete | CompareError

record buf_ops =
  buf_slice :: "nat \<Rightarrow> nat \<Rightarrow> bytes \<Rightarrow> bytes rust"
  buf_split_off :: "nat \<Rightarrow> bytes \<Rightarrow> (bytes \<times> bytes) rust"
  slice_compare :: "bytes \<Rightarrow> bytes \<Rightarrow> CompareResult"
  slice_compare_no_case :: "bytes \<Rightarrow> bytes \<Rightarrow> CompareResult"

definition buf_spec :: "buf_ops \<Rightarrow> bool" where
  "buf_spec K \<longleftrightarrow>
     (\<forall>from to b. buf_slice K from to b = (if from \<le> to \<and> to \<le> length b then Ret (take (to - from) (drop from b)) else Panicked)) \<and>
     (\<forall>at b. buf_split_off K at b = (if at \<le> length b then Ret (take at b, drop at b) else Panicked))"

definition buf_ref :: buf_ops where
  "buf_ref = \<lparr>
     buf_slice = (\<lambda>from to b. if from \<le> to \<and> to \<le> length b then Ret (take (to - from) (drop from b)) else Panicked),
     buf_split_off = (\<lambda>at b. if at \<le> length b then Ret (take at b, drop at b) else Panicked),
     slice_compare = (\<lambda>i t. if take (length t) i = t then CompareOk
       else if take (length i) t = i then CompareIncomplete else CompareError),
     slice_compare_no_case = (\<lambda>i t. CompareError)\<rparr>"

lemma buf_ref_spec: "buf_spec buf_ref"
  by (simp add: buf_spec_def buf_ref_def)

lemma buf_specD:
  assumes "buf_spec K"
  shows "buf_slice K 0 n b = (if n \<le> length b then Ret (take n b) else Panicked)"
    and "k \<le> length b \<Longrightarrow> buf_slice K k (length b) b = Ret (drop k b)"
    and "buf_split_off K n b = (if n \<le> length b then Ret (take n b, drop n b) else Panicked)"
  using assms by (simp_all add: buf_spec_def)

subsection \<open>\<open>NomBytes\<close>\<close>

datatype NomBytes = NomBytes (as_ref: bytes)

definition nb_is_empty :: "NomBytes \<Rightarrow> bool" where
  "nb_is_empty i \<longleftrightarrow> as_ref i = []"

definition nb_len :: "NomBytes \<Rightarrow> nat" where
  "nb_len i = length (as_ref i)"

definition nb_take :: "buf_ops \<Rightarrow> NomBytes \<Rightarrow> nat \<Rightarrow> NomBytes rust" where
  "nb_take K i count = (case buf_slice K 0 count (as_ref i) of Panicked \<Rightarrow> Panicked | Ret b \<Rightarrow> Ret (NomBytes b))"

definition nb_take_split :: "buf_ops \<Rightarrow> NomBytes \<Rightarrow> nat \<Rightarrow> (NomBytes \<times> NomBytes) rust" where
  "nb_take_split K i count = (case buf_split_off K count (as_ref i) of
     Panicked \<Rightarrow> Panicked | Ret (prefix, suffix) \<Rightarrow> Ret (NomBytes suffix, NomBytes prefix))"

definition nb_compare :: "buf_ops \<Rightarrow> NomBytes \<Rightarrow> bytes \<Rightarrow> CompareResult" where
  "nb_compare K i t = slice_compare K (as_ref i) t"

definition nb_compare_no_case :: "buf_ops \<Rightarrow> NomBytes \<Rightarrow> bytes \<Rightarrow> CompareResult" where
  "nb_compare_no_case K i t = slice_compare_no_case K (as_ref i) t"

definition nb_input_len :: "NomBytes \<Rightarrow> nat" where
  "nb_input_len i = length (as_ref i)"

definition nb_iter_elements :: "NomBytes \<Rightarrow> u8 list" where
  "nb_iter_elements i = as_ref i"

definition nb_iter_indices :: "NomBytes \<Rightarrow> (nat \<times> u8) list" where
  "nb_iter_indices i = enumerate 0 (nb_iter_elements i)"

definition nb_position :: "NomBytes \<Rightarrow> (u8 \<Rightarrow> bool) \<Rightarrow> nat option" where
  "nb_position i P = (let n = length (takeWhile (\<lambda>b. \<not> P b) (as_ref i)) in if n < length (as_ref i) then Some n else None)"

text \<open>\<open>Err\<close> says how many bytes are missing.\<close>

definition nb_slice_index :: "NomBytes \<Rightarrow> nat \<Rightarrow> nat + nat" where
  "nb_slice_index i count = (if length (as_ref i) \<ge> count then Inr count else Inl (count - length (as_ref i)))"

definition nb_slice_from :: "buf_ops \<Rightarrow> NomBytes \<Rightarrow> nat \<Rightarrow> NomBytes rust" where
  "nb_slice_from K i start =
     (case buf_slice K start (length (as_ref i)) (as_ref i) of Panicked \<Rightarrow> Panicked | Ret b \<Rightarrow> Ret (NomBytes b))"

subsection \<open>What nom expects of an input\<close>

locale nom_input =
  fixes elements :: "'i \<Rightarrow> u8 list"
    and input_len :: "'i \<Rightarrow> nat"
    and slice_index :: "'i \<Rightarrow> nat \<Rightarrow> nat + nat"
    and take_split :: "'i \<Rightarrow> nat \<Rightarrow> ('i \<times> 'i) rust"
    and take_front :: "'i \<Rightarrow> nat \<Rightarrow> 'i rust"
    and slice_from :: "'i \<Rightarrow> nat \<Rightarrow> 'i rust"
    and position :: "'i \<Rightarrow> (u8 \<Rightarrow> bool) \<Rightarrow> nat option"
    and lawful :: bool
  assumes len: "input_len i = length (elements i)"
    and index: "slice_index i n = (if n \<le> length (elements i) then Inr n else Inl (n - length (elements i)))"
    and split: "lawful \<Longrightarrow> n \<le> length (elements i) \<Longrightarrow>
      \<exists>s p. take_split i n = Ret (s, p) \<and> elements p = take n (elements i) \<and> elements s = drop n (elements i)"
    and front: "lawful \<Longrightarrow> n \<le> length (elements i) \<Longrightarrow> \<exists>p. take_front i n = Ret p \<and> elements p = take n (elements i)"
    and rear: "lawful \<Longrightarrow> n \<le> length (elements i) \<Longrightarrow> \<exists>s. slice_from i n = Ret s \<and> elements s = drop n (elements i)"
    and pos: "position i P = Some n \<Longrightarrow> n < length (elements i) \<and> P (elements i ! n) \<and> (\<forall>k < n. \<not> P (elements i ! k))"
      "position i P = None \<Longrightarrow> \<forall>b \<in> set (elements i). \<not> P b"
begin

lemma accepted_split:
  assumes lawful and "slice_index i n = Inr k"
  shows "\<exists>s p. take_split i k = Ret (s, p) \<and> elements p @ elements s = elements i \<and> input_len p = n"
proof -
  from assms(2) have "k = n" "n \<le> length (elements i)" by (simp_all add: index split: if_splits)
  with split [OF assms(1), of n i] show ?thesis by (auto simp: len)
qed

lemma missing_is_enough:
  assumes "slice_index i n = Inl m" and "length (elements j) = length (elements i) + m"
  shows "slice_index j n = Inr n"
  using assms by (simp add: index split: if_splits)

text \<open>The two ways to take an input apart agree.\<close>

lemma split_front_from:
  assumes lawful "n \<le> length (elements i)" "take_split i n = Ret (s, p)" "take_front i n = Ret p'" "slice_from i n = Ret s'"
  shows "elements p' = elements p" "elements s' = elements s"
  using split [OF assms(1,2)] front [OF assms(1,2)] rear [OF assms(1,2)] assms(3-5) by auto

text \<open>What a search stops at: the element, and nothing like it before.\<close>

lemma position_splits:
  assumes lawful and "position i P = Some n"
  shows "\<exists>s p. take_split i n = Ret (s, p) \<and> (\<forall>b \<in> set (elements p). \<not> P b) \<and> elements s \<noteq> [] \<and> P (hd (elements s))"
proof -
  have n: "n < length (elements i)" "P (elements i ! n)" "\<forall>k < n. \<not> P (elements i ! k)" using pos(1) [OF assms(2)] by simp_all
  with split [OF assms(1), of n i] obtain s p where "take_split i n = Ret (s, p)" "elements p = take n (elements i)" "elements s = drop n (elements i)"
    by auto
  with n show ?thesis by (auto simp: in_set_conv_nth hd_drop_conv_nth)
qed

end

lemma position_first: "nb_position i P = Some n \<Longrightarrow> n < length (nb_iter_elements i) \<and> P (nb_iter_elements i ! n) \<and>
    (\<forall>k < n. \<not> P (nb_iter_elements i ! k))"
  using nth_length_takeWhile [of "\<lambda>b. \<not> P b" "as_ref i"] set_takeWhileD [of _ "\<lambda>b. \<not> P b" "as_ref i"]
  by (auto simp: nb_position_def nb_iter_elements_def Let_def split: if_splits) (metis nth_mem takeWhile_nth)

lemma position_none: "nb_position i P = None \<Longrightarrow> \<forall>b \<in> set (nb_iter_elements i). \<not> P b"
proof -
  assume "nb_position i P = None"
  then have "length (as_ref i) \<le> length (takeWhile (\<lambda>b. \<not> P b) (as_ref i))"
    by (simp add: nb_position_def Let_def split: if_splits)
  then have "take (length (takeWhile (\<lambda>b. \<not> P b) (as_ref i))) (as_ref i) = as_ref i" by (rule take_all)
  then have "takeWhile (\<lambda>b. \<not> P b) (as_ref i) = as_ref i" by (rule trans [OF takeWhile_eq_take])
  then show ?thesis unfolding nb_iter_elements_def by (simp add: takeWhile_eq_all_conv)
qed

interpretation nom_bytes: nom_input nb_iter_elements nb_input_len nb_slice_index "nb_take_split K" "nb_take K"
  "nb_slice_from K" nb_position "buf_spec K" for K
  by unfold_locales (auto simp: nb_iter_elements_def nb_input_len_def nb_slice_index_def nb_take_split_def nb_take_def nb_slice_from_def
      buf_specD position_first [unfolded nb_iter_elements_def] dest: position_none [unfolded nb_iter_elements_def])

text \<open>What the frame parsers of \<open>packet_reader.rs\<close> take from a buffer: a split that nom has checked
  keeps every byte, and one that it has not refuses with the number of bytes to wait for.\<close>

theorem nom_bytes_split:
  assumes "buf_spec K"
  shows "case nb_slice_index i n of
     Inr k \<Rightarrow> \<exists>s p. nb_take_split K i k = Ret (s, p) \<and> as_ref p @ as_ref s = as_ref i \<and> nb_len p = n
   | Inl m \<Rightarrow> \<forall>b. length b = m \<longrightarrow> nb_slice_index (NomBytes (as_ref i @ b)) n = Inr n"
proof (cases "nb_slice_index i n")
  case (Inl m)
  then show ?thesis using nom_bytes.missing_is_enough [of i n m] by (simp add: nb_iter_elements_def)
next
  case (Inr k)
  from nom_bytes.accepted_split [OF assms this] Inr show ?thesis by (simp add: nb_iter_elements_def nb_input_len_def nb_len_def)
qed

theorem nom_bytes_split_witness:
  "\<exists>s p. nb_take_split buf_ref (NomBytes [1, 2, 3]) 2 = Ret (s, p) \<and> as_ref p @ as_ref s = [1, 2, 3] \<and> nb_len p = 2"
  using nom_bytes_split [OF buf_ref_spec, of "NomBytes [1, 2, 3]" 2] by (simp add: nb_slice_index_def)

end
