(* ===== verification/Buffered.thy ===== *)
theory Buffered
  imports Connection
begin

text \<open>
  The remaining entry points of \<open>lib.rs\<close>: the variants of \<open>init_before_ssl\<close>, which only choose the
  configuration and the options, and the buffered ones, which put tokio's \<open>BufReader\<close> and \<open>BufWriter\<close>
  around the transports. These are parameters, of which the documented behaviour is used: the
  reader delivers the bytes of what it wraps, and what is given to the writer counts as written to
  it, in order; neither fails, stalls or loses anything unless what it wraps does.
\<close>

subsection \<open>Before the switch to TLS\<close>

definition init_before_ssl_with_options :: "byteorder_ops \<Rightarrow> myc_ops \<Rightarrow> Command nom_ops \<Rightarrow> ('s, 'e, 'd, 'dt) shim \<Rightarrow> tls \<Rightarrow> 's \<Rightarrow>
    rd_event list \<Rightarrow> IntermediaryOptions \<Rightarrow> sink \<Rightarrow> ('e + bool \<times> init_params) \<times> 's \<times> sink" where
  "init_before_ssl_with_options B M N S T st input opts s =
     (case handshake_config S st of (cfg, st) \<Rightarrow>
        (case init_before_ssl B M N T cfg input opts s of
           (Inl e, s) \<Rightarrow> (Inl (from_io S e), st, s)
         | (Inr x, s) \<Rightarrow> (Inr x, st, s)))"

definition init_before_ssl_default :: "byteorder_ops \<Rightarrow> myc_ops \<Rightarrow> Command nom_ops \<Rightarrow> ('s, 'e, 'd, 'dt) shim \<Rightarrow> tls \<Rightarrow> 's \<Rightarrow>
    rd_event list \<Rightarrow> sink \<Rightarrow> ('e + bool \<times> init_params) \<times> 's \<times> sink" where
  "init_before_ssl_default B M N S T st input s = init_before_ssl_with_options B M N S T st input (default_options M) s"

definition init_before_ssl_with_config :: "byteorder_ops \<Rightarrow> myc_ops \<Rightarrow> Command nom_ops \<Rightarrow> tls \<Rightarrow> ServerHandshakeConfig \<Rightarrow>
    rd_event list \<Rightarrow> (sink, bool \<times> init_params) io" where
  "init_before_ssl_with_config B M N T cfg input s = init_before_ssl B M N T cfg input (default_options M) s"

text \<open>\<open>run_with_options\<close> starts with the first of these, without a TLS configuration.\<close>

lemma run_with_options_starts:
  "run_with_options B M C F N debug S with_tls fuel st input s opts =
     (case init_before_ssl_with_options B M N S (if with_tls then WithTls False else WithoutTls) st input opts s of
        (Inl e, st, s) \<Rightarrow> Some (Refused e)
      | (Inr (ssl, h, sq, caps, rd), st, s) \<Rightarrow>
          login_and_run B M C F N debug S with_tls fuel opts h sq (reader_stream rd) (new_session opts caps st s))"
  by (auto simp: run_with_options_def init_before_ssl_with_options_def split: prod.splits sum.splits)

subsection \<open>Buffered transports\<close>

record buffering =
  buf_reader :: "nat \<Rightarrow> rd_event list \<Rightarrow> rd_event list"
  buf_writer :: "nat \<Rightarrow> sink \<Rightarrow> sink"

definition buffering_spec :: "buffering \<Rightarrow> bool" where
  "buffering_spec U \<longleftrightarrow>
     (\<forall>cap es. stream_bytes (buf_reader U cap es) = stream_bytes es \<and>
        (\<forall>timed. delivers timed es \<longrightarrow> delivers timed (buf_reader U cap es))) \<and>
     (\<forall>cap s. written (buf_writer U cap s) = written s \<and>
        (\<forall>timed. reliable timed s \<longrightarrow> reliable timed (buf_writer U cap s)))"

definition run_with_options_buffered :: "buffering \<Rightarrow> byteorder_ops \<Rightarrow> myc_ops \<Rightarrow> ('d, 'dt) chrono_ops \<Rightarrow> ('d, 'dt) fmt_ops \<Rightarrow>
    Command nom_ops \<Rightarrow> (bytes \<Rightarrow> bytes) \<Rightarrow> ('s, 'e, 'd, 'dt) shim \<Rightarrow> bool \<Rightarrow> nat \<Rightarrow> 's \<Rightarrow> rd_event list \<Rightarrow> sink \<Rightarrow>
    IntermediaryOptions \<Rightarrow> ('s, 'e) outcome option" where
  "run_with_options_buffered U B M C F N debug S with_tls fuel st input s opts =
     (let read_cap = (case opt_read_buffer_size opts of Some n \<Rightarrow> n | None \<Rightarrow> 8 * 1024);
          write_cap = (case opt_write_buffer_size opts of Some n \<Rightarrow> n | None \<Rightarrow> 8 * 1024)
      in run_with_options B M C F N debug S with_tls fuel st (buf_reader U read_cap input) (buf_writer U write_cap s) opts)"

definition run_on_buffered :: "buffering \<Rightarrow> byteorder_ops \<Rightarrow> myc_ops \<Rightarrow> ('d, 'dt) chrono_ops \<Rightarrow> ('d, 'dt) fmt_ops \<Rightarrow>
    Command nom_ops \<Rightarrow> (bytes \<Rightarrow> bytes) \<Rightarrow> ('s, 'e, 'd, 'dt) shim \<Rightarrow> bool \<Rightarrow> nat \<Rightarrow> 's \<Rightarrow> rd_event list \<Rightarrow> sink \<Rightarrow>
    ('s, 'e) outcome option" where
  "run_on_buffered U B M C F N debug S with_tls fuel st input s =
     run_with_options_buffered U B M C F N debug S with_tls fuel st input s (default_options M)"

text \<open>Buffering does not change what a connection consists of.\<close>

lemma buffered_conversation:
  assumes U: "buffering_spec U" and "byteorder_spec B" and "myc_spec M" and "nom_spec N" and "handshake_config S st = (cfg, st1)"
    and run: "run_with_options_buffered U B M C F N debug S with_tls fuel st input s opts = Some (Ended (Inr ()) rd se)"
    and s: "reliable (opt_write_timeout opts \<noteq> None) s" and "packet_size_limit opts \<le> usize_max"
    and "\<And>n. opt_max_connection_long_data_size opts = Some n \<Longrightarrow> n \<le> usize_max"
  shows "\<exists>T login qs said1 said2. stream_bytes input = received_wire login @ received_wire qs @ unread rd \<and>
    wire (out se) = written s @ frames 0 (concat (greeting_pieces M opts T cfg)) @ said1 @ said2 \<and>
    admitted B M N S with_tls (cfg_scramble cfg) st1 (client_capabilities se) login said1 \<and>
    conversation B M N (client_capabilities se) qs said2 \<and>
    (\<exists>caps. client_capabilities se = server_capabilities M opts T AND caps)"
proof -
  obtain i j where run': "run_with_options B M C F N debug S with_tls fuel st (buf_reader U i input) (buf_writer U j s) opts =
      Some (Ended (Inr ()) rd se)"
    using run by (auto simp: run_with_options_buffered_def Let_def)
  have "stream_bytes (buf_reader U i input) = stream_bytes input" "written (buf_writer U j s) = written s"
    "reliable (opt_write_timeout opts \<noteq> None) (buf_writer U j s)"
    using U s by (simp_all add: buffering_spec_def)
  with connection_conversation [OF assms(2-5) run' _ assms(8,9)] show ?thesis by simp
qed

text \<open>Not to buffer at all is one instance.\<close>

lemma no_buffering: "buffering_spec \<lparr>buf_reader = (\<lambda>cap es. es), buf_writer = (\<lambda>cap s. s)\<rparr>"
  by (simp add: buffering_spec_def)

end
