(* ===== verification/Examples.thy ===== *)
theory Examples
  imports Buffered Secure
begin

text \<open>
  The example servers under \<open>examples/\<close>, as instances of the backend interface and of the entry
  points: \<open>serve_one.rs\<close> and \<open>serve_secure.rs\<close>, which let everybody in, the latter over TLS when the
  client wants to, and \<open>serve_auth.rs\<close>, which asks for a password. What they print is left out.
  \<open>draw\<close> is the default challenge generation (\<open>default_salt\<close>) where it returns.
\<close>

subsection \<open>The backends\<close>

text \<open>The state: the process-wide counter of connections and the random source.\<close>

record 'g server =
  next_connection :: u32
  entropy :: 'g

definition server_connect_id :: "'g server \<Rightarrow> u32 \<times> 'g server" where
  "server_connect_id s = apsnd (\<lambda>n. s\<lparr>next_connection := n\<rparr>) (default_connect_id (next_connection s))"

definition server_salt :: "('g \<Rightarrow> bytes \<times> 'g) \<Rightarrow> 'g server \<Rightarrow> bytes \<times> 'g server" where
  "server_salt draw s = apsnd (\<lambda>g. s\<lparr>entropy := g\<rparr>) (draw (entropy s))"

text \<open>A callback that makes these calls, one after the other, each with \<open>?\<close>.\<close>

definition respond_with :: "'op list \<Rightarrow> ('op, 's, io_error) callback" where
  "respond_with ops s = calls (\<lambda>e. (Inl e, s)) ops (Return (Inr (), s))"

definition serve_one :: "myc_ops \<Rightarrow> ('g \<Rightarrow> bytes \<times> 'g) \<Rightarrow> ('g server, io_error, 'd, 'dt) shim" where
  "serve_one M draw =
     (let query = (\<lambda>sql. respond_with [Start [], Finish []]) in
      \<lparr>from_io = id, server_version = default_server_version, connect_id = server_connect_id,
       default_auth_plugin = default_default_auth_plugin, auth_plugin_for_username = default_auth_plugin_for_username,
       salt = server_salt draw, authenticate = (\<lambda>s plugin user challenge auth. True),
       on_prepare = (\<lambda>q. respond_with [Reply 42 [] []]), on_execute = (\<lambda>i ps. respond_with [Completed default_ok]),
       on_execute_cursor = default_on_execute_cursor id, on_fetch = default_on_fetch id,
       on_close_cursor = default_on_close_cursor, on_close = (\<lambda>i s. s), on_reset_connection = default_on_reset_connection,
       on_query = query, on_system_variable = default_on_system_variable M id query, on_init = default_on_init id\<rparr>)"

definition USER_NATIVE :: bytes where "USER_NATIVE = ascii ''default''"
definition USER_CACHING_SHA2 :: bytes where "USER_CACHING_SHA2 = ascii ''mysql8''"
definition PASSWORD :: bytes where "PASSWORD = ascii ''secret''"

definition serve_auth_columns :: "myc_ops \<Rightarrow> Column list" where
  "serve_auth_columns M = [\<lparr>table = [], column = ascii ''abc'', collen = 0, coltype = MYSQL_TYPE_LONG,
     colflags = colflag_bits M UNSIGNED_FLAG\<rparr>]"

definition serve_auth_query :: "myc_ops \<Rightarrow> bytes \<Rightarrow> (('d, 'dt) response_op, 's, io_error) callback" where
  "serve_auth_query M sql = respond_with [Start (serve_auth_columns M), WriteRow [VU32 67108864], WriteRow [VU32 167108864],
     Finish (ascii ''ExtraInfo'')]"

definition serve_auth_authenticate :: "digest_ops \<Rightarrow> 's \<Rightarrow> bytes \<Rightarrow> bytes \<Rightarrow> bytes \<Rightarrow> bytes \<Rightarrow> bool" where
  "serve_auth_authenticate D s plugin user challenge auth_data \<longleftrightarrow>
     user \<in> {USER_NATIVE, USER_CACHING_SHA2} \<and> verify_auth_plugin_data D plugin PASSWORD challenge auth_data"

definition serve_auth_plugin :: "'s \<Rightarrow> bytes \<Rightarrow> bytes" where
  "serve_auth_plugin s user = (if user = USER_CACHING_SHA2 then CACHING_SHA2_PASSWORD else MYSQL_NATIVE_PASSWORD)"

definition serve_auth :: "myc_ops \<Rightarrow> digest_ops \<Rightarrow> ('g \<Rightarrow> bytes \<times> 'g) \<Rightarrow> ('g server, io_error, 'd, 'dt) shim" where
  "serve_auth M D draw = (serve_one M draw)
     \<lparr>server_version := (\<lambda>s. ascii ''8.0.36-opensrv''), default_auth_plugin := (\<lambda>s. MYSQL_NATIVE_PASSWORD),
      auth_plugin_for_username := serve_auth_plugin, authenticate := serve_auth_authenticate D,
      on_query := serve_auth_query M, on_system_variable := default_on_system_variable M id (serve_auth_query M)\<rparr>"

text \<open>The backend of \<open>serve_secure.rs\<close>, a second copy of the one of \<open>serve_one.rs\<close>.\<close>

definition serve_secure :: "myc_ops \<Rightarrow> ('g \<Rightarrow> bytes \<times> 'g) \<Rightarrow> ('g server, io_error, 'd, 'dt) shim" where
  "serve_secure M draw =
     (let query = (\<lambda>sql. respond_with [Start [], Finish []]) in
      \<lparr>from_io = id, server_version = default_server_version, connect_id = server_connect_id,
       default_auth_plugin = default_default_auth_plugin, auth_plugin_for_username = default_auth_plugin_for_username,
       salt = server_salt draw, authenticate = (\<lambda>s plugin user challenge auth. True),
       on_prepare = (\<lambda>q. respond_with [Reply 42 [] []]), on_execute = (\<lambda>i ps. respond_with [Completed default_ok]),
       on_execute_cursor = default_on_execute_cursor id, on_fetch = default_on_fetch id,
       on_close_cursor = default_on_close_cursor, on_close = (\<lambda>i s. s), on_reset_connection = default_on_reset_connection,
       on_query = query, on_system_variable = default_on_system_variable M id query, on_init = default_on_init id\<rparr>)"

text \<open>One connection of \<open>serve_secure.rs\<close>; the result of the greeting is unwrapped.\<close>

definition serve_secure_connection :: "byteorder_ops \<Rightarrow> myc_ops \<Rightarrow> ('d, 'dt) chrono_ops \<Rightarrow> ('d, 'dt) fmt_ops \<Rightarrow>
    Command nom_ops \<Rightarrow> (bytes \<Rightarrow> bytes) \<Rightarrow> ('g \<Rightarrow> bytes \<times> 'g) \<Rightarrow> tls_accept \<Rightarrow> nat \<Rightarrow> 'g server \<Rightarrow> rd_event list \<Rightarrow> sink \<Rightarrow>
    ('g server, io_error) outcome option" where
  "serve_secure_connection B M C F N debug draw accept fuel st input s =
     (let S = serve_secure M draw; opts = default_options M in
      case init_before_ssl_default B M N S (WithTls True) st input s of
        (Inl e, st, s) \<Rightarrow> Some Crashed
      | (Inr (is_ssl, init), st, s) \<Rightarrow>
          if is_ssl then secure_run_with_options B M C F N debug S accept fuel st s opts init
          else plain_run_with_options B M C F N debug S fuel st s opts init)"

subsection \<open>Who gets into \<open>serve_auth.rs\<close>\<close>

lemma serve_auth_config:
  "handshake_config (serve_auth M D draw) st =
    (\<lparr>cfg_version = ascii ''8.0.36-opensrv'', cfg_connection_id = next_connection st,
      cfg_default_auth_plugin = MYSQL_NATIVE_PASSWORD, cfg_scramble = fst (draw (entropy st))\<rparr>,
     \<lparr>next_connection = next_connection st + 1, entropy = snd (draw (entropy st))\<rparr>)"
  by (simp add: handshake_config_def serve_auth_def serve_one_def Let_def server_connect_id_def default_connect_id_def
      server_salt_def apsnd_def map_prod_def split: prod.split)

lemma serve_auth_accepts:
  assumes "digest_spec D" and "length challenge = SCRAMBLE_SIZE"
    and "authenticate (serve_auth M D draw) st plugin user challenge auth"
  shows "user \<in> {USER_NATIVE, USER_CACHING_SHA2} \<and> auth = client_response D plugin PASSWORD challenge"
proof -
  have "user \<in> {USER_NATIVE, USER_CACHING_SHA2}" "verify_auth_plugin_data D plugin PASSWORD challenge auth"
    using assms(3) by (simp_all add: serve_auth_def serve_auth_authenticate_def)
  moreover have "PASSWORD \<noteq> []" by (simp add: PASSWORD_def ascii_def)
  ultimately show ?thesis using verified_data [OF assms(1,2)] by blast
qed

lemma served_undelimited:
  assumes "handshake_config S st = (cfg, st1)"
    and "run_with_options_buffered U B M C F N debug S with_tls fuel st input s opts = Some (Ended (Inr ()) rd se)"
  shows "\<not> (\<exists>b \<in> set (cfg_scramble cfg). delimiter b)"
  using assms by (fastforce simp: run_with_options_buffered_def Let_def run_with_options_def
      split: prod.splits sum.splits elim: init_before_ssl_Inr)

text \<open>
  One connection: when it ends orderly, it has been opened by a client that has named one of the two
  accounts and sent, in one of its login packets, the digest that the account's plugin makes of the
  password and of the challenge that this connection's greeting has carried.
\<close>

lemma serve_auth_login:
  fixes C :: "('d, 'dt) chrono_ops" and draw :: "'g \<Rightarrow> bytes \<times> 'g"
  assumes "buffering_spec U" and "byteorder_spec B" and "myc_spec M" and "nom_spec N" and "digest_spec D"
    and run: "run_on_buffered U B M C F N debug (serve_auth M D draw) with_tls fuel st input s = Some (Ended (Inr ()) rd se)"
    and cfg: "handshake_config (serve_auth M D draw :: ('g server, io_error, 'd, 'dt) shim) st = (cfg, st1)"
    and len: "length (cfg_scramble cfg) = SCRAMBLE_SIZE" and s: "reliable True s"
  shows "\<exists>T hs h sq user reply switch auth sq' said rest.
    wire (out se) = written s @ frames 0 (concat (greeting_pieces M (default_options M) T cfg)) @ said \<and>
    stream_bytes input = received_wire (hs @ reply) @ rest \<and> hello M N with_tls hs h sq \<and>
    username h = Some user \<and> user \<in> {USER_NATIVE, USER_CACHING_SHA2} \<and>
    credentials (serve_auth_plugin st user) (cfg_scramble cfg) h sq reply switch auth sq' \<and>
    effective_auth (serve_auth_plugin st user) auth =
      client_response D (serve_auth_plugin st user) PASSWORD (cfg_scramble cfg)"
proof -
  let ?opts = "default_options M" and ?S = "serve_auth M D draw :: ('g server, io_error, 'd, 'dt) shim"
  have limits: "packet_size_limit ?opts \<le> usize_max" "opt_max_connection_long_data_size ?opts = None"
    "reliable (opt_write_timeout ?opts \<noteq> None) s"
    using s by (simp_all add: default_options_def packet_size_limit_def DEFAULT_MAX_PACKET_SIZE_def usize_max_def)
  from run have "run_with_options_buffered U B M C F N debug ?S with_tls fuel st input s ?opts = Some (Ended (Inr ()) rd se)"
    by (simp add: run_on_buffered_def)
  from buffered_conversation [OF assms(1-4) cfg this limits(3,1)] limits(2) obtain T login qs said1 said2
    where input: "stream_bytes input = received_wire login @ received_wire qs @ unread rd"
      and said: "wire (out se) = written s @ frames 0 (concat (greeting_pieces M ?opts T cfg)) @ said1 @ said2"
      and "admitted B M N ?S with_tls (cfg_scramble cfg) st1 (client_capabilities se) login said1"
    by auto
  then obtain hs h sq user reply switch auth sq' where login: "login = hs @ reply" "hello M N with_tls hs h sq" "username h = Some user"
    and plugin: "credentials (serve_auth_plugin st user) (cfg_scramble cfg) h sq reply switch auth sq'"
    and a: "authenticate ?S st1 (serve_auth_plugin st user) user (cfg_scramble cfg) (effective_auth (serve_auth_plugin st user) auth)"
    by (auto simp: admitted_def Let_def serve_auth_def serve_auth_plugin_def)
  note serve_auth_accepts [OF assms(5) len a]
  with said input login plugin show ?thesis
    by (intro exI [of _ T] exI [of _ hs] exI [of _ h] exI [of _ sq] exI [of _ user] exI [of _ reply] exI [of _ switch]
        exI [of _ auth] exI [of _ sq'] exI [of _ "said1 @ said2"] exI [of _ "received_wire qs @ unread rd"]) simp
qed

subsection \<open>A client that knows the password\<close>

definition demo_response :: bytes where
  "demo_response = ascii ''secret'' @ replicate 14 1"

definition demo_password_packet :: bytes where
  "demo_password_packet = ssl_request_bytes 0x8200 1024 45 (replicate 23 0) @
     credentials_bytes myc_ref 0x8200 USER_NATIVE demo_response [] []"

definition demo_account :: ClientHandshake where
  "demo_account = \<lparr>server_scramble = None, maxps = 1024, capabilities = from_bits_truncate myc_ref 0x8200,
     hs_collation = 45, db = None, username = Some USER_NATIVE, auth_response = demo_response, auth_plugin = []\<rparr>"

definition demo_server :: "(unit server, io_error, int \<times> nat \<times> nat, (int \<times> nat \<times> nat) \<times> nat \<times> nat \<times> nat \<times> nat) shim" where
  "demo_server = serve_auth myc_ref demo_digest (\<lambda>g. (replicate 20 0x41, g))"

definition demo_state :: "unit server" where
  "demo_state = \<lparr>next_connection = 1, entropy = ()\<rparr>"

definition demo_stream :: "rd_event list" where
  "demo_stream = [RData (frames 1 demo_password_packet)]"

lemma demo_response_facts:
  "length demo_response = 20" "client_response demo_digest MYSQL_NATIVE_PASSWORD PASSWORD challenge = demo_response"
  "length demo_password_packet = 61"
  using demo_caps_8200
  by (simp_all add: demo_response_def ascii_def client_response_def demo_digest_def PASSWORD_def demo_password_packet_def
      ssl_request_bytes_def credentials_bytes_def null_str_def auth_bytes_def USER_NATIVE_def)

lemma demo_digest_spec: "digest_spec demo_digest"
  by (auto simp: digest_spec_def demo_digest_def CACHING_SHA2_DIGEST_LENGTH_def min_def)

lemma demo_account_read: "client_handshake myc_ref nom_ref False demo_password_packet = Inr ([], demo_account)"
  using handshake_41_read [OF nom_ref_spec myc_ref_spec demo_caps_8200(1), of "replicate 23 0" False
      USER_NATIVE "[]" "[]" demo_response 1024 45 "[]"] demo_caps_8200 demo_response_facts(1)
  by (simp add: demo_password_packet_def demo_account_def auth_fits_def USER_NATIVE_def ascii_def)

lemma demo_server_caps: "server_capabilities myc_ref (default_options myc_ref) (WithTls False) AND capabilities demo_account = 0x8200"
  by (simp add: server_capabilities_def default_options_def demo_account_def from_bits_truncate_def myc_ref_def ref_cap_def)

lemma demo_account_good:
  "good_response myc_ref nom_ref demo_server st (server_capabilities myc_ref (default_options myc_ref) (WithTls False))
     (replicate 20 0x41) demo_password_packet demo_account"
proof -
  have caps: "has_cap myc_ref (capabilities demo_account) c = has_cap myc_ref 0x8200 c" for c
    by (simp add: demo_account_def has_cap_truncate [OF myc_ref_spec])
  have "verify_auth_plugin_data demo_digest MYSQL_NATIVE_PASSWORD PASSWORD (replicate 20 0x41) demo_response"
    using verified_data [OF demo_digest_spec, of "replicate 20 0x41"] demo_response_facts(2) by (simp add: SCRAMBLE_SIZE_def)
  moreover have "USER_NATIVE \<noteq> USER_CACHING_SHA2" by (simp add: USER_NATIVE_def USER_CACHING_SHA2_def ascii_def)
  moreover have "validate_collation myc_ref (hs_collation demo_account) = Inr ()"
    by (simp add: validate_collation_def myc_ref_def demo_account_def)
  ultimately show ?thesis
    unfolding good_response_def Let_def demo_server_caps
    using demo_caps_8200 caps
    by (simp add: plugin_usable_def effective_auth_def demo_account_read [unfolded demo_account_def] demo_account_def
        demo_server_def serve_auth_def serve_auth_plugin_def serve_auth_authenticate_def)
qed

lemma demo_server_config:
  "handshake_config demo_server demo_state = (\<lparr>cfg_version = ascii ''8.0.36-opensrv'', cfg_connection_id = 1,
      cfg_default_auth_plugin = MYSQL_NATIVE_PASSWORD, cfg_scramble = replicate 20 0x41\<rparr>, \<lparr>next_connection = 2, entropy = ()\<rparr>)"
  using serve_auth_config [of myc_ref demo_digest "\<lambda>g. (replicate 20 0x41, g)" demo_state]
  by (simp add: demo_server_def demo_state_def)

lemma demo_session_opens:
  "\<exists>rd se. unread rd = [] \<and> delivers (read_timeout se \<noteq> None) (rd_stream rd) \<and>
    run_with_options byteorder_ref myc_ref chrono_ref fmt_none nom_ref id demo_server True 1 demo_state demo_stream demo_sink
      (default_options myc_ref) = map_option outcome_of (run byteorder_ref myc_ref chrono_ref fmt_none nom_ref demo_server 1 rd se)"
proof -
  let ?opts = "default_options myc_ref"
  have o: "opt_auth_timeout ?opts = None" "opt_read_timeout ?opts = None" "packet_size_limit ?opts = 1024 * 1024 * 1024"
    "\<not> opt_reject_connection_on_dbname_absence ?opts" "opt_initial_status_flags ?opts = 2" "opt_initial_collation ?opts = 45"
    by (simp_all add: default_options_def packet_size_limit_def DEFAULT_MAX_PACKET_SIZE_def myc_ref_def ref_status_def)
  have ok: "length (ok_payload byteorder_ref myc_ref (server_capabilities myc_ref ?opts (if True then WithTls False else WithoutTls) AND
      capabilities demo_account) (default_ok\<lparr>ok_status_flags := opt_initial_status_flags ?opts\<rparr>)) \<le> packet_size_limit ?opts"
    unfolding if_True demo_server_caps using demo_caps_8200
    by (simp add: o ok_payload_def ok_pieces_def default_ok_def Let_def myc_specD(7) [OF myc_ref_spec] lenenc_int_def byteorder_ref_def)
  have good: "good_response myc_ref nom_ref demo_server \<lparr>next_connection = 2, entropy = ()\<rparr>
      (server_capabilities myc_ref ?opts (if True then WithTls False else WithoutTls))
      (cfg_scramble \<lparr>cfg_version = ascii ''8.0.36-opensrv'', cfg_connection_id = 1, cfg_default_auth_plugin = MYSQL_NATIVE_PASSWORD,
        cfg_scramble = replicate 20 0x41\<rparr>) demo_password_packet demo_account"
    using demo_account_good by simp
  have greeting: "length (concat (greeting_pieces myc_ref ?opts T \<lparr>cfg_version = ascii ''8.0.36-opensrv'', cfg_connection_id = 1,
      cfg_default_auth_plugin = MYSQL_NATIVE_PASSWORD, cfg_scramble = replicate 20 0x41\<rparr>)) \<le> packet_size_limit ?opts" for T
    by (simp add: o greeting_pieces_def Let_def MYSQL_NATIVE_PASSWORD_def ascii_def AUTH_PLUGIN_DATA_PART_1_LENGTH_def)
  have nonempty: "frames 1 demo_password_packet \<noteq> []" using frames_length [of demo_password_packet 1] by auto
  have "\<exists>rd se. unread rd = [] \<and> delivers (opt_auth_timeout ?opts \<noteq> None) (rd_stream rd) \<and>
    read_timeout se = opt_read_timeout ?opts \<and> shim_state se = \<lparr>next_connection = 2, entropy = ()\<rparr> \<and>
    run_with_options byteorder_ref myc_ref chrono_ref fmt_none nom_ref id demo_server True 1 demo_state demo_stream demo_sink ?opts =
      map_option outcome_of (run byteorder_ref myc_ref chrono_ref fmt_none nom_ref demo_server 1 rd se)"
    by (rule admission [OF byteorder_ref_spec nom_ref_spec demo_server_config _ _ refl _ _ greeting ok _ _ _ _ _ good])
      (use o demo_response_facts nonempty in \<open>simp_all add: list_all_iff delimiter_def validate_collation_def myc_ref_def reliable_def
        demo_sink_def usize_max_def demo_stream_def U24_MAX_def\<close>)
  then obtain rd se where at: "unread rd = []" "delivers (opt_auth_timeout ?opts \<noteq> None) (rd_stream rd)" "read_timeout se = opt_read_timeout ?opts"
    "run_with_options byteorder_ref myc_ref chrono_ref fmt_none nom_ref id demo_server True 1 demo_state demo_stream demo_sink ?opts =
      map_option outcome_of (run byteorder_ref myc_ref chrono_ref fmt_none nom_ref demo_server 1 rd se)" by metis
  then have "delivers (read_timeout se \<noteq> None) (rd_stream rd)" using o by simp
  with at(1,4) show ?thesis by blast
qed

lemma demo_connection_ends:
  "\<exists>rd se. run_on_buffered \<lparr>buf_reader = (\<lambda>cap es. es), buf_writer = (\<lambda>cap s. s)\<rparr> byteorder_ref myc_ref chrono_ref fmt_none nom_ref id
      demo_server True 1 demo_state demo_stream demo_sink = Some (Ended (Inr ()) rd se)"
proof -
  obtain rd1 se where opens: "unread rd1 = []" "delivers (read_timeout se \<noteq> None) (rd_stream rd1)"
    and run: "run_with_options byteorder_ref myc_ref chrono_ref fmt_none nom_ref id demo_server True 1 demo_state demo_stream demo_sink
      (default_options myc_ref) = map_option outcome_of (run byteorder_ref myc_ref chrono_ref fmt_none nom_ref demo_server 1 rd1 se)"
    using demo_session_opens by metis
  obtain rd where "run byteorder_ref myc_ref chrono_ref fmt_none nom_ref demo_server 1 rd1 se = Some (Ret (Inr (), rd, se))"
    using run_nothing [OF opens zero_less_one] by blast
  with run show ?thesis
    by (simp add: run_on_buffered_def run_with_options_buffered_def Let_def del: run.simps One_nat_def)
qed

end
