(* ===== verification/TextProtocol.thy ===== *)
theory TextProtocol
  imports Encode
begin

text \<open>
  What a client reads from a value in the text protocol: numbers in decimal, dates and times by the
  positions of their fields. The readers here are written from the format alone; they are compared with
  what \<open>value/encode.rs\<close> writes.
\<close>

subsection \<open>Reading numbers, dates and times\<close>

definition decimal :: "bytes \<Rightarrow> nat" where
  "decimal t = foldl (\<lambda>n b. 10 * n + (unat b - 48)) 0 t"

definition text_int :: "bytes \<Rightarrow> int" where
  "text_int t = (case t of b # s \<Rightarrow> if b = 0x2D then - int (decimal s) else int (decimal t) | [] \<Rightarrow> 0)"

text \<open>\<open>YYYY-MM-DD\<close>, with \<open>hh:mm:ss\<close> and microseconds behind it or not.\<close>

definition text_fields :: "bytes \<Rightarrow> nat \<times> nat \<times> nat \<times> nat \<times> nat \<times> nat \<times> nat" where
  "text_fields t = (decimal (take 4 t), decimal (take 2 (drop 5 t)), decimal (take 2 (drop 8 t)),
     decimal (take 2 (drop 11 t)), decimal (take 2 (drop 14 t)), decimal (take 2 (drop 17 t)), decimal (drop 20 t))"

text \<open>Sign, whole seconds and microseconds of \<open>hh:mm:ss\<close>, where the hours may have more digits.\<close>

definition clock_seconds :: "bytes \<Rightarrow> nat \<times> nat" where
  "clock_seconds s = (let h = takeWhile (\<lambda>b. b \<noteq> 0x3A) s; r = drop (length h + 1) s in
     (decimal h * 3600 + decimal (take 2 r) * 60 + decimal (take 2 (drop 3 r)), decimal (drop 6 r)))"

definition text_time :: "bytes \<Rightarrow> bool \<times> nat \<times> nat" where
  "text_time t = (if t \<noteq> [] \<and> hd t = 0x2D then (True, clock_seconds (tl t)) else (False, clock_seconds t))"

lemma decimal_simps [simp]: "decimal [] = 0" "decimal (t @ [b]) = 10 * decimal t + (unat b - 48)"
  by (simp_all add: decimal_def)

lemma unat_digit [simp]: "n < 10 \<Longrightarrow> unat (word_of_nat (48 + n) :: u8) = 48 + n"
  by (simp only: unat_of_nat) simp

lemma decimal_dec [simp]: "decimal (dec n) = n"
proof (induction n rule: dec.induct)
  case (1 n)
  show ?case
  proof (cases "n < 10")
    case True
    then show ?thesis using decimal_simps(2) [of "[]"] by (simp del: of_nat_add)
  next
    case False
    have "decimal (dec n) = 10 * decimal (dec (n div 10)) + n mod 10"
      using False by (subst dec.simps) (simp del: of_nat_add)
    with 1 [OF False] show ?thesis by simp
  qed
qed

lemma decimal_zeros: "decimal (replicate k 0x30 @ t) = decimal t"
proof -
  have "foldl (\<lambda>n b. 10 * n + (unat b - 48)) 0 (replicate k (0x30 :: u8)) = 0" by (induction k) simp_all
  then show ?thesis by (simp add: decimal_def)
qed

lemma decimal_pad [simp]: "decimal (pad w n) = n"
  by (simp add: pad_def decimal_zeros)

lemma dec_length: "n < 10 ^ Suc k \<Longrightarrow> length (dec n) \<le> Suc k"
proof (induction k arbitrary: n)
  case 0
  then show ?case by simp
next
  case (Suc k)
  show ?case
  proof (cases "n < 10")
    case False
    have "n div 10 < 10 ^ Suc k" using Suc.prems by (simp add: less_mult_imp_div_less)
    from Suc.IH [OF this] False show ?thesis by (subst dec.simps) simp
  qed simp
qed

lemma length_pad: "n < 10 ^ Suc k \<Longrightarrow> length (pad (Suc k) n) = Suc k"
  using dec_length by (simp add: pad_def)

lemma length_pads [simp]: "n < 100 \<Longrightarrow> length (pad 2 n) = 2" "n < 10000 \<Longrightarrow> length (pad 4 n) = 4" "n < 1000000 \<Longrightarrow> length (pad 6 n) = 6"
  using length_pad [of n 1] length_pad [of n 3] length_pad [of n 5] by (simp_all add: numeral_2_eq_2)

definition is_digit :: "u8 \<Rightarrow> bool" where
  "is_digit b \<longleftrightarrow> 48 \<le> unat b \<and> unat b < 58"

lemma dec_digits: "b \<in> set (dec n) \<Longrightarrow> is_digit b"
proof (induction n rule: dec.induct)
  case (1 n)
  have d: "is_digit (word_of_nat (48 + m))" if "m < 10" for m
    using that by (simp add: is_digit_def del: of_nat_add)
  show ?case
  proof (cases "n < 10")
    case True
    with 1(2) d show ?thesis by (simp del: of_nat_add)
  next
    case False
    then have "b \<in> set (dec (n div 10)) \<or> b = word_of_nat (48 + n mod 10)"
      using 1(2) by (subst (asm) dec.simps) (auto simp del: of_nat_add)
    with 1(1) [OF False] d show ?thesis by fastforce
  qed
qed

lemma pad_digits: "b \<in> set (pad w n) \<Longrightarrow> is_digit b"
  by (auto simp: pad_def is_digit_def dest: dec_digits [unfolded is_digit_def])

lemma digit_marks: "is_digit b \<Longrightarrow> b \<noteq> 0x2D" "is_digit b \<Longrightarrow> b \<noteq> 0x3A"
  by (auto simp: is_digit_def)

lemma pad_nonempty [simp]: "pad w n \<noteq> []"
  by (simp add: pad_def)

lemma hd_number: "hd (pad w n @ t) \<noteq> 0x2D" "hd (dec n) \<noteq> 0x2D"
  using digit_marks(1) pad_digits [of "hd (pad w n)" w n] dec_digits [of "hd (dec n)" n] by auto

lemma text_int_dec [simp]: "text_int (dec_int n) = n"
proof (cases "n < 0")
  case False
  then show ?thesis using hd_number(2) [of "nat n"]
    by (cases "dec (nat n)") (auto simp: dec_int_def text_int_def dest: arg_cong [of _ _ decimal])
qed (simp add: dec_int_def text_int_def)

lemma text_int_nat [simp]: "text_int (dec n) = int n"
  using text_int_dec [of "int n"] by (simp add: dec_int_def)

lemma text_fields_written:
  assumes "y < 10000" "mo < 100" "d < 100"
  shows "text_fields (date_text y mo d) = (y, mo, d, 0, 0, 0, 0)" "length (date_text y mo d) = 10"
    "h < 100 \<Longrightarrow> mi < 100 \<Longrightarrow> s < 100 \<Longrightarrow> text_fields (date_text y mo d @ [0x20] @ clock_text h mi s) = (y, mo, d, h, mi, s, 0)"
    "h < 100 \<Longrightarrow> mi < 100 \<Longrightarrow> s < 100 \<Longrightarrow>
      text_fields (date_text y mo d @ [0x20] @ clock_text h mi s @ [0x2E] @ pad 6 us) = (y, mo, d, h, mi, s, us)"
  using assms by (simp_all add: text_fields_def date_text_def clock_text_def)

lemma clock_seconds_written:
  assumes "m < 100" "s < 100"
  shows "clock_seconds (clock_text h m s) = (h * 3600 + m * 60 + s, 0)"
    "clock_seconds (clock_text h m s @ [0x2E] @ pad 6 us) = (h * 3600 + m * 60 + s, us)"
proof -
  have "\<forall>b \<in> set (pad 2 h). b \<noteq> 0x3A" using pad_digits digit_marks(2) by blast
  then have "takeWhile (\<lambda>b. b \<noteq> 0x3A) (pad 2 h @ 0x3A # r) = pad 2 h" for r by (simp add: takeWhile_append2)
  then show "clock_seconds (clock_text h m s) = (h * 3600 + m * 60 + s, 0)"
    "clock_seconds (clock_text h m s @ [0x2E] @ pad 6 us) = (h * 3600 + m * 60 + s, us)"
    using assms by (simp_all add: clock_seconds_def clock_text_def)
qed

subsection \<open>What a text says\<close>

fun myc_denotes_text :: "('d, 'dt) fmt_ops \<Rightarrow> MycValue \<Rightarrow> bytes \<Rightarrow> bool" where
  "myc_denotes_text F MyNULL t = False"
| "myc_denotes_text F (MyBytes b) t = (t = b)"
| "myc_denotes_text F (MyInt n) t = (text_int t = sint n)"
| "myc_denotes_text F (MyUInt n) t = (text_int t = uint n)"
| "myc_denotes_text F (MyFloat f) t = (t = show_f32 F f)"
| "myc_denotes_text F (MyDouble f) t = (t = show_f64 F f)"
| "myc_denotes_text F (MyDate y mo d h mi s us) t =
     (text_fields t = (unat y, unat mo, unat d, unat h, unat mi, unat s, unat us))"
| "myc_denotes_text F (MyTime neg d h m s us) t =
     (let secs = unat d * 86400 + unat h * 3600 + unat m * 60 + unat s in
      text_time t = (neg \<and> (secs \<noteq> 0 \<or> us \<noteq> 0), secs, unat us))"

fun denotes_text :: "('d, 'dt) chrono_ops \<Rightarrow> ('d, 'dt) fmt_ops \<Rightarrow> ('d, 'dt) to_mysql_value \<Rightarrow> bytes \<Rightarrow> bool" where
  "denotes_text C F (VU8 v) t = (text_int t = uint v)"
| "denotes_text C F (VI8 v) t = (text_int t = sint v)"
| "denotes_text C F (VU16 v) t = (text_int t = uint v)"
| "denotes_text C F (VI16 v) t = (text_int t = sint v)"
| "denotes_text C F (VU32 v) t = (text_int t = uint v)"
| "denotes_text C F (VI32 v) t = (text_int t = sint v)"
| "denotes_text C F (VU64 v) t = (text_int t = uint v)"
| "denotes_text C F (VI64 v) t = (text_int t = sint v)"
| "denotes_text C F (VUsize v) t = (text_int t = uint v)"
| "denotes_text C F (VIsize v) t = (text_int t = sint v)"
| "denotes_text C F (VF32 v) t = (t = show_f32 F v)"
| "denotes_text C F (VF64 v) t = (t = show_f64 F v)"
| "denotes_text C F (VBytes v) t = (t = v)"
| "denotes_text C F (VNaiveDate d) t =
     (length t = 10 \<and> 0 \<le> d_year C d \<and> text_fields t = (nat (d_year C d), d_month C d, d_day C d, 0, 0, 0, 0))"
| "denotes_text C F (VNaiveDateTime x) t =
     (0 \<le> d_year C (dt_date C x) \<and> text_fields t =
        (nat (d_year C (dt_date C x)), d_month C (dt_date C x), d_day C (dt_date C x),
         dt_hour C x, dt_minute C x, dt_second C x, dt_nanosecond C x div 1000))"
| "denotes_text C F (VDuration v) t = (text_time t = (False, as_secs v, subsec_micros v))"
| "denotes_text C F (VMyc v) t = myc_denotes_text F v t"
| "denotes_text C F VNone t = False"
| "denotes_text C F (VSome v) t = denotes_text C F v t"
| "denotes_text C F (VRef v) t = denotes_text C F v t"

lemma date_written:
  assumes "chrono_spec C" "real_date C d" "date_to_mysql_text M C d = Inr ps"
  shows "\<exists>t. ps = write_lenenc_str M t \<and> denotes_text C F (VNaiveDate d) t"
proof -
  have "0 \<le> d_year C d" "nat (d_year C d) < 10000" "d_month C d < 100" "d_day C d < 100"
    "ps = write_lenenc_str M (date_text (nat (d_year C d)) (d_month C d) (d_day C d))"
    using assms chrono_specD(1,2) [OF assms(1,2)]
    by (auto simp: date_to_mysql_text_def mysql_chrono_year_def split: if_splits)
  then show ?thesis using text_fields_written(1,2) [of "nat (d_year C d)" "d_month C d" "d_day C d"] by auto
qed

lemma datetime_written:
  assumes "chrono_spec C" "real_datetime C x" "datetime_to_mysql_text M C x = Inr ps"
  shows "\<exists>t. ps = write_lenenc_str M t \<and> denotes_text C F (VNaiveDateTime x) t"
proof -
  let ?d = "dt_date C x" and ?us = "dt_nanosecond C x div 1000"
  note chrono = chrono_specD(3-6) [OF assms(1,2)]
  have b: "0 \<le> d_year C ?d" "nat (d_year C ?d) < 10000" "d_month C ?d < 100" "d_day C ?d < 100"
    "dt_hour C x < 100" "dt_minute C x < 100" "dt_second C x < 100"
    using assms(3) chrono chrono_specD(1,2) [OF assms(1), of ?d]
    by (auto simp: datetime_to_mysql_text_def validate_chrono_datetime_def mysql_chrono_year_def split: if_splits)
  let ?t = "date_text (nat (d_year C ?d)) (d_month C ?d) (d_day C ?d) @ [0x20] @ clock_text (dt_hour C x) (dt_minute C x) (dt_second C x)"
  have ps: "ps = write_lenenc_str M (if ?us \<noteq> 0 then ?t @ [0x2E] @ pad 6 ?us else ?t)"
    using assms(3) by (auto simp: datetime_to_mysql_text_def Let_def split: sum.splits)
  have "denotes_text C F (VNaiveDateTime x) (if ?us \<noteq> 0 then ?t @ [0x2E] @ pad 6 ?us else ?t)"
    using text_fields_written(3,4) [OF b(2-7)] b(1) by simp
  with ps show ?thesis by blast
qed

lemma time_written:
  assumes "write_mysql_time_text M v neg = Inr ps"
  shows "\<exists>t. ps = write_lenenc_str M t \<and> text_time t = (neg \<and> (as_secs v \<noteq> 0 \<or> subsec_micros v \<noteq> 0), as_secs v, subsec_micros v)"
proof -
  let ?s = "as_secs v" and ?us = "subsec_micros v"
  let ?c = "clock_text (?s div 3600) (?s mod 3600 div 60) (?s mod 60)" and ?sign = "neg \<and> (?s \<noteq> 0 \<or> ?us \<noteq> 0)"
  let ?t = "(if ?sign then [0x2D] else []) @ ?c @ (if ?us \<noteq> 0 then [0x2E] @ pad 6 ?us else [])"
  have ps: "ps = write_lenenc_str M ?t"
    using assms by (auto simp: write_mysql_time_text_def Let_def split: sum.splits)
  have b: "?s mod 3600 div 60 < 100" "?s mod 60 < 100"
  proof -
    have "?s mod 3600 < 3600" by simp
    then have "?s mod 3600 div 60 < 60" by (simp add: less_mult_imp_div_less)
    then show "?s mod 3600 div 60 < 100" by simp
    have "?s mod 60 < 60" by simp
    then show "?s mod 60 < 100" by linarith
  qed
  have "?s mod 60 = ?s mod 3600 mod 60" by (simp add: mod_mod_cancel)
  then have "?s div 3600 * 3600 + ?s mod 3600 div 60 * 60 + ?s mod 60 = ?s"
    by (metis add.assoc div_mult_mod_eq)
  then have read: "clock_seconds ?c = (?s, 0)" "clock_seconds (?c @ [0x2E] @ pad 6 ?us) = (?s, ?us)"
    unfolding clock_seconds_written [OF b] by simp_all
  have no_sign: "hd (?c @ r) \<noteq> 0x2D" "?c \<noteq> []" for r using hd_number(1) by (simp_all add: clock_text_def)
  have "text_time ?t = (?sign, ?s, ?us)"
  proof (cases ?sign)
    case True
    then show ?thesis using read by (auto simp: text_time_def)
  next
    case False
    then show ?thesis using read no_sign(2) no_sign(1) [of "[]"] no_sign(1) [of "[0x2E] @ pad 6 ?us"] by (auto simp: text_time_def)
  qed
  with ps show ?thesis by blast
qed

lemma myc_written:
  assumes "myc_to_mysql_text_with_column M F v c = Inr ps"
  shows "v = MyNULL \<and> ps = [[0xFB]] \<or> (\<exists>t. ps = write_lenenc_str M t \<and> myc_denotes_text F v t)"
proof (cases v)
  case (MyDate y mo d h mi s us)
  show ?thesis
  proof (cases "validate_mysql_date y mo d h mi s us")
    case (Inl e)
    with assms MyDate show ?thesis
      by (auto simp: myc_to_mysql_text_with_column_def myc_to_mysql_text_def split: if_splits)
  next
    case (Inr u)
    then have "\<not> y > 9999" "\<not> mo > 12" "\<not> d > 31" "\<not> h > 23" "\<not> mi > 59" "\<not> s > 59" "\<not> us > 999999"
      by (auto simp: validate_mysql_date_def split: if_splits)
    then have b: "unat y < 10000" "unat mo < 100" "unat d < 100" "unat h < 100" "unat mi < 100" "unat s < 100"
      by (simp_all add: word_less_nat_alt)
    let ?d = "date_text (unat y) (unat mo) (unat d)"
    let ?t = "?d @ [0x20] @ clock_text (unat h) (unat mi) (unat s) @ (if us \<noteq> 0 then [0x2E] @ pad 6 (unat us) else [])"
    have full: "myc_denotes_text F v ?t"
      using text_fields_written(3,4) [OF b] by (simp add: MyDate unat_eq_0)
    have "h = 0 \<and> mi = 0 \<and> s = 0 \<and> us = 0 \<Longrightarrow> myc_denotes_text F v ?d"
      using text_fields_written(1) [OF b(1-3)] by (simp add: MyDate)
    moreover have "ps = write_lenenc_str M ?t \<or> h = 0 \<and> mi = 0 \<and> s = 0 \<and> us = 0 \<and> ps = write_lenenc_str M ?d"
      using assms Inr
      by (auto simp: MyDate myc_to_mysql_text_with_column_def myc_to_mysql_text_def split: if_splits)
    ultimately show ?thesis using full by blast
  qed
next
  case (MyTime neg d h m s us)
  with assms obtain v' where v': "mysql_time_duration d h m s us = Inr v'" "write_mysql_time_text M v' neg = Inr ps"
    by (auto simp: myc_to_mysql_text_with_column_def myc_to_mysql_text_def split: sum.splits)
  from v'(1) have dur: "us \<le> 999999" "v' = \<lparr>as_secs = unat d * 86400 + unat h * 3600 + unat m * 60 + unat s, subsec_nanos = unat us * 1000\<rparr>"
    unfolding mysql_time_duration_def by (auto simp: Let_def split: if_splits sum.splits)
  then have us: "subsec_micros v' = unat us" and secs: "as_secs v' = unat d * 86400 + unat h * 3600 + unat m * 60 + unat s"
    by (simp_all add: subsec_micros_def)
  obtain t where t: "ps = write_lenenc_str M t"
    "text_time t = (neg \<and> (as_secs v' \<noteq> 0 \<or> subsec_micros v' \<noteq> 0), as_secs v', subsec_micros v')"
    using time_written [OF v'(2)] by blast
  have "myc_denotes_text F v t"
    using t(2) unfolding MyTime myc_denotes_text.simps Let_def us secs unat_eq_0 .
  with t(1) show ?thesis by blast
qed (use assms in \<open>auto simp: myc_to_mysql_text_with_column_def myc_to_mysql_text_def\<close>)

lemma value_written:
  assumes C: "chrono_spec C"
  shows "proper_value C v \<Longrightarrow> to_mysql_text_with_column M C F v c = Inr ps \<Longrightarrow>
    holds_null v \<and> ps = [[0xFB]] \<or> (\<exists>t. ps = write_lenenc_str M t \<and> \<not> holds_null v \<and> denotes_text C F v t)"
proof (induction v)
  case (VNaiveDate d)
  then show ?case using date_written [OF C, of d M ps F] by simp
next
  case (VNaiveDateTime x)
  then show ?case using datetime_written [OF C, of x M ps F] by simp
next
  case (VDuration v)
  then show ?case using time_written [of M v False ps] by simp
next
  case (VMyc v)
  then show ?case using myc_written [of M F v c ps] by (cases "v = MyNULL") auto
qed auto

text \<open>C20: what a backend sends in the text protocol is what was meant: a value that is NULL under any
  wrapping is the NULL marker, and any other value that is accepted for a column is one length-encoded
  text, from which the client reads the same number, bytes, date, date and time (down to
  microseconds) or signed time.\<close>

theorem text_roundtrip:
  assumes "myc_spec M" and "chrono_spec C" and "proper_value C v"
    and "to_mysql_text_with_column M C F v c = Inr ps"
  shows "if holds_null v then concat ps = [0xFB] else \<exists>t. concat ps = lenenc_str t \<and> denotes_text C F v t"
  using value_written [OF assms(2-4)] myc_specD(8) [OF assms(1)] by auto

theorem text_roundtrip_witness:
  "\<exists>t. concat (write_lenenc_str myc_ref [0x2D, 0x35]) = lenenc_str t \<and> text_int t = - 5"
proof -
  have "to_mysql_text_with_column myc_ref chrono_ref fmt_none (VSome (VI8 (- 5))) short_column =
      Inr (write_lenenc_str myc_ref [0x2D, 0x35])"
    by (simp add: dec_int_def)
  from text_roundtrip [OF myc_ref_spec chrono_ref_spec _ this] show ?thesis by simp
qed

end
