(* ===== verification/Rows.thy ===== *)
theory Rows
  imports Responses TextProtocol
begin

text \<open>
  Rows as a client reads them. In the text protocol a row is one text or NULL marker per column; in
  the binary protocol it is a zero byte, a map of NULLs whose bits are shifted by two, and the values
  that are not NULL. The readers are written from the format; a row that the row writer accepts and
  sends is read back as the values that the backend gave, column by column.
\<close>

subsection \<open>Reading a row\<close>

fun client_text_row :: "nat \<Rightarrow> bytes \<Rightarrow> bytes option list option" where
  "client_text_row 0 p = (if p = [] then Some [] else None)"
| "client_text_row (Suc n) p =
     (if p = [] then None
      else if hd p = 0xFB then map_option (Cons None) (client_text_row n (tl p))
      else case client_str p of
        Inl e \<Rightarrow> None
      | Inr (rest, t) \<Rightarrow> map_option (Cons (Some t)) (client_text_row n rest))"

fun client_binary_cells :: "byteorder_ops \<Rightarrow> myc_ops \<Rightarrow> bytes \<Rightarrow> nat \<Rightarrow> Column list \<Rightarrow> bytes \<Rightarrow> ValueInner option list option" where
  "client_binary_cells B M nulls k [] p = (if p = [] then Some [] else None)"
| "client_binary_cells B M nulls k (c # cs) p =
     (if null_bit nulls (k + 2) then map_option (Cons None) (client_binary_cells B M nulls (Suc k) cs p)
      else case parse_from B M p (coltype c) (is_unsigned_column M c) of
        Inl e \<Rightarrow> None
      | Inr (x, rest) \<Rightarrow> map_option (Cons (Some x)) (client_binary_cells B M nulls (Suc k) cs rest))"

definition client_binary_row :: "byteorder_ops \<Rightarrow> myc_ops \<Rightarrow> Column list \<Rightarrow> bytes \<Rightarrow> ValueInner option list option" where
  "client_binary_row B M cs p =
     (let n = (length cs + 9) div 8 in
      if length p < 1 + n \<or> hd p \<noteq> 0 then None
      else client_binary_cells B M (take n (tl p)) 0 cs (drop n (tl p)))"

text \<open>What the cells should be.\<close>

definition text_cell :: "('d, 'dt) chrono_ops \<Rightarrow> ('d, 'dt) fmt_ops \<Rightarrow> ('d, 'dt) to_mysql_value \<Rightarrow> bytes option \<Rightarrow> bool" where
  "text_cell C F v t = (case t of None \<Rightarrow> holds_null v | Some t \<Rightarrow> \<not> holds_null v \<and> denotes_text C F v t)"

definition binary_cell :: "('d, 'dt) chrono_ops \<Rightarrow> ('d, 'dt) to_mysql_value \<Rightarrow> ValueInner option \<Rightarrow> bool" where
  "binary_cell C v x = (case x of None \<Rightarrow> value_is_null v | Some x \<Rightarrow> \<not> value_is_null v \<and> denotes C v x)"

subsection \<open>The bytes of a row\<close>

inductive text_cells :: "myc_ops \<Rightarrow> ('d, 'dt) chrono_ops \<Rightarrow> ('d, 'dt) fmt_ops \<Rightarrow> Column list \<Rightarrow> ('d, 'dt) to_mysql_value list \<Rightarrow> bytes \<Rightarrow> bool"
  for M C F where
  no_texts: "text_cells M C F [] [] []"
| one_text: "to_mysql_text_with_column M C F v c = Inr ps \<Longrightarrow> text_cells M C F cs vs b \<Longrightarrow>
    text_cells M C F (c # cs) (v # vs) (concat ps @ b)"

inductive binary_cells :: "byteorder_ops \<Rightarrow> myc_ops \<Rightarrow> ('d, 'dt) chrono_ops \<Rightarrow> ('d, 'dt) fmt_ops \<Rightarrow> Column list \<Rightarrow>
    ('d, 'dt) to_mysql_value list \<Rightarrow> bytes \<Rightarrow> bool"
  for B M C F where
  no_values: "binary_cells B M C F [] [] []"
| null_value: "value_is_null v \<Longrightarrow> binary_cells B M C F cs vs b \<Longrightarrow> binary_cells B M C F (c # cs) (v # vs) b"
| one_value: "\<not> value_is_null v \<Longrightarrow> to_mysql_bin B M C F v c = Ret (Inr ps) \<Longrightarrow> binary_cells B M C F cs vs b \<Longrightarrow>
    binary_cells B M C F (c # cs) (v # vs) (concat ps @ b)"

lemma small_byte: "n < 251 \<Longrightarrow> 251 \<le> b \<Longrightarrow> ucast n \<noteq> b" for n :: u64 and b :: u8
proof -
  assume "n < 251" "251 \<le> b"
  then have "unat n < 251" "251 \<le> unat b" by (simp_all add: word_less_nat_alt word_le_nat_alt)
  moreover then have "unat (ucast n :: u8) = unat n" by (simp add: unsigned_ucast_eq take_bit_eq_mod)
  ultimately show ?thesis by auto
qed

lemma lenenc_head: "hd (lenenc_str s @ r) \<noteq> 0xFB" "lenenc_str s @ r \<noteq> []"
  by (simp_all add: lenenc_str_def lenenc_int_def small_byte)

text \<open>A row is told from the packets that end a result set: none of its bytes up front is 0xFE unless the
  row is longer than any such packet, and none is 0xFF.\<close>

definition row_shaped :: "bytes \<Rightarrow> bool" where
  "row_shaped p \<longleftrightarrow> p \<noteq> [] \<and> hd p \<noteq> 0xFF \<and> (hd p = 0xFE \<longrightarrow> 0xFFFFFF < length p)"

lemma lenenc_row_shaped: "row_shaped (lenenc_str s @ r)"
proof (cases "(word_of_nat (length s) :: u64) < 16777216")
  case True
  then show ?thesis by (simp add: row_shaped_def lenenc_str_def lenenc_int_def small_byte)
next
  case False
  then have "16777216 \<le> unat (word_of_nat (length s) :: u64)" by (simp add: word_less_nat_alt)
  also have "\<dots> \<le> length s" by (simp only: unat_of_nat) (rule mod_less_eq_dividend)
  finally have "0xFFFFFF < length s" by simp
  then show ?thesis by (simp add: row_shaped_def lenenc_str_def lenenc_int_def small_byte)
qed

lemma text_cells_shaped:
  assumes M: "myc_spec M" and C: "chrono_spec C"
  shows "text_cells M C F cs vs b \<Longrightarrow> vs \<noteq> [] \<Longrightarrow> list_all (proper_value C) vs \<Longrightarrow> row_shaped b"
proof (erule text_cells.cases, goal_cases)
  case (2 v c ps cs vs b)
  from value_written [OF C _ 2(6)] 2 consider "concat ps = [0xFB]" | t where "concat ps = lenenc_str t"
    using myc_specD(8) [OF M] by auto
  then show ?case using lenenc_row_shaped 2 by cases (auto simp: row_shaped_def)
qed simp

lemma text_cells_read:
  assumes M: "myc_spec M" and C: "chrono_spec C"
  shows "text_cells M C F cs vs b \<Longrightarrow> length b \<le> usize_max \<Longrightarrow> list_all (proper_value C) vs \<Longrightarrow>
    \<exists>ts. client_text_row (length cs) b = Some ts \<and> list_all2 (text_cell C F) vs ts"
proof (induction rule: text_cells.induct)
  case no_texts
  then show ?case by simp
next
  case (one_text v c ps cs vs b)
  then obtain ts where ts: "client_text_row (length cs) b = Some ts" "list_all2 (text_cell C F) vs ts" by auto
  from value_written [OF C _ one_text.hyps(1)] one_text.prems(2) consider "holds_null v" "concat ps = [0xFB]"
    | t where "concat ps = lenenc_str t" "\<not> holds_null v" "denotes_text C F v t"
    using myc_specD(8) [OF M] by auto
  then show ?case
  proof cases
    case 1
    then have "concat ps @ b = 0xFB # b" by simp
    moreover have "text_cell C F v None" using 1(1) by (simp add: text_cell_def)
    ultimately show ?thesis using ts by (intro exI [of _ "None # ts"]) simp
  next
    case 2
    then have "length t \<le> usize_max" using one_text.prems(1) by (simp add: lenenc_str_def)
    moreover have "text_cell C F v (Some t)" using 2 by (simp add: text_cell_def)
    ultimately show ?thesis using 2(1) ts lenenc_head [of t b] by (intro exI [of _ "Some t # ts"]) simp
  qed
qed

lemma binary_cells_read:
  assumes B: "byteorder_spec B" "myc_spec M" and C: "chrono_spec C"
  shows "binary_cells B M C F cs vs b \<Longrightarrow> list_all (proper_value C) vs \<Longrightarrow>
    (\<And>i. i < length vs \<Longrightarrow> null_bit nulls (k + i + 2) = value_is_null (vs ! i)) \<Longrightarrow>
    \<exists>xs. client_binary_cells B M nulls k cs b = Some xs \<and> list_all2 (binary_cell C) vs xs"
proof (induction arbitrary: k rule: binary_cells.induct)
  case no_values
  then show ?case by simp
next
  case (null_value v cs vs b c)
  have "null_bit nulls (Suc k + i + 2) = value_is_null (vs ! i)" if "i < length vs" for i
    using null_value.prems(2) [of "Suc i"] that by simp
  then obtain xs where "client_binary_cells B M nulls (Suc k) cs b = Some xs" "list_all2 (binary_cell C) vs xs"
    using null_value.IH [of "Suc k"] null_value.prems(1) by auto
  moreover have "binary_cell C v None" using null_value.hyps(1) by (simp add: binary_cell_def)
  ultimately show ?case using null_value.prems(2) [of 0] null_value.hyps(1)
    by (intro exI [of _ "None # xs"]) simp
next
  case (one_value v c ps cs vs b)
  have "null_bit nulls (Suc k + i + 2) = value_is_null (vs ! i)" if "i < length vs" for i
    using one_value.prems(2) [of "Suc i"] that by simp
  then obtain xs where xs: "client_binary_cells B M nulls (Suc k) cs b = Some xs" "list_all2 (binary_cell C) vs xs"
    using one_value.IH [of "Suc k"] one_value.prems(1) by auto
  obtain x where "parse_from B M (concat ps @ b) (coltype c) (is_unsigned_column M c) = Inr (x, b)" "denotes C v x"
    using value_decodes [OF B C _ one_value.hyps(2)] one_value.prems(1) by auto
  moreover then have "binary_cell C v (Some x)" using one_value.hyps(1) by (simp add: binary_cell_def)
  ultimately show ?case using xs one_value.prems(2) [of 0] one_value.hyps(1)
    by (intro exI [of _ "Some x # xs"]) simp
qed

subsection \<open>What the row writer collects\<close>

lemma row_buffer_appends: "row_buffer_write_all limit ps b = (Inr u, b') \<Longrightarrow> b' = b @ concat ps"
proof (induction ps arbitrary: b)
  case (Cons p ps)
  then have "p = [] \<and> row_buffer_write_all limit ps b = (Inr u, b') \<or> row_buffer_write_all limit ps (b @ p) = (Inr u, b')"
    by (auto simp: row_buffer_write_def split: if_splits option.splits)
  with Cons.IH show ?case by fastforce
qed simp

lemma put_value_success:
  assumes "put_value limit cp value rw = (Inr u, rw')"
  obtains ps where "value = Inr ps" "rw' = rw\<lparr>rw_data := rw_data rw @ concat ps, rw_col := rw_col rw + 1\<rparr>"
  using assms by (auto simp: put_value_def split: sum.splits prod.splits dest!: row_buffer_appends)

lemma write_cols_text:
  "write_cols B M C F vs rw = Ret (Inr u, rw') \<Longrightarrow> rw_columns rw \<noteq> [] \<Longrightarrow> \<not> is_bin (rw_result rw) \<Longrightarrow>
    rw_col rw \<le> length (rw_columns rw) \<Longrightarrow>
    rw_col rw + length vs \<le> length (rw_columns rw) \<and>
    (\<exists>b. text_cells M C F (take (length vs) (drop (rw_col rw) (rw_columns rw))) vs b \<and>
      rw' = rw\<lparr>rw_data := rw_data rw @ b, rw_col := rw_col rw + length vs\<rparr>)"
proof (induction vs arbitrary: rw)
  case Nil
  then show ?case by (auto intro: text_cells.intros)
next
  case (Cons v vs)
  let ?c = "rw_columns rw ! rw_col rw"
  obtain rw1 where w: "write_col B M C F v rw = Ret (Inr (), rw1)" and rest: "write_cols B M C F vs rw1 = Ret (Inr u, rw')"
    using Cons.prems(1) by (auto split: rust.splits sum.splits)
  have col: "rw_col rw < length (rw_columns rw)" and put: "\<exists>limit cp. put_value limit cp (to_mysql_text_with_column M C F v ?c) rw = (Inr (), rw1)"
    using w Cons.prems(2,3) by (auto simp: write_col_def Let_def split: if_splits)
  then obtain ps where ps: "to_mysql_text_with_column M C F v ?c = Inr ps" "rw1 = rw\<lparr>rw_data := rw_data rw @ concat ps, rw_col := rw_col rw + 1\<rparr>"
    by (auto elim: put_value_success)
  with Cons.IH [OF rest] Cons.prems(2,3) col obtain b where b: "rw_col rw + 1 + length vs \<le> length (rw_columns rw)"
    "text_cells M C F (take (length vs) (drop (Suc (rw_col rw)) (rw_columns rw))) vs b"
    "rw' = rw\<lparr>rw_data := rw_data rw @ concat ps @ b, rw_col := rw_col rw + 1 + length vs\<rparr>"
    by auto
  have "take (length (v # vs)) (drop (rw_col rw) (rw_columns rw)) = ?c # take (length vs) (drop (Suc (rw_col rw)) (rw_columns rw))"
    using col by (simp flip: Cons_nth_drop_Suc)
  with one_text [OF ps(1) b(2)] b(1,3) show ?case by (intro conjI exI [of _ "concat ps @ b"]) simp_all
qed

subsection \<open>The map of NULLs\<close>

lemma null_bit_bit: "null_bit nulls j = bit (nulls ! (j div 8)) (j mod 8)"
  by (simp add: null_bit_def bit_iff_and_push_bit_not_eq_0)

definition mark_null :: "bytes \<Rightarrow> nat \<Rightarrow> bytes" where
  "mark_null nulls j = nulls[j div 8 := nulls ! (j div 8) OR push_bit (j mod 8) 1]"

lemma length_mark_null [simp]: "length (mark_null nulls j) = length nulls"
  by (simp add: mark_null_def)

lemma null_bit_mark:
  assumes "j div 8 < length nulls"
  shows "null_bit (mark_null nulls j) i \<longleftrightarrow> null_bit nulls i \<or> i = j"
proof (cases "i div 8 = j div 8")
  case True
  have "i mod 8 < 8" "j mod 8 < 8" by simp_all
  then have "bit (push_bit (j mod 8) 1 :: u8) (i mod 8) \<longleftrightarrow> i mod 8 = j mod 8"
    by (auto simp: push_bit_of_1 bit_exp_iff)
  moreover have "i mod 8 = j mod 8 \<longleftrightarrow> i = j" using True by (metis mod_mult_div_eq)
  ultimately show ?thesis using True assms by (simp add: null_bit_bit mark_null_def bit_or_iff)
next
  case False
  then show ?thesis by (auto simp: null_bit_bit mark_null_def)
qed

lemma no_nulls: "j div 8 < n \<Longrightarrow> \<not> null_bit (replicate n 0) j"
  by (simp add: null_bit_def)

text \<open>A row under construction, with its first byte and its map in place.\<close>

definition row_image :: "RowWriter \<Rightarrow> bytes" where
  "row_image rw = (if rw_col rw = 0 then resize (1 + bitmap_len rw) (rw_data rw) else rw_data rw)"

lemma null_byte_in_range:
  assumes "k < n" "len = (n + 9) div 8"
  shows "(k + 2) div 8 < (len :: nat)"
proof -
  have "(k + 2 + 8) div 8 \<le> (n + 9) div 8" using assms(1) by (intro div_le_mono) simp
  then show ?thesis using assms(2) by simp
qed

lemma write_col_binary:
  assumes run: "write_col B M C F v rw = Ret (Inr (), rw')" and ne: "rw_columns rw \<noteq> []" and bin: "is_bin (rw_result rw)"
    and image: "row_image rw = 0 # nulls @ body" "length nulls = bitmap_len rw"
    and len: "bitmap_len rw = (length (rw_columns rw) + 9) div 8"
  shows "rw_col rw < length (rw_columns rw) \<and>
    (value_is_null v \<and> rw' = rw\<lparr>rw_data := 0 # mark_null nulls (rw_col rw + 2) @ body, rw_col := rw_col rw + 1\<rparr> \<or>
     \<not> value_is_null v \<and> (\<exists>ps. to_mysql_bin B M C F v (rw_columns rw ! rw_col rw) = Ret (Inr ps) \<and>
       rw' = rw\<lparr>rw_data := 0 # nulls @ body @ concat ps, rw_col := rw_col rw + 1\<rparr>))"
proof -
  let ?rw = "rw\<lparr>rw_data := row_image rw\<rparr>"
  have start: "(if rw_col rw = 0 then rw\<lparr>rw_data := resize (1 + bitmap_len rw) (rw_data rw)\<rparr> else rw) = ?rw"
    by (simp add: row_image_def)
  have col: "rw_col rw < length (rw_columns rw)"
    using run ne by (auto simp: write_col_def Let_def split: if_splits)
  show ?thesis
  proof (cases "value_is_null v")
    case True
    with run ne bin have put: "put_null ?rw = Ret (Inr (), rw')"
      by (auto simp: write_col_def Let_def row_image_def split: if_splits)
    have "(rw_col rw + 2) div 8 < length nulls" using null_byte_in_range [OF col len] image(2) by simp
    then have "(0 # nulls @ body) ! (1 + (rw_col rw + 2) div 8) = nulls ! ((rw_col rw + 2) div 8)"
      "(0 # nulls @ body)[1 + (rw_col rw + 2) div 8 := x] = 0 # nulls[(rw_col rw + 2) div 8 := x] @ body" for x
      by (simp_all add: nth_append list_update_append)
    with put have "rw' = rw\<lparr>rw_data := 0 # mark_null nulls (rw_col rw + 2) @ body, rw_col := rw_col rw + 1\<rparr>"
      by (auto simp: put_null_def Let_def image(1) mark_null_def split: if_splits)
    with True col show ?thesis by simp
  next
    case False
    obtain limit cp enc where "to_mysql_bin B M C F v (rw_columns rw ! rw_col rw) = Ret enc" "put_value limit cp enc ?rw = (Inr (), rw')"
      using run ne bin False by (auto simp: write_col_def Let_def row_image_def split: if_splits rust.splits)
    then show ?thesis using False col image(1) by (auto elim!: put_value_success)
  qed
qed

text \<open>The map after the columns from \<open>k\<close> on have been given the values \<open>vs\<close>.\<close>

definition nulls_marked :: "bytes \<Rightarrow> nat \<Rightarrow> ('d, 'dt) to_mysql_value list \<Rightarrow> bytes \<Rightarrow> bool" where
  "nulls_marked nulls k vs nulls' \<longleftrightarrow> length nulls' = length nulls \<and>
     (\<forall>j. null_bit nulls' j \<longleftrightarrow> null_bit nulls j \<or> (\<exists>i<length vs. j = k + i + 2 \<and> value_is_null (vs ! i)))"

lemma nulls_marked_Nil [simp]: "nulls_marked nulls k [] nulls"
  by (simp add: nulls_marked_def)

lemma nulls_marked_Cons:
  assumes "(k + 2) div 8 < length nulls"
    and "nulls_marked (if value_is_null v then mark_null nulls (k + 2) else nulls) (Suc k) vs nulls'"
  shows "nulls_marked nulls k (v # vs) nulls'"
proof -
  have "(\<exists>i<length (v # vs). j = k + i + 2 \<and> value_is_null ((v # vs) ! i)) \<longleftrightarrow>
      j = k + 2 \<and> value_is_null v \<or> (\<exists>i<length vs. j = Suc k + i + 2 \<and> value_is_null (vs ! i))" for j
    by (auto simp: less_Suc_eq_0_disj)
  then show ?thesis using assms(2) length_mark_null null_bit_mark [OF assms(1)]
    unfolding nulls_marked_def by (cases "value_is_null v") (simp_all only: if_True if_False simp_thms disj_assoc)
qed

lemma write_cols_binary:
  assumes "write_cols B M C F vs rw = Ret (Inr u, rw')" and "rw_columns rw \<noteq> []" and "is_bin (rw_result rw)"
    and "row_image rw = 0 # nulls @ body" and "length nulls = bitmap_len rw"
    and "bitmap_len rw = (length (rw_columns rw) + 9) div 8" and "rw_col rw \<le> length (rw_columns rw)"
  shows "rw_col rw + length vs \<le> length (rw_columns rw) \<and>
    (\<exists>nulls' b. binary_cells B M C F (take (length vs) (drop (rw_col rw) (rw_columns rw))) vs b \<and>
      nulls_marked nulls (rw_col rw) vs nulls' \<and> row_image rw' = 0 # nulls' @ body @ b \<and>
      rw' = rw\<lparr>rw_data := rw_data rw', rw_col := rw_col rw + length vs\<rparr>)"
  using assms
proof (induction vs arbitrary: rw nulls body)
  case Nil
  then have same: "rw' = rw" by simp
  show ?case unfolding same using Nil.prems(4,7)
    by (intro conjI exI [of _ nulls] exI [of _ "[]"]) (simp_all add: binary_cells.intros)
next
  case (Cons v vs)
  let ?c = "rw_columns rw ! rw_col rw"
  obtain rw1 where w: "write_col B M C F v rw = Ret (Inr (), rw1)" and rest: "write_cols B M C F vs rw1 = Ret (Inr u, rw')"
    using Cons.prems(1) by (auto split: rust.splits sum.splits)
  note col = write_col_binary [OF w Cons.prems(2-6)]
  have range: "(rw_col rw + 2) div 8 < length nulls"
    using null_byte_in_range [OF conjunct1 [OF col] Cons.prems(6)] Cons.prems(5) by simp
  have step: "take (length (v # vs)) (drop (rw_col rw) (rw_columns rw)) = ?c # take (length vs) (drop (Suc (rw_col rw)) (rw_columns rw))"
    using col by (simp flip: Cons_nth_drop_Suc)
  let ?nulls = "if value_is_null v then mark_null nulls (rw_col rw + 2) else nulls"
  obtain b0 where rw1: "rw1 = rw\<lparr>rw_data := 0 # ?nulls @ body @ b0, rw_col := rw_col rw + 1\<rparr>"
    and cell: "\<And>cs b. binary_cells B M C F cs vs b \<Longrightarrow> binary_cells B M C F (?c # cs) (v # vs) (b0 @ b)"
  proof (cases "value_is_null v")
    case True
    with col that [of "[]"] show thesis by (auto intro: null_value)
  next
    case False
    with col that show thesis by (auto intro: one_value)
  qed
  have "row_image rw1 = 0 # ?nulls @ body @ b0" "length ?nulls = bitmap_len rw1"
    using Cons.prems(5) by (simp_all add: rw1 row_image_def mark_null_def)
  with Cons.IH [OF rest, of ?nulls "body @ b0"] Cons.prems(2,3,6) col
  have IH: "Suc (rw_col rw) + length vs \<le> length (rw_columns rw)"
    "\<exists>nulls' b. binary_cells B M C F (take (length vs) (drop (Suc (rw_col rw)) (rw_columns rw))) vs b \<and>
      nulls_marked ?nulls (Suc (rw_col rw)) vs nulls' \<and> row_image rw' = 0 # nulls' @ body @ b0 @ b \<and>
      rw' = rw\<lparr>rw_data := rw_data rw', rw_col := Suc (rw_col rw) + length vs\<rparr>"
    by (simp_all add: rw1)
  have len: "rw_col rw + length (v # vs) = Suc (rw_col rw) + length vs" by simp
  show ?case unfolding len step using IH cell nulls_marked_Cons [OF range] by blast
qed

subsection \<open>Properties of rows\<close>

text \<open>A writer between two rows of a result set.\<close>

definition between_rows :: "RowWriter \<Rightarrow> bool" where
  "between_rows rw \<longleftrightarrow> rw_columns rw \<noteq> [] \<and> rw_col rw = 0 \<and> rw_data rw = [] \<and>
     bitmap_len rw = (length (rw_columns rw) + 9) div 8"

definition row_channel :: "RowWriter \<Rightarrow> PacketWriter" where
  "row_channel rw = q_writer (rw_result rw)"

lemma end_row_sends:
  assumes "end_row B rw = (Inr (), rw')" and "rw_columns rw \<noteq> []"
  shows "rw_col rw = length (rw_columns rw)"
    and "write_packet B (rw_data rw) (row_channel rw) = (Inr (), row_channel rw')"
    and "rw' = rw\<lparr>rw_result := rw_result rw', rw_data := [], rw_col := 0\<rparr>"
    and "rw_result rw' = rw_result rw\<lparr>q_writer := row_channel rw'\<rparr>"
  using assms by (auto simp: end_row_def via_result_def via_writer_def row_channel_def then_io_def and_then_def split: if_splits prod.splits sum.splits)

lemma between_rows_image: "between_rows rw \<Longrightarrow> row_image rw = 0 # replicate (bitmap_len rw) 0 @ []"
  by (simp add: between_rows_def row_image_def resize_def)

lemma write_cols_kept:
  assumes start: "between_rows rw" and cols: "write_cols B M C F vs rw = Ret (Inr (), rw')"
  shows "\<exists>d. rw' = rw\<lparr>rw_data := d, rw_col := length vs\<rparr>"
proof (cases "is_bin (rw_result rw)")
  case True
  with write_cols_binary [OF cols _ _ between_rows_image [OF start]] start show ?thesis by (auto simp: between_rows_def)
next
  case False
  with write_cols_text [OF cols] start show ?thesis by (auto simp: between_rows_def)
qed

text \<open>What a client makes of a row packet, against the values that the backend gave.\<close>

definition row_reads :: "byteorder_ops \<Rightarrow> myc_ops \<Rightarrow> ('d, 'dt) chrono_ops \<Rightarrow> ('d, 'dt) fmt_ops \<Rightarrow> bool \<Rightarrow>
    Column list \<Rightarrow> ('d, 'dt) to_mysql_value list \<Rightarrow> bytes \<Rightarrow> bool" where
  "row_reads B M C F bin cs vs p \<longleftrightarrow>
     (if bin then \<exists>xs. client_binary_row B M cs p = Some xs \<and> list_all2 (binary_cell C) vs xs
      else \<exists>ts. client_text_row (length cs) p = Some ts \<and> list_all2 (text_cell C F) vs ts)"

text \<open>The packet that a row becomes.\<close>

lemma row_packet:
  assumes spec: "byteorder_spec B" "myc_spec M" "chrono_spec C" "list_all (proper_value C) vs"
    and start: "between_rows rw" and cols: "write_cols B M C F vs rw = Ret (Inr (), rw1)"
    and full: "rw_col rw1 = length (rw_columns rw)"
    and short: "length (rw_data rw1) \<le> usize_max"
  shows "row_reads B M C F (is_bin (rw_result rw)) (rw_columns rw) vs (rw_data rw1) \<and> row_shaped (rw_data rw1)"
proof (cases "is_bin (rw_result rw)")
  case True
  have c: "rw_columns rw \<noteq> []" "rw_col rw = 0" "bitmap_len rw = (length (rw_columns rw) + 9) div 8"
    using start by (simp_all add: between_rows_def)
  note w = write_cols_binary [OF cols c(1) True between_rows_image [OF start] _ c(3), simplified c(2)]
  have n: "length vs = length (rw_columns rw)" using write_cols_kept [OF start cols] full by auto
  from w n obtain nulls b where
    b: "binary_cells B M C F (rw_columns rw) vs b" "row_image rw1 = 0 # nulls @ b"
    and bits: "nulls_marked (replicate (bitmap_len rw) 0) 0 vs nulls"
    by auto
  then have "length nulls = (length (rw_columns rw) + 9) div 8" using c(3) by (simp add: nulls_marked_def)
  moreover have "null_bit nulls (0 + i + 2) = value_is_null (vs ! i)" if "i < length vs" for i
    using bits no_nulls [OF null_byte_in_range [of i]] that n c(3) by (auto simp: nulls_marked_def)
  ultimately show ?thesis
    using binary_cells_read [OF spec(1-3) b(1) spec(4), of nulls 0] b(2) full c True
    by (auto simp: row_reads_def client_binary_row_def row_image_def row_shaped_def)
next
  case False
  with write_cols_text [OF cols] start full
  have cells: "text_cells M C F (rw_columns rw) vs (rw_data rw1)" and "vs \<noteq> []"
    by (auto simp: between_rows_def)
  from text_cells_read [OF spec(2,3) cells short spec(4)] text_cells_shaped [OF spec(2,3) this spec(4)] False
  show ?thesis by (simp add: row_reads_def)
qed

lemma row_sent:
  assumes spec: "byteorder_spec B" "myc_spec M" "chrono_spec C" "list_all (proper_value C) vs"
    and start: "between_rows rw" and w: "ready (row_channel rw)"
    and limit: "max_packet_size (packet_builder (row_channel rw)) \<le> usize_max"
    and run: "write_row B M C F vs rw = Ret (Inr (), rw')"
  shows "\<exists>p. emitted (row_channel rw) [p] (row_channel rw') \<and> row_shaped p \<and>
      row_reads B M C F (is_bin (rw_result rw)) (rw_columns rw) vs p"
    and "rw' = rw\<lparr>rw_result := (rw_result rw)\<lparr>q_writer := row_channel rw'\<rparr>\<rparr>"
proof -
  from start run obtain rw1 where cols: "write_cols B M C F vs rw = Ret (Inr (), rw1)" and fin: "end_row B rw1 = (Inr (), rw')"
    by (auto simp: write_row_def between_rows_def split: rust.splits sum.splits)
  obtain d where kept: "rw1 = rw\<lparr>rw_data := d, rw_col := length vs\<rparr>" using write_cols_kept [OF start cols] by blast
  have "rw_columns rw1 \<noteq> []" using start by (simp add: kept between_rows_def)
  note sent = end_row_sends [OF fin this]
  have channel: "row_channel rw1 = row_channel rw" by (simp add: kept row_channel_def)
  have cap: "length (rw_data rw1) \<le> max_packet_size (packet_builder (row_channel rw))"
    using sent(2) w write_packet_rejects(2) [of "row_channel rw" "rw_data rw1" B] channel
    by (cases "max_packet_size (packet_builder (row_channel rw)) < length (rw_data rw1)") (simp_all add: ready_def)
  have read: "row_reads B M C F (is_bin (rw_result rw)) (rw_columns rw) vs (rw_data rw1)" "row_shaped (rw_data rw1)"
    using row_packet [OF spec start cols] sent(1) cap limit by (simp_all add: kept)
  then have "rw_data rw1 \<noteq> []" by (simp add: row_shaped_def)
  from emitsD [OF write_packet_emits [OF spec(1) this] w sent(2) [unfolded channel]] read
  show "\<exists>p. emitted (row_channel rw) [p] (row_channel rw') \<and> row_shaped p \<and>
      row_reads B M C F (is_bin (rw_result rw)) (rw_columns rw) vs p" by blast
  show "rw' = rw\<lparr>rw_result := (rw_result rw)\<lparr>q_writer := row_channel rw'\<rparr>\<rparr>"
  proof -
    have "rw\<lparr>rw_result := x, rw_data := [], rw_col := 0\<rparr> = rw\<lparr>rw_result := x\<rparr>" for x
      using start by (cases rw) (simp add: between_rows_def)
    with sent(3,4) show ?thesis by (simp add: kept)
  qed
qed

text \<open>A backend that writes row after row.\<close>

fun write_rows :: "byteorder_ops \<Rightarrow> myc_ops \<Rightarrow> ('d, 'dt) chrono_ops \<Rightarrow> ('d, 'dt) fmt_ops \<Rightarrow>
    ('d, 'dt) to_mysql_value list list \<Rightarrow> RowWriter \<Rightarrow> (unit io_result \<times> RowWriter) rust" where
  "write_rows B M C F [] rw = Ret (Inr (), rw)"
| "write_rows B M C F (vs # vss) rw =
     (case write_row B M C F vs rw of
        Panicked \<Rightarrow> Panicked
      | Ret (Inl e, rw) \<Rightarrow> Ret (Inl e, rw)
      | Ret (Inr _, rw) \<Rightarrow> write_rows B M C F vss rw)"

lemma rows_sent:
  assumes spec: "byteorder_spec B" "myc_spec M" "chrono_spec C" and "list_all (list_all (proper_value C)) vss"
    and "between_rows rw" and "ready (row_channel rw)" and "max_packet_size (packet_builder (row_channel rw)) \<le> usize_max"
    and "write_rows B M C F vss rw = Ret (Inr (), rw')"
  shows "(\<exists>ps. emitted (row_channel rw) ps (row_channel rw') \<and> list_all row_shaped ps \<and>
      list_all2 (row_reads B M C F (is_bin (rw_result rw)) (rw_columns rw)) vss ps) \<and>
    rw' = rw\<lparr>rw_result := (rw_result rw)\<lparr>q_writer := row_channel rw'\<rparr>\<rparr>"
  using assms(4-8)
proof (induction vss arbitrary: rw)
  case Nil
  then show ?case by (intro conjI exI [of _ "[]"]) (simp_all add: emitted_def row_channel_def)
next
  case (Cons vs vss)
  then obtain rw1 where first: "write_row B M C F vs rw = Ret (Inr (), rw1)" and rest: "write_rows B M C F vss rw1 = Ret (Inr (), rw')"
    by (auto split: rust.splits sum.splits)
  have "list_all (proper_value C) vs" using Cons.prems(1) by simp
  note one = row_sent [OF spec this Cons.prems(2-4) first]
  from one(1) obtain p where p: "emitted (row_channel rw) [p] (row_channel rw1)" "row_shaped p"
    "row_reads B M C F (is_bin (rw_result rw)) (rw_columns rw) vs p" by blast
  define w1 where "w1 = row_channel rw1"
  have rw1: "rw1 = rw\<lparr>rw_result := (rw_result rw)\<lparr>q_writer := w1\<rparr>\<rparr>" using one(2) by (simp add: w1_def)
  have "ready (row_channel rw1)" "max_packet_size (packet_builder (row_channel rw1)) \<le> usize_max"
    using p(1) Cons.prems(4) by (simp_all add: emitted_def same_limits_def)
  moreover have "between_rows rw1" using Cons.prems(2) by (simp add: rw1 between_rows_def)
  ultimately obtain ps where ps: "emitted (row_channel rw1) ps (row_channel rw')" "list_all row_shaped ps"
    "list_all2 (row_reads B M C F (is_bin (rw_result rw1)) (rw_columns rw1)) vss ps"
    and rw': "rw' = rw1\<lparr>rw_result := (rw_result rw1)\<lparr>q_writer := row_channel rw'\<rparr>\<rparr>"
    using Cons.IH [OF _ _ _ _ rest] Cons.prems(1) by auto
  have "list_all2 (row_reads B M C F (is_bin (rw_result rw)) (rw_columns rw)) (vs # vss) (p # ps)"
    using ps(3) p(3) by (simp add: rw1)
  moreover have "rw' = rw\<lparr>rw_result := (rw_result rw)\<lparr>q_writer := row_channel rw'\<rparr>\<rparr>" using rw' by (simp add: rw1)
  ultimately show ?case using emitted_append [OF p(1) ps(1)] p(2) ps(2)
    by (intro conjI exI [of _ "p # ps"]) simp_all
qed

text \<open>Whatever rows the backend gives to the row writer, in a result set of either protocol: when the
  writer accepts them, exactly one packet per row has been sent, in the order of the rows, and a client
  that knows the columns reads from each packet one cell per column: NULL where the value is NULL, and
  otherwise what the value denotes.\<close>

theorem rows_understood:
  assumes "byteorder_spec B" and "myc_spec M" and "chrono_spec C" and "list_all (list_all (proper_value C)) vss"
    and "between_rows rw" and "ready (row_channel rw)" and "max_packet_size (packet_builder (row_channel rw)) \<le> usize_max"
    and "write_rows B M C F vss rw = Ret (Inr (), rw')"
  shows "\<exists>ps. emitted (row_channel rw) ps (row_channel rw') \<and>
     list_all2 (row_reads B M C F (is_bin (rw_result rw)) (rw_columns rw)) vss ps"
  using rows_sent [OF assms] by blast

definition demo_rows :: RowWriter where
  "demo_rows = row_init (query_new_tracked (new_writer demo_sink) True 0x200 2) [short_column, short_column]"

definition demo_row :: "('d, 'dt) to_mysql_value list" where
  "demo_row = [VNone, VMyc (MyInt (- 2))]"

lemma demo_row_written:
  "\<exists>rw'. write_rows byteorder_ref myc_ref chrono_ref fmt_none [demo_row] demo_rows = Ret (Inr (), rw')"
proof -
  let ?w = "new_writer demo_sink"
  obtain w where "write_packet byteorder_ref [0, 4, 0xFE, 0xFF] ?w = (Inr (), w)"
    using write_packet_reliable [of ?w "[0, 4, 0xFE, 0xFF]" byteorder_ref] demo_sink_ready
    by (auto simp: ready_def new_writer_def new_builder_def usize_max_def)
  moreover have "write_cols byteorder_ref myc_ref chrono_ref fmt_none demo_row demo_rows =
      Ret (Inr (), demo_rows\<lparr>rw_data := [0, 4, 0xFE, 0xFF], rw_col := 2\<rparr>)"
  proof -
    note defs = demo_rows_def row_init_def query_new_tracked_def
    have room: "remaining_packet_capacity (new_writer demo_sink) = usize_max"
      by (simp add: remaining_packet_capacity_def new_writer_def new_builder_def)
    have flags: "\<not> contains (colflags short_column) (colflag_bits myc_ref NOT_NULL_FLAG)"
      by (simp add: short_column_def contains_def myc_ref_def ref_colflag_def)
    have "write_col byteorder_ref myc_ref chrono_ref fmt_none VNone demo_rows =
        Ret (Inr (), demo_rows\<lparr>rw_data := [0, 4], rw_col := 1\<rparr>)"
      using flags by (simp add: write_col_def Let_def room defs put_null_def resize_def usize_max_def numeral_2_eq_2)
    moreover have "write_col byteorder_ref myc_ref chrono_ref fmt_none (VMyc (MyInt (- 2)))
        (demo_rows\<lparr>rw_data := [0, 4], rw_col := 1\<rparr>) =
        Ret (Inr (), demo_rows\<lparr>rw_data := [0, 4, 0xFE, 0xFF], rw_col := 2\<rparr>)"
      by (simp add: write_col_def Let_def room defs demo_encoded put_value_def row_buffer_write_def checked_add_def usize_max_def
          del: to_mysql_bin.simps)
    ultimately show ?thesis by (simp add: demo_row_def)
  qed
  ultimately show ?thesis
    by (auto simp: write_row_def end_row_def then_io_def and_then_def via_result_def via_writer_def demo_rows_def row_init_def
        query_new_tracked_def)
qed

theorem rows_understood_witness:
  "\<exists>rw' p. emitted (row_channel demo_rows) [p] (row_channel rw') \<and>
     row_reads byteorder_ref myc_ref chrono_ref fmt_none True [short_column, short_column] demo_row p"
proof -
  obtain rw' where run: "write_rows byteorder_ref myc_ref chrono_ref fmt_none [demo_row] demo_rows = Ret (Inr (), rw')"
    using demo_row_written by blast
  have "between_rows demo_rows" "ready (row_channel demo_rows)" "max_packet_size (packet_builder (row_channel demo_rows)) \<le> usize_max"
    using demo_sink_ready by (simp_all add: between_rows_def demo_rows_def row_init_def row_channel_def
        query_new_tracked_def new_writer_def new_builder_def usize_max_def)
  from rows_understood [OF byteorder_ref_spec myc_ref_spec chrono_ref_spec _ this run] show ?thesis
    by (auto simp: demo_row_def demo_rows_def row_init_def query_new_tracked_def list_all2_Cons1)
qed

end
