(* ===== verification/Answers.thy ===== *)
theory Answers
  imports Rows Backend
begin

text \<open>
  Whole result sets as a client reads them, from the list of packets it has received: the number of
  columns, their definitions, the rows, and the packet that ends them, which the client has to tell
  from a row. The reader is written from the protocol; it knows of a column what its definition says.
\<close>

subsection \<open>Reading a result set\<close>

definition client_eof :: "bytes \<Rightarrow> u16 option" where
  "client_eof p = (case p_bind (ref_tag [0xFE] p) (\<lambda>i _. p_bind (ref_le 2 i) (\<lambda>i (warns :: u16). ref_le 2 i)) of
     Inr ([], status) \<Rightarrow> Some status | _ \<Rightarrow> None)"

definition ends_rows :: "myc_ops \<Rightarrow> u32 \<Rightarrow> bytes \<Rightarrow> bool" where
  "ends_rows M caps p \<longleftrightarrow> p \<noteq> [] \<and> hd p = 0xFE \<and>
     length p < (if has_cap M caps CLIENT_DEPRECATE_EOF then 0xFFFFFF else 9)"

text \<open>The status flags in the packet that ends the rows.\<close>

definition client_end :: "myc_ops \<Rightarrow> u32 \<Rightarrow> bytes \<Rightarrow> u16 option" where
  "client_end M caps p =
     (if has_cap M caps CLIENT_DEPRECATE_EOF
      then (case client_ok M caps p of Inr ([], ok) \<Rightarrow> Some (ok_status_flags ok) | _ \<Rightarrow> None)
      else client_eof p)"

fun client_columns :: "nat \<Rightarrow> bytes list \<Rightarrow> (client_column list \<times> bytes list) option" where
  "client_columns 0 ps = Some ([], ps)"
| "client_columns (Suc n) [] = None"
| "client_columns (Suc n) (p # ps) = (case client_column p of
     Inr ([], c) \<Rightarrow> map_option (apfst (Cons c)) (client_columns n ps) | _ \<Rightarrow> None)"

definition after_columns :: "myc_ops \<Rightarrow> u32 \<Rightarrow> bytes list \<Rightarrow> bytes list option" where
  "after_columns M caps ps =
     (if has_cap M caps CLIENT_DEPRECATE_EOF then Some ps
      else case ps of [] \<Rightarrow> None | p # ps \<Rightarrow> map_option (\<lambda>_. ps) (client_eof p))"

text \<open>The rows, the packet that ends them, and what follows; an error packet among them is not a result.\<close>

fun client_rows :: "myc_ops \<Rightarrow> u32 \<Rightarrow> bytes list \<Rightarrow> (bytes list \<times> bytes \<times> bytes list) option" where
  "client_rows M caps [] = None"
| "client_rows M caps (p # ps) =
     (if ends_rows M caps p then Some ([], p, ps)
      else if p = [] \<or> hd p = 0xFF then None
      else map_option (apfst (Cons p)) (client_rows M caps ps))"

text \<open>The column that a definition describes.\<close>

definition as_column :: "myc_ops \<Rightarrow> client_column \<Rightarrow> Column" where
  "as_column M c = \<lparr>table = cl_table c, column = cl_column c, collen = cl_length c,
     coltype = (case coltype_try_from M (cl_type c) of Inl _ \<Rightarrow> MYSQL_TYPE_OTHER (cl_type c) | Inr t \<Rightarrow> t),
     colflags = cl_flags c\<rparr>"

datatype client_row = TextRow "bytes option list" | BinaryRow "ValueInner option list"

definition client_row :: "byteorder_ops \<Rightarrow> myc_ops \<Rightarrow> bool \<Rightarrow> client_column list \<Rightarrow> bytes \<Rightarrow> client_row option" where
  "client_row B M bin cols p =
     (if bin then map_option BinaryRow (client_binary_row B M (map (as_column M) cols) p)
      else map_option TextRow (client_text_row (length cols) p))"

record client_result =
  cr_columns :: "client_column list"
  cr_rows :: "client_row list"
  cr_status :: u16

definition client_resultset :: "byteorder_ops \<Rightarrow> myc_ops \<Rightarrow> u32 \<Rightarrow> bool \<Rightarrow> bytes list \<Rightarrow> (client_result \<times> bytes list) option" where
  "client_resultset B M caps bin packets =
     (case packets of [] \<Rightarrow> None | count # ps \<Rightarrow>
     (case client_int count of Inl _ \<Rightarrow> None | Inr (_, n) \<Rightarrow>
     (case client_columns (unat n) ps of None \<Rightarrow> None | Some (cols, ps) \<Rightarrow>
     (case after_columns M caps ps of None \<Rightarrow> None | Some ps \<Rightarrow>
     (case client_rows M caps ps of None \<Rightarrow> None | Some (rows, e, ps) \<Rightarrow>
     (case those (map (client_row B M bin cols) rows) of None \<Rightarrow> None | Some rs \<Rightarrow>
     (case client_end M caps e of None \<Rightarrow> None | Some status \<Rightarrow>
       Some (\<lparr>cr_columns = cols, cr_rows = rs, cr_status = status\<rparr>, ps))))))))"

fun row_denotes :: "('d, 'dt) chrono_ops \<Rightarrow> ('d, 'dt) fmt_ops \<Rightarrow> bool \<Rightarrow> ('d, 'dt) to_mysql_value list \<Rightarrow> client_row \<Rightarrow> bool" where
  "row_denotes C F bin vs (TextRow ts) \<longleftrightarrow> \<not> bin \<and> list_all2 (text_cell C F) vs ts"
| "row_denotes C F bin vs (BinaryRow xs) \<longleftrightarrow> bin \<and> list_all2 (binary_cell C) vs xs"

subsection \<open>The parts of a result set\<close>

lemma client_columns_read:
  assumes "\<And>cm. cm \<in> set cms \<Longrightarrow> client_column (payload cm) = Inr ([], view cm)"
  shows "client_columns (length cms) (map payload cms @ ps) = Some (map view cms, ps)"
  using assms by (induction cms) simp_all

lemma client_rows_read:
  assumes "ends_rows M caps e"
  shows "list_all row_shaped rows \<Longrightarrow> client_rows M caps (rows @ e # ps) = Some (rows, e, ps)"
  using assms by (induction rows) (auto simp: row_shaped_def ends_rows_def split: if_splits)

lemma client_eof_payload: "client_eof (eof_payload status) = Some status"
proof -
  have "ref_le 2 ([0, 0] @ le16 status) = Inr (le16 status, 0 :: u16)" by (subst ref_le_append) simp_all
  then show ?thesis by (simp add: client_eof_def eof_payload_def ref_tag_def)
qed

lemma binary_cells_types:
  "map coltype cs = map coltype ds \<Longrightarrow> map colflags cs = map colflags ds \<Longrightarrow>
   client_binary_cells B M nulls k cs p = client_binary_cells B M nulls k ds p"
proof (induction cs arbitrary: ds k p)
  case (Cons c cs)
  then obtain d ds' where "ds = d # ds'" "coltype c = coltype d" "colflags c = colflags d" by (cases ds) auto
  with Cons show ?case by (auto simp: is_unsigned_column_def split: sum.split)
qed simp

lemma binary_row_types:
  assumes "map coltype cs = map coltype ds" "map colflags cs = map colflags ds"
  shows "client_binary_row B M cs p = client_binary_row B M ds p"
proof -
  have "length cs = length ds" using assms(1) by (rule map_eq_imp_length_eq)
  then show ?thesis unfolding client_binary_row_def by (simp only: binary_cells_types [OF assms])
qed

text \<open>The types that the server can name in a definition.\<close>

definition describable :: "Column \<Rightarrow> bool" where
  "describable c \<longleftrightarrow> (\<forall>b. coltype c \<noteq> MYSQL_TYPE_OTHER b) \<and> length (table c) \<le> usize_max \<and> length (column c) \<le> usize_max"

lemma as_column_view:
  assumes "myc_spec M" "describable (fst cm)"
  shows "coltype (as_column M (column_view M cm)) = coltype (fst cm)" "colflags (as_column M (column_view M cm)) = colflags (fst cm)"
  using assms myc_specD(10) [OF assms(1), of "coltype (fst cm)"]
  by (cases cm; simp add: as_column_def column_view_def describable_def)+

lemma client_row_reads:
  assumes "row_reads B M C F bin cs vs p" and "map coltype (map (as_column M) cols) = map coltype cs"
    and "map colflags (map (as_column M) cols) = map colflags cs"
  shows "\<exists>r. client_row B M bin cols p = Some r \<and> row_denotes C F bin vs r"
proof -
  have "length cols = length cs" using map_eq_imp_length_eq [OF assms(2)] by simp
  with assms(1) show ?thesis
    by (auto simp: row_reads_def client_row_def binary_row_types [OF assms(2,3)] split: if_splits)
qed

lemma client_all_rows:
  assumes "list_all2 (\<lambda>vs p. \<exists>r. f p = Some r \<and> P vs r) vss ps"
  shows "\<exists>rs. those (map f ps) = Some rs \<and> list_all2 P vss rs"
  using assms by (induction rule: list_all2_induct) auto

subsection \<open>A backend that answers with a result set\<close>

text \<open>A callback that gets through all of its calls.\<close>

lemma calls_step:
  assumes run: "run_program step (calls err (op # ops) p) st = Ret (y, st')" and err: "\<forall>e. err e \<noteq> y"
  shows "\<exists>st1. step op st = Some (Ret (Inr (), st1)) \<and> run_program step (calls err ops p) st1 = Ret (y, st')"
proof -
  obtain res st1 where st1: "step op st = Some (Ret (res, st1))"
    "run_program step (case res of Inl e \<Rightarrow> Return (err e) | Inr _ \<Rightarrow> calls err ops p) st1 = Ret (y, st')"
    using run by (auto split: option.splits rust.splits)
  with err show ?thesis by (cases res) auto
qed

definition start_op :: "Column list \<Rightarrow> ColumnMetadata list option \<Rightarrow> ('d, 'dt) response_op" where
  "start_op columns metadata =
     (case metadata of None \<Rightarrow> Start columns | Some ms \<Rightarrow> StartWithMetadata columns ms)"

definition described :: "Column list \<Rightarrow> ColumnMetadata list option \<Rightarrow> (Column \<times> ColumnMetadata) list" where
  "described columns metadata =
     (case metadata of None \<Rightarrow> map default_column_metadata columns | Some ms \<Rightarrow> zip columns ms)"

lemma result_started:
  assumes "respond B M C F (start_op cs m) (Idle q) = Some (Ret (Inr (), r))" and "last_end q = None" and "cs \<noteq> []"
  obtains w where "r = InRows (row_init (q\<lparr>q_writer := w\<rparr>) cs)" and "length (described cs m) = length cs"
    "column_definitions B M (described cs m) (q_capabilities q) (default_status q) (q_writer q) = (Inr (), w)"
proof (cases m)
  case None
  with assms that show ?thesis
    by (auto simp: start_op_def described_def to_rows_def start_def row_new_def row_start_def row_init_def via_result_def via_writer_def
        split: sum.splits prod.splits)
next
  case (Some ms)
  with assms have "validate_metadata M cs ms = Inr ()"
    by (auto simp: start_op_def to_rows_def start_with_metadata_def split: sum.splits prod.splits)
  moreover then have "length cs = length ms" by (auto simp: validate_metadata_def split: if_splits)
  ultimately show ?thesis using Some assms that
    by (auto simp: start_op_def described_def to_rows_def start_with_metadata_def row_new_def row_start_def row_init_def via_result_def
        via_writer_def split: sum.splits prod.splits)
qed

lemma rows_written:
  assumes "\<forall>e. err e \<noteq> y"
  shows "run_program (respond B M C F) (calls err (map WriteRow vss @ ops) p) (InRows rw) = Ret (y, r) \<Longrightarrow>
    \<exists>rw'. write_rows B M C F vss rw = Ret (Inr (), rw') \<and> run_program (respond B M C F) (calls err ops p) (InRows rw') = Ret (y, r)"
proof (induction vss arbitrary: rw)
  case (Cons vs vss)
  then have "run_program (respond B M C F) (calls err (WriteRow vs # map WriteRow vss @ ops) p) (InRows rw) = Ret (y, r)" by simp
  from calls_step [OF this assms] obtain st1 where st1: "respond B M C F (WriteRow vs) (InRows rw) = Some (Ret (Inr (), st1))"
    "run_program (respond B M C F) (calls err (map WriteRow vss @ ops) p) st1 = Ret (y, r)" by blast
  from st1(1) obtain rw1 where "write_row B M C F vs rw = Ret (Inr (), rw1)" "st1 = InRows rw1"
    by (cases "write_row B M C F vs rw") (auto simp: in_rows_def split: prod.splits)
  with Cons.IH st1(2) show ?case by simp
qed simp

text \<open>The packet that ends a result set, and the writer it leaves behind.\<close>

lemma rows_finished:
  assumes "finish_with_info B M text rw = (Inr (), q')" and "between_rows rw" and "\<not> rw_finished rw"
  defines "f \<equiv> with_more M False (row_finalizer M (rw_capabilities rw) (rw_columns rw) (default_status (rw_result rw)) text)"
  shows "write_finalizer B M (q_capabilities (rw_result rw)) f (row_channel rw) = (Inr (), q_writer q')"
  using assms
  by (auto simp: finish_with_info_def finish_one_with_info_def finish_inner_def then_io_def and_then_def between_rows_def no_more_results_def
      finalize_def Let_def via_writer_def row_channel_def f_def split: sum.splits prod.splits)

text \<open>The client tells the end of the rows from a row, and reads the status flags in it.\<close>

lemma lenenc_int_length: "length (lenenc_int n) \<le> 9"
  by (simp add: lenenc_int_def)

lemma end_read:
  assumes "byteorder_spec B" "myc_spec M" "has_cap M caps CLIENT_PROTOCOL_41" "columns \<noteq> []" "length text \<le> 0xFFFF00"
    and "e = finalizer_payload B M caps (with_more M on (row_finalizer M caps columns status text))"
  shows "ends_rows M caps e"
    and "client_end M caps e = Some (set_flag status (status_bits M SERVER_MORE_RESULTS_EXISTS) on)"
proof -
  let ?status = "set_flag status (status_bits M SERVER_MORE_RESULTS_EXISTS) on"
  let ?ok = "default_ok\<lparr>header := 0xFE, info := text, ok_status_flags := ?status\<rparr>"
  have e: "e = (if has_cap M caps CLIENT_DEPRECATE_EOF then ok_payload B M caps ?ok else eof_payload ?status)"
    using assms(4,6) by (simp add: row_finalizer_def default_ok_def)
  have "hd (ok_payload B M caps ?ok) = 0xFE \<and> ok_payload B M caps ?ok \<noteq> [] \<and> length (ok_payload B M caps ?ok) < 0xFFFFFF"
    using assms(3,5) lenenc_int_length [of "0 :: u64"] lenenc_int_length [of "word_of_nat (length text)"]
    by (simp add: ok_payload_def ok_pieces_def Let_def byteorder_specD [OF assms(1)] myc_specD [OF assms(2)] default_ok_def
        lenenc_str_def)
  then show "ends_rows M caps e" by (auto simp: e ends_rows_def eof_payload_def)
  have "length text \<le> usize_max" using assms(5) by (simp add: usize_max_def)
  then show "client_end M caps e = Some ?status"
    using client_ok_payload [OF assms(1-3), of ?ok] by (simp add: e client_end_def client_eof_payload default_ok_def usize_max_def)
qed

lemma result_read:
  assumes spec: "byteorder_spec B" "myc_spec M" and cols: "\<forall>cm \<in> set cms. describable (fst cm)" "length cms \<le> usize_max"
    and rows: "list_all row_shaped ps" "list_all2 (row_reads B M C F bin (map fst cms)) vss ps"
    and e: "ends_rows M caps e" "client_end M caps e = Some status"
  shows "\<exists>rs. client_resultset B M caps bin (item_packets B M caps (Header cms st) @ ps @ e # later) =
      Some (\<lparr>cr_columns = map (column_view M) cms, cr_rows = rs, cr_status = status\<rparr>, later) \<and>
    list_all2 (row_denotes C F bin) vss rs"
proof -
  let ?n = "word_of_nat (length cms) :: u64" and ?cols = "map (column_view M) cms"
  have n: "client_int (lenenc_int ?n) = Inr ([], ?n)" "unat ?n = length cms"
    using client_int_lenenc [of ?n "[]"] cols(2) by (simp_all add: unat_of_nat usize_max_def)
  have defs: "client_columns (length cms) (map (column_payload B M False) cms @ qs) = Some (?cols, qs)" for qs
    using client_columns_read [of cms "column_payload B M False" "column_view M" qs] client_column_payload [OF spec, of _ False] cols(1)
    by (simp add: describable_def)
  have types: "map coltype (map (as_column M) ?cols) = map coltype (map fst cms)"
    "map colflags (map (as_column M) ?cols) = map colflags (map fst cms)"
    using cols(1) as_column_view [OF spec(2)] by simp_all
  have "list_all2 (\<lambda>vs p. \<exists>r. client_row B M bin ?cols p = Some r \<and> row_denotes C F bin vs r) vss ps"
    using rows(2) client_row_reads [OF _ types] by (rule list_all2_mono)
  from client_all_rows [OF this] obtain rs where rs: "those (map (client_row B M bin ?cols) ps) = Some rs"
    "list_all2 (row_denotes C F bin) vss rs" by blast
  have tail: "after_columns M caps ((if has_cap M caps CLIENT_DEPRECATE_EOF then [] else [eof_payload st]) @ qs) = Some qs" for qs
    by (simp add: after_columns_def client_eof_payload)
  show ?thesis using rs client_rows_read [OF e(1) rows(1), of later] e(2)
    by (intro exI [of _ rs]) (simp add: client_resultset_def n defs tail column_packets_def)
qed

subsection \<open>Properties of whole results\<close>

lemma described_columns:
  "length (described cs m) = length cs \<Longrightarrow> map fst (described cs m) = cs"
  by (auto simp: described_def default_column_metadata_def comp_def map_fst_zip_take split: option.splits)

lemma result_sent:
  assumes spec: "byteorder_spec B" "myc_spec M" "chrono_spec C"
    and q: "ready (q_writer q)" "max_packet_size (packet_builder (q_writer q)) \<le> usize_max" "last_end q = None"
    and cs: "cs \<noteq> []" and vss: "list_all (list_all (proper_value C)) vss" and err: "\<forall>e. err e \<noteq> y"
    and run: "run_program (respond B M C F) (calls err (start_op cs m # map WriteRow vss @ [Finish text]) (Return y)) (Idle q) = Ret (y, r)"
  defines "e \<equiv> finalizer_payload B M (q_capabilities q)
    (with_more M False (row_finalizer M (q_capabilities q) cs (default_status q) text))"
  shows "length (described cs m) = length cs \<and> (\<exists>ps. list_all row_shaped ps \<and> list_all2 (row_reads B M C F (is_bin q) cs) vss ps \<and>
    emitted (q_writer q) (item_packets B M (q_capabilities q) (Header (described cs m) (default_status q)) @ ps @ [e])
      (q_writer (response_writer r)))"
proof -
  let ?caps = "q_capabilities q"
  obtain st1 where begun: "respond B M C F (start_op cs m) (Idle q) = Some (Ret (Inr (), st1))"
    and rest: "run_program (respond B M C F) (calls err (map WriteRow vss @ [Finish text]) (Return y)) st1 = Ret (y, r)"
    using calls_step [OF run err] by blast
  obtain w where st1: "st1 = InRows (row_init (q\<lparr>q_writer := w\<rparr>) cs)" and len: "length (described cs m) = length cs"
    and w: "column_definitions B M (described cs m) ?caps (default_status q) (q_writer q) = (Inr (), w)"
    using result_started [OF begun q(3) cs] by blast
  define rw where "rw = row_init (q\<lparr>q_writer := w\<rparr>) cs"
  obtain rw' where rows: "write_rows B M C F vss rw = Ret (Inr (), rw')"
    and fin: "run_program (respond B M C F) (calls err [Finish text] (Return y)) (InRows rw') = Ret (y, r)"
    using rows_written [OF err rest [unfolded st1]] rw_def by blast
  from calls_step [OF fin err] obtain q' where q': "finish_with_info B M text rw' = (Inr (), q')" "r = Spent q'"
    by (auto simp: to_spent_def split: prod.splits)
  have header: "emitted (q_writer q) (item_packets B M ?caps (Header (described cs m) (default_status q))) w"
    using emitsD [OF header_emits [OF spec(1,2)] q(1) w] .
  have at: "between_rows rw" "row_channel rw = w" "rw_columns rw = cs" "is_bin (rw_result rw) = is_bin q" "\<not> rw_finished rw"
    "rw_capabilities rw = ?caps" "q_capabilities (rw_result rw) = ?caps" "default_status (rw_result rw) = default_status q"
    using cs by (simp_all add: rw_def row_init_def between_rows_def row_channel_def)
  have "ready w" "max_packet_size (packet_builder w) \<le> usize_max"
    using header q(2) by (simp_all add: emitted_def same_limits_def)
  with rows_sent [OF spec vss at(1) _ _ rows] at(2-4) obtain ps where ps: "emitted w ps (row_channel rw')" "list_all row_shaped ps"
    "list_all2 (row_reads B M C F (is_bin q) cs) vss ps"
    and rw': "rw' = rw\<lparr>rw_result := (rw_result rw)\<lparr>q_writer := row_channel rw'\<rparr>\<rparr>" by auto
  define w2 where "w2 = row_channel rw'"
  have kept: "rw' = rw\<lparr>rw_result := (rw_result rw)\<lparr>q_writer := w2\<rparr>\<rparr>" using rw' by (simp add: w2_def)
  have "between_rows rw'" "\<not> rw_finished rw'" using at(1,5) by (simp_all add: kept between_rows_def)
  from rows_finished [OF q'(1) this] have "write_finalizer B M ?caps (with_more M False (row_finalizer M ?caps cs (default_status q) text)) w2
      = (Inr (), q_writer q')"
    using at by (simp add: kept row_channel_def)
  moreover have w2: "emitted w ps w2" using ps(1) by (simp add: w2_def)
  moreover then have "ready w2" by (simp add: emitted_def)
  ultimately have "emitted w2 [e] (q_writer q')"
    using emitsD [OF finalizer_emits [OF spec(1)]] by (fastforce simp: e_def)
  from emitted_append [OF emitted_append [OF header w2] this] ps(2,3) len show ?thesis
    by (auto simp: q'(2))
qed

lemma result_set_read:
  assumes "byteorder_spec B" and "myc_spec M" and "chrono_spec C" and "has_cap M (q_capabilities q) CLIENT_PROTOCOL_41"
    and "ready (q_writer q)" and "max_packet_size (packet_builder (q_writer q)) \<le> usize_max" and "last_end q = None"
    and "cs \<noteq> []" and "length cs \<le> usize_max" and "list_all describable cs"
    and "list_all (list_all (proper_value C)) vss" and "length text \<le> 0xFFFF00"
    and "\<forall>e. err e \<noteq> y"
    and "run_program (respond B M C F) (calls err (start_op cs m # map WriteRow vss @ [Finish text]) (Return y)) (Idle q) = Ret (y, r)"
  shows "\<exists>ps rows. emitted (q_writer q) ps (q_writer (response_writer r)) \<and>
    client_resultset B M (q_capabilities q) (is_bin q) ps =
      Some (\<lparr>cr_columns = map (column_view M) (described cs m), cr_rows = rows,
        cr_status = set_flag (default_status q) (status_bits M SERVER_MORE_RESULTS_EXISTS) False\<rparr>, []) \<and>
    list_all2 (row_denotes C F (is_bin q)) vss rows"
proof -
  let ?cms = "described cs m"
  define e where "e = finalizer_payload B M (q_capabilities q)
    (with_more M False (row_finalizer M (q_capabilities q) cs (default_status q) text))"
  obtain ps where len: "length ?cms = length cs" and ps: "list_all row_shaped ps" "list_all2 (row_reads B M C F (is_bin q) cs) vss ps"
    and sent: "emitted (q_writer q) (item_packets B M (q_capabilities q) (Header ?cms (default_status q)) @ ps @ [e])
      (q_writer (response_writer r))"
    using result_sent [OF assms(1-3,5-8,11,13,14)] e_def by blast
  have "\<forall>cm \<in> set ?cms. describable (fst cm)"
    using assms(10) described_columns [OF len] by (metis image_eqI list.pred_set list.set_map)
  moreover have "list_all2 (row_reads B M C F (is_bin q) (map fst ?cms)) vss ps" using ps(2) described_columns [OF len] by simp
  ultimately show ?thesis
    using result_read [OF assms(1,2) _ _ ps(1)] end_read [OF assms(1,2,4,8,12) e_def] assms(9) len sent by metis
qed

text \<open>C9: a backend that answers a query or an EXECUTE by starting a result set, with or without column
  metadata, writing rows and finishing it, all without an error, has sent packets from which a client
  reads back, knowing only the protocol and the negotiated capabilities: each column definition, one
  row per row written in the order of writing, each cell NULL or what its value denotes, and the
  status flags, with no packet left over. In particular no row is taken for the end of the result set.\<close>

theorem result_set_understood:
  assumes "byteorder_spec B" and "myc_spec M" and "chrono_spec C" and "has_cap M (q_capabilities q) CLIENT_PROTOCOL_41"
    and "ready (q_writer q)" and "max_packet_size (packet_builder (q_writer q)) \<le> usize_max" and "last_end q = None"
    and "cs \<noteq> []" and "length cs \<le> usize_max" and "list_all describable cs"
    and "list_all (list_all (proper_value C)) vss" and "length text \<le> 0xFFFF00"
    and "\<forall>e. err e \<noteq> y"
    and "run_program (respond B M C F) (calls err (start_op cs m # map WriteRow vss @ [Finish text]) (Return y)) (Idle q) = Ret (y, r)"
  shows "\<exists>ps rows. emitted (q_writer q) ps (q_writer (response_writer r)) \<and>
    client_resultset B M (q_capabilities q) (is_bin q) ps =
      Some (\<lparr>cr_columns = map (column_view M) (described cs m), cr_rows = rows,
        cr_status = set_flag (default_status q) (status_bits M SERVER_MORE_RESULTS_EXISTS) False\<rparr>, []) \<and>
    list_all2 (row_denotes C F (is_bin q)) vss rows"
  by (rule result_set_read [OF assms])

lemma row_buffer_fits:
  "length b + length (concat ps) \<le> limit \<Longrightarrow> limit \<le> usize_max \<Longrightarrow>
   row_buffer_write_all limit ps b = (Inr (), b @ concat ps)"
  by (induction ps arbitrary: b) (auto simp: row_buffer_write_def checked_add_def)

text \<open>A concrete client, without CLIENT_DEPRECATE_EOF, on a transport that only fragments.\<close>

definition sample_query :: "bool \<Rightarrow> PacketWriter \<Rightarrow> QueryResultWriter" where
  "sample_query bin w = query_new_tracked w bin 0x200 2"

definition sample_rows :: "bool \<Rightarrow> Column list \<Rightarrow> PacketWriter \<Rightarrow> RowWriter" where
  "sample_rows bin cs w = row_init (sample_query bin w) cs"

definition sound :: "PacketWriter \<Rightarrow> bool" where
  "sound w \<longleftrightarrow> ready w \<and> writer_reliable w \<and> max_packet_size (packet_builder w) = usize_max"

lemma sample_caps: "has_cap myc_ref 0x200 CLIENT_PROTOCOL_41" "\<not> has_cap myc_ref 0x200 CLIENT_DEPRECATE_EOF"
  by (simp_all add: has_cap_def contains_def myc_ref_def ref_cap_def)

lemma sample_query_simps [simp]:
  "q_writer (sample_query bin w) = w" "is_bin (sample_query bin w) = bin" "q_capabilities (sample_query bin w) = 0x200"
  "last_end (sample_query bin w) = None" "default_status (sample_query bin w) = 2"
  "(sample_query bin w)\<lparr>q_writer := w'\<rparr> = sample_query bin w'"
  by (simp_all add: sample_query_def query_new_tracked_def)

lemma sample_started:
  assumes "cs \<noteq> []" and fit: "fits (new_writer demo_sink) (lenenc_int (word_of_nat (length cs)) #
      column_packets byteorder_ref myc_ref (map default_column_metadata cs) 0x200 False 2)"
  shows "\<exists>w. sound w \<and> respond byteorder_ref myc_ref C F (start_op cs None) (Idle (sample_query bin (new_writer demo_sink))) =
    Some (Ret (Inr (), InRows (sample_rows bin cs w)))"
proof -
  let ?cms = "map default_column_metadata cs" and ?w = "new_writer demo_sink"
  note emit = column_definitions_emits [OF byteorder_ref_spec myc_ref_spec, of ?cms "0x200" 2]
  obtain w where w: "column_definitions byteorder_ref myc_ref ?cms 0x200 2 ?w = (Inr (), w)" "writer_reliable w"
    using completesD [OF emit(2) demo_sink_ready] fit by auto
  from emitsD [OF emit(1) demo_sink_ready(1) w(1)] have "sound w"
    using w(2) by (simp add: sound_def emitted_def same_limits_def new_writer_def new_builder_def)
  moreover have "respond byteorder_ref myc_ref C F (start_op cs None) (Idle (sample_query bin ?w)) = Some (Ret (Inr (), InRows (sample_rows bin cs w)))"
    using w(1) assms(1) by (simp add: start_op_def start_def row_new_def row_start_def row_init_def via_result_def via_writer_def
        to_rows_def sample_rows_def)
  ultimately show ?thesis by blast
qed

lemma sample_row:
  assumes w: "sound w" and cs: "cs \<noteq> []" and d: "d \<noteq> []" "length d \<le> usize_max"
    and cols: "write_cols byteorder_ref myc_ref C F vs (sample_rows bin cs w) =
      Ret (Inr (), (sample_rows bin cs w)\<lparr>rw_data := d, rw_col := length cs\<rparr>)"
  shows "\<exists>w'. sound w' \<and> respond byteorder_ref myc_ref C F (WriteRow vs) (InRows (sample_rows bin cs w)) =
    Some (Ret (Inr (), InRows (sample_rows bin cs w')))"
proof -
  obtain w' where w': "write_packet byteorder_ref d w = (Inr (), w')" "writer_reliable w'"
    using write_packet_reliable [OF _ d(1), of w byteorder_ref] w d(2) by (auto simp: sound_def ready_def)
  from emitsD [OF write_packet_emits [OF byteorder_ref_spec d(1)] _ w'(1)] w w'(2) have "sound w'"
    by (simp add: sound_def emitted_def same_limits_def)
  moreover have "respond byteorder_ref myc_ref C F (WriteRow vs) (InRows (sample_rows bin cs w)) =
      Some (Ret (Inr (), InRows (sample_rows bin cs w')))"
    using cs cols w'(1) by (simp add: write_row_def end_row_def then_io_def and_then_def via_result_def via_writer_def sample_rows_def
        row_init_def in_rows_def)
  ultimately show ?thesis by blast
qed

lemma sample_finished:
  assumes "sound w" and "cs \<noteq> []"
  shows "\<exists>r. respond byteorder_ref myc_ref C F (Finish []) (InRows (sample_rows bin cs w)) = Some (Ret (Inr (), r))"
proof -
  have "fits w [eof_payload 2]" using assms by (simp add: fits_def sound_def eof_payload_def usize_max_def)
  with completesD [OF eof_emits(2) [OF byteorder_ref_spec] _ _ this] assms obtain w' where
    "write_eof_packet byteorder_ref 2 w = (Inr (), w')" by (auto simp: sound_def)
  moreover have "set_flag 2 (status_bits myc_ref SERVER_MORE_RESULTS_EXISTS) False = (2 :: u16)"
    by (simp add: set_flag_def myc_ref_def ref_status_def)
  ultimately show ?thesis using sample_caps assms(2)
    by (simp add: finish_with_info_def finish_one_with_info_def finish_inner_def then_io_def and_then_def sample_rows_def row_init_def
        row_finalizer_def no_more_results_def finalize_def Let_def via_writer_def sample_query_def query_new_tracked_def to_spent_def)
qed

definition demo_result_run :: "(unit io_result \<times> response) rust" where
  "demo_result_run = run_program (respond byteorder_ref myc_ref chrono_ref fmt_none)
     (calls Inl (start_op [demo_column] None # map WriteRow [[VU32 7], [VNone]] @ [Finish []]) (Return (Inr ())))
     (Idle (sample_query False (new_writer demo_sink)))"

lemma demo_text_row:
  assumes "sound w" and "v = VU32 7 \<or> v = VNone"
  shows "\<exists>w'. sound w' \<and> respond byteorder_ref myc_ref chrono_ref fmt_none (WriteRow [v]) (InRows (sample_rows False [demo_column] w)) =
    Some (Ret (Inr (), InRows (sample_rows False [demo_column] w')))"
proof -
  have "dec 7 = [0x37]" by (simp add: dec.simps)
  then obtain ps where ps: "to_mysql_text_with_column myc_ref chrono_ref fmt_none v demo_column = Inr ps" "concat ps \<noteq> []"
    "length (concat ps) \<le> usize_max"
    using assms(2) by (auto simp: myc_ref_def lenenc_int_def usize_max_def)
  then have "write_cols byteorder_ref myc_ref chrono_ref fmt_none [v] (sample_rows False [demo_column] w) =
      Ret (Inr (), (sample_rows False [demo_column] w)\<lparr>rw_data := concat ps, rw_col := length [demo_column]\<rparr>)"
    using assms(1) by (simp add: write_col_def Let_def remaining_packet_capacity_def sound_def ready_def put_value_def row_buffer_fits
        sample_rows_def row_init_def)
  from sample_row [OF assms(1) _ ps(2,3) this] show ?thesis by simp
qed

lemma demo_result_succeeds: "\<exists>r. demo_result_run = Ret (Inr (), r)"
proof -
  have "fits (new_writer demo_sink) (lenenc_int (word_of_nat (length [demo_column])) #
      column_packets byteorder_ref myc_ref (map default_column_metadata [demo_column]) 0x200 False 2)"
    using sample_caps by (simp add: fits_def column_packets_def column_payload_def column_pieces_def default_column_metadata_def
        demo_column_def new_writer_def new_builder_def usize_max_def lenenc_int_def eof_payload_def byteorder_ref_def
        myc_ref_def default_metadata_def ascii_def column_charset_def)
  from sample_started [OF _ this, of chrono_ref fmt_none False] obtain w where "sound w"
    "respond byteorder_ref myc_ref chrono_ref fmt_none (start_op [demo_column] None) (Idle (sample_query False (new_writer demo_sink))) =
      Some (Ret (Inr (), InRows (sample_rows False [demo_column] w)))" by auto
  moreover from demo_text_row [OF this(1), of "VU32 7"] obtain w1 where "sound w1"
    "respond byteorder_ref myc_ref chrono_ref fmt_none (WriteRow [VU32 7]) (InRows (sample_rows False [demo_column] w)) =
      Some (Ret (Inr (), InRows (sample_rows False [demo_column] w1)))" by auto
  moreover from demo_text_row [OF this(1), of VNone] obtain w2 where "sound w2"
    "respond byteorder_ref myc_ref chrono_ref fmt_none (WriteRow [VNone]) (InRows (sample_rows False [demo_column] w1)) =
      Some (Ret (Inr (), InRows (sample_rows False [demo_column] w2)))" by auto
  moreover from sample_finished [OF this(1), of "[demo_column]" chrono_ref fmt_none False] obtain r where
    "respond byteorder_ref myc_ref chrono_ref fmt_none (Finish []) (InRows (sample_rows False [demo_column] w2)) = Some (Ret (Inr (), r))"
    by auto
  ultimately show ?thesis by (simp add: demo_result_run_def del: respond.simps)
qed

theorem result_set_understood_witness:
  "\<exists>r ps rows. demo_result_run = Ret (Inr (), r) \<and> emitted (new_writer demo_sink) ps (q_writer (response_writer r)) \<and>
    client_resultset byteorder_ref myc_ref 0x200 False ps =
      Some (\<lparr>cr_columns = [column_view myc_ref (default_column_metadata demo_column)], cr_rows = rows, cr_status = 2\<rparr>, []) \<and>
    list_all2 (row_denotes chrono_ref fmt_none False) [[VU32 7], [VNone]] rows"
proof -
  let ?q = "sample_query False (new_writer demo_sink)"
  obtain r where r: "demo_result_run = Ret (Inr (), r)" using demo_result_succeeds by blast
  have q: "has_cap myc_ref (q_capabilities ?q) CLIENT_PROTOCOL_41" "ready (q_writer ?q)"
    "max_packet_size (packet_builder (q_writer ?q)) \<le> usize_max" "last_end ?q = None"
    using sample_caps demo_sink_ready by (simp_all add: new_writer_def new_builder_def)
  have "set_flag 2 (status_bits myc_ref SERVER_MORE_RESULTS_EXISTS) False = (2 :: u16)"
    by (simp add: set_flag_def myc_ref_def ref_status_def)
  with result_set_understood [OF byteorder_ref_spec myc_ref_spec chrono_ref_spec q _ _ _ _ _ _ r [unfolded demo_result_run_def]] r
  show ?thesis by (auto simp: describable_def demo_column_def usize_max_def described_def)
qed

end
