(* ===== verification/Fixture.thy ===== *)
theory Fixture
  imports Examples Answers "HOL-Library.AList"
begin

text \<open>
  \<open>examples/connector_j_fixture.rs\<close>: the server against which the JDBC driver is tested, with
  prepared statements, transactions and system variables; a backend that uses most of the library. What
  it prints is left out, and its counters wrap, as they do in a release build. \<open>dbg\<close> is the derived \<open>Debug\<close>
  rendering of parameter values, \<open>draw\<close> the default challenge generation where it returns.
\<close>

subsection \<open>Functions on strings\<close>

definition to_ascii_lowercase :: "bytes \<Rightarrow> bytes" where
  "to_ascii_lowercase s = map (\<lambda>b. if byte_in 0x41 0x5A b then b + 0x20 else b) s"

text \<open>\<open>split_once\<close> at a text, which gives \<open>contains\<close>, and \<open>split\<close> at a character.\<close>

fun split_once :: "bytes \<Rightarrow> bytes \<Rightarrow> (bytes \<times> bytes) option" where
  "split_once p [] = (if p = [] then Some ([], []) else None)"
| "split_once p (b # s) =
     (if starts_with p (b # s) then Some ([], drop (length p) (b # s))
      else map_option (apfst (Cons b)) (split_once p s))"

definition contains_text :: "bytes \<Rightarrow> bytes \<Rightarrow> bool" where
  "contains_text p s \<longleftrightarrow> split_once p s \<noteq> None"

function split_on :: "u8 \<Rightarrow> bytes \<Rightarrow> bytes list" where
  "split_on c s = (case dropWhile (\<lambda>b. b \<noteq> c) s of [] \<Rightarrow> [s] | _ # r \<Rightarrow> takeWhile (\<lambda>b. b \<noteq> c) s # split_on c r)"
  by pat_completeness auto
termination
proof (relation "measure (\<lambda>(c, s). length s)", goal_cases)
  case (2 c s b r)
  then show ?case using length_dropWhile_le [of "\<lambda>b. b \<noteq> c" s] by simp
qed simp

declare split_on.simps [simp del]

text \<open>\<open>split_whitespace\<close>: no word begins inside a character, so the bytes can be taken one by one.\<close>

fun word_length :: "bytes \<Rightarrow> nat" where
  "word_length [] = 0"
| "word_length (b # s) = (if \<exists>c \<in> set white_space. starts_with c (b # s) then 0 else Suc (word_length s))"

lemma trim_front_length: "length (trim_front cs s) \<le> length s"
proof (induction cs s rule: trim_front.induct)
  case (1 cs s)
  show ?case
  proof (cases "find (\<lambda>c. c \<noteq> [] \<and> starts_with c s) cs")
    case None
    then show ?thesis by (subst trim_front.simps) simp
  next
    case (Some c)
    with 1 have "length (trim_front cs (drop (length c) s)) \<le> length (drop (length c) s)" by blast
    with Some show ?thesis by (subst trim_front.simps) simp
  qed
qed

lemma trim_front_stops: "c \<in> set cs \<Longrightarrow> c \<noteq> [] \<Longrightarrow> \<not> starts_with c (trim_front cs s)"
proof (induction cs s rule: trim_front.induct)
  case (1 cs s)
  show ?case
  proof (cases "find (\<lambda>c. c \<noteq> [] \<and> starts_with c s) cs")
    case None
    then have "trim_front cs s = s" by (subst trim_front.simps) simp
    with None 1(2,3) show ?thesis by (auto simp: find_None_iff)
  next
    case (Some c')
    with 1 have "\<not> starts_with c (trim_front cs (drop (length c') s))" by blast
    with Some show ?thesis by (subst trim_front.simps) simp
  qed
qed

lemma word_found: "trim_front white_space s \<noteq> [] \<Longrightarrow> 0 < word_length (trim_front white_space s)"
proof -
  assume "trim_front white_space s \<noteq> []"
  then obtain b r where br: "trim_front white_space s = b # r" by (cases "trim_front white_space s") auto
  have "\<forall>c \<in> set white_space. c \<noteq> []" by (simp add: white_space_def)
  with trim_front_stops [of _ white_space s] have "\<forall>c \<in> set white_space. \<not> starts_with c (b # r)" unfolding br by blast
  then show ?thesis unfolding br by simp
qed

function split_whitespace :: "bytes \<Rightarrow> bytes list" where
  "split_whitespace s = (let t = trim_front white_space s; n = word_length t in
     if t = [] then [] else take n t # split_whitespace (drop n t))"
  by pat_completeness auto
termination
proof (relation "measure length", goal_cases)
  case (2 s t n)
  then have "length (drop n t) < length t" using word_found [of s] by simp
  also have "\<dots> \<le> length s" using 2 trim_front_length by simp
  finally show ?case by simp
qed simp

declare split_whitespace.simps [simp del]

subsection \<open>State and tables\<close>

datatype Prepared = Echo | Metadata | Temporal | NegativeTemporal | TemporalEcho

record 'g fixture =
  fx_server :: "'g server"
  next_id :: u32
  fx_statements :: "(u32 \<times> Prepared) list"
  fx_status :: u16
  commits :: u64

definition fixture_default :: "myc_ops \<Rightarrow> 'g server \<Rightarrow> 'g fixture" where
  "fixture_default M s = \<lparr>fx_server = s, next_id = 0, fx_statements = [],
     fx_status = status_bits M SERVER_STATUS_AUTOCOMMIT, commits = 0\<rparr>"

definition fixture_column :: "string \<Rightarrow> ColumnType \<Rightarrow> Column" where
  "fixture_column name ty = \<lparr>table = [], column = ascii name, collen = 0, coltype = ty, colflags = 0\<rparr>"

definition echo_columns :: "Column list" where
  "echo_columns = [fixture_column ''id'' MYSQL_TYPE_LONGLONG, fixture_column ''text'' MYSQL_TYPE_VAR_STRING,
     fixture_column ''number'' MYSQL_TYPE_LONGLONG]"

definition metadata_columns :: "myc_ops \<Rightarrow> Column list \<times> ColumnMetadata list" where
  "metadata_columns M =
     ([(fixture_column ''binary_collation_text'' MYSQL_TYPE_VAR_STRING)\<lparr>colflags := colflag_bits M BINARY_FLAG\<rparr>,
       (fixture_column ''text'' MYSQL_TYPE_BLOB)\<lparr>colflags := colflag_bits M BLOB_FLAG\<rparr>,
       (fixture_column ''bytes'' MYSQL_TYPE_BLOB)\<lparr>colflags := colflag_bits M BLOB_FLAG OR colflag_bits M BINARY_FLAG\<rparr>,
       fixture_column ''decimal'' MYSQL_TYPE_NEWDECIMAL],
      [\<lparr>collation = Some 46, decimals = 0\<rparr>, \<lparr>collation = Some 45, decimals = 0\<rparr>,
       \<lparr>collation = Some 63, decimals = 0\<rparr>, \<lparr>collation = Some 63, decimals = 2\<rparr>])"

definition temporal_columns :: "Column list \<times> ColumnMetadata list" where
  "temporal_columns =
     ([fixture_column ''date'' MYSQL_TYPE_DATE, fixture_column ''datetime'' MYSQL_TYPE_DATETIME,
       fixture_column ''time'' MYSQL_TYPE_TIME],
      [\<lparr>collation = Some 63, decimals = 0\<rparr>, \<lparr>collation = Some 63, decimals = 6\<rparr>, \<lparr>collation = Some 63, decimals = 6\<rparr>])"

text \<open>The rows of \<open>temporal_result\<close>, in the order in which they are written.\<close>

definition temporal_rows :: "bool \<Rightarrow> ('d, 'dt) to_mysql_value list list" where
  "temporal_rows negative = map (map VMyc)
     ([[MyDate 2026 9 27 0 0 0 0, MyDate 2026 9 27 1 2 3 123456, MyTime negative 1 1 2 3 123456],
       [MyDate 0 0 0 0 0 0 0, MyDate 0 0 0 0 0 0 0, MyTime False 0 0 0 0 0],
       [MyDate 9999 12 31 0 0 0 0, MyDate 9999 12 31 23 59 59 999999, MyTime negative 34 22 59 58 999999]] @
      (if negative then map (\<lambda>v. [MyDate 0 0 0 0 0 0 0, MyDate 0 0 0 0 0 0 0, v])
        [MyTime True 0 0 0 0 1, MyTime True 0 0 2 3 456789, MyTime True 0 1 2 3 0, MyTime True 0 23 59 59 999999,
         MyTime True 1 0 0 0 0, MyTime True 34 22 59 59 0, MyTime True 0 0 0 0 0, MyNULL] else []))"

definition temporal_result :: "bool \<Rightarrow> (('d, 'dt) response_op, 's, io_error) callback" where
  "temporal_result negative = (case temporal_columns of (cols, metadata) \<Rightarrow>
     respond_with (StartWithMetadata cols metadata # map WriteRow (temporal_rows negative) @ [Finish []]))"

definition chinese_smiling :: bytes where
  "chinese_smiling = [0xE4, 0xB8, 0xAD, 0xE6, 0x96, 0x87, 0xF0, 0x9F, 0x99, 0x82]"

definition metadata_result :: "myc_ops \<Rightarrow> (('d, 'dt) response_op, 's, io_error) callback" where
  "metadata_result M = (case metadata_columns M of (cols, metadata) \<Rightarrow>
     respond_with [StartWithMetadata cols metadata,
       WriteRow (map (\<lambda>b. VRef (VBytes b))
         [chinese_smiling, [0xE6, 0x96, 0x87, 0xE6, 0x9C, 0xAC, 0xF0, 0x9F, 0x99, 0x82], [0, 0xFF, 0x80], ascii ''12.34'']),
       Finish []])"

definition system_variable :: "bytes \<Rightarrow> bytes option" where
  "system_variable name = map_of (map (\<lambda>(n, v). (ascii n, ascii v))
     [(''auto_increment_increment'', ''1''),
      (''character_set_client'', ''utf8mb4''), (''character_set_connection'', ''utf8mb4''),
      (''character_set_results'', ''utf8mb4''), (''character_set_server'', ''utf8mb4''),
      (''collation_server'', ''utf8mb4_general_ci''), (''collation_connection'', ''utf8mb4_general_ci''),
      (''init_connect'', []), (''sql_mode'', []),
      (''interactive_timeout'', ''28800''), (''wait_timeout'', ''28800''),
      (''lower_case_table_names'', ''0''), (''max_allowed_packet'', ''67108864''), (''net_write_timeout'', ''60''),
      (''performance_schema'', ''0''), (''query_cache_size'', ''0''), (''query_cache_type'', ''0''),
      (''system_time_zone'', ''UTC''), (''time_zone'', ''UTC''),
      (''transaction_isolation'', ''REPEATABLE-READ''), (''tx_isolation'', ''REPEATABLE-READ''),
      (''transaction_read_only'', ''0''), (''tx_read_only'', ''0''),
      (''autocommit'', ''1''), (''license'', ''Apache-2.0'')]) name"

subsection \<open>Prepared statements\<close>

definition ER_NOT_SUPPORTED_YET :: ErrorKind where "ER_NOT_SUPPORTED_YET = ErrorKind 1235"
definition ER_UNKNOWN_SYSTEM_VARIABLE :: ErrorKind where "ER_UNKNOWN_SYSTEM_VARIABLE = ErrorKind 1193"

definition prepared_kind :: "bytes \<Rightarrow> Prepared option" where
  "prepared_kind sql = map_of (map (apfst ascii)
     [(''SELECT ?, ?, ?'', Echo), (''SELECT metadata'', Metadata), (''SELECT temporal'', Temporal),
      (''SELECT negative_temporal'', NegativeTemporal), (''SELECT temporal(?, ?, ?)'', TemporalEcho)]) sql"

definition fixture_on_prepare :: "myc_ops \<Rightarrow> bytes \<Rightarrow> (prepare_op, 'g fixture, io_error) callback" where
  "fixture_on_prepare M sql s = (case prepared_kind (trim sql) of
     None \<Rightarrow> respond_with [PrepareFail ER_NOT_SUPPORTED_YET (ascii ''unsupported fixture prepare'')] s
   | Some kind \<Rightarrow>
       let i = next_id s + 1;
           s = s\<lparr>next_id := i, fx_statements := AList.update i kind (fx_statements s)\<rparr> in
       respond_with [case kind of
           Metadata \<Rightarrow> (case metadata_columns M of (cols, metadata) \<Rightarrow> ReplyWithMetadata i [] cols [] metadata)
         | TemporalEcho \<Rightarrow> (case temporal_columns of (cols, metadata) \<Rightarrow> ReplyWithMetadata i cols cols metadata metadata)
         | Echo \<Rightarrow> Reply i echo_columns echo_columns
         | _ \<Rightarrow> (case temporal_columns of (cols, metadata) \<Rightarrow> ReplyWithMetadata i [] cols [] metadata)] s)"

text \<open>\<open>params.next().unwrap()\<close>, three times.\<close>

definition next_param :: "byteorder_ops \<Rightarrow> myc_ops \<Rightarrow> Params \<Rightarrow> (ValueInner \<times> Params) rust" where
  "next_param B M it = (case params_next B M it of Ret (Some p, it) \<Rightarrow> Ret (pv_value p, it) | _ \<Rightarrow> Panicked)"

definition nullable :: "(ValueInner \<Rightarrow> 'a io_result rust) \<Rightarrow> ValueInner \<Rightarrow> 'a option io_result rust" where
  "nullable conv v = (if v = NULL then Ret (Inr None) else map_rust (map_sum id Some) (conv v))"

text \<open>A conversion with \<open>?\<close>, which returns from the callback when it fails.\<close>

fun converted :: "'s \<Rightarrow> 'a io_result rust \<Rightarrow> ('a \<Rightarrow> ('op, (io_error + unit) \<times> 's) program) \<Rightarrow>
    ('op, (io_error + unit) \<times> 's) program" where
  "converted s Panicked k = Panic"
| "converted s (Ret (Inl e)) k = Return (Inl e, s)"
| "converted s (Ret (Inr x)) k = k x"

definition option_value :: "('a \<Rightarrow> ('d, 'dt) to_mysql_value) \<Rightarrow> 'a option \<Rightarrow> ('d, 'dt) to_mysql_value" where
  "option_value f v = (case v of None \<Rightarrow> VNone | Some x \<Rightarrow> VSome (f x))"

definition temporal_echo :: "byteorder_ops \<Rightarrow> myc_ops \<Rightarrow> ('d, 'dt) chrono_ops \<Rightarrow> (ValueInner \<Rightarrow> bytes) \<Rightarrow> Params \<Rightarrow>
    (('d, 'dt) response_op, 's, io_error) callback" where
  "temporal_echo B M C dbg it s =
     (case next_param B M it of Panicked \<Rightarrow> Panic | Ret (date, it) \<Rightarrow>
     (case next_param B M it of Panicked \<Rightarrow> Panic | Ret (datetime, it) \<Rightarrow>
     (case next_param B M it of Panicked \<Rightarrow> Panic | Ret (time, it) \<Rightarrow>
       converted s (nullable (\<lambda>v. Ret (try_into_date B C dbg v)) date) (\<lambda>date.
       converted s (nullable (to_naive_datetime B C dbg) datetime) (\<lambda>datetime.
       converted s (nullable (\<lambda>v. Ret (try_into_duration B dbg v)) time) (\<lambda>time.
       case temporal_columns of (cols, metadata) \<Rightarrow>
         respond_with [StartWithMetadata cols metadata, WriteCol (option_value VNaiveDate date),
           WriteCol (option_value VNaiveDateTime datetime), WriteCol (option_value VDuration time), EndRow, Finish []] s))))))"

text \<open>What the echo statement sends back for a parameter; any other value is a panic.\<close>

fun echo_value :: "ValueInner \<Rightarrow> MycValue rust" where
  "echo_value NULL = Ret MyNULL"
| "echo_value (IntV n) = Ret (MyInt n)"
| "echo_value (UInt n) = (if uint n < 2 ^ 63 then Ret (MyInt n) else Panicked)"
| "echo_value (Bytes b) = Ret (MyBytes b)"
| "echo_value _ = Panicked"

fun echo_values :: "ValueInner list \<Rightarrow> MycValue list rust" where
  "echo_values [] = Ret []"
| "echo_values (v # vs) = (case echo_value v of Panicked \<Rightarrow> Panicked | Ret x \<Rightarrow> map_rust (Cons x) (echo_values vs))"

text \<open>The iterator ends after as many parameters as the statement has (\<open>collect_parsed\<close>).\<close>

definition echo_result :: "byteorder_ops \<Rightarrow> myc_ops \<Rightarrow> Params \<Rightarrow> (('d, 'dt) response_op, 's, io_error) callback" where
  "echo_result B M it s = (case params_collect B M (Suc (unat (it_params it))) it of
     Some (Ret ps) \<Rightarrow> (case echo_values (map pv_value ps) of
         Panicked \<Rightarrow> Panic
       | Ret values \<Rightarrow> respond_with [Start echo_columns, WriteRow (map VMyc values), Finish []] s)
   | _ \<Rightarrow> Panic)"

definition fixture_on_execute :: "byteorder_ops \<Rightarrow> myc_ops \<Rightarrow> ('d, 'dt) chrono_ops \<Rightarrow> (ValueInner \<Rightarrow> bytes) \<Rightarrow>
    u32 \<Rightarrow> Params \<Rightarrow> (('d, 'dt) response_op, 'g fixture, io_error) callback" where
  "fixture_on_execute B M C dbg i it s = (case map_of (fx_statements s) i of
     None \<Rightarrow> Panic
   | Some Metadata \<Rightarrow> metadata_result M s
   | Some Temporal \<Rightarrow> temporal_result False s
   | Some NegativeTemporal \<Rightarrow> temporal_result True s
   | Some TemporalEcho \<Rightarrow> temporal_echo B M C dbg it s
   | Some Echo \<Rightarrow> echo_result B M it s)"

definition fixture_on_close :: "u32 \<Rightarrow> 'g fixture \<Rightarrow> 'g fixture" where
  "fixture_on_close i s = s\<lparr>fx_statements := remove_entry i (fx_statements s)\<rparr>"

subsection \<open>Queries\<close>

text \<open>What a statement changes before it is answered.\<close>

definition transaction_effect :: "myc_ops \<Rightarrow> bytes \<Rightarrow> 'g fixture \<Rightarrow> 'g fixture" where
  "transaction_effect M lower s =
     (let autocommit = status_bits M SERVER_STATUS_AUTOCOMMIT; in_trans = status_bits M SERVER_STATUS_IN_TRANS in
      if lower = ascii ''set autocommit=0'' then s\<lparr>fx_status := set_flag (fx_status s) autocommit False\<rparr>
      else if lower = ascii ''set autocommit=1'' then s\<lparr>fx_status := autocommit\<rparr>
      else if lower = ascii ''begin'' then s\<lparr>fx_status := set_flag (fx_status s) in_trans True\<rparr>
      else if lower = ascii ''commit'' \<or> lower = ascii ''rollback'' then
        s\<lparr>commits := (if lower = ascii ''commit'' then commits s + 1 else commits s),
          fx_status := set_flag (fx_status s) in_trans False\<rparr>
      else s)"

text \<open>
  The system variables asked for, with the names of their columns: \<open>Inl\<close> the first unknown one. An
  expression without a word is a panic.
\<close>

fun system_variables :: "bytes list \<Rightarrow> (bytes + (bytes \<times> bytes) list) rust" where
  "system_variables [] = Ret (Inr [])"
| "system_variables (expression # es) =
     (case split_whitespace expression of
        [] \<Rightarrow> Panicked
      | piece # pieces \<Rightarrow>
          let name = last (split_on 0x2E (trim_front [[0x40]] piece));
              alias = trim_matches 0x60 (last (piece # pieces)) in
          (case system_variable name of
             None \<Rightarrow> Ret (Inl name)
           | Some v \<Rightarrow> map_rust (map_sum id (Cons (alias, v))) (system_variables es)))"

definition text_column :: "bytes \<Rightarrow> ColumnType \<Rightarrow> Column" where
  "text_column name ty = \<lparr>table = [], column = name, collen = 0, coltype = ty, colflags = 0\<rparr>"

definition variables_result :: "bytes \<Rightarrow> (('d, 'dt) response_op, 's, io_error) callback" where
  "variables_result lower s = (case system_variables (split_on 0x2C (drop 7 lower)) of
     Panicked \<Rightarrow> Panic
   | Ret (Inl name) \<Rightarrow> respond_with [Error ER_UNKNOWN_SYSTEM_VARIABLE name] s
   | Ret (Inr vars) \<Rightarrow> respond_with [Start (map (\<lambda>(alias, _). text_column alias MYSQL_TYPE_VAR_STRING) vars),
       WriteRow (map (\<lambda>(_, v). VRef (VBytes v)) vars), Finish []] s)"

definition large_result :: "bool \<Rightarrow> (('d, 'dt) response_op, 's, io_error) callback" where
  "large_result large =
     (let data = replicate (if large then U24_MAX + 1 else 64 * 1024) 0x78 in
      respond_with ([Start [fixture_column ''payload'' MYSQL_TYPE_BLOB]] @
        replicate (if large then 1 else 10000) (WriteRow [VRef (VBytes data)]) @ [Finish []]))"

definition strip_prefix :: "bytes \<Rightarrow> bytes \<Rightarrow> bytes option" where
  "strip_prefix p s = (if starts_with p s then Some (drop (length p) s) else None)"

definition uncommented :: "bytes \<Rightarrow> bytes" where
  "uncommented sql =
     (let q = trim sql in
      if starts_with (ascii ''/*'') q then
        (case split_once (ascii ''*/'') q of Some (_, tail) \<Rightarrow> trim tail | None \<Rightarrow> q)
      else q)"

definition fixture_on_query :: "myc_ops \<Rightarrow> bytes \<Rightarrow> (('d, 'dt) response_op, 'g fixture, io_error) callback" where
  "fixture_on_query M sql s =
     (let q = uncommented sql; lower = to_ascii_lowercase q in
      if lower = ascii ''select metadata'' then metadata_result M s
      else if lower = ascii ''select temporal'' then temporal_result False s
      else if lower = ascii ''select negative_temporal'' then temporal_result True s
      else if lower = ascii ''select commits'' then
        respond_with [Start [fixture_column ''commits'' MYSQL_TYPE_LONGLONG], WriteRow [VU64 (commits s)], Finish []] s
      else
        let s = transaction_effect M lower s; value_column = [fixture_column ''value'' MYSQL_TYPE_VAR_STRING] in
        if starts_with (ascii ''select '') lower \<and> contains_text (ascii ''@@'') lower then variables_result lower s
        else if starts_with (ascii ''set '') lower \<or> lower \<in> {ascii ''rollback'', ascii ''commit'', ascii ''begin''} then
          respond_with [CompletedWithStatus (default_ok\<lparr>ok_status_flags := fx_status s\<rparr>)] s
        else if q = ascii ''SELECT unicode'' then
          respond_with [Start value_column, WriteRow [VRef (VBytes chinese_smiling)], Finish []] s
        else (case strip_prefix (ascii ''SELECT marker_'') q of
          Some marker \<Rightarrow> respond_with [Start value_column, WriteRow [VRef (VBytes marker)], Finish []] s
        | None \<Rightarrow>
            if q = ascii ''SELECT large'' \<or> q = ascii ''SELECT stream'' then large_result (q = ascii ''SELECT large'') s
            else respond_with [Error ER_NOT_SUPPORTED_YET (ascii ''unsupported fixture SQL'')] s))"

subsection \<open>The backend\<close>

definition fixture_authenticate :: "'s \<Rightarrow> bytes \<Rightarrow> bytes \<Rightarrow> bytes \<Rightarrow> bytes \<Rightarrow> bool" where
  "fixture_authenticate s plugin user challenge auth_data \<longleftrightarrow> user = ascii ''test'' \<and> auth_data = []"

definition fixture_backend :: "byteorder_ops \<Rightarrow> myc_ops \<Rightarrow> ('d, 'dt) chrono_ops \<Rightarrow> (ValueInner \<Rightarrow> bytes) \<Rightarrow>
    ('g \<Rightarrow> bytes \<times> 'g) \<Rightarrow> ('g fixture, io_error, 'd, 'dt) shim" where
  "fixture_backend B M C dbg draw =
     \<lparr>from_io = id, server_version = (\<lambda>s. ascii ''8.0.36-opensrv-test''),
      connect_id = (\<lambda>s. apsnd (\<lambda>x. s\<lparr>fx_server := x\<rparr>) (server_connect_id (fx_server s))),
      default_auth_plugin = default_default_auth_plugin, auth_plugin_for_username = default_auth_plugin_for_username,
      salt = (\<lambda>s. apsnd (\<lambda>x. s\<lparr>fx_server := x\<rparr>) (server_salt draw (fx_server s))),
      authenticate = fixture_authenticate, on_prepare = fixture_on_prepare M, on_execute = fixture_on_execute B M C dbg,
      on_execute_cursor = default_on_execute_cursor id, on_fetch = default_on_fetch id,
      on_close_cursor = default_on_close_cursor, on_close = fixture_on_close, on_reset_connection = default_on_reset_connection,
      on_query = fixture_on_query M, on_system_variable = default_on_system_variable M id (fixture_on_query M),
      on_init = default_on_init id\<rparr>"

text \<open>One connection: only the writer is buffered.\<close>

definition fixture_connection :: "buffering \<Rightarrow> byteorder_ops \<Rightarrow> myc_ops \<Rightarrow> ('d, 'dt) chrono_ops \<Rightarrow> ('d, 'dt) fmt_ops \<Rightarrow>
    Command nom_ops \<Rightarrow> (bytes \<Rightarrow> bytes) \<Rightarrow> (ValueInner \<Rightarrow> bytes) \<Rightarrow> ('g \<Rightarrow> bytes \<times> 'g) \<Rightarrow> bool \<Rightarrow> nat \<Rightarrow> 'g server \<Rightarrow>
    rd_event list \<Rightarrow> sink \<Rightarrow> ('g fixture, io_error) outcome option" where
  "fixture_connection U B M C F N debug dbg draw with_tls fuel st input s =
     run_with_options B M C F N debug (fixture_backend B M C dbg draw) with_tls fuel (fixture_default M st) input
       (buf_writer U (8 * 1024) s) ((default_options M)\<lparr>opt_max_packet_size := Some (64 * 1024 * 1024)\<rparr>)"

subsection \<open>What the echo statement returns\<close>

text \<open>What a client should read for a parameter that it has sent.\<close>

definition echoed :: "ValueInner \<Rightarrow> ValueInner option \<Rightarrow> bool" where
  "echoed v x = (case v of
     NULL \<Rightarrow> x = None
   | IntV n \<Rightarrow> (case x of None \<Rightarrow> False | Some y \<Rightarrow> int_of_value y = Some (sint n))
   | UInt n \<Rightarrow> (case x of None \<Rightarrow> False | Some y \<Rightarrow> int_of_value y = Some (uint n))
   | Bytes b \<Rightarrow> x = Some (Bytes b)
   | _ \<Rightarrow> False)"

lemma calls_result:
  "run_program step (calls err ops (Return y)) st = Ret (x, st') \<Longrightarrow> x = y \<or> (\<exists>e. x = err e)"
proof (induction ops arbitrary: st)
  case (Cons op ops)
  then obtain res :: "unit io_result" and st1 where "run_program step (case res of Inl e \<Rightarrow> Return (err e) | Inr _ \<Rightarrow> calls err ops (Return y)) st1 = Ret (x, st')"
    by (auto split: option.splits rust.splits)
  with Cons.IH show ?case by (cases res) auto
qed simp

lemma echo_value_echoed:
  assumes "echo_value v = Ret m" and "binary_cell C (VMyc m) x"
  shows "echoed v x"
proof -
  have "sint n = uint n" if "uint n < 2 ^ 63" for n :: u64
    using that by (simp add: sint_uint signed_take_bit_int_eq_self)
  with assms show ?thesis
    by (cases v; cases x) (auto simp: echoed_def binary_cell_def split: if_splits)
qed

lemma echo_values_list: "echo_values vs = Ret ms \<Longrightarrow> list_all2 (\<lambda>v m. echo_value v = Ret m) vs ms"
proof (induction vs arbitrary: ms)
  case (Cons v vs)
  then show ?case by (cases "echo_value v"; cases "echo_values vs") auto
qed simp

lemma echo_value_proper:
  "echo_value v = Ret m \<Longrightarrow> (case v of Bytes b \<Rightarrow> length b \<le> usize_max | _ \<Rightarrow> True) \<Longrightarrow> proper_value C (VMyc m)"
  by (cases v) (auto split: if_splits)

lemma echo_columns_describable: "list_all describable echo_columns"
  by (simp add: echo_columns_def fixture_column_def describable_def ascii_def usize_max_def)

text \<open>The echo statement sends the parameters back, whatever they were read from.\<close>

lemma echo_row:
  assumes spec: "byteorder_spec B" "myc_spec M" "chrono_spec C" "has_cap M (q_capabilities q) CLIENT_PROTOCOL_41"
    and q: "ready (q_writer q)" "max_packet_size (packet_builder (q_writer q)) \<le> usize_max" "last_end q = None" "is_bin q"
    and params: "params_collect B M (Suc (unat (it_params it))) it = Some (Ret ps)"
      "\<forall>p \<in> set ps. case pv_value p of Bytes b \<Rightarrow> length b \<le> usize_max | _ \<Rightarrow> True"
    and run: "run_program (respond B M C F) (echo_result B M it s) (Idle q) = Ret ((Inr (), s'), r)"
  shows "s' = s \<and> (\<exists>packets cells. emitted (q_writer q) packets (q_writer (response_writer r)) \<and>
    client_resultset B M (q_capabilities q) True packets =
      Some (\<lparr>cr_columns = map (column_view M) (map default_column_metadata echo_columns), cr_rows = [BinaryRow cells],
        cr_status = set_flag (default_status q) (status_bits M SERVER_MORE_RESULTS_EXISTS) False\<rparr>, []) \<and>
    list_all2 echoed (map pv_value ps) cells)"
proof -
  obtain vals where v: "echo_values (map pv_value ps) = Ret vals"
    using run unfolding echo_result_def params(1) by (cases "echo_values (map pv_value ps)") simp_all
  have echo: "list_all2 (\<lambda>v m. echo_value v = Ret m) (map pv_value ps) vals" by (rule echo_values_list [OF v])
  let ?err = "\<lambda>e. (Inl e :: io_error + unit, s)"
  have prog: "run_program (respond B M C F) (calls ?err (start_op echo_columns None # map WriteRow [map VMyc vals] @ [Finish []])
      (Return (Inr (), s))) (Idle q) = Ret ((Inr (), s'), r)"
    using run unfolding echo_result_def params(1) option.case rust.case v respond_with_def by (simp only: start_op_def option.case list.map append.simps)
  from calls_result [OF prog] have s': "s' = s" by auto
  have "list_all (list_all (proper_value C)) [map VMyc vals]"
    using echo params(2) echo_value_proper [of _ _ C]
    by (fastforce simp: list_all_iff list_all2_conv_all_nth in_set_conv_nth)
  from result_set_read [OF spec q(1-3) _ _ echo_columns_describable this _ _ prog [unfolded s']] q(4) obtain packets rows where
    sent: "emitted (q_writer q) packets (q_writer (response_writer r))"
    and read: "client_resultset B M (q_capabilities q) True packets =
      Some (\<lparr>cr_columns = map (column_view M) (described echo_columns None), cr_rows = rows,
        cr_status = set_flag (default_status q) (status_bits M SERVER_MORE_RESULTS_EXISTS) False\<rparr>, [])"
    and rows: "list_all2 (row_denotes C F True) [map VMyc vals] rows"
    by (auto simp: echo_columns_def usize_max_def)
  from rows obtain cells where cells: "rows = [BinaryRow cells]" "list_all2 (binary_cell C) (map VMyc vals) cells"
    by (auto simp: list_all2_Cons1 elim: row_denotes.elims)
  have "list_all2 echoed (map pv_value ps) cells"
    using echo cells(2) echo_value_echoed by (fastforce simp: list_all2_conv_all_nth)
  with s' sent read cells(1) show ?thesis by (auto simp: described_def)
qed

text \<open>C14: the parameters of the echo statement survive the way from the client through the parameter parser,
  the backend and the row writer back to the client: a client that encodes NULLs, integers, text or long
  data as parameters, and is answered without an error, reads from the packets of the answer one row of
  three columns with those values in their order.\<close>

theorem echo_returns_parameters:
  assumes "byteorder_spec B" and "myc_spec M" and "chrono_spec C" and "has_cap M (q_capabilities q) CLIENT_PROTOCOL_41"
    and "ready (q_writer q)" and "max_packet_size (packet_builder (q_writer q)) \<le> usize_max" and "last_end q = None" and "is_bin q"
    and "client_params_ok nullmap (long_data stmt) ps" and "ps \<noteq> []" and "length ps = unat (params stmt)"
    and "binding = [0] \<and> bound_types stmt = map fst ps \<or>
         (\<exists>b typmap. binding = b # typmap \<and> b \<noteq> 0 \<and> type_bytes_of M typmap (map fst ps))"
    and "param_parser_new B M (nullmap @ binding @ client_data (long_data stmt) 0 ps) stmt = (Inr it, stmt')"
    and "\<forall>k < length ps. case pv_value (client_value (long_data stmt) k (ps ! k)) of Bytes b \<Rightarrow> length b \<le> usize_max | _ \<Rightarrow> True"
    and "map_of (fx_statements s) i = Some Echo"
    and "run_program (respond B M C F) (on_execute (fixture_backend B M C dbg draw) i it s) (Idle q) = Ret ((Inr (), s'), r)"
  shows "\<exists>packets cells. emitted (q_writer q) packets (q_writer (response_writer r)) \<and>
    client_resultset B M (q_capabilities q) True packets =
      Some (\<lparr>cr_columns = map (column_view M) (map default_column_metadata echo_columns), cr_rows = [BinaryRow cells],
        cr_status = set_flag (default_status q) (status_bits M SERVER_MORE_RESULTS_EXISTS) False\<rparr>, []) \<and>
    list_all2 echoed (map (\<lambda>k. pv_value (client_value (long_data stmt) k (ps ! k))) [0..<length ps]) cells"
proof -
  let ?vs = "map (\<lambda>k. client_value (long_data stmt) k (ps ! k)) [0..<length ps]"
  have collected: "params_collect B M (Suc (length ps)) it = Some (Ret ?vs)" and "stmt' = stmt\<lparr>bound_types := map fst ps\<rparr>"
    using client_params_received [OF assms(1,2,9-12)] assms(13) by auto
  then have "it_params it = params stmt" using assms(13) by (auto simp: param_parser_new_def split: prod.splits sum.splits)
  then have "params_collect B M (Suc (unat (it_params it))) it = Some (Ret ?vs)" using collected assms(11) by simp
  moreover have "\<forall>p \<in> set ?vs. case pv_value p of Bytes b \<Rightarrow> length b \<le> usize_max | _ \<Rightarrow> True" using assms(14) by simp
  moreover have "run_program (respond B M C F) (echo_result B M it s) (Idle q) = Ret ((Inr (), s'), r)"
    using assms(15,16) by (simp add: fixture_backend_def fixture_on_execute_def)
  ultimately show ?thesis using echo_row [OF assms(1-8)] by (fastforce simp: comp_def)
qed

definition demo_echo_params :: "client_param list" where
  "demo_echo_params = [((MYSQL_TYPE_TINY, False), Some ([42], IntV 42)), ((MYSQL_TYPE_BLOB, False), None),
     ((MYSQL_TYPE_TINY, False), None)]"

definition demo_echo_statement :: StatementData where
  "demo_echo_statement = new_statement\<lparr>params := 3\<rparr>"

definition demo_echo_row :: "('d, 'dt) to_mysql_value list" where
  "demo_echo_row = map VMyc [MyInt 42, MyNULL, MyNULL]"

lemma demo_echo_cols:
  assumes "sound w"
  shows "write_cols byteorder_ref myc_ref chrono_ref fmt_none demo_echo_row (sample_rows True echo_columns w) =
    Ret (Inr (), (sample_rows True echo_columns w)\<lparr>rw_data := [0, 24, 42, 0, 0, 0, 0, 0, 0, 0], rw_col := length echo_columns\<rparr>)"
proof -
  note defs = sample_rows_def row_init_def echo_columns_def fixture_column_def
  have room: "remaining_packet_capacity w = usize_max"
    using assms by (simp add: sound_def ready_def remaining_packet_capacity_def)
  have "to_mysql_bin byteorder_ref myc_ref chrono_ref fmt_none (VMyc (MyInt 42)) (fixture_column ''id'' MYSQL_TYPE_LONGLONG) =
      Ret (Inr [[42, 0, 0, 0, 0, 0, 0, 0]])"
    by code_simp
  then have "write_col byteorder_ref myc_ref chrono_ref fmt_none (VMyc (MyInt 42)) (sample_rows True echo_columns w) =
      Ret (Inr (), (sample_rows True echo_columns w)\<lparr>rw_data := [0, 0, 42, 0, 0, 0, 0, 0, 0, 0], rw_col := 1\<rparr>)"
    by (simp add: write_col_def Let_def room defs resize_def put_value_def row_buffer_write_def checked_add_def usize_max_def
        numeral_2_eq_2 del: to_mysql_bin.simps)
  moreover have "\<not> contains 0 (colflag_bits myc_ref NOT_NULL_FLAG)" by (simp add: contains_def myc_ref_def ref_colflag_def)
  then have "write_col byteorder_ref myc_ref chrono_ref fmt_none (VMyc MyNULL)
        ((sample_rows True echo_columns w)\<lparr>rw_data := [0, 0, 42, 0, 0, 0, 0, 0, 0, 0], rw_col := 1\<rparr>) =
      Ret (Inr (), (sample_rows True echo_columns w)\<lparr>rw_data := [0, 8, 42, 0, 0, 0, 0, 0, 0, 0], rw_col := 2\<rparr>)"
    "write_col byteorder_ref myc_ref chrono_ref fmt_none (VMyc MyNULL)
        ((sample_rows True echo_columns w)\<lparr>rw_data := [0, 8, 42, 0, 0, 0, 0, 0, 0, 0], rw_col := 2\<rparr>) =
      Ret (Inr (), (sample_rows True echo_columns w)\<lparr>rw_data := [0, 24, 42, 0, 0, 0, 0, 0, 0, 0], rw_col := length echo_columns\<rparr>)"
    by (simp_all add: write_col_def Let_def defs put_null_def)
  ultimately show ?thesis by (simp add: demo_echo_row_def)
qed

lemma demo_echo_answered:
  "\<exists>r. run_program (respond byteorder_ref myc_ref chrono_ref fmt_none) (respond_with [Start echo_columns, WriteRow demo_echo_row, Finish []] s)
     (Idle (sample_query True (new_writer demo_sink))) = Ret ((Inr (), s), r)"
proof -
  have "fits (new_writer demo_sink) (lenenc_int (word_of_nat (length echo_columns)) #
      column_packets byteorder_ref myc_ref (map default_column_metadata echo_columns) 0x200 False 2)"
    using sample_caps by (simp add: fits_def column_packets_def column_payload_def column_pieces_def default_column_metadata_def
        echo_columns_def fixture_column_def new_writer_def new_builder_def usize_max_def lenenc_int_def eof_payload_def byteorder_ref_def
        myc_ref_def default_metadata_def ascii_def column_charset_def)
  from sample_started [OF _ this, of chrono_ref fmt_none True] obtain w where "sound w"
    "respond byteorder_ref myc_ref chrono_ref fmt_none (start_op echo_columns None) (Idle (sample_query True (new_writer demo_sink))) =
      Some (Ret (Inr (), InRows (sample_rows True echo_columns w)))" by (auto simp: echo_columns_def)
  moreover from sample_row [OF this(1) _ _ _ demo_echo_cols [OF this(1)]] obtain w1 where "sound w1"
    "respond byteorder_ref myc_ref chrono_ref fmt_none (WriteRow demo_echo_row) (InRows (sample_rows True echo_columns w)) =
      Some (Ret (Inr (), InRows (sample_rows True echo_columns w1)))" by (auto simp: echo_columns_def usize_max_def)
  moreover from sample_finished [OF this(1), of echo_columns chrono_ref fmt_none True] obtain r where
    "respond byteorder_ref myc_ref chrono_ref fmt_none (Finish []) (InRows (sample_rows True echo_columns w1)) = Some (Ret (Inr (), r))"
    by (auto simp: echo_columns_def)
  ultimately show ?thesis by (simp add: respond_with_def start_op_def del: respond.simps)
qed

definition demo_fixture :: "unit fixture" where
  "demo_fixture = (fixture_default myc_ref \<lparr>next_connection = 1, entropy = ()\<rparr>)\<lparr>next_id := 1, fx_statements := [(1, Echo)]\<rparr>"

definition demo_echo_params_input :: bytes where
  "demo_echo_params_input = [6] @ [1, 1, 0, 252, 0, 1, 0] @ client_data (long_data demo_echo_statement) 0 demo_echo_params"

definition demo_echo_iterator :: Params where
  "demo_echo_iterator = \<lparr>it_params = 3, it_input = demo_echo_params_input, it_nullmap = None, it_col = 0, it_long_data = [],
     it_bound_types = map fst demo_echo_params\<rparr>"

lemma demo_echo_parsed:
  "param_parser_new byteorder_ref myc_ref demo_echo_params_input demo_echo_statement =
     (Inr demo_echo_iterator, demo_echo_statement\<lparr>bound_types := map fst demo_echo_params\<rparr>)"
  by code_simp

lemma demo_echo_collected:
  "params_collect byteorder_ref myc_ref (Suc (unat (it_params demo_echo_iterator))) demo_echo_iterator =
     Some (Ret [\<lparr>pv_value = IntV 42, pv_coltype = MYSQL_TYPE_TINY\<rparr>, \<lparr>pv_value = NULL, pv_coltype = MYSQL_TYPE_BLOB\<rparr>,
       \<lparr>pv_value = NULL, pv_coltype = MYSQL_TYPE_TINY\<rparr>])"
  by code_simp

lemma demo_echo_runs:
  "\<exists>r. run_program (respond byteorder_ref myc_ref chrono_ref fmt_none)
     (on_execute (fixture_backend byteorder_ref myc_ref chrono_ref dbg draw) 1 demo_echo_iterator demo_fixture)
     (Idle (sample_query True (new_writer demo_sink))) = Ret ((Inr (), demo_fixture), r)"
proof -
  have "on_execute (fixture_backend byteorder_ref myc_ref chrono_ref dbg draw) 1 demo_echo_iterator demo_fixture =
      echo_result byteorder_ref myc_ref demo_echo_iterator demo_fixture"
    by (simp add: fixture_backend_def fixture_on_execute_def demo_fixture_def)
  also have "\<dots> = respond_with [Start echo_columns, WriteRow demo_echo_row, Finish []] demo_fixture"
    unfolding echo_result_def demo_echo_collected by (simp add: demo_echo_row_def)
  finally show ?thesis using demo_echo_answered [of demo_fixture] by simp
qed

theorem echo_returns_parameters_witness:
  "\<exists>packets cells r.
    run_program (respond byteorder_ref myc_ref chrono_ref fmt_none)
      (on_execute (fixture_backend byteorder_ref myc_ref chrono_ref (\<lambda>_. []) (\<lambda>g. ([], g))) 1 demo_echo_iterator demo_fixture)
      (Idle (sample_query True (new_writer demo_sink))) = Ret ((Inr (), demo_fixture), r) \<and>
    emitted (new_writer demo_sink) packets (q_writer (response_writer r)) \<and>
    client_resultset byteorder_ref myc_ref 0x200 True packets =
      Some (\<lparr>cr_columns = map (column_view myc_ref) (map default_column_metadata echo_columns), cr_rows = [BinaryRow cells],
        cr_status = set_flag 2 (status_bits myc_ref SERVER_MORE_RESULTS_EXISTS) False\<rparr>, []) \<and>
    list_all2 echoed [IntV 42, NULL, NULL] cells"
proof -
  let ?q = "sample_query True (new_writer demo_sink)"
  have q: "has_cap myc_ref (q_capabilities ?q) CLIENT_PROTOCOL_41" "ready (q_writer ?q)"
    "max_packet_size (packet_builder (q_writer ?q)) \<le> usize_max" "last_end ?q = None" "is_bin ?q"
    using sample_caps demo_sink_ready by (simp_all add: new_writer_def new_builder_def)
  have "encodes MYSQL_TYPE_TINY False [42] (IntV (scast (42 :: u8)))" by (rule enc_i8)
  moreover have "\<not> null_bit [6] 0" "null_bit [6] (Suc 0)" "null_bit [6] (Suc (Suc 0))" by code_simp+
  ultimately have ok: "client_params_ok [6] (long_data demo_echo_statement) demo_echo_params"
    by (simp add: client_params_ok_def demo_echo_params_def demo_echo_statement_def new_statement_def nullmap_len_def less_Suc_eq)
  have "coltype_try_from myc_ref 1 = Inr MYSQL_TYPE_TINY" "coltype_try_from myc_ref 252 = Inr MYSQL_TYPE_BLOB"
    by code_simp+
  then have types: "type_bytes_of myc_ref [1, 0, 252, 0, 1, 0] (map fst demo_echo_params)"
    by (auto simp: type_bytes_of_def demo_echo_params_def less_Suc_eq)
  obtain r where run: "run_program (respond byteorder_ref myc_ref chrono_ref fmt_none)
      (on_execute (fixture_backend byteorder_ref myc_ref chrono_ref (\<lambda>_. []) (\<lambda>g. ([], g))) 1 demo_echo_iterator demo_fixture)
      (Idle ?q) = Ret ((Inr (), demo_fixture), r)" using demo_echo_runs by blast
  have "map (\<lambda>k. pv_value (client_value (long_data demo_echo_statement) k (demo_echo_params ! k))) [0..<length demo_echo_params] =
      [IntV 42, NULL, NULL]" by code_simp
  with echo_returns_parameters [OF byteorder_ref_spec myc_ref_spec chrono_ref_spec q ok _ _ _ demo_echo_parsed [unfolded demo_echo_params_input_def]
      _ _ run] types run
  show ?thesis by (auto simp: demo_echo_params_def demo_echo_statement_def new_statement_def demo_fixture_def less_Suc_eq)
qed

end
