(* ===== verification/Servers.thy ===== *)
theory Servers
  imports Examples "HOL-Library.Multiset"
begin

text \<open>
  The server processes of the examples: \<open>main\<close> accepts connections and spawns a task for each. The
  tasks run concurrently and share two things, the counter \<open>NEXT_CONNECTION_ID\<close> and the random source;
  each uses both once, the counter in \<open>connect_id\<close> and the source in \<open>salt\<close>, when it makes its greeting.
  So the steps of the process are accepting a connection, and a task taking its number or its
  challenge, in any order; what a task does afterwards is the connection of \<open>Examples\<close> from the
  number and the source it has found.
\<close>

subsection \<open>Steps of a process\<close>

datatype 'g task =
    Accepted (task_input: "rd_event list") (task_output: sink)
  | Numbered (task_number: u32) (task_input: "rd_event list") (task_output: sink)
  | Running (task_number: u32) (task_source: 'g) (task_input: "rd_event list") (task_output: sink)

record 'g process =
  shared_counter :: u32
  shared_source :: 'g
  tasks :: "'g task list"

definition new_process :: "'g \<Rightarrow> 'g process" where
  "new_process g = \<lparr>shared_counter = NEXT_CONNECTION_ID, shared_source = g, tasks = []\<rparr>"

inductive process_step :: "('g \<Rightarrow> bytes \<times> 'g) \<Rightarrow> 'g process \<Rightarrow> 'g process \<Rightarrow> bool" for draw where
  accepting: "process_step draw p (p\<lparr>tasks := tasks p @ [Accepted input s]\<rparr>)"
| numbering: "k < length (tasks p) \<Longrightarrow> tasks p ! k = Accepted input s \<Longrightarrow> default_connect_id (shared_counter p) = (i, n) \<Longrightarrow>
    process_step draw p (p\<lparr>shared_counter := n, tasks := (tasks p)[k := Numbered i input s]\<rparr>)"
| challenging: "k < length (tasks p) \<Longrightarrow> tasks p ! k = Numbered i input s \<Longrightarrow> draw (shared_source p) = (challenge, g) \<Longrightarrow>
    process_step draw p (p\<lparr>shared_source := g, tasks := (tasks p)[k := Running i (shared_source p) input s]\<rparr>)"

abbreviation process_runs :: "('g \<Rightarrow> bytes \<times> 'g) \<Rightarrow> 'g process \<Rightarrow> 'g process \<Rightarrow> bool" where
  "process_runs draw \<equiv> (process_step draw)\<^sup>*\<^sup>*"

text \<open>What the task of an accepted connection comes to, \<open>run_on_buffered(Backend, r, w)\<close>.\<close>

definition task_outcome :: "buffering \<Rightarrow> byteorder_ops \<Rightarrow> myc_ops \<Rightarrow> ('d, 'dt) chrono_ops \<Rightarrow> ('d, 'dt) fmt_ops \<Rightarrow>
    Command nom_ops \<Rightarrow> (bytes \<Rightarrow> bytes) \<Rightarrow> ('g server, 'e, 'd, 'dt) shim \<Rightarrow> bool \<Rightarrow> nat \<Rightarrow> 'g task \<Rightarrow>
    ('g server, 'e) outcome option" where
  "task_outcome U B M C F N debug S with_tls fuel t = (case t of
     Running i g input s \<Rightarrow>
       run_on_buffered U B M C F N debug S with_tls fuel \<lparr>next_connection = i, entropy = g\<rparr> input s
   | _ \<Rightarrow> None)"

subsection \<open>The numbers\<close>

fun task_numbers :: "'g task \<Rightarrow> u32 list" where
  "task_numbers (Accepted input s) = []"
| "task_numbers (Numbered i input s) = [i]"
| "task_numbers (Running i g input s) = [i]"

definition numbers :: "'g process \<Rightarrow> u32 list" where
  "numbers p = concat (map task_numbers (tasks p))"

text \<open>The numbers handed out so far are the first ones from the start of the counter, wrapping around.\<close>

definition counted :: "'g process \<Rightarrow> bool" where
  "counted p \<longleftrightarrow> shared_counter p = NEXT_CONNECTION_ID + word_of_nat (length (numbers p)) \<and>
     mset (numbers p) = mset (map (\<lambda>k. NEXT_CONNECTION_ID + word_of_nat k) [0..<length (numbers p)])"

lemma mset_numbers: "mset (numbers p) = (\<Sum>t \<leftarrow> tasks p. mset (task_numbers t))"
  by (simp add: numbers_def mset_concat comp_def)

lemma numbers_update:
  assumes "k < length (tasks p)"
  shows "mset (concat (map task_numbers ((tasks p)[k := t]))) + mset (task_numbers (tasks p ! k)) =
    mset (numbers p) + mset (task_numbers t)"
proof -
  have "tasks p = take k (tasks p) @ tasks p ! k # drop (Suc k) (tasks p)"
    using assms by (rule id_take_nth_drop)
  then have "mset (numbers p) = mset (concat (map task_numbers (take k (tasks p)))) + mset (task_numbers (tasks p ! k)) +
      mset (concat (map task_numbers (drop (Suc k) (tasks p))))"
    unfolding numbers_def by (metis concat.simps(2) concat_append list.simps(9) map_append mset_append union_assoc)
  then show ?thesis using assms by (simp add: upd_conv_take_nth_drop)
qed

lemma counted_step:
  assumes "process_step draw p p'" and "counted p"
  shows "counted p'"
  using assms
proof cases
  case (accepting input s)
  with assms(2) show ?thesis by (simp add: counted_def numbers_def)
next
  case (numbering k input s i n)
  then have "mset (numbers p') = add_mset i (mset (numbers p))" "i = shared_counter p" "shared_counter p' = shared_counter p + 1"
    using numbers_update [of k p "Numbered i input s"] by (auto simp: numbers_def default_connect_id_def)
  moreover from this(1) have "length (numbers p') = Suc (length (numbers p))" by (metis size_add_mset size_mset)
  ultimately show ?thesis using assms(2) by (simp add: counted_def algebra_simps)
next
  case (challenging k i input s challenge g)
  then have "mset (numbers p') = mset (numbers p)" "shared_counter p' = shared_counter p"
    using numbers_update [of k p "Running i (shared_source p) input s"] by (auto simp: numbers_def)
  moreover from this(1) have "length (numbers p') = length (numbers p)" by (metis size_mset)
  ultimately show ?thesis using assms(2) by (simp add: counted_def)
qed

lemma counted_new: "counted (new_process g)"
  by (simp add: counted_def new_process_def numbers_def)

lemma counted_reachable: "process_runs draw (new_process g) p \<Longrightarrow> counted p"
  by (induction rule: rtranclp_induct) (simp_all add: counted_new counted_step)

lemma numbers_length: "length (numbers p) \<le> length (tasks p)"
proof -
  have "length (concat (map task_numbers ts)) \<le> length ts" for ts :: "'g task list"
  proof (induction ts)
    case (Cons t ts)
    then show ?case by (cases t) simp_all
  qed simp
  then show ?thesis by (simp add: numbers_def)
qed

lemma counted_distinct:
  assumes "counted p" and "length (tasks p) \<le> 2 ^ 32"
  shows "distinct (numbers p)"
proof -
  have "length (numbers p) \<le> 2 ^ 32" using numbers_length [of p] assms(2) by simp
  then have "inj_on (\<lambda>k. NEXT_CONNECTION_ID + word_of_nat k) {0..<length (numbers p)}"
    by (auto simp: inj_on_def dest!: arg_cong [where f = unat] simp: unat_of_nat)
  then have "distinct (map (\<lambda>k. NEXT_CONNECTION_ID + word_of_nat k) [0..<length (numbers p)])"
    by (simp add: distinct_map)
  with assms(1) show ?thesis by (metis counted_def mset_eq_imp_distinct_iff)
qed

lemma distinct_concat_nth:
  assumes "distinct (concat xss)" and "j < length xss" "k < length xss" "j \<noteq> k"
  shows "set (xss ! j) \<inter> set (xss ! k) = {}"
  using assms
proof (induction xss arbitrary: j k)
  case (Cons xs xss)
  have "set xs \<inter> set (xss ! n) = {}" if "n < length xss" for n
    using Cons.prems(1) nth_mem [OF that] by auto
  moreover have "set (xss ! m) \<inter> set (xss ! n) = {}" if "m < length xss" "n < length xss" "m \<noteq> n" for m n
    using Cons.IH [OF _ that] Cons.prems(1) by simp
  ultimately show ?case using Cons.prems(2-) by (cases j; cases k) (simp_all add: Int_commute)
qed simp

text \<open>No two connections have the same number, before the counter comes round.\<close>

lemma numbers_differ:
  assumes "process_runs draw (new_process g) p" and "length (tasks p) \<le> 2 ^ 32"
    and "j < length (tasks p)" "k < length (tasks p)" "j \<noteq> k"
  shows "set (task_numbers (tasks p ! j)) \<inter> set (task_numbers (tasks p ! k)) = {}"
  using distinct_concat_nth [of "map task_numbers (tasks p)" j k] assms(3-)
    counted_distinct [OF counted_reachable [OF assms(1)] assms(2)] by (simp add: numbers_def)

subsection \<open>Every connection of a process\<close>

text \<open>C26: the example server with a password, with any number of connections served at once: however the
  tasks are interleaved, a connection that ends orderly began with a greeting in which the client reads
  a connection id that no other of the process's connections has (up to the 2^32nd), and was opened
  by a client that named one of the two accounts and sent the digest that the account's plugin makes
  of the password and of the challenge in that same greeting.\<close>

theorem concurrent_logins:
  fixes C :: "('d, 'dt) chrono_ops" and draw :: "'g \<Rightarrow> bytes \<times> 'g"
  assumes "buffering_spec U" and "byteorder_spec B" and "myc_spec M" and "nom_spec N" and "digest_spec D"
    and draw: "\<And>g. length (fst (draw g)) = SCRAMBLE_SIZE"
    and runs: "process_runs draw (new_process g0) p" "length (tasks p) \<le> 2 ^ 32" and k: "k < length (tasks p)"
    and ended: "task_outcome U B M C F N debug (serve_auth M D draw) with_tls fuel (tasks p ! k) = Some (Ended (Inr ()) rd se)"
    and s: "reliable True (task_output (tasks p ! k))"
  shows "\<exists>payload gr said hs h sq user reply switch auth sq' rest.
    wire (out se) = written (task_output (tasks p ! k)) @ frames 0 payload @ said \<and>
    client_greeting payload = Inr ([], gr) \<and>
    (\<forall>j < length (tasks p). j \<noteq> k \<longrightarrow> gr_connection_id gr \<notin> set (task_numbers (tasks p ! j))) \<and>
    stream_bytes (task_input (tasks p ! k)) = received_wire (hs @ reply) @ rest \<and> hello M N with_tls hs h sq \<and>
    username h = Some user \<and> user \<in> {USER_NATIVE, USER_CACHING_SHA2} \<and>
    credentials (serve_auth_plugin () user) (gr_challenge gr) h sq reply switch auth sq' \<and>
    effective_auth (serve_auth_plugin () user) auth =
      client_response D (serve_auth_plugin () user) PASSWORD (gr_challenge gr)"
proof -
  obtain i g input s where t: "tasks p ! k = Running i g input s" using ended by (cases "tasks p ! k") (auto simp: task_outcome_def)
  let ?st = "\<lparr>next_connection = i, entropy = g\<rparr>" and ?S = "serve_auth M D draw :: ('g server, io_error, 'd, 'dt) shim"
  obtain cfg st1 where cfg: "handshake_config ?S ?st = (cfg, st1)" by fastforce
  then have fields: "cfg_connection_id cfg = i" "cfg_default_auth_plugin cfg = MYSQL_NATIVE_PASSWORD"
    "cfg_version cfg = ascii ''8.0.36-opensrv''" "length (cfg_scramble cfg) = SCRAMBLE_SIZE"
    using draw by (auto simp: serve_auth_config)
  have run: "run_on_buffered U B M C F N debug ?S with_tls fuel ?st input s = Some (Ended (Inr ()) rd se)"
    using ended by (simp add: t task_outcome_def)
  obtain T hs h sq user reply switch auth sq' said rest
    where at: "wire (out se) = written s @ frames 0 (concat (greeting_pieces M (default_options M) T cfg)) @ said"
      "stream_bytes input = received_wire (hs @ reply) @ rest" "hello M N with_tls hs h sq" "username h = Some user"
      "user \<in> {USER_NATIVE, USER_CACHING_SHA2}"
      "credentials (serve_auth_plugin () user) (cfg_scramble cfg) h sq reply switch auth sq'"
      "effective_auth (serve_auth_plugin () user) auth = client_response D (serve_auth_plugin () user) PASSWORD (cfg_scramble cfg)"
    using serve_auth_login [OF assms(1-5) run cfg fields(4)] s by (auto simp: t serve_auth_plugin_def)
  have "0 \<notin> set (cfg_scramble cfg)"
    using served_undelimited [OF cfg run [unfolded run_on_buffered_def]] by (auto simp: delimiter_def)
  from greeting_read [OF fields(4) _ this, of M "default_options M" T] obtain gr
    where gr: "client_greeting (concat (greeting_pieces M (default_options M) T cfg)) = Inr ([], gr)"
      "gr_connection_id gr = i" "gr_challenge gr = cfg_scramble cfg"
    by (auto simp: fields MYSQL_NATIVE_PASSWORD_def ascii_def)
  have "\<forall>j < length (tasks p). j \<noteq> k \<longrightarrow> i \<notin> set (task_numbers (tasks p ! j))"
    using numbers_differ [OF runs _ k] by (fastforce simp: t)
  with at gr show ?thesis unfolding t task.sel
    by (intro exI [of _ "concat (greeting_pieces M (default_options M) T cfg)"] exI [of _ gr] exI [of _ said] exI [of _ hs]
        exI [of _ h] exI [of _ sq] exI [of _ user] exI [of _ reply] exI [of _ switch] exI [of _ auth] exI [of _ sq'] exI [of _ rest]) simp
qed

subsection \<open>Two clients at once\<close>

text \<open>Two connections are accepted; the second one is numbered first and is served while the first waits.\<close>

definition demo_process :: "unit process" where
  "demo_process = \<lparr>shared_counter = 3, shared_source = (),
     tasks = [Numbered 2 demo_stream demo_sink, Running 1 () demo_stream demo_sink]\<rparr>"

lemma demo_process_runs: "process_runs (\<lambda>g. (replicate 20 0x41, g)) (new_process ()) demo_process"
proof -
  let ?draw = "\<lambda>g :: unit. (replicate 20 0x41 :: bytes, g)" and ?a = "Accepted demo_stream demo_sink :: unit task"
  let ?p = "\<lambda>n ts. \<lparr>shared_counter = n, shared_source = (), tasks = ts\<rparr> :: unit process"
  have s1: "process_step ?draw (?p 1 []) (?p 1 [?a])" and s2: "process_step ?draw (?p 1 [?a]) (?p 1 [?a, ?a])"
    using process_step.accepting [of ?draw "?p 1 []" demo_stream demo_sink] process_step.accepting [of ?draw "?p 1 [?a]" demo_stream demo_sink]
    by simp_all
  have s3: "process_step ?draw (?p 1 [?a, ?a]) (?p 2 [?a, Numbered 1 demo_stream demo_sink])"
    using process_step.numbering [of 1 "?p 1 [?a, ?a]" demo_stream demo_sink 1 2 ?draw] by (simp add: default_connect_id_def)
  have s4: "process_step ?draw (?p 2 [?a, Numbered 1 demo_stream demo_sink]) (?p 2 [?a, Running 1 () demo_stream demo_sink])"
    using process_step.challenging [of 1 "?p 2 [?a, Numbered 1 demo_stream demo_sink]" 1 demo_stream demo_sink ?draw] by simp
  have s5: "process_step ?draw (?p 2 [?a, Running 1 () demo_stream demo_sink]) demo_process"
    using process_step.numbering [of 0 "?p 2 [?a, Running 1 () demo_stream demo_sink]" demo_stream demo_sink 2 3 ?draw]
    by (simp add: default_connect_id_def demo_process_def)
  have start: "new_process () = ?p 1 []" by (simp add: new_process_def NEXT_CONNECTION_ID_def)
  show ?thesis unfolding start
    by (rule converse_rtranclp_into_rtranclp [OF s1 converse_rtranclp_into_rtranclp [OF s2
        converse_rtranclp_into_rtranclp [OF s3 converse_rtranclp_into_rtranclp [OF s4 r_into_rtranclp [where r = "process_step ?draw", OF s5]]]]])
qed

theorem concurrent_logins_witness:
  "\<exists>rd se payload gr said. task_outcome \<lparr>buf_reader = (\<lambda>cap es. es), buf_writer = (\<lambda>cap s. s)\<rparr> byteorder_ref myc_ref chrono_ref fmt_none
      nom_ref id demo_server True 1 (tasks demo_process ! 1) = Some (Ended (Inr ()) rd se) \<and>
    wire (out se) = written demo_sink @ frames 0 payload @ said \<and> client_greeting payload = Inr ([], gr) \<and>
    gr_connection_id gr \<noteq> 2"
proof -
  obtain rd se where ended: "task_outcome \<lparr>buf_reader = (\<lambda>cap es. es), buf_writer = (\<lambda>cap s. s)\<rparr> byteorder_ref myc_ref chrono_ref
      fmt_none nom_ref id demo_server True 1 (tasks demo_process ! 1) = Some (Ended (Inr ()) rd se)"
    using demo_connection_ends by (auto simp: task_outcome_def demo_process_def demo_state_def)
  have facts: "\<And>g. length (fst (replicate 20 0x41 :: bytes, g :: unit)) = SCRAMBLE_SIZE" "length (tasks demo_process) \<le> 2 ^ 32"
    "1 < length (tasks demo_process)" "reliable True (task_output (tasks demo_process ! 1))"
    by (simp_all add: SCRAMBLE_SIZE_def demo_process_def reliable_def demo_sink_def)
  from concurrent_logins [OF no_buffering byteorder_ref_spec myc_ref_spec nom_ref_spec demo_digest_spec facts(1) demo_process_runs
      facts(2,3) ended [unfolded demo_server_def] facts(4)]
  obtain payload gr said where "wire (out se) = written (task_output (tasks demo_process ! 1)) @ frames 0 payload @ said"
    "client_greeting payload = Inr ([], gr)"
    and other: "\<forall>j < length (tasks demo_process). j \<noteq> 1 \<longrightarrow> gr_connection_id gr \<notin> set (task_numbers (tasks demo_process ! j))"
    by blast
  moreover from other have "gr_connection_id gr \<noteq> 2" by (auto simp: demo_process_def dest: spec [of _ 0])
  ultimately show ?thesis using ended by (auto simp: demo_process_def)
qed

end
