(* ===== verification/Conformance.thy ===== *)
theory Conformance
  imports Framing Commands Params Session
begin

text \<open>
  The repository's own unit tests, evaluated on the model: packets and expected values of
  \<open>tests/commands.rs\<close>, \<open>tests/packet.rs\<close>, \<open>tests/intermediary.rs\<close>, \<open>tests/value/decode.rs\<close> and the
  tests in \<open>params.rs\<close> (all under \<open>src/mysql/src\<close>), under the names the tests have, with the reference
  operations of \<open>External\<close> and \<open>Protocol\<close> in the place of the external crates. They show that the
  definitions say of these inputs what the code is known to do; the general laws are in the other
  theories. Where a test repeats an input with other flags, one of the repetitions may stand for all.
\<close>

lemmas evaluate_nom = nom_ref_def p_bind_def ref_le_def ref_take_def ref_tag_def ref_take_until_def
  ref_all_consuming_def

subsection \<open>Frames\<close>

lemma test_one_ping: "onepacket nom_ref [0x01, 0, 0, 0, 0x10] = Inr ([], (0, [0x10]))"
  by (simp add: onepacket_def evaluate_nom)

lemma test_ping:
  "packet nom_ref [0x01, 0, 0, 0, 0x10] = Inr ([], (0, \<lparr>packet_bytes = [0x10], first_seq = 0\<rparr>))"
  by (simp add: packet_def onepacket_def evaluate_nom u24_at_def U24_MAX_def)

subsection \<open>Commands\<close>

definition command_of :: "bytes \<Rightarrow> Command iresult" where
  "command_of = parse myc_ref nom_ref"

lemmas evaluate_command = command_of_def parse_def command_parsers_def tagged_def execute_def send_long_data_def
  myc_ref_def ref_command_def evaluate_nom

lemma it_parses_request:
  "command_of (0x03 # ascii ''select @@version_comment limit 1'') = Inr ([], Query (ascii ''select @@version_comment limit 1''))"
  by (simp add: evaluate_command)

lemma it_handles_list_fields:
  "command_of (0x04 # ascii ''select @@version_comment limit 1'') = Inr ([], ListFields (ascii ''select @@version_comment limit 1''))"
  by (simp add: evaluate_command)

lemma execute_preserves_flags_and_iteration_count:
  "command_of (0x17 # [42, 0, 0, 0] @ [1] @ [2, 0, 0, 0] @ ascii ''params'') = Inr ([], Execute 42 1 2 (ascii ''params''))"
  by (simp add: evaluate_command)

lemma fixed_length_commands_reject_trailing_bytes_and_reset_connection_parses:
  "isl (command_of [0x0E, 0])" "isl (command_of [0x19, 1, 0, 0, 0, 0])"
  "command_of [0x1F] = Inr ([], ResetConnection)"
  by (simp_all add: evaluate_command)

definition fetch_packet :: bytes where
  "fetch_packet = [0x1c, 7, 0, 0, 0, 255, 255, 255, 255]"

lemma fetch_requires_exact_command_shape:
  "command_of fetch_packet = Inr ([], Fetch 7 (- 1))"
  "list_all (\<lambda>n. isl (command_of (take n fetch_packet))) [0..<length fetch_packet]"
  "isl (command_of (fetch_packet @ [0]))"
  by (simp_all add: fetch_packet_def upt_rec evaluate_command)

lemma unknown_command_maps_to_unknown_com_error:
  "command_parse_error myc_ref [0xaa] = (ER_UNKNOWN_COM_ERROR, ascii ''unsupported command: 0xaa'')"
  by (simp add: command_parse_error_def myc_ref_def ref_command_def hex2_def hex_digit_def ascii_def)

lemma empty_command_maps_to_malformed_packet:
  "command_parse_error myc_ref [] = (ER_MALFORMED_PACKET, ascii ''malformed command packet'')"
  by (simp add: command_parse_error_def)

subsection \<open>Handshake responses\<close>

definition handshake :: "bool \<Rightarrow> bytes \<Rightarrow> ClientHandshake iresult" where
  "handshake = client_handshake myc_ref (nom_ref :: Command nom_ops)"

definition fixed_fields :: "u32 \<Rightarrow> u8 \<Rightarrow> bytes" where
  "fixed_fields caps coll = le32 caps @ [0, 0, 0, 0, coll] @ replicate 23 0"

lemma le_bytes_numeral:
  "le_bytes (numeral k) v = word_of_nat (v mod 256) # le_bytes (pred_numeral k) (v div 256)"
  using le_bytes.simps(2) [of "pred_numeral k" v] by (simp only: numeral_eq_Suc [symmetric])

definition c_string :: "string \<Rightarrow> bytes" where
  "c_string s = ascii s @ [0]"

lemmas evaluate_handshake = handshake_def client_handshake_def handshake_response_41_def handshake_response_320_def
  read_auth_response_def read_length_encoded_number_def null_terminated_def has_cap_def from_bits_truncate_def
  contains_def myc_ref_def ref_cap_def usize_max_def c_string_def ascii_def le32_def le_bytes_numeral evaluate_nom

definition handshake_packet :: bytes where
  "handshake_packet = [0x8d, 0xa6, 0xff, 9, 0, 0, 0, 1, 0x21] @ replicate 23 0 @ c_string ''default'' @
     [0x14, 0xf7, 0xd1, 0x6c, 0xe9, 0xd, 0x2f, 0x34, 0xb0, 0x2f, 0xd8, 0x1d, 0x18, 0xc7, 0xa4, 0xe8, 0x98, 0x97, 0x67, 0xeb, 0xad] @
     c_string ''default'' @ c_string ''mysql_native_password''"

lemma it_parses_handshake:
  "\<exists>h. handshake False handshake_packet = Inr ([], h) \<and>
     contains (capabilities h) 1 \<and> contains (capabilities h) (ref_cap CLIENT_MULTI_RESULTS) \<and>
     contains (capabilities h) (ref_cap CLIENT_CONNECT_WITH_DB) \<and>
     contains (capabilities h) (ref_cap CLIENT_DEPRECATE_EOF) \<and>
     hs_collation h = 33 \<and> username h = Some (ascii ''default'') \<and> maxps h = 16777216"
  by (simp add: handshake_packet_def evaluate_handshake)

lemma it_parses_handshake_with_caching_sha2_password:
  "\<exists>h. handshake False ([0x8d, 0xa6, 0xff, 9, 0, 0, 0, 1, 0x21] @ replicate 23 0 @ c_string ''default'' @
       [0x20, 0x10, 0x32, 0x54, 0x76, 0x98, 0xba, 0xdc, 0xfe, 1, 0x23, 0x45, 0x67, 0x89, 0xab, 0xcd, 0xef, 0x55, 0xaa, 0x55, 0xaa, 0x10, 0x32, 0x54, 0x76, 0x98, 0xba, 0xdc, 0xfe, 1, 0x23, 0x45, 0x67] @
       c_string ''default'' @ c_string ''caching_sha2_password'') = Inr ([], h) \<and>
     username h = Some (ascii ''default'') \<and> length (auth_response h) = 32 \<and>
     auth_plugin h = ascii ''caching_sha2_password''"
  by (simp add: evaluate_handshake)

lemma it_parses_nul_terminated_auth_response_before_database_and_plugin:
  "\<exists>h. handshake False (fixed_fields 0x80208 33 @ c_string ''user'' @ c_string ''legacy-auth'' @ c_string ''initial_db'' @
       c_string ''mysql_native_password'') = Inr ([], h) \<and>
     auth_response h = ascii ''legacy-auth'' \<and> db h = Some (ascii ''initial_db'') \<and>
     auth_plugin h = ascii ''mysql_native_password''"
  by (simp add: fixed_fields_def evaluate_handshake)

lemma it_parses_handshake_response320:
  "\<exists>h. handshake False ([8, 0] @ [0, 1, 0] @ c_string ''alice'' @ c_string ''mypass'' @ c_string ''mydb'') = Inr ([], h) \<and>
     username h = Some (ascii ''alice'') \<and> auth_response h = ascii ''mypass'' \<and> db h = Some (ascii ''mydb'')"
  "\<exists>h. handshake False ([0, 0] @ [0, 1, 0] @ c_string ''bob'' @ ascii ''secret_bytes'') = Inr ([], h) \<and>
     username h = Some (ascii ''bob'') \<and> auth_response h = ascii ''secret_bytes'' \<and> db h = None"
  by (simp_all add: evaluate_handshake)

definition lenenc_payload :: "bytes \<Rightarrow> bytes" where
  "lenenc_payload prefix = fixed_fields 0x280208 45 @ c_string ''user'' @ prefix @ ascii ''abc'' @ c_string ''db'' @
     c_string ''mysql_native_password''"

lemma handshake_lenenc_auth_accepts_all_integer_widths:
  "list_all (\<lambda>prefix. list_all (\<lambda>after_tls. case handshake after_tls (lenenc_payload prefix) of
       Inr (rest, h) \<Rightarrow> auth_response h = ascii ''abc'' \<and> db h = Some (ascii ''db'') | Inl _ \<Rightarrow> False) [False, True])
     [[3], [0xfc, 3, 0], [0xfd, 3, 0, 0], [0xfe, 3, 0, 0, 0, 0, 0, 0, 0]]"
  by (simp add: lenenc_payload_def fixed_fields_def evaluate_handshake)

lemma handshake_lenenc_auth_rejects_truncation:
  "list_all (\<lambda>n. isl (handshake False (take n (lenenc_payload [0xfc, 3, 0])))) [0..<length (lenenc_payload [0xfc, 3, 0])]"
  by (simp add: lenenc_payload_def fixed_fields_def upt_rec evaluate_handshake)

lemma handshake_lenenc_auth_rejects_null_and_invalid_markers:
  "list_all (\<lambda>after_tls. isl (handshake after_tls (fixed_fields 0x200200 45 @ c_string ''user'' @ [0xfb])) \<and>
     isl (handshake after_tls (fixed_fields 0x200200 45 @ c_string ''user'' @ [0xff] @ replicate 255 0))) [False, True]"
  by (simp add: fixed_fields_def evaluate_handshake)

definition required_fields :: "bool \<Rightarrow> bool \<Rightarrow> bool \<Rightarrow> bytes" where
  "required_fields with_db with_plugin blank =
     fixed_fields (0x8200 OR (if with_db then 8 else 0) OR (if with_plugin then 0x80000 else 0)) 45 @ c_string ''user'' @
     [3] @ ascii ''abc'' @
     (if with_db then c_string (if blank then [] else ''db'') else []) @
     (if with_plugin then c_string (if blank then [] else ''mysql_native_password'') else [])"

lemma handshake_required_fields_and_empty_strings:
  "list_all (\<lambda>with_db. list_all (\<lambda>with_plugin. list_all (\<lambda>blank. list_all (\<lambda>after_tls.
     \<not> isl (handshake after_tls (required_fields with_db with_plugin blank)) \<and>
     map_sum (\<lambda>e. e) fst (handshake after_tls (required_fields with_db with_plugin blank @ ascii ''extension'')) =
       Inr (ascii ''extension''))
     [False, True]) [False, True]) [False, True]) [False, True]"
  by (simp add: required_fields_def fixed_fields_def evaluate_handshake)

subsection \<open>Execute parameters\<close>

definition params_received :: "bytes \<Rightarrow> StatementData \<Rightarrow> ValueInner list option" where
  "params_received data stmt = (case fst (param_parser_new byteorder_ref myc_ref data stmt) of
     Inl _ \<Rightarrow> None
   | Inr it \<Rightarrow> (case params_collect byteorder_ref myc_ref (Suc (unat (params stmt))) it of
       Some (Ret vs) \<Rightarrow> Some (map pv_value vs) | _ \<Rightarrow> None))"

definition rejected :: "bytes \<Rightarrow> StatementData \<Rightarrow> bool" where
  "rejected data stmt \<longleftrightarrow> isl (fst (param_parser_new byteorder_ref myc_ref data stmt))"

lemma params_collect_numeral:
  "params_collect B M (numeral k) it =
     (case params_next B M it of
        Panicked \<Rightarrow> Some Panicked
      | Ret (None, _) \<Rightarrow> Some (Ret [])
      | Ret (Some v, it) \<Rightarrow>
          (case params_collect B M (pred_numeral k) it of
             Some (Ret vs) \<Rightarrow> Some (Ret (v # vs)) | r \<Rightarrow> r))"
  using params_collect.simps(2) [of B M "pred_numeral k" it] by (simp only: numeral_eq_Suc [symmetric])

lemmas evaluate_value = parse_from_def read_temporal_def read_bytes_def map_ok_def is_string_type_def byteorder_ref_def ref_read_def
  myc_ref_def ref_coltype_try_from_def ref_coltype_table_def ref_coltype_u8_def ref_read_lenenc_def usize_max_def ascii_def

lemmas evaluate_execute = params_received_def rejected_def param_parser_new_def validate_def validate_binding_def nullmap_len_def
  null_bit_def new_statement_def accepts_long_data_def params_next_def params_setup_def params_step_def Let_def
  params_collect_numeral upt_rec word_le_nat_alt evaluate_value

lemma mixed_parameters_preserve_signedness_nulls_and_long_data:
  "params_received ([8, 1, 1, 0, 8, 128, 252, 0, 254, 0, 255] @ [255, 255, 255, 255, 255, 255, 255, 255])
     (new_statement\<lparr>params := 4, long_data := [(2, ascii ''uploaded'')]\<rparr>) =
   Some [IntV (- 1), UInt (- 1), Bytes (ascii ''uploaded''), NULL]"
  by (simp add: evaluate_execute)

lemma null_bitmap_crosses_byte_boundary_without_shifting_parameters:
  "params_received [0x80, 0x01, 0, 1, 2, 3, 4, 5, 6, 7]
     (new_statement\<lparr>params := 9, bound_types := replicate 9 (MYSQL_TYPE_TINY, False)\<rparr>) =
   Some [IntV 1, IntV 2, IntV 3, IntV 4, IntV 5, IntV 6, IntV 7, NULL, NULL]"
  by (simp add: evaluate_execute)

definition mixed_execute :: bytes where
  "mixed_execute = [0, 1, 3, 0, 254, 0, 42, 0, 0, 0, 3] @ ascii ''abc''"

lemma every_truncated_prefix_of_mixed_execute_is_rejected:
  "list_all (\<lambda>n. rejected (take n mixed_execute) (new_statement\<lparr>params := 2\<rparr>)) [0..<length mixed_execute]"
  "params_received mixed_execute (new_statement\<lparr>params := 2\<rparr>) = Some [IntV 42, Bytes (ascii ''abc'')]"
  by (simp_all add: mixed_execute_def evaluate_execute)

lemma length_encoded_value_does_not_truncate_large_lengths:
  "isl (parse_from byteorder_ref myc_ref ([0xfe] @ [255, 255, 255, 255, 255, 255, 255, 255] @ ascii ''x'')
     MYSQL_TYPE_VAR_STRING False)"
  "isl (parse_from byteorder_ref myc_ref ([0xfe] @ [1, 0, 0, 0, 1, 0, 0, 0] @ ascii ''x'') MYSQL_TYPE_VAR_STRING False)"
  by (simp_all add: evaluate_value)

definition temporal_execute :: "ColumnType \<Rightarrow> bytes \<Rightarrow> bytes" where
  "temporal_execute ct v = [0, 1, ref_coltype_u8 ct, 0, ref_coltype_u8 MYSQL_TYPE_TINY, 0, word_of_nat (length v)] @ v @ [42]"

definition temporal_received :: "ColumnType \<Rightarrow> bytes \<Rightarrow> ValueInner \<Rightarrow> bool" where
  "temporal_received ct v x \<longleftrightarrow>
     params_received (temporal_execute ct v) (new_statement\<lparr>params := 2\<rparr>) = Some [x, IntV 42] \<and>
     params_received ([0, 0] @ drop 6 (temporal_execute ct v))
       (new_statement\<lparr>params := 2, bound_types := [(ct, False), (MYSQL_TYPE_TINY, False)]\<rparr>) = Some [x, IntV 42] \<and>
     list_all (\<lambda>n. rejected (take n (temporal_execute ct v)) (new_statement\<lparr>params := 2\<rparr>))
       [0..<length (temporal_execute ct v)]"

lemma temporal_values_preserve_zero_fraction_offset_and_parameter_alignment:
  "temporal_received MYSQL_TYPE_DATE [] (Date [])"
  "temporal_received MYSQL_TYPE_DATE [234, 7, 9, 27] (Date [234, 7, 9, 27])"
  "temporal_received MYSQL_TYPE_TIME [1, 1, 0, 0, 0, 1, 2, 3, 64, 226, 1, 0] (Time [1, 1, 0, 0, 0, 1, 2, 3, 64, 226, 1, 0])"
  "temporal_received MYSQL_TYPE_DATETIME [234, 7, 9, 27, 1, 2, 3, 64, 226, 1, 0] (Datetime [234, 7, 9, 27, 1, 2, 3, 64, 226, 1, 0])"
  "temporal_received MYSQL_TYPE_TIMESTAMP [234, 7, 9, 27, 1, 2, 3, 64, 226, 1, 0, 224, 1]
     (Datetime [234, 7, 9, 27, 1, 2, 3, 64, 226, 1, 0, 224, 1])"
  by (simp_all add: temporal_received_def temporal_execute_def evaluate_execute)

lemma long_data_type_validation_and_null_precedence:
  "list_all (\<lambda>(ct, id). list_all (\<lambda>nulls.
       let s = new_statement\<lparr>params := 1, bound_types := [(ct, False)], long_data := [(0, ascii ''uploaded'')]\<rparr> in
       (if id \<in> set [249, 250, 251, 252, 253, 254]
        then params_received [nulls, 0] s = Some [Bytes (ascii ''uploaded'')] \<and>
          params_received [nulls, 1, id, 0] s = Some [Bytes (ascii ''uploaded'')]
        else rejected [nulls, 0] s \<and> rejected [nulls, 1, id, 0] s)) [0, 1]) ref_coltype_table"
  by (simp add: evaluate_execute)

definition stored :: "ColumnType \<Rightarrow> bytes \<Rightarrow> ValueInner" where
  "stored ct v = (case parse_from byteorder_ref myc_ref v ct False of Inr (x, _) \<Rightarrow> x | Inl _ \<Rightarrow> NULL)"

lemmas evaluate_temporal = stored_def to_naive_datetime_def timestamp_parts_def read_ymd_def read_hms_def chrono_ref_def
  try_into_duration_def read_duration_def evaluate_value

lemma datetime_fraction_does_not_become_a_chrono_leap_second:
  "case to_naive_datetime byteorder_ref chrono_ref (\<lambda>_. [])
     (stored MYSQL_TYPE_DATETIME [11, 224, 7, 12, 31, 23, 59, 59, 0x60, 0xe3, 0x16, 0]) of
     Ret (Inl _) \<Rightarrow> True | _ \<Rightarrow> False"
  by (simp add: evaluate_temporal)

definition one_second :: "bytes \<Rightarrow> Duration io_result" where
  "one_second micros = try_into_duration byteorder_ref (\<lambda>_. []) (stored MYSQL_TYPE_TIME ([12, 0, 0, 0, 0, 0, 0, 0, 1] @ micros))"

lemma time_fraction_is_preserved_and_invalid_fraction_rejected:
  "one_second [0, 0, 0, 0] = Inr \<lparr>as_secs = 1, subsec_nanos = 0\<rparr>"
  "one_second [1, 0, 0, 0] = Inr \<lparr>as_secs = 1, subsec_nanos = 1000\<rparr>"
  "one_second [0x40, 0xe2, 1, 0] = Inr \<lparr>as_secs = 1, subsec_nanos = 123456000\<rparr>"
  "one_second [0x3f, 0x42, 0xf, 0] = Inr \<lparr>as_secs = 1, subsec_nanos = 999999000\<rparr>"
  "isl (one_second [0x40, 0x42, 0xf, 0])" "isl (one_second [255, 255, 255, 255])"
  by (simp_all add: one_second_def evaluate_temporal)

end
