(* ===== verification/Refusal.thy ===== *)
theory Refusal
  imports Secure
begin

text \<open>
  Who does not get into the command phase. The credentials that a client presents are read off the
  packets it sends; when the backend rejects them the connection ends with an error, whatever other
  credentials the backend would accept and however the transport behaves, and no callback of the
  command phase has been made.
\<close>

subsection \<open>The credentials a client presents\<close>

text \<open>
  A client is asked for new authentication data when it has negotiated plugins and has announced another
  one than its user needs. Its data are then its next packet; otherwise they are in its response.
\<close>

definition switch_required :: "myc_ops \<Rightarrow> u32 \<Rightarrow> bytes \<Rightarrow> ClientHandshake \<Rightarrow> bool" where
  "switch_required M caps plugin h \<longleftrightarrow> has_cap M caps CLIENT_PLUGIN_AUTH \<and> plugin \<noteq> [] \<and> auth_plugin h \<noteq> plugin"

inductive auth_data :: "myc_ops \<Rightarrow> u32 \<Rightarrow> bytes \<Rightarrow> ClientHandshake \<Rightarrow> u8 \<Rightarrow> (u8 \<times> Packet) list \<Rightarrow> bytes \<Rightarrow> bool"
  for M caps plugin h sq where
  at_once: "\<not> switch_required M caps plugin h \<Longrightarrow> auth_data M caps plugin h sq [] (auth_response h)"
| on_request: "switch_required M caps plugin h \<Longrightarrow> whole (sq', p) \<Longrightarrow> first_seq p = sq + 2 \<Longrightarrow>
    auth_data M caps plugin h sq [(sq', p)] (packet_bytes p)"

text \<open>
  \<open>presents\<close>: with the packets \<open>msgs\<close> a client names \<open>user\<close> and sends the authentication data \<open>auth\<close>, where
  \<open>plugin_for\<close> tells the plugin of a user and \<open>offered\<close> what the server can do.
\<close>

definition presents :: "myc_ops \<Rightarrow> Command nom_ops \<Rightarrow> bool \<Rightarrow> u32 \<Rightarrow> (bytes \<Rightarrow> bytes) \<Rightarrow> (u8 \<times> Packet) list \<Rightarrow>
    bytes \<Rightarrow> bytes \<Rightarrow> bool" where
  "presents M N with_tls offered plugin_for msgs user auth \<longleftrightarrow>
     (\<exists>hs h sq reply data. msgs = hs @ reply \<and> hello M N with_tls hs h sq \<and> username h = Some user \<and>
        auth_data M (offered AND capabilities h) (plugin_for user) h sq reply data \<and>
        auth = effective_auth (plugin_for user) data)"

subsection \<open>Steps of a login that is refused\<close>

lemma auth_switch_data:
  assumes N: "nom_spec N"
    and run: "auth_switch B M N lift plugin scramble h sq (rd, se) = Ret (Inr (sq', auth), rd', se')"
  shows "\<exists>reply. unread rd = received_wire reply @ unread rd' \<and> auth_data M (client_capabilities se) plugin h sq reply auth"
proof (cases "switch_required M (client_capabilities se) plugin h")
  case False
  then have "auth_data M (client_capabilities se) plugin h sq [] (auth_response h)" by (rule at_once)
  with False run show ?thesis
    by (intro exI [of _ "[]"]) (auto simp: auth_switch_def switch_required_def login_simps)
next
  case True
  with run obtain p where p: "read_packet_with_timeout N (auth_timeout se) rd = (Inr (Some (sq', p)), rd')"
      "first_seq p = sq + 2" "auth = packet_bytes p"
    by (auto simp: auth_switch_def switch_required_def login_simps action_simps split: if_splits)
  have "auth_data M (client_capabilities se) plugin h sq [(sq', p)] (packet_bytes p)"
    using read_sound(2) [OF N p(1) refl] by (rule on_request [OF True _ p(2)])
  with read_sound(1) [OF N p(1)] p(3) show ?thesis by (intro exI [of _ "[(sq', p)]"]) simp
qed

lemma safe_credentials:
  assumes "\<not> authenticate S st plugin user scramble (effective_auth plugin auth)"
  shows "safe_action st (\<lambda>_. False) (check_credentials B debug S plugin user scramble auth)"
proof (rule safe_action_cases)
  fix se :: "'a session" assume st: "shim_state se = st"
  have "safe_action st (\<lambda>_. False) (deny B (from_io S) debug user plugin)"
    unfolding deny_def by (rule safe_refuse)
  moreover have "check_credentials B debug S plugin user scramble auth se = deny B (from_io S) debug user plugin se"
    using assms st by (auto simp: check_credentials_def effective_auth_def Let_def)
  ultimately show "\<exists>m'. safe_action st (\<lambda>_. False) m' \<and> check_credentials B debug S plugin user scramble auth se = m' se"
    by blast
qed

text \<open>An end with an error in which the backend has not been touched.\<close>

definition refused_in :: "'s \<Rightarrow> (('e + 'a) \<times> PacketReader \<times> 's session) rust \<Rightarrow> bool" where
  "refused_in st x \<longleftrightarrow> (\<exists>e rd se. x = Ret (Inl e, rd, se) \<and> shim_state se = st)"

lemma safe_refused: "safe st (\<lambda>_. False) m \<Longrightarrow> shim_state se = st \<Longrightarrow> refused_in st (m (rd, se))"
  unfolding refused_in_def by (metis safeD sum.exhaust)

text \<open>A first step that leaves the backend alone, followed by one that refuses.\<close>

lemma refused_bind:
  assumes "safe st Q m" and "shim_state se = st"
    and "\<And>x rd' se'. m (rd, se) = Ret (Inr x, rd', se') \<Longrightarrow> Q x \<Longrightarrow> shim_state se' = st \<Longrightarrow> refused_in st (f x (rd', se'))"
  shows "refused_in st (bind_login m f (rd, se))"
proof -
  obtain r rd' se' where m: "m (rd, se) = Ret (r, rd', se')" "shim_state se' = st" "\<forall>x. r = Inr x \<longrightarrow> Q x"
    using safeD [OF assms(1,2)] by blast
  show ?thesis
  proof (cases r)
    case (Inl e)
    with m show ?thesis by (simp add: bind_login_def refused_in_def)
  next
    case (Inr x)
    with m assms(3) show ?thesis by (simp add: bind_login_def)
  qed
qed

lemma refused_bind_first: "refused_in st (m c) \<Longrightarrow> refused_in st (bind_login m f c)"
  by (auto simp: refused_in_def bind_login_def)

lemma refused_login:
  assumes N: "nom_spec N" and st: "shim_state se = st"
    and bad: "\<And>reply data rest. unread rd = received_wire reply @ rest \<Longrightarrow>
      auth_data M (client_capabilities se) (auth_plugin_for_username S st user) h sq reply data \<Longrightarrow>
      \<not> authenticate S st (auth_plugin_for_username S st user) user scramble (effective_auth (auth_plugin_for_username S st user) data)"
  shows "refused_in st (login_user B M N debug S scramble h sq user (rd, se))"
proof (cases "plugin_usable M (client_capabilities se) (auth_plugin_for_username S st user)")
  case False
  have "safe st (\<lambda>_. False) (on_session (refuse_login B (from_io S) kind msg e))" for kind msg e
    by (intro safe_session safe_refuse)
  from safe_refused [OF this st] False st show ?thesis by (simp add: login_user_def)
next
  case True
  have "refused_in st (bind_login (auth_switch B M N (from_io S) (auth_plugin_for_username S st user) scramble h sq) (\<lambda>(sq, auth).
        on_session
          (bind_action (change (with_seq (sq + 1))) (\<lambda>_.
           bind_action (check_credentials B debug S (auth_plugin_for_username S st user) user scramble auth) (\<lambda>_.
           initial_database B M S (db h))))) (rd, se))"
  proof (rule refused_bind [OF safe_switch st])
    fix x rd' and se' :: "'a session"
    assume run: "auth_switch B M N (from_io S) (auth_plugin_for_username S st user) scramble h sq (rd, se) = Ret (Inr x, rd', se')"
      and st': "shim_state se' = st"
    obtain sq' auth where x: "x = (sq', auth)" by fastforce
    have "\<not> authenticate S st (auth_plugin_for_username S st user) user scramble (effective_auth (auth_plugin_for_username S st user) auth)"
      using auth_switch_data [OF N run [unfolded x]] bad by blast
    then have "safe st (\<lambda>_. False) (on_session
          (bind_action (change (with_seq (sq' + 1))) (\<lambda>_.
           bind_action (check_credentials B debug S (auth_plugin_for_username S st user) user scramble auth) (\<lambda>_.
           initial_database B M S (db h)))))"
      by (intro safe_session safe_action_bind [where Q = "\<lambda>_. True", OF safe_change] safe_action_bind [OF safe_credentials])
        simp_all
    from safe_refused [OF this st'] show "refused_in st ((case x of (sq, auth) \<Rightarrow> on_session
          (bind_action (change (with_seq (sq + 1))) (\<lambda>_.
           bind_action (check_credentials B debug S (auth_plugin_for_username S st user) user scramble auth) (\<lambda>_.
           initial_database B M S (db h))))) (rd', se'))"
      by (simp add: x)
  qed
  with True st show ?thesis by (simp add: login_user_def Let_def)
qed

lemma refused_init_after_ssl:
  assumes N: "nom_spec N" and st: "shim_state se = st"
    and p0: "whole (sq, p0)" "first_seq p0 = 1" "client_handshake M N False (packet_bytes p0) = Inr (r0, h0)"
    and h: "h = h0\<lparr>server_scramble := Some scramble\<rparr>" "username h = None \<longrightarrow> with_tls \<and> has_cap M (capabilities h) CLIENT_SSL"
    and bad: "\<And>msgs rest user auth. unread rd = received_wire msgs @ rest \<Longrightarrow>
      presents M N with_tls (client_capabilities se) (auth_plugin_for_username S st) ((sq, p0) # msgs) user auth \<Longrightarrow>
      \<not> authenticate S st (auth_plugin_for_username S st user) user scramble auth"
  shows "refused_in st (init_after_ssl B M N debug S with_tls h sq (rd, se))"
proof -
  have "refused_in st (bind_login (on_session (negotiate B M (from_io S) h' sq')) (\<lambda>_.
      bind_login (case username h' of Some user \<Rightarrow> login_user B M N debug S scramble h' sq' user | None \<Rightarrow> proceed ()) (\<lambda>_.
      on_session (write_out (from_io S) flush_all))) (rd1, se1))"
    if second: "second_response B M N (from_io S) with_tls h sq (rd, se) = Ret (Inr (h', sq'), rd1, se1)" and st1: "shim_state se1 = st"
    for h' sq' rd1 and se1 :: "'a session"
  proof -
    note facts = second_response_Inr [OF h(2) second]
    obtain user where user: "username h' = Some user" using facts(1) by blast
    have caps1: "client_capabilities se1 = client_capabilities se" using facts(2) by (elim disjE exE) simp_all
    obtain msgs h1 where msgs: "unread rd = received_wire msgs @ unread rd1" "hello M N with_tls ((sq, p0) # msgs) h1 sq'"
      and same: "username h' = username h1" "capabilities h' = capabilities h1" "auth_plugin h' = auth_plugin h1"
        "auth_response h' = auth_response h1"
    proof (cases "with_tls \<and> has_cap M (capabilities h) CLIENT_SSL")
      case True
      obtain reply p r where "unread rd = received_wire reply @ unread rd1" "reply = [(sq', p)]" and p: "whole (sq', p)"
        "first_seq p = sq + 1" "client_handshake M N True (packet_bytes p) = Inr (r, h')"
        using facts(3) [OF N, unfolded if_P [OF True]] by (elim exE conjE)
      then have more: "unread rd = received_wire [(sq', p)] @ unread rd1" by (simp only:)
      from True have ssl: "with_tls \<and> has_cap M (capabilities h0) CLIENT_SSL" by (simp add: h(1))
      show ?thesis by (rule that [OF more hello_again [OF p0 ssl p]]) (rule refl)+
    next
      case False
      have p: "unread rd = received_wire [] @ unread rd1" "h' = h" "sq' = sq"
        using facts(3) [OF N, unfolded if_not_P [OF False]] by auto
      from False have plain: "\<not> (with_tls \<and> has_cap M (capabilities h0) CLIENT_SSL)" by (simp add: h(1))
      have "hello M N with_tls [(sq, p0)] h0 sq'" unfolding p(3) by (rule hello_once [OF p0 plain])
      with p(1) show ?thesis by (rule that) (simp_all add: p(2) h(1))
    qed
    show ?thesis
    proof (rule refused_bind [OF safe_session [OF safe_negotiate] st1])
      fix u rd2 and se2 :: "'a session"
      assume "on_session (negotiate B M (from_io S) h' sq') (rd1, se1) = Ret (Inr u, rd2, se2)" and st2: "shim_state se2 = st"
      then have rd2: "rd2 = rd1" and caps2: "client_capabilities se2 = client_capabilities se AND capabilities h1"
        by (auto simp: login_simps caps1 same(2) with_seq_def dest: negotiate_Inr(1))
      have "refused_in st (login_user B M N debug S scramble h' sq' user (rd2, se2))"
      proof (rule refused_login [OF N st2])
        fix reply data rest
        assume more: "unread rd2 = received_wire reply @ rest"
          and "auth_data M (client_capabilities se2) (auth_plugin_for_username S st user) h' sq' reply data"
        then have "auth_data M (client_capabilities se AND capabilities h1) (auth_plugin_for_username S st user) h1 sq' reply data"
          by (simp add: caps2 auth_data.simps switch_required_def same)
        with msgs(2) user same(1) have "presents M N with_tls (client_capabilities se) (auth_plugin_for_username S st)
            ((sq, p0) # (msgs @ reply)) user (effective_auth (auth_plugin_for_username S st user) data)"
          unfolding presents_def append_Cons [symmetric] by metis
        moreover have "unread rd = received_wire (msgs @ reply) @ rest" using msgs(1) more rd2 by simp
        ultimately show "\<not> authenticate S st (auth_plugin_for_username S st user) user scramble
            (effective_auth (auth_plugin_for_username S st user) data)" using bad by blast
      qed
      then show "refused_in st (bind_login (case username h' of Some user \<Rightarrow> login_user B M N debug S scramble h' sq' user
          | None \<Rightarrow> proceed ()) (\<lambda>_. on_session (write_out (from_io S) flush_all)) (rd2, se2))"
        by (simp add: user refused_bind_first)
    qed
  qed
  then show ?thesis
    unfolding init_after_ssl_def h(1) by (auto intro!: refused_bind [OF safe_second_response [OF h(2), unfolded h(1)] st])
qed

lemma refused_login_and_run:
  "refused_in st (init_after_ssl B M N debug S with_tls h sq (packet_reader opts input, se)) \<Longrightarrow>
   \<exists>e rd' se'. login_and_run B M C F N debug S with_tls fuel opts h sq input se = Some (Ended (Inl e) rd' se') \<and> shim_state se' = st"
  by (auto simp: refused_in_def login_and_run_def)

subsection \<open>Connections that are refused\<close>

lemma first_response:
  assumes "nom_spec N" and connected: "init_before_ssl B M N T cfg input opts s = (Inr (ssl, h, sq, caps, rd), s')"
  obtains p r0 h0 where "stream_bytes input = received_wire [(sq, p)] @ unread rd" "whole (sq, p)" "first_seq p = 1"
    "client_handshake M N False (packet_bytes p) = Inr (r0, h0)" "h = h0\<lparr>server_scramble := Some (cfg_scramble cfg)\<rparr>"
    "caps = server_capabilities M opts T" "ssl = has_cap M (capabilities h0) CLIENT_SSL"
proof -
  obtain p h0 r0 where p: "read_packet_with_timeout N (opt_auth_timeout opts) (packet_reader opts input) = (Inr (Some (sq, p)), rd)"
      "first_seq p = 1" "client_handshake M N False (packet_bytes p) = Inr (r0, h0)"
      "h = h0\<lparr>server_scramble := Some (cfg_scramble cfg)\<rparr>"
    and caps: "caps = server_capabilities M opts T" "ssl = has_cap M (capabilities h0) CLIENT_SSL"
    using connected by (rule init_before_ssl_Inr) blast
  have "stream_bytes input = received_wire [(sq, p)] @ unread rd" "whole (sq, p)"
    using read_sound [OF assms(1) p(1)] by (simp_all add: unread_def packet_reader_def new_with_max_packet_size_def)
  then show ?thesis using p(2-4) caps by (rule that)
qed

lemma unread_packet_reader [simp]: "unread (packet_reader opts input) = stream_bytes input"
  by (simp add: unread_def packet_reader_def new_with_max_packet_size_def)

text \<open>C7: a client with bad credentials is refused: when the backend rejects, for this greeting's
  challenge, the authentication data that this client presents for the user it names, then, whatever
  else the backend would accept, whatever the client sends besides and however the transport behaves,
  the connection ends with an error before the command loop and no callback of the command phase has
  been called: the backend's state is the one it had when it was asked for the challenge. It never
  panics and never hangs.\<close>

theorem unauthenticated_client_refused:
  assumes "nom_spec N" and "handshake_config S st = (cfg, st1)"
    and "\<And>msgs rest user auth. stream_bytes input = received_wire msgs @ rest \<Longrightarrow>
      presents M N with_tls (server_capabilities M opts (if with_tls then WithTls False else WithoutTls))
        (auth_plugin_for_username S st1) msgs user auth \<Longrightarrow>
      \<not> authenticate S st1 (auth_plugin_for_username S st1 user) user (cfg_scramble cfg) auth"
  shows "\<exists>e. run_with_options B M C F N debug S with_tls fuel st input s opts = Some (Refused e) \<or>
    (\<exists>rd se. run_with_options B M C F N debug S with_tls fuel st input s opts = Some (Ended (Inl e) rd se) \<and>
       shim_state se = st1)"
proof -
  let ?T = "if with_tls then WithTls False else WithoutTls"
  obtain r s' where r: "init_before_ssl B M N ?T cfg input opts s = (r, s')" by fastforce
  show ?thesis
  proof (cases r)
    case (Inl e)
    with r assms(2) show ?thesis by (simp add: run_with_options_def)
  next
    case (Inr x)
    then obtain ssl h sq caps rd where x: "r = Inr (ssl, h, sq, caps, rd)" by (cases x) auto
    note connected = r [unfolded x]
    obtain p r0 h0 where p: "stream_bytes input = received_wire [(sq, p)] @ unread rd" "whole (sq, p)" "first_seq p = 1"
      "client_handshake M N False (packet_bytes p) = Inr (r0, h0)" "h = h0\<lparr>server_scramble := Some (cfg_scramble cfg)\<rparr>"
      and caps: "caps = server_capabilities M opts ?T"
      by (rule first_response [OF assms(1) connected])
    have named: "username h = None \<longrightarrow> with_tls \<and> has_cap M (capabilities h) CLIENT_SSL"
      using handed_over(2) [OF connected] by (auto split: if_splits)
    have "refused_in st1 (init_after_ssl B M N debug S with_tls h sq (packet_reader opts (reader_stream rd), new_session opts caps st1 s'))"
    proof (rule refused_init_after_ssl [OF assms(1) _ p(2-5) named])
      fix msgs rest user auth
      assume "unread (packet_reader opts (reader_stream rd)) = received_wire msgs @ rest"
        and sent: "presents M N with_tls (client_capabilities (new_session opts caps st1 s')) (auth_plugin_for_username S st1)
          ((sq, p) # msgs) user auth"
      then have "stream_bytes input = received_wire ((sq, p) # msgs) @ rest" using p(1) by (simp del: unread_packet_reader)
      then show "\<not> authenticate S st1 (auth_plugin_for_username S st1 user) user (cfg_scramble cfg) auth"
        by (rule assms(3)) (use sent caps in simp)
    qed simp
    from refused_login_and_run [OF this, where C = C and F = F and fuel = fuel] obtain e rd' se'
      where "login_and_run B M C F N debug S with_tls fuel opts h sq (reader_stream rd) (new_session opts caps st1 s') =
        Some (Ended (Inl e) rd' se')" "shim_state se' = st1"
      by blast
    then show ?thesis using r x assms(2) by (simp add: run_with_options_def)
  qed
qed

text \<open>C25: the same for a client inside TLS, whatever the negotiation delivers: when the backend rejects
  the credentials that the client presents there, behind its request to switch, it is never served, even
  though the backend would accept others; only a negotiation without a time limit can leave the
  connection waiting.\<close>

theorem unauthenticated_tls_client_refused:
  assumes "nom_spec N" and "init_before_ssl B M N T cfg input opts s0 = (Inr (True, h, sq, caps, rd), s)"
    and "\<And>request inner s' login rest user auth. stream_bytes input = received_wire [request] @ unread rd \<Longrightarrow>
      switch_to_tls accept rd s = Some (Inr (inner, s')) \<Longrightarrow> stream_bytes inner = received_wire login @ rest \<Longrightarrow> login \<noteq> [] \<Longrightarrow>
      presents M N True (server_capabilities M opts T) (auth_plugin_for_username S st) (request # login) user auth \<Longrightarrow>
      \<not> authenticate S st (auth_plugin_for_username S st user) user (cfg_scramble cfg) auth"
  shows "case secure_run_with_options B M C F N debug S accept fuel st s opts (h, sq, caps, rd) of
      None \<Rightarrow> opt_auth_timeout opts = None
    | Some (Refused e) \<Rightarrow> True
    | Some (Ended r rd' se) \<Rightarrow> r \<noteq> Inr () \<and> shim_state se = st
    | Some Crashed \<Rightarrow> False"
proof (cases "switch_to_tls accept rd s")
  case None
  then show ?thesis by (simp add: secure_run_with_options_def)
next
  case (Some a)
  show ?thesis
  proof (cases a)
    case (Inl e)
    with Some show ?thesis by (simp add: secure_run_with_options_def)
  next
    case (Inr x)
    obtain inner s' where x: "x = (inner, s')" by fastforce
    obtain p r0 h0 where p: "stream_bytes input = received_wire [(sq, p)] @ unread rd" "whole (sq, p)" "first_seq p = 1"
      "client_handshake M N False (packet_bytes p) = Inr (r0, h0)" "h = h0\<lparr>server_scramble := Some (cfg_scramble cfg)\<rparr>"
      and caps: "caps = server_capabilities M opts T" and ssl: "True = has_cap M (capabilities h0) CLIENT_SSL"
      by (rule first_response [OF assms(1,2)])
    have "refused_in st (init_after_ssl B M N debug S True h sq (packet_reader opts inner, new_session opts caps st s'))"
    proof (rule refused_init_after_ssl [OF assms(1) _ p(2-5)])
      fix msgs rest user auth
      assume "unread (packet_reader opts inner) = received_wire msgs @ rest"
        and sent: "presents M N True (client_capabilities (new_session opts caps st s')) (auth_plugin_for_username S st)
          ((sq, p) # msgs) user auth"
      moreover have "msgs \<noteq> []"
      proof
        assume "msgs = []"
        with sent obtain hs h1 sq1 reply where "[(sq, p)] = hs @ reply" "hello M N True hs h1 sq1" by (auto simp: presents_def)
        then show False using p(4) ssl by (auto elim!: hello.cases simp: Cons_eq_append_conv)
      qed
      ultimately show "\<not> authenticate S st (auth_plugin_for_username S st user) user (cfg_scramble cfg) auth"
        using assms(3) [OF p(1) Some [unfolded Inr x], of msgs rest user auth] by (simp add: caps)
    qed (use ssl p(5) in simp_all)
    from refused_login_and_run [OF this, where C = C and F = F and fuel = fuel] obtain e rd' se'
      where "login_and_run B M C F N debug S True fuel opts h sq inner (new_session opts caps st s') =
        Some (Ended (Inl e) rd' se')" "shim_state se' = st"
      by blast
    then show ?thesis using Some Inr x by (simp add: secure_run_with_options_def)
  qed
qed

subsection \<open>Clients with bad credentials\<close>

text \<open>A client of a backend that accepts the data \<open>[1, 0, 2]\<close> sends others.\<close>

definition demo_bad_packet :: bytes where
  "demo_bad_packet = ssl_request_bytes 0x8200 1024 45 (replicate 23 0) @
     credentials_bytes myc_ref 0x8200 [97] [9, 9, 9] [] []"

definition demo_bad_handshake :: ClientHandshake where
  "demo_bad_handshake = demo_handshake\<lparr>auth_response := [9, 9, 9]\<rparr>"

lemma demo_bad_parsed: "client_handshake myc_ref nom_ref after_tls demo_bad_packet = Inr ([], demo_bad_handshake)"
  using handshake_41_read [OF nom_ref_spec myc_ref_spec demo_caps_8200(1), of "replicate 23 0" after_tls
      "[97]" "[]" "[]" "[9, 9, 9]" 1024 45 "[]"] demo_caps_8200
  by (simp add: demo_bad_packet_def demo_bad_handshake_def demo_handshake_def auth_fits_def)

lemma demo_bad_length: "length demo_bad_packet = 38"
  using demo_caps_8200
  by (simp add: demo_bad_packet_def ssl_request_bytes_def credentials_bytes_def null_str_def auth_bytes_def)

text \<open>The frames of a payload determine it.\<close>

lemma frames_unique:
  assumes "frames s p @ r = frames s' p' @ r'" and "length p \<le> usize_max" and "length p' \<le> usize_max"
  shows "p = p'" and "s = s'" and "r = r'"
proof -
  note p = packet_frames [OF nom_ref_spec assms(2), of s r, unfolded assms(1)]
  from trans [OF p [symmetric] packet_frames [OF nom_ref_spec assms(3), of s' r']]
  show "p = p'" and "s = s'" and "r = r'" by (simp_all add: parsed_def)
qed

lemma frames_start:
  assumes "frames s p @ r = frames s' p'" and "length p' \<le> 1000"
  shows "p = p'" and "s = s'" and "r = []"
proof -
  have len: "length (frames s' p') = length p' + 4" using assms(2) by (simp add: frames_short U24_MAX_def)
  have "length p \<le> length (frames s p)" using frames_length [of p s] by simp
  also have "\<dots> \<le> length p' + 4" using arg_cong [OF assms(1), of length] len by simp
  finally have "length p \<le> usize_max" using assms(2) by (simp add: usize_max_def)
  from frames_unique [OF _ this, where r = r and s = s and s' = s' and p' = p' and r' = "[]"] assms
  show "p = p'" and "s = s'" and "r = []" by (simp_all add: usize_max_def)
qed

lemma demo_bad_caps:
  assumes "offered = server_capabilities myc_ref demo_options T"
  shows "\<not> has_cap myc_ref (offered AND capabilities demo_bad_handshake) CLIENT_PLUGIN_AUTH"
    "\<not> has_cap myc_ref (capabilities demo_bad_handshake) CLIENT_SSL"
proof -
  have caps: "has_cap myc_ref (capabilities demo_bad_handshake) c = has_cap myc_ref 0x8200 c" for c
    by (simp add: demo_bad_handshake_def demo_handshake_def has_cap_truncate [OF myc_ref_spec])
  show "\<not> has_cap myc_ref (capabilities demo_bad_handshake) CLIENT_SSL" using demo_caps_8200 by (simp add: caps)
  have "\<not> has_cap myc_ref (capabilities demo_bad_handshake) CLIENT_PLUGIN_AUTH" using demo_caps_8200 by (simp add: caps)
  then show "\<not> has_cap myc_ref (offered AND capabilities demo_bad_handshake) CLIENT_PLUGIN_AUTH"
    by (auto simp: has_cap_def contains_def bit_eq_iff bit_simps)
qed

lemma demo_bad_auth:
  assumes "auth_data myc_ref (server_capabilities myc_ref demo_options T AND capabilities demo_bad_handshake) plugin demo_bad_handshake sq replies data"
  shows "effective_auth plugin data = [9, 9, 9]"
  using assms demo_bad_caps(1) [OF refl, of T]
  by cases (simp_all add: switch_required_def effective_auth_def demo_bad_handshake_def)

lemma demo_bad_input:
  assumes "frames 1 demo_bad_packet = received_wire msgs @ rest"
    and "presents myc_ref nom_ref with_tls (server_capabilities myc_ref demo_options T) plugin_for msgs user auth"
  shows "auth = [9, 9, 9]"
proof -
  obtain hs h sq reply data where msgs: "msgs = hs @ reply" "hello myc_ref nom_ref with_tls hs h sq"
    and data: "auth_data myc_ref (server_capabilities myc_ref demo_options T AND capabilities h) (plugin_for user) h sq reply data"
      "auth = effective_auth (plugin_for user) data"
    using assms(2) by (auto simp: presents_def)
  have first: "h1 = demo_bad_handshake"
    if "hs = (sq1, p) # more" "first_seq p = 1" "client_handshake myc_ref (nom_ref :: Command nom_ops) False (packet_bytes p) = Inr (r, h1)" for sq1 p more r h1
  proof -
    have "frames 1 (packet_bytes p) @ received_wire (more @ reply) @ rest = frames 1 demo_bad_packet"
      using assms(1) that(1,2) msgs(1) by simp
    from frames_start(1) [OF this] that(3) show ?thesis by (simp add: demo_bad_length demo_bad_parsed)
  qed
  from msgs(2) have "h = demo_bad_handshake"
  proof cases
    case (hello_once p r)
    then show ?thesis using first by blast
  next
    case (hello_again sq1 p r h1 p' r')
    then have "h1 = demo_bad_handshake" using first by blast
    with hello_again demo_bad_caps(2) [OF refl] show ?thesis by simp
  qed
  with data demo_bad_auth show ?thesis by simp
qed

theorem unauthenticated_client_refused_witness:
  "(\<exists>e. run_with_options byteorder_ref myc_ref chrono_ref fmt_none nom_ref id demo_backend True 3 ()
      [RData (frames 1 demo_bad_packet)] demo_sink demo_options = Some (Refused e) \<or>
    (\<exists>rd se. run_with_options byteorder_ref myc_ref chrono_ref fmt_none nom_ref id demo_backend True 3 ()
       [RData (frames 1 demo_bad_packet)] demo_sink demo_options = Some (Ended (Inl e) rd se) \<and> shim_state se = ())) \<and>
   authenticate demo_backend () (auth_plugin_for_username demo_backend () [97]) [97] (cfg_scramble demo_cfg) [1, 0, 2]"
proof
  show "\<exists>e. run_with_options byteorder_ref myc_ref chrono_ref fmt_none nom_ref id demo_backend True 3 ()
      [RData (frames 1 demo_bad_packet)] demo_sink demo_options = Some (Refused e) \<or>
    (\<exists>rd se. run_with_options byteorder_ref myc_ref chrono_ref fmt_none nom_ref id demo_backend True 3 ()
       [RData (frames 1 demo_bad_packet)] demo_sink demo_options = Some (Ended (Inl e) rd se) \<and> shim_state se = ())"
  proof (rule unauthenticated_client_refused [OF nom_ref_spec demo_backend_config])
    fix msgs rest user auth
    assume "stream_bytes [RData (frames 1 demo_bad_packet)] = received_wire msgs @ rest"
      and sent: "presents myc_ref nom_ref True (server_capabilities myc_ref demo_options (if True then WithTls False else WithoutTls))
        (auth_plugin_for_username demo_backend ()) msgs user auth"
    then have "frames 1 demo_bad_packet = received_wire msgs @ rest" by simp
    from demo_bad_input [OF this sent] show "\<not> authenticate demo_backend () (auth_plugin_for_username demo_backend () user) user
      (cfg_scramble demo_cfg) auth" by simp
  qed
  show "authenticate demo_backend () (auth_plugin_for_username demo_backend () [97]) [97] (cfg_scramble demo_cfg) [1, 0, 2]"
    by simp
qed

text \<open>The same client inside TLS.\<close>

definition demo_bad_accept :: tls_accept where
  "demo_bad_accept d = Some (Inr ([RData (frames 2 demo_bad_packet)], duplex_writer d))"

lemma demo_bad_inner:
  assumes "stream_bytes input = received_wire [request] @ unread rd" "stream_bytes inner = received_wire login @ rest"
    and "init_before_ssl byteorder_ref myc_ref nom_ref T demo_config input opts s0 = (Inr (True, h0, 1, caps, rd), s)"
    and "input = [RData (frames 1 demo_ssl_request)]" "inner = [RData (frames 2 demo_bad_packet)]"
    and "presents myc_ref nom_ref True (server_capabilities myc_ref demo_options T') plugin_for (request # login) user auth"
  shows "auth = [9, 9, 9]"
proof -
  obtain p0 r0 h1 where p0: "stream_bytes input = received_wire [(1, p0)] @ unread rd" "first_seq p0 = 1"
    "client_handshake myc_ref (nom_ref :: Command nom_ops) False (packet_bytes p0) = Inr (r0, h1)" and "True = has_cap myc_ref (capabilities h1) CLIENT_SSL"
    by (rule first_response [OF nom_ref_spec assms(3)]) blast
  then have offers: "has_cap myc_ref (capabilities h1) CLIENT_SSL" by simp
  have small: "length demo_ssl_request \<le> 1000" by (simp add: demo_ssl_request_def ssl_request_bytes_def)
  have "frames 1 (packet_bytes p0) @ unread rd = frames 1 demo_ssl_request" using p0(1,2) assms(4) by simp
  note ssl = frames_start [OF this small]
  have "frames (first_seq (snd request)) (packet_bytes (snd request)) @ unread rd = frames 1 demo_ssl_request"
    using assms(1,4) by simp
  note req = frames_start [OF this small]
  obtain hs h sq reply data where msgs: "request # login = hs @ reply" "hello myc_ref nom_ref True hs h sq"
    and data: "auth_data myc_ref (server_capabilities myc_ref demo_options T' AND capabilities h) (plugin_for user) h sq reply data"
      "auth = effective_auth (plugin_for user) data"
    using assms(6) by (auto simp: presents_def)
  from msgs(2) have "h = demo_bad_handshake"
  proof cases
    case (hello_once p r)
    then have "client_handshake myc_ref (nom_ref :: Command nom_ops) False demo_ssl_request = Inr (r, h)" using msgs(1) req(1) by simp
    with p0(3) offers ssl(1) hello_once show ?thesis by simp
  next
    case (hello_again sq1 p r h2 p' r')
    then have "login = (sq, p') # reply" and sq1: "whole (sq1, p)" "packet_bytes p = demo_ssl_request" "first_seq p' = sq1 + 1"
        "first_seq p = 1"
      using msgs(1) req(1) by simp_all
    have "sq1 = 1" using sq1(1,2,4) small by (simp add: whole_def parsed_def U24_MAX_def)
    then have "frames 2 (packet_bytes p') @ received_wire reply @ rest = frames 2 demo_bad_packet"
      using assms(2,5) \<open>login = _\<close> sq1(3) by simp
    from frames_start(1) [OF this] hello_again show ?thesis by (simp add: demo_bad_length demo_bad_parsed)
  qed
  with data demo_bad_auth show ?thesis by simp
qed

theorem unauthenticated_tls_client_refused_witness:
  "\<exists>h rd s. case secure_run_with_options byteorder_ref myc_ref chrono_ref fmt_none nom_ref id demo_backend demo_bad_accept 3 () s demo_options
      (h, 1, server_capabilities myc_ref demo_options (WithTls True), rd) of
      None \<Rightarrow> opt_auth_timeout demo_options = None
    | Some (Refused e) \<Rightarrow> True
    | Some (Ended r rd' se) \<Rightarrow> r \<noteq> Inr () \<and> shim_state se = ()
    | Some Crashed \<Rightarrow> False"
proof -
  obtain h rd s' where run: "init_before_ssl byteorder_ref myc_ref nom_ref (WithTls True) demo_config
      [RData (frames 1 demo_ssl_request)] demo_options demo_sink =
      (Inr (True, h, 1, server_capabilities myc_ref demo_options (WithTls True), rd), s')"
    using demo_connected by blast
  have "case secure_run_with_options byteorder_ref myc_ref chrono_ref fmt_none nom_ref id demo_backend demo_bad_accept 3 () s' demo_options
      (h, 1, server_capabilities myc_ref demo_options (WithTls True), rd) of
      None \<Rightarrow> opt_auth_timeout demo_options = None
    | Some (Refused e) \<Rightarrow> True
    | Some (Ended r rd' se) \<Rightarrow> r \<noteq> Inr () \<and> shim_state se = ()
    | Some Crashed \<Rightarrow> False"
  proof (rule unauthenticated_tls_client_refused [OF nom_ref_spec run])
    fix request inner s2 login rest user auth
    assume "stream_bytes [RData (frames 1 demo_ssl_request)] = received_wire [request] @ unread rd"
      and sw: "switch_to_tls demo_bad_accept rd s' = Some (Inr (inner, s2))" and "stream_bytes inner = received_wire login @ rest"
      and "presents myc_ref nom_ref True (server_capabilities myc_ref demo_options (WithTls True))
        (auth_plugin_for_username demo_backend ()) (request # login) user auth"
    moreover have "inner = [RData (frames 2 demo_bad_packet)]" using sw by (simp add: switch_to_tls_def demo_bad_accept_def)
    ultimately have "auth = [9, 9, 9]" using demo_bad_inner [OF _ _ run refl] by blast
    then show "\<not> authenticate demo_backend () (auth_plugin_for_username demo_backend () user) user (cfg_scramble demo_config) auth" by simp
  qed
  then show ?thesis by blast
qed

end
