(* ===== verification/Challenge.thy ===== *)
theory Challenge
  imports Greeting
begin

text \<open>
  Challenges: what the rejection sampling of \<open>generate_scramble\<close> makes of the bytes that the random
  source yields, that it ends when the source is fair, and what happens when the source fails.
\<close>

subsection \<open>The reference: a draw with its unusable bytes replaced\<close>

text \<open>A byte that a client reads as ASCII and that delimits nothing.\<close>

definition usable :: "u8 \<Rightarrow> bool" where
  "usable b \<longleftrightarrow> b < 128 \<and> b \<noteq> 0 \<and> b \<noteq> 0x24"

text \<open>Each unusable byte gives way to the next of the substitutes, all others stay where they are.\<close>

fun substituted :: "bytes \<Rightarrow> bytes \<Rightarrow> bytes" where
  "substituted [] xs = []"
| "substituted (b # bs) xs =
     (if usable b then b # substituted bs xs else (case xs of [] \<Rightarrow> [] | x # xs \<Rightarrow> x # substituted bs xs))"

text \<open>\<open>singles fill g xs g'\<close>: drawn byte by byte, the source yields \<open>xs\<close>.\<close>

inductive singles :: "'g random \<Rightarrow> 'g \<Rightarrow> bytes \<Rightarrow> 'g \<Rightarrow> bool" for fill where
  none: "singles fill g [] g"
| next_one: "fill 1 g = (Inr [x], g1) \<Longrightarrow> singles fill g1 xs g' \<Longrightarrow> singles fill g (x # xs) g'"

text \<open>A source that does not fail fills the whole buffer.\<close>

definition fills :: "'g random \<Rightarrow> bool" where
  "fills fill \<longleftrightarrow> (\<forall>n g bs g'. fill n g = (Inr bs, g') \<longrightarrow> length bs = n)"

text \<open>It eventually yields a usable byte, or fails.\<close>

inductive settles :: "'g random \<Rightarrow> 'g \<Rightarrow> bool" for fill where
  fails: "fill 1 g = (Inl e, g') \<Longrightarrow> settles fill g"
| accepts: "fill 1 g = (Inr bs, g') \<Longrightarrow> usable (bs ! 0) \<Longrightarrow> settles fill g"
| retries: "fill 1 g = (Inr bs, g') \<Longrightarrow> settles fill g' \<Longrightarrow> settles fill g"

subsection \<open>The sampling\<close>

lemma usable_test: "\<not> (127 < b \<or> delimiter b) \<longleftrightarrow> usable b" for b :: u8
proof -
  have "127 < b \<longleftrightarrow> \<not> b < 128"
    by unat_arith
  then show ?thesis by (auto simp: usable_def delimiter_def)
qed

lemma singles_append: "singles fill g xs g1 \<Longrightarrow> singles fill g1 ys g' \<Longrightarrow> singles fill g (xs @ ys) g'"
  by (induction rule: singles.induct) (auto intro: singles.intros)

lemma substituted_usable:
  "length xs = length (filter (\<lambda>b. \<not> usable b) bs) \<Longrightarrow> list_all usable xs \<Longrightarrow>
   list_all usable (substituted bs xs) \<and> length (substituted bs xs) = length bs"
  by (induction bs xs rule: substituted.induct) (auto split: list.splits if_splits)

lemma filled: "fills fill \<Longrightarrow> fill n g = (Inr bs, g') \<Longrightarrow> length bs = n"
  unfolding fills_def by blast

lemma one_byte: "length bs = 1 \<Longrightarrow> bs = [bs ! 0]"
  by (cases bs) auto

text \<open>What comes of a draw of single bytes: an error of the source, or the substitutes.\<close>

fun byte_found :: "'g random \<Rightarrow> 'g \<Rightarrow> (io_error + u8) \<times> 'g \<Rightarrow> bool" where
  "byte_found fill g (Inl e, g') \<longleftrightarrow> (\<exists>more g2. singles fill g more g2 \<and> fill 1 g2 = (Inl e, g'))"
| "byte_found fill g (Inr c, g') \<longleftrightarrow> (\<exists>more. singles fill g (more @ [c]) g' \<and> usable c \<and> filter usable more = [])"

lemma byte_found_later:
  assumes "fill 1 g = (Inr [x], g1)" and "\<not> usable x" and "byte_found fill g1 p"
  shows "byte_found fill g p"
proof (cases "fst p")
  case (Inl e)
  with assms obtain more g2 where "singles fill g1 more g2" "fill 1 g2 = (Inl e, snd p)" by (cases p) auto
  with singles.next_one [of fill g x g1, OF assms(1)] Inl show ?thesis by (cases p) auto
next
  case (Inr c)
  with assms obtain more where "singles fill g1 (more @ [c]) (snd p)" "usable c" "filter usable more = []" by (cases p) auto
  with singles.next_one [of fill g x g1, OF assms(1), of "more @ [c]" "snd p"] Inr assms(2) show ?thesis
    by (cases p) (auto intro!: exI [of _ "x # more"])
qed

lemma byte_found_now:
  assumes "fill 1 g = (Inr bs, g')" and "length bs = 1" and "usable (bs ! 0)"
  shows "byte_found fill g (Inr (bs ! 0), g')"
proof -
  have "fill 1 g = (Inr [bs ! 0], g')" using assms(1) one_byte [OF assms(2)] by simp
  from singles.next_one [of fill g "bs ! 0" g', OF this singles.none] show ?thesis
    using assms(3) by (auto intro!: exI [of _ "[]"])
qed

lemma acceptable_usable: "usable b \<Longrightarrow> acceptable_byte fill b g = Some (Inr b, g)"
  by (subst acceptable_byte.simps) (simp add: usable_test [symmetric])

lemma acceptable_next:
  "\<not> usable b \<Longrightarrow> fill 1 g = (Inr bs, g') \<Longrightarrow> acceptable_byte fill b g = acceptable_byte fill (bs ! 0) g'"
  by (subst acceptable_byte.simps) (simp add: usable_test [symmetric])

lemma rejected_byte:
  assumes "settles fill g" and draws: "fills fill"
  shows "\<not> usable b \<Longrightarrow> \<exists>p. acceptable_byte fill b g = Some p \<and> byte_found fill g p"
  using assms(1)
proof (induction arbitrary: b rule: settles.induct)
  case (fails g e g')
  then have "acceptable_byte fill b g = Some (Inl e, g')" by (subst acceptable_byte.simps) (simp add: usable_test [symmetric])
  moreover have "byte_found fill g (Inl e, g')" using fails(1) by (auto intro: singles.none)
  ultimately show ?case by blast
next
  case (accepts g bs g')
  have "length bs = 1" using draws accepts(1) by (rule filled)
  with accepts have "byte_found fill g (Inr (bs ! 0), g')" by (intro byte_found_now)
  with acceptable_next [of b fill g bs g'] acceptable_usable [of "bs ! 0" fill g'] accepts
  show ?case by (auto simp del: byte_found.simps)
next
  case (retries g bs g')
  have one: "length bs = 1" using draws retries(1) by (rule filled)
  have unfold: "acceptable_byte fill b g = acceptable_byte fill (bs ! 0) g'" using retries(4,1) by (rule acceptable_next)
  show ?case
  proof (cases "usable (bs ! 0)")
    case True
    with retries(1) one have "byte_found fill g (Inr (bs ! 0), g')" by (intro byte_found_now)
    with acceptable_usable [OF True, of fill g'] show ?thesis
      unfolding unfold by (auto simp del: byte_found.simps)
  next
    case False
    from retries.IH [OF this] obtain p where "acceptable_byte fill (bs ! 0) g' = Some p" "byte_found fill g' p" by blast
    moreover have "fill 1 g = (Inr [bs ! 0], g')" using retries(1) one_byte [OF one] by simp
    ultimately show ?thesis using byte_found_later [of fill g "bs ! 0" g', OF _ False] unfolding unfold by blast
  qed
qed

text \<open>The whole challenge.\<close>

lemma sampled_bytes:
  assumes "\<And>g. settles fill g" and draws: "fills fill"
  shows "\<exists>r g'. acceptable_bytes fill bs g = Some (r, g') \<and>
    (case r of
       Inl e \<Rightarrow> \<exists>more g2. singles fill g more g2 \<and> fill 1 g2 = (Inl e, g')
     | Inr cs \<Rightarrow> \<exists>more. singles fill g more g' \<and> cs = substituted bs (filter usable more) \<and>
         length (filter usable more) = length (filter (\<lambda>b. \<not> usable b) bs))"
proof (induction bs arbitrary: g)
  case Nil
  show ?case by (auto intro!: exI [of _ "[]"] singles.none)
next
  case (Cons b bs)
  show ?case
  proof (cases "usable b")
    case True
    obtain r g' where r: "acceptable_bytes fill bs g = Some (r, g')" and found: "case r of
        Inl e \<Rightarrow> \<exists>more g2. singles fill g more g2 \<and> fill 1 g2 = (Inl e, g')
      | Inr cs \<Rightarrow> \<exists>more. singles fill g more g' \<and> cs = substituted bs (filter usable more) \<and>
          length (filter usable more) = length (filter (\<lambda>b. \<not> usable b) bs)"
      using Cons.IH by blast
    with True acceptable_usable [OF True, of fill g] show ?thesis by (cases r) auto
  next
    case False
    obtain r1 g1 where b: "acceptable_byte fill b g = Some (r1, g1)" "byte_found fill g (r1, g1)"
      using rejected_byte [OF assms(1) draws False] by fastforce
    show ?thesis
    proof (cases r1)
      case (Inl e)
      with b show ?thesis by auto
    next
      case (Inr c)
      with b obtain more1 where more1: "singles fill g (more1 @ [c]) g1" "usable c" "filter usable more1 = []" by auto
      obtain r g' where r: "acceptable_bytes fill bs g1 = Some (r, g')" and found: "case r of
          Inl e \<Rightarrow> \<exists>more g2. singles fill g1 more g2 \<and> fill 1 g2 = (Inl e, g')
        | Inr cs \<Rightarrow> \<exists>more. singles fill g1 more g' \<and> cs = substituted bs (filter usable more) \<and>
            length (filter usable more) = length (filter (\<lambda>b. \<not> usable b) bs)"
        using Cons.IH by blast
      show ?thesis
      proof (cases r)
        case (Inl e)
        with found obtain more2 g2 where "singles fill g1 more2 g2" "fill 1 g2 = (Inl e, g')" by auto
        with singles_append [OF more1(1)] b(1) r Inl \<open>r1 = Inr c\<close> show ?thesis by auto
      next
        case (Inr cs)
        with found obtain more2 where "singles fill g1 more2 g'" "cs = substituted bs (filter usable more2)"
          "length (filter usable more2) = length (filter (\<lambda>b. \<not> usable b) bs)" by auto
        with singles_append [OF more1(1)] b(1) r Inr \<open>r1 = Inr c\<close> False more1(2,3) show ?thesis
          by (auto intro!: exI [of _ "more1 @ c # more2"])
      qed
    qed
  qed
qed

text \<open>C28: the default challenge always comes about when the random source is fair. While the source
  does not fail, the challenge is what it first yields, twenty bytes, with exactly the unusable
  ones replaced by the usable ones of the bytes drawn after them; so all of its bytes are ASCII and none
  is a zero or a dollar sign. Only when the source fails is the challenge twenty zeros instead,
  and that one the connection phase refuses to send.\<close>

theorem challenge_generated:
  assumes "\<And>g. settles fill g" and "fills fill"
  shows "\<exists>r g'. generate_scramble fill g = Some (r, g') \<and>
    (case r of
       Inr c \<Rightarrow> default_salt fill g = Some (c, g') \<and> length c = 20 \<and> (\<forall>b \<in> set c. b < 128 \<and> b \<noteq> 0 \<and> b \<noteq> 0x24) \<and>
         (\<exists>first g1 more. fill 20 g = (Inr first, g1) \<and> singles fill g1 more g' \<and> c = substituted first (filter usable more) \<and>
            length (filter usable more) = length (filter (\<lambda>b. \<not> usable b) first))
     | Inl e \<Rightarrow> default_salt fill g = Some (replicate 20 0, g') \<and>
         (fill 20 g = (Inl e, g') \<or>
          (\<exists>first g1 more g2. fill 20 g = (Inr first, g1) \<and> singles fill g1 more g2 \<and> fill 1 g2 = (Inl e, g'))) \<and>
         (\<forall>cfg. cfg_scramble cfg = replicate 20 0 \<longrightarrow> init_before_ssl B M N T cfg input opts s =
            (Inl (IoError InvalidInput (ascii ''authentication challenge contains a protocol delimiter'')), s)))"
proof -
  have zeros: "init_before_ssl B M N T cfg input opts s =
      (Inl (IoError InvalidInput (ascii ''authentication challenge contains a protocol delimiter'')), s)"
    if "cfg_scramble cfg = replicate 20 0" for cfg
    using that by (simp add: init_before_ssl_def delimiter_def)
  obtain r1 g1 where r1: "fill 20 g = (r1, g1)" by fastforce
  show ?thesis
  proof (cases r1)
    case (Inl e)
    with r1 zeros show ?thesis by (simp add: default_salt_def generate_scramble_def SCRAMBLE_SIZE_def)
  next
    case (Inr first)
    with r1 assms(2) have first: "length first = 20" by (simp add: filled)
    obtain r g' where r: "acceptable_bytes fill first g1 = Some (r, g')" and found: "case r of
        Inl e \<Rightarrow> \<exists>more g2. singles fill g1 more g2 \<and> fill 1 g2 = (Inl e, g')
      | Inr cs \<Rightarrow> \<exists>more. singles fill g1 more g' \<and> cs = substituted first (filter usable more) \<and>
          length (filter usable more) = length (filter (\<lambda>b. \<not> usable b) first)"
      using sampled_bytes [OF assms] by blast
    have gen: "generate_scramble fill g = Some (r, g')" using r1 Inr r by (simp add: generate_scramble_def SCRAMBLE_SIZE_def)
    show ?thesis
    proof (cases r)
      case (Inl e)
      with gen found r1 Inr zeros show ?thesis by (simp add: default_salt_def SCRAMBLE_SIZE_def)
    next
      case (Inr c)
      with found obtain more where more: "singles fill g1 more g'" "c = substituted first (filter usable more)"
        "length (filter usable more) = length (filter (\<lambda>b. \<not> usable b) first)" by auto
      have "list_all usable (filter usable more)" by (simp add: list_all_iff)
      from substituted_usable [OF more(3) this] have "list_all usable c" "length c = 20" using first more(2) by simp_all
      moreover then have "\<forall>b \<in> set c. b < 128 \<and> b \<noteq> 0 \<and> b \<noteq> 0x24" by (simp add: list_all_iff usable_def)
      ultimately show ?thesis using gen Inr r1 \<open>r1 = Inr first\<close> more
        by (intro exI [of _ r] exI [of _ g']) (auto simp: default_salt_def)
    qed
  qed
qed

text \<open>A source that counts.\<close>

definition demo_fill :: "nat random" where
  "demo_fill n k = (Inr (map (\<lambda>i. if even k then 0x41 else word_of_nat i) [0..<n]), Suc k)"

theorem challenge_generated_witness:
  "\<exists>c g'. generate_scramble demo_fill 1 = Some (Inr c, g') \<and> default_salt demo_fill 1 = Some (c, g') \<and> length c = 20 \<and>
    (\<forall>b \<in> set c. b < 128 \<and> b \<noteq> 0 \<and> b \<noteq> 0x24)"
proof -
  have even: "settles demo_fill g" if "even g" for g
  proof (rule accepts)
    show "demo_fill 1 g = (Inr [0x41], Suc g)" using that by (simp add: demo_fill_def)
  qed (simp add: usable_def)
  have fair: "settles demo_fill g" for g
  proof (cases "even g")
    case False
    have "demo_fill 1 g = (Inr [0], Suc g)" using False by (simp add: demo_fill_def)
    from retries [where fill = demo_fill, OF this even] False show ?thesis by simp
  qed (rule even)
  have never: "demo_fill n g \<noteq> (Inl e, g')" for n g e g' by (simp add: demo_fill_def)
  have len: "fills demo_fill" by (auto simp: fills_def demo_fill_def)
  obtain r g' where r: "generate_scramble demo_fill 1 = Some (r, g')" and c: "case r of
       Inr c \<Rightarrow> default_salt demo_fill 1 = Some (c, g') \<and> length c = 20 \<and> (\<forall>b \<in> set c. b < 128 \<and> b \<noteq> 0 \<and> b \<noteq> 0x24) \<and>
         (\<exists>first g1 more. demo_fill 20 1 = (Inr first, g1) \<and> singles demo_fill g1 more g' \<and> c = substituted first (filter usable more) \<and>
            length (filter usable more) = length (filter (\<lambda>b. \<not> usable b) first))
     | Inl e \<Rightarrow> default_salt demo_fill 1 = Some (replicate 20 0, g') \<and>
         (demo_fill 20 1 = (Inl e, g') \<or>
          (\<exists>first g1 more g2. demo_fill 20 1 = (Inr first, g1) \<and> singles demo_fill g1 more g2 \<and> demo_fill 1 g2 = (Inl e, g'))) \<and>
         (\<forall>cfg. cfg_scramble cfg = replicate 20 0 \<longrightarrow> init_before_ssl byteorder_ref myc_ref nom_ref WithoutTls cfg [] demo_options demo_sink =
            (Inl (IoError InvalidInput (ascii ''authentication challenge contains a protocol delimiter'')), demo_sink))"
    using challenge_generated [of demo_fill 1 byteorder_ref myc_ref nom_ref WithoutTls "[]" demo_options demo_sink, OF fair len] by blast
  then show ?thesis using never by (cases r) auto
qed

end
