(* ===== verification/PlainCommands.thy ===== *)
theory PlainCommands
  imports Statements Flushing
begin

text \<open>
  The commands that no callback answers: PING, the fields of a table, closing and resetting a
  statement, and long data. What each of them does to the session and what it answers is specified
  over the table as a map from ids, and the handlers do exactly that and nothing more.
\<close>

subsection \<open>The specification\<close>

definition same_statements :: "'s session \<Rightarrow> 's session \<Rightarrow> bool" where
  "same_statements se se' \<longleftrightarrow> (\<forall>j. statement j se' = statement j se) \<and>
     total_long_data_size se' = total_long_data_size se \<and> shim_state se' = shim_state se"

text \<open>
  A piece of long data: the statement's parameter grows by it, or the statement is marked with the error
  that its next execution reports; a statement that is marked already stays as it is.
\<close>

definition piece_taken :: "u16 \<Rightarrow> bytes \<Rightarrow> 's session \<Rightarrow> StatementData \<Rightarrow> 's session \<Rightarrow> StatementData \<Rightarrow> bool" where
  "piece_taken k d se st se' st' \<longleftrightarrow>
     (if pending_error st \<noteq> None then st' = st \<and> total_long_data_size se' = total_long_data_size se
      else if k < params st \<and> data_size st + length d \<le> max_long_data_size se \<and>
          total_long_data_size se + length d \<le> max_connection_long_data_size se
      then st' = st\<lparr>long_data := long_data st'\<rparr> \<and> held_long_data st' k = held_long_data st k @ d \<and>
        (\<forall>j. j \<noteq> k \<longrightarrow> held_long_data st' j = held_long_data st j) \<and>
        total_long_data_size se' = total_long_data_size se + length d
      else total_long_data_size se' = total_long_data_size se \<and>
        (\<exists>msg. st' = st\<lparr>pending_error :=
           Some (if k < params st then ER_NET_PACKET_TOO_LARGE else ER_WRONG_ARGUMENTS, msg)\<rparr>))"

fun plain_effect :: "('s, 'e, 'd, 'dt) shim \<Rightarrow> Command \<Rightarrow> 's session \<Rightarrow> 's session \<Rightarrow> bool" where
  "plain_effect S Ping se se' \<longleftrightarrow> same_statements se se'"
| "plain_effect S (ListFields q) se se' \<longleftrightarrow> same_statements se se'"
| "plain_effect S (Close i) se se' \<longleftrightarrow>
     statement i se' = None \<and> (\<forall>j. j \<noteq> i \<longrightarrow> statement j se' = statement j se) \<and>
     total_long_data_size se' + (case statement i se of None \<Rightarrow> 0 | Some st \<Rightarrow> data_size st) = total_long_data_size se \<and>
     shim_state se' = on_close S i (on_close_cursor S i (shim_state se))"
| "plain_effect S (Reset i) se se' \<longleftrightarrow>
     (case statement i se of
        None \<Rightarrow> same_statements se se'
      | Some st \<Rightarrow>
          statement i se' = Some (st\<lparr>cursor_columns := None, long_data := [], pending_error := None\<rparr>) \<and>
          (\<forall>j. j \<noteq> i \<longrightarrow> statement j se' = statement j se) \<and>
          total_long_data_size se' + data_size st = total_long_data_size se \<and>
          shim_state se' = on_close_cursor S i (shim_state se))"
| "plain_effect S (SendLongData i k d) se se' \<longleftrightarrow>
     (case statement i se of
        None \<Rightarrow> same_statements se se'
      | Some st \<Rightarrow> (\<exists>st'. statement i se' = Some st' \<and> piece_taken k d se st se' st') \<and>
          (\<forall>j. j \<noteq> i \<longrightarrow> statement j se' = statement j se) \<and> shim_state se' = shim_state se)"
| "plain_effect S _ se se' \<longleftrightarrow> False"

text \<open>The packets of the answer; closing a statement and long data have none.\<close>

fun plain_answer :: "byteorder_ops \<Rightarrow> myc_ops \<Rightarrow> Command \<Rightarrow> 's session \<Rightarrow> bytes list" where
  "plain_answer B M Ping se = [ok_payload B M (client_capabilities se) (default_ok\<lparr>ok_status_flags := session_flags se\<rparr>)]"
| "plain_answer B M (ListFields q) se = [eof_payload (session_flags se)]"
| "plain_answer B M (Reset i) se =
     (if statement i se = None then [err_payload ER_UNKNOWN_STMT_HANDLER (ascii ''unknown statement '' @ dec (unat i))]
      else [ok_payload B M (client_capabilities se) (default_ok\<lparr>ok_status_flags := session_flags se\<rparr>)])"
| "plain_answer B M _ se = []"

subsection \<open>What the handlers do to the tables\<close>

lemma close_effect:
  assumes "session_inv se"
  shows "plain_effect S (Close i) se (handle_close S i se)"
proof (cases "statement i se")
  case None
  then show ?thesis by (simp add: handle_close_def Let_def statement_def)
next
  case (Some st)
  with session_inv_statement(2,3) [OF assms Some] show ?thesis
    by (simp add: handle_close_def Let_def statement_def map_of_remove_entry release_long_data_def)
qed

lemma reset_effect:
  assumes "session_inv se" and "statement i se = Some st"
  shows "plain_effect S (Reset i) se (release_long_data (retained_long_data st)
    (update_statement i (\<lambda>st. st\<lparr>cursor_columns := None, long_data := [], pending_error := None\<rparr>) (close_cursor S i se)))"
  using session_inv_statement(2,3) [OF assms] assms(2)
  by (simp add: release_long_data_def statement_def update_statement_def close_cursor_def map_of_update_entry)

lemma fail_effect:
  "statement i se = Some st \<Longrightarrow> statement i (fail_statement i kind msg se) = Some (st\<lparr>pending_error := Some (kind, msg)\<rparr>)"
  "j \<noteq> i \<Longrightarrow> statement j (fail_statement i kind msg se) = statement j se"
  "total_long_data_size (fail_statement i kind msg se) = total_long_data_size se"
  "shim_state (fail_statement i kind msg se) = shim_state se"
  by (simp_all add: fail_statement_def statement_def update_statement_def map_of_update_entry)

lemma long_data_effect:
  assumes inv: "session_inv se"
  shows "plain_effect S (SendLongData i k d) se (handle_send_long_data i k d se)"
proof (cases "statement i se")
  case None
  then show ?thesis by (simp add: handle_send_long_data_def same_statements_def)
next
  case (Some st)
  let ?se = "handle_send_long_data i k d se"
  have checked: "checked_long_data st = Some (data_size st)" using session_inv_statement(4) [OF inv Some] .
  consider (marked) "pending_error st \<noteq> None"
    | (taken) "pending_error st = None" "k < params st" "data_size st + length d \<le> max_long_data_size se"
        "total_long_data_size se + length d \<le> max_connection_long_data_size se"
    | (failed) "pending_error st = None" "\<not> (k < params st \<and> data_size st + length d \<le> max_long_data_size se \<and>
        total_long_data_size se + length d \<le> max_connection_long_data_size se)"
    by blast
  then show ?thesis
  proof cases
    case marked
    then have "?se = se" using Some by (simp add: handle_send_long_data_def)
    with marked Some show ?thesis by (simp add: piece_taken_def)
  next
    case taken
    let ?st = "st\<lparr>long_data := extend_entry k d (long_data st)\<rparr>"
    have se': "?se = (update_statement i (\<lambda>st. st\<lparr>long_data := extend_entry k d (long_data st)\<rparr>) se)
        \<lparr>total_long_data_size := total_long_data_size se + length d\<rparr>"
      by (rule long_data_accepted [OF inv Some taken])
    have "distinct (map fst (long_data st))" using session_inv_statement(1) [OF inv Some] by (simp add: statement_ok_def)
    note e = extend_entry_facts [OF this, of k d]
    have "held_long_data ?st k = held_long_data st k @ d" "\<forall>j. j \<noteq> k \<longrightarrow> held_long_data ?st j = held_long_data st j"
      by (simp_all add: held_long_data_def e(4) split: option.split)
    moreover have "statement j ?se = (if j = i then Some ?st else statement j se)" for j
      using Some by (simp add: se' statement_def update_statement_def map_of_update_entry)
    moreover have "total_long_data_size ?se = total_long_data_size se + length d" "shim_state ?se = shim_state se"
      by (simp_all add: se')
    ultimately show ?thesis using Some taken by (simp add: piece_taken_def)
  next
    case failed
    have "\<exists>msg. ?se = fail_statement i (if k < params st then ER_NET_PACKET_TOO_LARGE else ER_WRONG_ARGUMENTS) msg se"
    proof (cases "k < params st")
      case False
      with failed(1) Some show ?thesis by (simp add: handle_send_long_data_def) blast
    next
      case True
      have sum: "checked_add n m = None \<or> checked_add n m = Some (n + m)" for n m by (simp add: checked_add_def)
      from True failed Some checked sum [of "data_size st" "length d"] sum [of "total_long_data_size se" "length d"] show ?thesis
        by (elim disjE) (simp_all add: handle_send_long_data_def, blast+)
    qed
    then obtain msg where se': "?se = fail_statement i (if k < params st then ER_NET_PACKET_TOO_LARGE else ER_WRONG_ARGUMENTS) msg se"
      by blast
    show ?thesis using failed Some unfolding se' by (auto simp: piece_taken_def fail_effect)
  qed
qed

subsection \<open>Serving them\<close>

definition plain :: "Command \<Rightarrow> bool" where
  "plain cmd \<longleftrightarrow> (\<exists>q i k d. cmd \<in> {Ping, ListFields q, Close i, Reset i, SendLongData i k d})"

lemma output_irrelevant [simp]:
  "statement j (se\<lparr>out := w\<rparr>) = statement j se" "session_inv (se\<lparr>out := w\<rparr>) = session_inv se"
  by (simp_all add: statement_def session_inv_def)

lemma plain_output [simp]:
  "plain_answer B M cmd (se\<lparr>out := w\<rparr>) = plain_answer B M cmd se"
  "same_statements (se\<lparr>out := v\<rparr>) (se'\<lparr>out := w\<rparr>) = same_statements se se'"
  "piece_taken k d (se\<lparr>out := v\<rparr>) st (se'\<lparr>out := w\<rparr>) st' = piece_taken k d se st se' st'"
  by (cases cmd; simp) (simp_all add: same_statements_def piece_taken_def)

lemma plain_effect_output: "plain_effect S cmd (se\<lparr>out := v\<rparr>) (se'\<lparr>out := w\<rparr>) = plain_effect S cmd se se'"
  by (cases cmd) (simp_all split: option.split)

lemma same_statements_refl [simp]: "same_statements se se"
  by (simp add: same_statements_def)

lemma reply_delivers:
  assumes "emits m ps" "completes m ps" "preserves writer_reliable m" "fresh (out se)" "fits (out se) ps"
  shows "\<exists>w. reply_out lift m se = Ret (Inr Flush, se\<lparr>out := w\<rparr>) \<and> delivered (out se) ps w"
  using write_out_completes [OF assms, of lift] by (auto simp: reply_out_def bind_action_def finish_with_def)

lemma acknowledge_delivers:
  assumes "byteorder_spec B" "fresh (out se)"
    and "fits (out se) [ok_payload B M (client_capabilities se) (default_ok\<lparr>ok_status_flags := session_flags se\<rparr>)]"
  shows "\<exists>w. acknowledge B M lift se = Ret (Inr Flush, se\<lparr>out := w\<rparr>) \<and>
    delivered (out se) [ok_payload B M (client_capabilities se) (default_ok\<lparr>ok_status_flags := session_flags se\<rparr>)] w"
  unfolding acknowledge_def using assms
  by (intro reply_delivers [OF ok_emits(1) ok_emits(2) reliable_ok_packet])

lemma plain_handled:
  assumes B: "byteorder_spec B" and w: "fresh (out se)" and inv: "session_inv se" and cmd: "plain cmd"
    and f: "fits (out se) (plain_answer B M cmd se)"
  shows "\<exists>se1 w. handle_command B M C F S cmd se = Ret (Inr Flush, se1\<lparr>out := w\<rparr>) \<and> plain_effect S cmd se se1 \<and>
    delivered (out se) (plain_answer B M cmd se) w"
proof -
  note delivered_nothing = delivered_refl [OF w]
  from cmd consider "cmd = Ping" | q where "cmd = ListFields q" | i where "cmd = Close i" | i where "cmd = Reset i"
    | i k d where "cmd = SendLongData i k d" by (auto simp: plain_def)
  then show ?thesis
  proof cases
    case 1
    with acknowledge_delivers [OF B w, of M "from_io S"] f show ?thesis by (fastforce intro: exI [of _ se])
  next
    case 2
    from reply_delivers [OF eof_emits(1) [OF B] eof_emits(2) [OF B] reliable_eof_packet w, of "session_flags se" "from_io S"] 2 f
    show ?thesis by (fastforce intro: exI [of _ se])
  next
    case (3 i)
    have "out (handle_close S i se) = out se" by (auto simp: handle_close_def Let_def split: option.splits)
    then have "handle_close S i se = (handle_close S i se)\<lparr>out := out se\<rparr>" by simp
    with 3 close_effect [OF inv, of S i] delivered_nothing show ?thesis
      by (intro exI [of _ "handle_close S i se"] exI [of _ "out se"]) (simp add: finish_with_def del: plain_effect.simps)
  next
    case (5 i k d)
    have "out (handle_send_long_data i k d se) = out se"
      by (auto simp: handle_send_long_data_def fail_statement_def split: option.splits)
    then have "handle_send_long_data i k d se = (handle_send_long_data i k d se)\<lparr>out := out se\<rparr>" by simp
    with 5 long_data_effect [OF inv, of S i k d] delivered_nothing show ?thesis
      by (intro exI [of _ "handle_send_long_data i k d se"] exI [of _ "out se"]) (simp add: finish_with_def del: plain_effect.simps)
  next
    case (4 i)
    show ?thesis
    proof (cases "statement i se")
      case None
      from reply_delivers [OF err_emits(1) [OF B] err_emits(2) [OF B] reliable_err w, of ER_UNKNOWN_STMT_HANDLER
          "ascii ''unknown statement '' @ dec (unat i)" "from_io S"] 4 None f
      show ?thesis by (fastforce simp: handle_reset_def intro: exI [of _ se])
    next
      case (Some st)
      let ?se = "release_long_data (retained_long_data st)
        (update_statement i (\<lambda>st. st\<lparr>cursor_columns := None, long_data := [], pending_error := None\<rparr>) (close_cursor S i se))"
      have same: "out ?se = out se" "client_capabilities ?se = client_capabilities se" "session_flags ?se = session_flags se"
        by simp_all
      from acknowledge_delivers [OF B, of ?se M "from_io S"] 4 Some f w same obtain v
        where "acknowledge B M (from_io S) ?se = Ret (Inr Flush, ?se\<lparr>out := v\<rparr>)" "delivered (out se) (plain_answer B M cmd se) v"
        by auto
      with 4 Some reset_effect [OF inv Some, of S] show ?thesis
        by (intro exI [of _ ?se] exI [of _ v]) (simp add: handle_reset_def del: plain_effect.simps)
    qed
  qed
qed

text \<open>C40: on a transport that only fragments, a PING, a request for the fields of a table, the closing or
  the reset of a statement and a piece of long data are served and the session goes on: when its answer
  fits into a packet, exactly that answer is sent, numbered behind the command, and flushed, and
  the session's statements, its count of retained bytes and the backend change exactly as specified.\<close>

theorem plain_commands_served:
  assumes "nom_spec N" and "byteorder_spec B" and "myc_spec M" and "fresh (out se)" and "session_inv se"
    and "first_seq p = 0" and "packet_bytes p = command_bytes M cmd" and "plain cmd"
    and "fits (out se) (plain_answer B M cmd se)"
  shows "\<exists>se'. process_packet B M C F N S sq p se = Ret (Inr Continue, se') \<and> plain_effect S cmd se se' \<and>
    wire (out se') = wire (out se) @ packets_wire (sq + 1) (plain_answer B M cmd se) \<and>
    all_flushed (out se') \<and> fresh (out se') \<and> session_inv se'"
proof -
  let ?se = "se\<lparr>out := set_seq (sq + 1) (out se)\<rparr>"
  obtain se1 v where h: "handle_command B M C F S cmd ?se = Ret (Inr Flush, se1\<lparr>out := v\<rparr>)" and e: "plain_effect S cmd ?se se1"
    and v: "delivered (set_seq (sq + 1) (out se)) (plain_answer B M cmd se) v"
    using plain_handled [OF assms(2), of ?se cmd M C F S] assms(4,5,8,9) by (auto simp del: with_seq_overwrite(4))
  obtain w where fl: "flush_all v = (Inr (), w)"
    using flush_output_reliable delivered_ready [OF v] by (auto simp: fresh_def flush_all_def)
  have w: "delivered (set_seq (sq + 1) (out se)) (plain_answer B M cmd se) w" by (rule delivered_flush [OF v fl])
  have run: "process_packet B M C F N S sq p se = Ret (Inr Continue, se1\<lparr>out := w\<rparr>)"
    using h fl assms(6,7) parse_command_bytes [OF assms(1,3), of cmd]
    by (simp add: process_packet_def Let_def bind_action_def finish_with_def write_out_def)
  moreover have "plain_effect S cmd se (se1\<lparr>out := w\<rparr>)"
  proof -
    have "plain_effect S cmd ?se (se1\<lparr>out := out se1\<rparr>) = plain_effect S cmd (se\<lparr>out := out se\<rparr>) (se1\<lparr>out := w\<rparr>)"
      by (simp only: plain_effect_output)
    with e show ?thesis by (simp del: with_seq_overwrite(4))
  qed
  moreover have "wire w = wire (out se) @ packets_wire (sq + 1) (plain_answer B M cmd se)"
    using w by (simp add: delivered_def emitted_def)
  moreover have "session_inv (se1\<lparr>out := w\<rparr>)" using keepsD [OF process_packet_keeps assms(5) run] .
  ultimately show ?thesis using flush_all_flushed [OF fl] delivered_ready [OF w]
    by (intro exI [of _ "se1\<lparr>out := w\<rparr>"]) simp
qed

definition demo_close_packet :: Packet where
  "demo_close_packet = \<lparr>packet_bytes = command_bytes myc_ref (Close 7), first_seq = 0\<rparr>"

theorem plain_commands_served_witness:
  "(\<exists>se'. process_packet byteorder_ref myc_ref chrono_ref fmt_none nom_ref demo_shim 0 demo_ping demo_session = Ret (Inr Continue, se') \<and>
     wire (out se') = wire (out demo_session) @ frames 1 (ok_payload byteorder_ref myc_ref (client_capabilities demo_session)
       (default_ok\<lparr>ok_status_flags := session_flags demo_session\<rparr>)) \<and> all_flushed (out se')) \<and>
   (\<exists>se'. process_packet byteorder_ref myc_ref chrono_ref fmt_none nom_ref demo_shim 0 demo_close_packet demo_statement_session =
       Ret (Inr Continue, se') \<and>
     statement 7 demo_statement_session \<noteq> None \<and> statement 7 se' = None \<and> total_long_data_size se' = 0 \<and>
     wire (out se') = wire (out demo_statement_session))"
proof (intro conjI)
  have "session_inv demo_session"
    by (simp add: demo_session_def session_inv_def tables_ok_def usize_max_def)
  moreover have "plain Ping" by (simp add: plain_def)
  moreover have "fits (out demo_session) (plain_answer byteorder_ref myc_ref Ping demo_session)"
    using demo_fits by simp
  ultimately have "\<exists>se'. process_packet byteorder_ref myc_ref chrono_ref fmt_none nom_ref demo_shim 0 demo_ping demo_session = Ret (Inr Continue, se') \<and>
      plain_effect demo_shim Ping demo_session se' \<and>
      wire (out se') = wire (out demo_session) @ packets_wire (0 + 1) (plain_answer byteorder_ref myc_ref Ping demo_session) \<and>
      all_flushed (out se') \<and> fresh (out se') \<and> session_inv se'"
    using plain_commands_served [OF nom_ref_spec byteorder_ref_spec myc_ref_spec demo_session_fresh, of demo_ping Ping
        chrono_ref fmt_none demo_shim 0] by (simp add: demo_ping_def)
  then show "\<exists>se'. process_packet byteorder_ref myc_ref chrono_ref fmt_none nom_ref demo_shim 0 demo_ping demo_session = Ret (Inr Continue, se') \<and>
     wire (out se') = wire (out demo_session) @ frames 1 (ok_payload byteorder_ref myc_ref (client_capabilities demo_session)
       (default_ok\<lparr>ok_status_flags := session_flags demo_session\<rparr>)) \<and> all_flushed (out se')"
    by auto
  have "fresh (out demo_statement_session)" using demo_session_fresh by (simp add: demo_statement_session_def)
  moreover have "session_inv demo_statement_session"
    by (simp add: demo_statement_session_def demo_session_def session_inv_def tables_ok_def statement_ok_def data_size_def
        new_statement_def usize_max_def)
  moreover have "plain (Close 7)" by (simp add: plain_def)
  moreover have "max_packet_size (packet_builder (out demo_statement_session)) \<le> usize_max"
    by (simp add: demo_statement_session_def demo_session_def new_writer_def new_builder_def)
  ultimately have "\<exists>se'. process_packet byteorder_ref myc_ref chrono_ref fmt_none nom_ref demo_shim 0 demo_close_packet demo_statement_session =
       Ret (Inr Continue, se') \<and> plain_effect demo_shim (Close 7) demo_statement_session se' \<and>
      wire (out se') = wire (out demo_statement_session) @ packets_wire (0 + 1) (plain_answer byteorder_ref myc_ref (Close 7) demo_statement_session) \<and>
      all_flushed (out se') \<and> fresh (out se') \<and> session_inv se'"
    using plain_commands_served [OF nom_ref_spec byteorder_ref_spec myc_ref_spec, of demo_statement_session demo_close_packet "Close 7"
        chrono_ref fmt_none demo_shim 0] by (simp add: demo_close_packet_def fits_def)
  then show "\<exists>se'. process_packet byteorder_ref myc_ref chrono_ref fmt_none nom_ref demo_shim 0 demo_close_packet demo_statement_session =
       Ret (Inr Continue, se') \<and>
     statement 7 demo_statement_session \<noteq> None \<and> statement 7 se' = None \<and> total_long_data_size se' = 0 \<and>
     wire (out se') = wire (out demo_statement_session)"
    by (auto simp: demo_statement_session_def statement_def data_size_def new_statement_def)
qed

end
