(* ===== verification/MultiResults.thy ===== *)
theory MultiResults
  imports Answers
begin

text \<open>
  Responses of several parts, result sets and OK packets, as a client takes them apart: it reads
  part after part as long as the status of each announces another one. The reader is written from the
  protocol and sees packets only; it has to stop exactly where the response ends.
\<close>

subsection \<open>Reading a response\<close>

datatype client_answer = Outcome OkResponse | ResultRows client_result | Refusal "u16 \<times> bytes \<times> bytes"

definition announces :: "myc_ops \<Rightarrow> u16 \<Rightarrow> bool" where
  "announces M status \<longleftrightarrow> contains status (status_bits M SERVER_MORE_RESULTS_EXISTS)"

text \<open>One part, told by its first byte: what it says, whether it announces another one, and what follows it.\<close>

definition client_part :: "byteorder_ops \<Rightarrow> myc_ops \<Rightarrow> u32 \<Rightarrow> bool \<Rightarrow> bytes list \<Rightarrow>
    (client_answer \<times> bool \<times> bytes list) option" where
  "client_part B M caps bin packets =
     (case packets of [] \<Rightarrow> None | p # ps \<Rightarrow>
      if p = [] then None
      else if hd p = 0 then (case client_ok M caps p of
          Inr ([], ok) \<Rightarrow> Some (Outcome ok, announces M (ok_status_flags ok), ps) | _ \<Rightarrow> None)
      else if hd p = 0xFF then (case client_err p of Inr ([], e) \<Rightarrow> Some (Refusal e, False, ps) | _ \<Rightarrow> None)
      else map_option (\<lambda>(r, ps). (ResultRows r, announces M (cr_status r), ps)) (client_resultset B M caps bin packets))"

text \<open>The whole response; every part takes a packet, so the number of packets is fuel enough.\<close>

fun client_parts :: "nat \<Rightarrow> byteorder_ops \<Rightarrow> myc_ops \<Rightarrow> u32 \<Rightarrow> bool \<Rightarrow> bytes list \<Rightarrow> (client_answer list \<times> bytes list) option" where
  "client_parts 0 B M caps bin packets = None"
| "client_parts (Suc n) B M caps bin packets =
     (case client_part B M caps bin packets of
        None \<Rightarrow> None
      | Some (a, another, ps) \<Rightarrow> if another then map_option (apfst (Cons a)) (client_parts n B M caps bin ps) else Some ([a], ps))"

definition client_response :: "byteorder_ops \<Rightarrow> myc_ops \<Rightarrow> u32 \<Rightarrow> bool \<Rightarrow> bytes list \<Rightarrow> (client_answer list \<times> bytes list) option" where
  "client_response B M caps bin packets = client_parts (length packets) B M caps bin packets"

subsection \<open>Writing one\<close>

text \<open>What a backend may send, part by part, and how it ends: with the last part, or with an error behind it.\<close>

datatype ('d, 'dt) part =
    RowsPart "Column list" "ColumnMetadata list option" "('d, 'dt) to_mysql_value list list" bytes
  | OkPart OkResponse

datatype ending = AllSent | Failing ErrorKind bytes

fun part_ops :: "('d, 'dt) part \<Rightarrow> ('d, 'dt) response_op list" where
  "part_ops (RowsPart cs m vss text) = start_op cs m # map WriteRow vss @ [FinishOne text]"
| "part_ops (OkPart ok) = [CompleteOneWithStatus ok]"

fun end_op :: "ending \<Rightarrow> ('d, 'dt) response_op" where
  "end_op AllSent = NoMoreResults"
| "end_op (Failing kind msg) = Error kind msg"

text \<open>The parts that a client can tell apart: columns it can describe, and OK packets that look like one.\<close>

fun proper_part :: "('d, 'dt) chrono_ops \<Rightarrow> ('d, 'dt) part \<Rightarrow> bool" where
  "proper_part C (RowsPart cs m vss text) \<longleftrightarrow> cs \<noteq> [] \<and> length cs \<le> usize_max \<and> list_all describable cs \<and>
     list_all (list_all (proper_value C)) vss \<and> length text \<le> 0xFFFF00"
| "proper_part C (OkPart ok) \<longleftrightarrow> header ok = 0 \<and> length (info ok) \<le> usize_max \<and> length (session_state_info ok) \<le> usize_max"

text \<open>The status that the parts after it start from.\<close>

fun status_after :: "myc_ops \<Rightarrow> ('d, 'dt) part \<Rightarrow> u16 \<Rightarrow> u16" where
  "status_after M (RowsPart cs m vss text) status = session_status_flags M status"
| "status_after M (OkPart ok) status = session_status_flags M (ok_status_flags ok)"

definition flagged :: "myc_ops \<Rightarrow> bool \<Rightarrow> u16 \<Rightarrow> u16" where
  "flagged M on status = set_flag status (status_bits M SERVER_MORE_RESULTS_EXISTS) on"

definition ok_view :: "myc_ops \<Rightarrow> u32 \<Rightarrow> OkResponse \<Rightarrow> OkResponse" where
  "ok_view M caps ok = ok\<lparr>session_state_info :=
     (if has_cap M caps CLIENT_SESSION_TRACK \<and> contains (ok_status_flags ok) (status_bits M SERVER_SESSION_STATE_CHANGED)
      then session_state_info ok else [])\<rparr>"

text \<open>What the client is to read of a part, in the status \<open>status\<close>, when another one follows (\<open>on\<close>) or not.\<close>

fun part_read :: "myc_ops \<Rightarrow> ('d, 'dt) chrono_ops \<Rightarrow> ('d, 'dt) fmt_ops \<Rightarrow> u32 \<Rightarrow> bool \<Rightarrow> u16 \<Rightarrow> bool \<Rightarrow> ('d, 'dt) part \<Rightarrow>
    client_answer \<Rightarrow> bool" where
  "part_read M C F caps bin status on (RowsPart cs m vss text) (ResultRows r) \<longleftrightarrow>
     cr_columns r = map (column_view M) (described cs m) \<and> list_all2 (row_denotes C F bin) vss (cr_rows r) \<and>
     cr_status r = flagged M on status"
| "part_read M C F caps bin status on (OkPart ok) (Outcome ok') \<longleftrightarrow>
     ok' = ok_view M caps (ok\<lparr>ok_status_flags := flagged M on (ok_status_flags ok)\<rparr>)"
| "part_read M C F caps bin status on _ _ \<longleftrightarrow> False"

fun all_read :: "myc_ops \<Rightarrow> ('d, 'dt) chrono_ops \<Rightarrow> ('d, 'dt) fmt_ops \<Rightarrow> u32 \<Rightarrow> bool \<Rightarrow> u16 \<Rightarrow> ('d, 'dt) part list \<Rightarrow>
    ending \<Rightarrow> client_answer list \<Rightarrow> bool" where
  "all_read M C F caps bin status [] AllSent as \<longleftrightarrow> as = []"
| "all_read M C F caps bin status [] (Failing kind msg) as \<longleftrightarrow> as = [Refusal (error_code kind, sqlstate kind, msg)]"
| "all_read M C F caps bin status (p # ps) e as \<longleftrightarrow>
     (\<exists>a as'. as = a # as' \<and> part_read M C F caps bin status (ps \<noteq> [] \<or> e \<noteq> AllSent) p a \<and>
        all_read M C F caps bin (status_after M p status) ps e as')"

subsection \<open>The parts on the wire\<close>

text \<open>The terminator that a query writer still owes, in the form it takes when it is sent.\<close>

definition owed :: "byteorder_ops \<Rightarrow> myc_ops \<Rightarrow> bool \<Rightarrow> QueryResultWriter \<Rightarrow> bytes list" where
  "owed B M on q = (case last_end q of None \<Rightarrow> [] | Some f \<Rightarrow> [finalizer_payload B M (q_capabilities q) (with_more M on f)])"

lemma finalize_owed:
  assumes B: "byteorder_spec B" and w: "ready (q_writer q)" and run: "finalize B M on q = (Inr u, q0)"
  shows "emitted (q_writer q) (owed B M on q) (q_writer q0)" "last_end q0 = None" "q_capabilities q0 = q_capabilities q"
    "is_bin q0 = is_bin q" "default_status q0 = default_status q"
proof -
  have "emitted (q_writer q) (owed B M on q) (q_writer q0) \<and> last_end q0 = None \<and> q_capabilities q0 = q_capabilities q \<and>
    is_bin q0 = is_bin q \<and> default_status q0 = default_status q"
  proof (cases "last_end q")
    case None
    with run w show ?thesis by (auto simp: owed_def emitted_def)
  next
    case (Some f)
    from finalize_ok(2) [OF run Some] obtain v where v: "write_finalizer B M (q_capabilities q) (with_more M on f) (q_writer q) = (Inr (), v)"
      and q0: "q0 = q\<lparr>last_end := None, q_writer := v, session_status := session_status_flags M (finalizer_status (with_more M on f))\<rparr>"
      by blast
    have "emitted (q_writer q) (item_packets B M (q_capabilities q) (Terminator (with_more M on f))) v"
      by (rule emitsD [OF finalizer_emits [OF B] w v])
    with Some show ?thesis by (simp add: owed_def q0)
  qed
  then show "emitted (q_writer q) (owed B M on q) (q_writer q0)" "last_end q0 = None" "q_capabilities q0 = q_capabilities q"
    "is_bin q0 = is_bin q" "default_status q0 = default_status q" by blast+
qed

text \<open>Starting a result set first sends the terminator that is owed.\<close>

lemma start_finalizes:
  assumes "respond B M C F (start_op cs m) (Idle q) = Some (Ret (Inr (), r))"
  shows "\<exists>q0. finalize B M True q = (Inr (), q0) \<and> (last_end q0 = None \<longrightarrow>
    respond B M C F (start_op cs m) (Idle q0) = Some (Ret (Inr (), r)))"
proof (cases m)
  case None
  with assms show ?thesis
    by (auto simp: start_op_def start_def to_rows_def split: prod.splits sum.splits)
next
  case (Some ms)
  have run: "to_rows (start_with_metadata B M cs ms q) = (Inr (), r)" using assms by (simp add: start_op_def Some)
  then obtain u where u: "validate_metadata M cs ms = Inr u"
    by (cases "validate_metadata M cs ms") (simp_all add: start_with_metadata_def to_rows_def)
  obtain f q0 where f: "finalize B M True q = (f, q0)" by fastforce
  from run u f have "f = Inr ()" and "to_rows (row_new B M q0 cs (Some ms)) = (Inr (), r)"
    by (cases f; simp add: start_with_metadata_def to_rows_def)+
  then have "last_end q0 = None \<longrightarrow> respond B M C F (start_op cs m) (Idle q0) = Some (Ret (Inr (), r))"
    using u by (simp add: Some start_op_def start_with_metadata_def)
  with f \<open>f = Inr ()\<close> show ?thesis by (intro exI [of _ q0] conjI) (simp_all only:)
qed

lemma finish_one_leaves:
  assumes "finish_one_with_info B M text rw = (Inr (), q')" and "between_rows rw" and "\<not> rw_finished rw"
  shows "q' = (rw_result rw)\<lparr>last_end := Some (row_finalizer M (rw_capabilities rw) (rw_columns rw) (default_status (rw_result rw)) text),
    default_status := session_status_flags M (default_status (rw_result rw))\<rparr>"
  using assms
  by (auto simp: finish_one_with_info_def finish_inner_def then_io_def and_then_def between_rows_def Let_def split: sum.splits prod.splits)

lemma rows_part_sent:
  assumes spec: "byteorder_spec B" "myc_spec M" "chrono_spec C"
    and q: "ready (q_writer q)" "max_packet_size (packet_builder (q_writer q)) \<le> usize_max"
    and part: "proper_part C (RowsPart cs m vss text)" and err: "\<forall>e. err e \<noteq> y"
    and run: "run_program (respond B M C F) (calls err (part_ops (RowsPart cs m vss text) @ ops) p) (Idle q) = Ret (y, r)"
  obtains ps q1 where "length (described cs m) = length cs" "list_all row_shaped ps"
    "list_all2 (row_reads B M C F (is_bin q) cs) vss ps" "run_program (respond B M C F) (calls err ops p) (Idle q1) = Ret (y, r)"
    "emitted (q_writer q) (owed B M True q @ item_packets B M (q_capabilities q) (Header (described cs m) (default_status q)) @ ps) (q_writer q1)"
    "last_end q1 = Some (row_finalizer M (q_capabilities q) cs (default_status q) text)" "q_capabilities q1 = q_capabilities q"
    "is_bin q1 = is_bin q" "default_status q1 = session_status_flags M (default_status q)"
proof -
  let ?caps = "q_capabilities q"
  have cs: "cs \<noteq> []" and vss: "list_all (list_all (proper_value C)) vss" using part by simp_all
  have "run_program (respond B M C F) (calls err (start_op cs m # map WriteRow vss @ [FinishOne text] @ ops) p) (Idle q) = Ret (y, r)"
    using run by simp
  from calls_step [OF this err] obtain st1 where begun: "respond B M C F (start_op cs m) (Idle q) = Some (Ret (Inr (), st1))"
    and rest: "run_program (respond B M C F) (calls err (map WriteRow vss @ [FinishOne text] @ ops) p) st1 = Ret (y, r)"
    by blast
  from start_finalizes [OF begun] obtain q0 where q0: "finalize B M True q = (Inr (), q0)"
    and begun0: "last_end q0 = None \<longrightarrow> respond B M C F (start_op cs m) (Idle q0) = Some (Ret (Inr (), st1))"
    by (elim exE conjE)
  note fin = finalize_owed [OF spec(1) q(1) q0]
  obtain w where st1: "st1 = InRows (row_init (q0\<lparr>q_writer := w\<rparr>) cs)" and len: "length (described cs m) = length cs"
    and w: "column_definitions B M (described cs m) (q_capabilities q0) (default_status q0) (q_writer q0) = (Inr (), w)"
    by (rule result_started [OF begun0 [rule_format, OF fin(2)] fin(2) cs])
  define rw where "rw = row_init (q0\<lparr>q_writer := w\<rparr>) cs"
  obtain rw' where rows: "write_rows B M C F vss rw = Ret (Inr (), rw')"
    and last: "run_program (respond B M C F) (calls err (FinishOne text # ops) p) (InRows rw') = Ret (y, r)"
    using rows_written [OF err, of B M C F vss "[FinishOne text] @ ops" p rw r] rest st1 rw_def by auto
  from calls_step [OF last err] obtain st2 where "respond B M C F (FinishOne text) (InRows rw') = Some (Ret (Inr (), st2))"
    and rest2: "run_program (respond B M C F) (calls err ops p) st2 = Ret (y, r)"
    by blast
  then obtain q1 where q1: "finish_one_with_info B M text rw' = (Inr (), q1)" "st2 = Idle q1"
    by (auto simp: to_idle_def split: prod.splits sum.splits)
  have "ready (q_writer q0)" using fin(1) by (simp add: emitted_def)
  from emitsD [OF header_emits [OF spec(1,2)] this w]
  have header: "emitted (q_writer q0) (item_packets B M ?caps (Header (described cs m) (default_status q))) w"
    by (simp add: fin(3,5))
  have at: "between_rows rw" "row_channel rw = w" "rw_columns rw = cs" "is_bin (rw_result rw) = is_bin q" "\<not> rw_finished rw"
    "rw_capabilities rw = ?caps" "q_capabilities (rw_result rw) = ?caps" "default_status (rw_result rw) = default_status q"
    using cs fin by (simp_all add: rw_def row_init_def between_rows_def row_channel_def)
  have "ready w" "max_packet_size (packet_builder w) \<le> usize_max"
    using header fin(1) q(2) by (simp_all add: emitted_def same_limits_def)
  with rows_sent [OF spec vss at(1) _ _ rows] at(2-4) obtain ps where ps: "emitted w ps (row_channel rw')" "list_all row_shaped ps"
    "list_all2 (row_reads B M C F (is_bin q) cs) vss ps"
    and rw': "rw' = rw\<lparr>rw_result := (rw_result rw)\<lparr>q_writer := row_channel rw'\<rparr>\<rparr>" by auto
  define w2 where "w2 = row_channel rw'"
  have kept: "rw' = rw\<lparr>rw_result := (rw_result rw)\<lparr>q_writer := w2\<rparr>\<rparr>" using rw' by (simp add: w2_def)
  have "between_rows rw'" "\<not> rw_finished rw'" using at(1,5) by (simp_all add: kept between_rows_def)
  from finish_one_leaves [OF q1(1) this] have q1': "q1 = (rw_result rw)\<lparr>q_writer := w2,
      last_end := Some (row_finalizer M ?caps cs (default_status q) text), default_status := session_status_flags M (default_status q)\<rparr>"
    using at by (simp add: kept)
  have "emitted w ps w2" using ps(1) by (simp add: w2_def)
  from emitted_append [OF fin(1) emitted_append [OF header this]] show ?thesis
    by (intro that [OF len ps(2,3) rest2 [unfolded q1(2)]]) (simp_all add: q1' at)
qed

subsection \<open>The parts as the client reads them\<close>

lemma announces_flagged: "myc_spec M \<Longrightarrow> announces M (flagged M on status) = on"
  using myc_specD(2) [of M] by (simp add: announces_def flagged_def contains_set_flag disjoint_bits_def)

lemma count_head:
  assumes "n \<noteq> 0"
  shows "lenenc_int n \<noteq> []" "hd (lenenc_int n) \<noteq> 0" "hd (lenenc_int n) \<noteq> 0xFF"
proof -
  have "ucast n \<noteq> (0 :: u8)" if "n < 251"
  proof -
    have "unat n < 251" using that by (simp add: word_less_nat_alt)
    then have "unat (ucast n :: u8) = unat n" by (simp add: unsigned_ucast_eq take_bit_eq_mod)
    with assms show ?thesis by (metis unat_0 unat_eq_zero)
  qed
  then show "lenenc_int n \<noteq> []" "hd (lenenc_int n) \<noteq> 0" "hd (lenenc_int n) \<noteq> 0xFF"
    by (simp_all add: lenenc_int_def small_byte)
qed

lemma ok_head:
  assumes "myc_spec M"
  shows "ok_payload B M caps ok \<noteq> []" "hd (ok_payload B M caps ok) = header ok"
  by (simp_all add: ok_payload_def ok_pieces_def Let_def)

lemma rows_part_read:
  assumes spec: "byteorder_spec B" "myc_spec M" and caps: "has_cap M caps CLIENT_PROTOCOL_41"
    and part: "proper_part C (RowsPart cs m vss text)" and len: "length (described cs m) = length cs"
    and ps: "list_all row_shaped ps" "list_all2 (row_reads B M C F bin cs) vss ps"
  shows "\<exists>a. client_part B M caps bin ((item_packets B M caps (Header (described cs m) status) @ ps) @
      finalizer_payload B M caps (with_more M on (row_finalizer M caps cs status text)) # later) = Some (a, on, later) \<and>
    part_read M C F caps bin status on (RowsPart cs m vss text) a"
proof -
  let ?cms = "described cs m" and ?e = "finalizer_payload B M caps (with_more M on (row_finalizer M caps cs status text))"
  have p: "cs \<noteq> []" "length cs \<le> usize_max" "list_all describable cs" "length text \<le> 0xFFFF00" using part by simp_all
  have "\<forall>cm \<in> set ?cms. describable (fst cm)"
    using p(3) described_columns [OF len] by (metis image_eqI list.pred_set list.set_map)
  moreover have "list_all2 (row_reads B M C F bin (map fst ?cms)) vss ps" using ps(2) described_columns [OF len] by simp
  moreover have "length ?cms \<le> usize_max" using len p(2) by simp
  ultimately obtain rs where rs: "client_resultset B M caps bin (item_packets B M caps (Header ?cms status) @ ps @ ?e # later) =
      Some (\<lparr>cr_columns = map (column_view M) ?cms, cr_rows = rs, cr_status = flagged M on status\<rparr>, later)"
    "list_all2 (row_denotes C F bin) vss rs"
    using result_read [OF spec _ _ ps(1) _ end_read [OF spec caps p(1,4) refl]] unfolding flagged_def by blast
  have "unat (word_of_nat (length ?cms) :: u64) = length cs" using p(2) len by (simp add: unat_of_nat usize_max_def)
  then have "(word_of_nat (length ?cms) :: u64) \<noteq> 0" using p(1) by (metis length_0_conv unat_0)
  note head = count_head [OF this]
  have "client_part B M caps bin ((item_packets B M caps (Header ?cms status) @ ps) @ ?e # later) =
      map_option (\<lambda>(r, ps). (ResultRows r, announces M (cr_status r), ps))
        (client_resultset B M caps bin (item_packets B M caps (Header ?cms status) @ ps @ ?e # later))"
    using head by (simp add: client_part_def)
  with rs announces_flagged [OF spec(2)] show ?thesis by auto
qed

lemma ok_part_read:
  assumes spec: "byteorder_spec B" "myc_spec M" and caps: "has_cap M caps CLIENT_PROTOCOL_41" and part: "proper_part C (OkPart ok)"
  shows "\<exists>a. client_part B M caps bin (finalizer_payload B M caps (with_more M on (FinOk ok)) # later) = Some (a, on, later) \<and>
    part_read M C F caps bin status on (OkPart ok) a"
proof -
  let ?ok = "ok\<lparr>ok_status_flags := flagged M on (ok_status_flags ok)\<rparr>"
  have payload: "finalizer_payload B M caps (with_more M on (FinOk ok)) = ok_payload B M caps ?ok" by (simp add: flagged_def)
  have "client_ok M caps (ok_payload B M caps ?ok) = Inr ([], ok_view M caps ?ok)"
    using client_ok_payload [OF spec caps, of ?ok] part by (simp add: ok_view_def)
  moreover have "ok_status_flags (ok_view M caps ?ok) = flagged M on (ok_status_flags ok)" by (simp add: ok_view_def)
  ultimately show ?thesis using ok_head [OF spec(2), of B caps ?ok] part announces_flagged [OF spec(2)]
    unfolding payload by (intro exI [of _ "Outcome (ok_view M caps ?ok)"]) (simp add: client_part_def)
qed

lemma error_read: "client_part B M caps bin (err_payload kind msg # later) = Some (Refusal (error_code kind, sqlstate kind, msg), False, later)"
proof -
  have "client_err (err_payload kind msg) = Inr ([], (error_code kind, sqlstate kind, msg))"
    using ref_take_append [of "sqlstate kind" 5 msg] by (simp add: client_err_def err_payload_def ref_tag_single)
  then show ?thesis by (simp add: client_part_def err_payload_def)
qed

text \<open>One part: it leaves a terminator behind that is sent, in either form, by what comes next.\<close>

lemma part_sent:
  assumes spec: "byteorder_spec B" "myc_spec M" "chrono_spec C"
    and q: "ready (q_writer q)" "max_packet_size (packet_builder (q_writer q)) \<le> usize_max" "has_cap M (q_capabilities q) CLIENT_PROTOCOL_41"
    and part: "proper_part C part" and err: "\<forall>e. err e \<noteq> y"
    and run: "run_program (respond B M C F) (calls err (part_ops part @ ops) p) (Idle q) = Ret (y, r)"
  obtains body f q1 where "run_program (respond B M C F) (calls err ops p) (Idle q1) = Ret (y, r)"
    "emitted (q_writer q) (owed B M True q @ body) (q_writer q1)" "last_end q1 = Some f" "q_capabilities q1 = q_capabilities q"
    "is_bin q1 = is_bin q" "default_status q1 = status_after M part (default_status q)"
    "\<And>on later. \<exists>a. client_part B M (q_capabilities q) (is_bin q)
        (body @ finalizer_payload B M (q_capabilities q) (with_more M on f) # later) = Some (a, on, later) \<and>
      part_read M C F (q_capabilities q) (is_bin q) (default_status q) on part a"
proof (cases part)
  case (RowsPart cs m vss t)
  obtain ps q1 where sent: "length (described cs m) = length cs" "list_all row_shaped ps"
    "list_all2 (row_reads B M C F (is_bin q) cs) vss ps" "run_program (respond B M C F) (calls err ops p) (Idle q1) = Ret (y, r)"
    "emitted (q_writer q) (owed B M True q @ item_packets B M (q_capabilities q) (Header (described cs m) (default_status q)) @ ps) (q_writer q1)"
    "last_end q1 = Some (row_finalizer M (q_capabilities q) cs (default_status q) t)" "q_capabilities q1 = q_capabilities q"
    "is_bin q1 = is_bin q" "default_status q1 = session_status_flags M (default_status q)"
    by (rule rows_part_sent [OF spec q(1,2) part [unfolded RowsPart] err run [unfolded RowsPart]])
  note read = rows_part_read [OF spec(1,2) q(3) part [unfolded RowsPart] sent(1-3)]
  show ?thesis
    by (rule that [OF sent(4,5,6,7,8)]) (use sent(9) read RowsPart in \<open>simp_all del: item_packets.simps\<close>)
next
  case (OkPart ok)
  have "run_program (respond B M C F) (calls err (CompleteOneWithStatus ok # ops) p) (Idle q) = Ret (y, r)"
    using run OkPart by simp
  from calls_step [OF this err] obtain st1 where st1: "respond B M C F (CompleteOneWithStatus ok) (Idle q) = Some (Ret (Inr (), st1))"
    and rest: "run_program (respond B M C F) (calls err ops p) st1 = Ret (y, r)" by blast
  obtain r0 q0 where q0: "finalize B M True q = (r0, q0)" by fastforce
  from st1 q0 have r0: "r0 = Inr ()" and q1: "st1 = Idle (q0\<lparr>default_status := session_status_flags M (ok_status_flags ok),
      last_end := Some (FinOk ok)\<rparr>)"
    by (cases r0; simp add: complete_one_with_status_def then_io_def and_then_def to_idle_def)+
  note fin = finalize_owed [OF spec(1) q(1) q0 [unfolded r0]]
  note read = ok_part_read [OF spec(1,2) q(3) part [unfolded OkPart]]
  show ?thesis
    by (rule that [OF rest [unfolded q1], where body = "[]" and f = "FinOk ok"]) (use fin read OkPart in simp_all)
qed

subsection \<open>Whole responses\<close>

definition end_packets :: "ending \<Rightarrow> bytes list" where
  "end_packets e = (case e of AllSent \<Rightarrow> [] | Failing kind msg \<Rightarrow> [err_payload kind msg])"

lemma end_sent:
  assumes B: "byteorder_spec B" and w: "ready (q_writer q)" and err: "\<forall>e. err e \<noteq> y"
    and run: "run_program (respond B M C F) (calls err [end_op e] (Return y)) (Idle q) = Ret (y, r)"
  shows "emitted (q_writer q) (owed B M (e \<noteq> AllSent) q @ end_packets e) (q_writer (response_writer r))"
    and "e = AllSent \<Longrightarrow> last_end q \<noteq> None"
proof -
  from calls_step [OF run err] have st: "respond B M C F (end_op e) (Idle q) = Some (Ret (Inr (), r))" by auto
  then obtain q' where r: "r = Spent q'" by (cases e) (auto simp: to_spent_def split: prod.splits)
  have "emitted (q_writer q) (owed B M (e \<noteq> AllSent) q @ end_packets e) (q_writer (response_writer r)) \<and> (e = AllSent \<longrightarrow> last_end q \<noteq> None)"
  proof (cases e)
    case AllSent
    with st r have "no_more_results B M q = (Inr (), q')" by (auto simp: to_spent_def split: prod.splits)
    then obtain q0 where q0: "finalize B M False q = (Inr (), q0)" "q' = q0\<lparr>completion := True\<rparr>" and "last_end q \<noteq> None"
      by (auto simp: no_more_results_def then_io_eq_Inr split: if_splits)
    with finalize_owed(1) [OF B w q0(1)] AllSent r show ?thesis by (simp add: end_packets_def)
  next
    case (Failing kind msg)
    with st r have "query_error B M kind msg q = (Inr (), q')" by (auto simp: to_spent_def split: prod.splits)
    then obtain q0 v where q0: "finalize B M True q = (Inr (), q0)" and v: "write_err B kind msg (q_writer q0) = (Inr (), v)"
      and q': "q_writer q' = v"
      by (auto simp: query_error_def then_io_eq_Inr via_writer_cases)
    note fin = finalize_owed(1) [OF B w q0]
    then have "ready (q_writer q0)" by (simp add: emitted_def)
    from emitsD [OF failure_emits [OF B, of kind msg undefined 0] this v] have "emitted (q_writer q0) [err_payload kind msg] v" by simp
    from emitted_append [OF fin this] r q' Failing show ?thesis by (simp add: end_packets_def)
  qed
  then show "emitted (q_writer q) (owed B M (e \<noteq> AllSent) q @ end_packets e) (q_writer (response_writer r))"
    and "e = AllSent \<Longrightarrow> last_end q \<noteq> None" by blast+
qed

lemma response_sent:
  assumes spec: "byteorder_spec B" "myc_spec M" "chrono_spec C" and err: "\<forall>e. err e \<noteq> y"
  shows "ready (q_writer q) \<Longrightarrow> max_packet_size (packet_builder (q_writer q)) \<le> usize_max \<Longrightarrow>
    has_cap M (q_capabilities q) CLIENT_PROTOCOL_41 \<Longrightarrow> list_all (proper_part C) parts \<Longrightarrow>
    run_program (respond B M C F) (calls err (concat (map part_ops parts) @ [end_op e]) (Return y)) (Idle q) = Ret (y, r) \<Longrightarrow>
    \<exists>ps. emitted (q_writer q) (owed B M (parts \<noteq> [] \<or> e \<noteq> AllSent) q @ ps) (q_writer (response_writer r)) \<and>
      (if parts = [] \<and> e = AllSent then ps = []
       else \<forall>n later. length ps \<le> n \<longrightarrow> (\<exists>as. client_parts n B M (q_capabilities q) (is_bin q) (ps @ later) = Some (as, later) \<and>
         all_read M C F (q_capabilities q) (is_bin q) (default_status q) parts e as))"
proof (induction parts arbitrary: q)
  case Nil
  then have "run_program (respond B M C F) (calls err [end_op e] (Return y)) (Idle q) = Ret (y, r)" by simp
  note sent = end_sent(1) [OF spec(1) Nil.prems(1) err this]
  show ?case
  proof (cases e)
    case AllSent
    with sent show ?thesis by (intro exI [of _ "[]"]) (simp add: end_packets_def)
  next
    case (Failing kind msg)
    have "client_parts n B M (q_capabilities q) (is_bin q) (err_payload kind msg # later) =
        Some ([Refusal (error_code kind, sqlstate kind, msg)], later)" if "0 < n" for n later
      using that by (cases n) (simp_all add: error_read)
    with sent Failing show ?thesis by (intro exI [of _ "[err_payload kind msg]"]) (simp add: end_packets_def)
  qed
next
  case (Cons part parts)
  let ?caps = "q_capabilities q" and ?on = "parts \<noteq> [] \<or> e \<noteq> AllSent"
  have part: "proper_part C part" using Cons.prems(4) by simp
  have run: "run_program (respond B M C F) (calls err (part_ops part @ (concat (map part_ops parts) @ [end_op e])) (Return y)) (Idle q) = Ret (y, r)"
    using Cons.prems(5) by simp
  obtain body f q1
    where rest: "run_program (respond B M C F) (calls err (concat (map part_ops parts) @ [end_op e]) (Return y)) (Idle q1) = Ret (y, r)"
      and sent: "emitted (q_writer q) (owed B M True q @ body) (q_writer q1)" and q1: "last_end q1 = Some f" "q_capabilities q1 = ?caps"
        "is_bin q1 = is_bin q" "default_status q1 = status_after M part (default_status q)"
      and read: "\<And>on later. \<exists>a. client_part B M ?caps (is_bin q) (body @ finalizer_payload B M ?caps (with_more M on f) # later) =
        Some (a, on, later) \<and> part_read M C F ?caps (is_bin q) (default_status q) on part a"
    by (rule part_sent [OF spec Cons.prems(1-3) part err run]) (rule that)
  have w1: "ready (q_writer q1)" "max_packet_size (packet_builder (q_writer q1)) \<le> usize_max"
    using sent Cons.prems(2) by (simp_all add: emitted_def same_limits_def)
  have ok: "has_cap M (q_capabilities q1) CLIENT_PROTOCOL_41" "list_all (proper_part C) parts"
    using Cons.prems(3,4) q1(2) by simp_all
  obtain ps where more: "emitted (q_writer q1) (owed B M ?on q1 @ ps) (q_writer (response_writer r))"
      and tail: "if parts = [] \<and> e = AllSent then ps = []
       else \<forall>n later. length ps \<le> n \<longrightarrow> (\<exists>as. client_parts n B M ?caps (is_bin q) (ps @ later) = Some (as, later) \<and>
         all_read M C F ?caps (is_bin q) (status_after M part (default_status q)) parts e as)"
    using Cons.IH [OF w1 ok rest] unfolding q1(2-4) by (elim exE conjE)
  let ?e = "finalizer_payload B M ?caps (with_more M ?on f)"
  have "owed B M ?on q1 = [?e]" using q1 by (simp add: owed_def)
  with emitted_append [OF sent more] have all: "emitted (q_writer q) (owed B M True q @ (body @ ?e # ps)) (q_writer (response_writer r))" by simp
  have "\<exists>as. client_parts n B M ?caps (is_bin q) ((body @ ?e # ps) @ later) = Some (as, later) \<and>
      all_read M C F ?caps (is_bin q) (default_status q) (part # parts) e as"
    if n: "length (body @ ?e # ps) \<le> n" for n later
  proof -
    obtain k where k: "n = Suc k" "length ps \<le> k" using n by (cases n) auto
    obtain a where a: "client_part B M ?caps (is_bin q) (body @ ?e # (ps @ later)) = Some (a, ?on, ps @ later)"
      "part_read M C F ?caps (is_bin q) (default_status q) ?on part a" using read by blast
    have step: "client_parts n B M ?caps (is_bin q) ((body @ ?e # ps) @ later) =
        (if ?on then map_option (apfst (Cons a)) (client_parts k B M ?caps (is_bin q) (ps @ later)) else Some ([a], ps @ later))"
      unfolding k(1) append_assoc append_Cons client_parts.simps a(1) option.case prod.case by (rule refl)
    show ?thesis
    proof (cases ?on)
      case True
      then obtain as where as: "client_parts k B M ?caps (is_bin q) (ps @ later) = Some (as, later)"
        "all_read M C F ?caps (is_bin q) (status_after M part (default_status q)) parts e as"
        using tail k(2) by (metis (no_types, lifting))
      have "client_parts n B M ?caps (is_bin q) ((body @ ?e # ps) @ later) = Some (a # as, later)"
        unfolding step if_P [OF True] as(1) by simp
      moreover have "all_read M C F ?caps (is_bin q) (default_status q) (part # parts) e (a # as)"
        using a(2) as(2) by simp
      ultimately show ?thesis by blast
    next
      case False
      then have "ps = []" "client_parts n B M ?caps (is_bin q) ((body @ ?e # ps) @ later) = Some ([a], ps @ later)"
        using tail step by simp_all
      with a(2) False show ?thesis by (intro exI [of _ "[a]"]) simp
    qed
  qed
  with all show ?case by (intro exI [of _ "body @ ?e # ps"]) simp
qed

text \<open>C39: a client knows where a response ends. A backend that answers with any sequence of result sets and
  OK packets, and then either ends the response or reports an error behind it, all without an error of
  its own, has sent packets that a client takes apart by the protocol alone, going on after a part exactly
  when its status announces another one: it reads every part in order, each with its columns, rows and
  fields, the status of all but the last announces more results and that of the last does not, and it
  stops at the last packet of the response, neither earlier nor later, whatever packets follow.\<close>

theorem response_end_recognised:
  assumes "byteorder_spec B" and "myc_spec M" and "chrono_spec C" and "has_cap M (q_capabilities q) CLIENT_PROTOCOL_41"
    and "ready (q_writer q)" and "max_packet_size (packet_builder (q_writer q)) \<le> usize_max" and "last_end q = None"
    and "list_all (proper_part C) parts" and "\<forall>e. err e \<noteq> y"
    and "run_program (respond B M C F) (calls err (concat (map part_ops parts) @ [end_op e]) (Return y)) (Idle q) = Ret (y, r)"
  shows "\<exists>ps. emitted (q_writer q) ps (q_writer (response_writer r)) \<and>
    (\<forall>later. \<exists>as. client_response B M (q_capabilities q) (is_bin q) (ps @ later) = Some (as, later) \<and>
       all_read M C F (q_capabilities q) (is_bin q) (default_status q) parts e as)"
proof -
  obtain ps where ps: "emitted (q_writer q) (owed B M (parts \<noteq> [] \<or> e \<noteq> AllSent) q @ ps) (q_writer (response_writer r))"
    and read: "if parts = [] \<and> e = AllSent then ps = []
       else \<forall>n later. length ps \<le> n \<longrightarrow> (\<exists>as. client_parts n B M (q_capabilities q) (is_bin q) (ps @ later) = Some (as, later) \<and>
         all_read M C F (q_capabilities q) (is_bin q) (default_status q) parts e as)"
    using response_sent [OF assms(1-3,9,5,6,4,8,10)] by (elim exE conjE)
  have some: "\<not> (parts = [] \<and> e = AllSent)"
  proof
    assume none: "parts = [] \<and> e = AllSent"
    have "run_program (respond B M C F) (calls err [end_op e] (Return y)) (Idle q) = Ret (y, r)" using assms(10) none by simp
    from end_sent(2) [OF assms(1,5,9) this] none assms(7) show False by simp
  qed
  have "emitted (q_writer q) ps (q_writer (response_writer r))" using ps assms(7) by (simp add: owed_def)
  moreover have "\<exists>as. client_response B M (q_capabilities q) (is_bin q) (ps @ later) = Some (as, later) \<and>
      all_read M C F (q_capabilities q) (is_bin q) (default_status q) parts e as" for later
    using read [unfolded if_not_P [OF some], rule_format, of "length (ps @ later)" later] by (simp add: client_response_def)
  ultimately show ?thesis by blast
qed

text \<open>Two OK packets for a client that has negotiated several results.\<close>

definition demo_multi :: QueryResultWriter where
  "demo_multi = query_new_tracked (new_writer demo_sink) False 0x20200 2"

definition demo_multi_run :: "(unit io_result \<times> response) rust" where
  "demo_multi_run = run_program (respond byteorder_ref myc_ref chrono_ref fmt_none)
     (calls Inl (concat (map part_ops [OkPart (default_ok\<lparr>affected_rows := 1\<rparr>), OkPart (default_ok\<lparr>affected_rows := 2\<rparr>)]) @ [end_op AllSent])
       (Return (Inr ()))) (Idle demo_multi)"

lemma demo_multi_caps: "has_cap myc_ref 0x20200 CLIENT_PROTOCOL_41" "has_cap myc_ref 0x20200 CLIENT_MULTI_RESULTS"
  "\<not> has_cap myc_ref 0x20200 CLIENT_SESSION_TRACK"
  by (simp_all add: has_cap_def contains_def myc_ref_def ref_cap_def)

lemma demo_ok_written:
  assumes "sound w" and "length (info ok) \<le> 10" and "session_state_info ok = []"
  shows "\<exists>w'. write_ok_packet byteorder_ref myc_ref 0x20200 ok w = (Inr (), w') \<and> sound w'"
proof -
  have "length (ok_payload byteorder_ref myc_ref 0x20200 ok) \<le> 100"
    using demo_multi_caps assms(2) lenenc_int_length [of "affected_rows ok"] lenenc_int_length [of "last_insert_id ok"]
    by (simp add: ok_payload_def ok_pieces_def Let_def byteorder_specD [OF byteorder_ref_spec] myc_specD [OF myc_ref_spec])
  then have "fits w [ok_payload byteorder_ref myc_ref 0x20200 ok]" using assms(1) by (simp add: fits_def sound_def usize_max_def)
  from completesD [OF ok_emits(2) [OF byteorder_ref_spec] _ _ this] assms(1) obtain w' where
    w': "write_ok_packet byteorder_ref myc_ref 0x20200 ok w = (Inr (), w')" by (auto simp: sound_def)
  have "emitted w [ok_payload byteorder_ref myc_ref 0x20200 ok] w'"
    by (rule emitsD [OF ok_emits(1) [OF byteorder_ref_spec] _ w']) (use assms(1) in \<open>simp add: sound_def\<close>)
  moreover have "writer_reliable w'" using preservesD [OF reliable_finalizer [where f = "FinOk ok" and B = byteorder_ref and M = myc_ref and caps = "0x20200"], of w] w' assms(1)
    by (simp add: sound_def)
  ultimately have "sound w'" using assms(1) by (simp add: sound_def emitted_def same_limits_def)
  with w' show ?thesis by blast
qed

lemma demo_multi_succeeds: "\<exists>r. demo_multi_run = Ret (Inr (), r)"
proof -
  let ?ok = "\<lambda>n on. default_ok\<lparr>affected_rows := n, ok_status_flags := set_flag 0 (status_bits myc_ref SERVER_MORE_RESULTS_EXISTS) on\<rparr>"
  have "sound (new_writer demo_sink)" using demo_sink_ready by (simp add: sound_def new_writer_def new_builder_def)
  from demo_ok_written [OF this, of "?ok 1 True"] obtain w1 where w1: "sound w1"
    "write_ok_packet byteorder_ref myc_ref 0x20200 (?ok 1 True) (new_writer demo_sink) = (Inr (), w1)" by (auto simp: default_ok_def)
  from demo_ok_written [OF w1(1), of "?ok 2 False"] obtain w2 where
    w2: "write_ok_packet byteorder_ref myc_ref 0x20200 (?ok 2 False) w1 = (Inr (), w2)" by (auto simp: default_ok_def)
  have zero: "ok_status_flags default_ok = 0" by (simp add: default_ok_def)
  show ?thesis using w1(2) w2 demo_multi_caps(2)
    by (simp add: demo_multi_run_def demo_multi_def query_new_tracked_def to_idle_def to_spent_def complete_one_with_status_def then_io_def
        and_then_def finalize_def no_more_results_def via_writer_def multi_results_required_def Let_def zero)
qed

theorem response_end_recognised_witness:
  "\<exists>r ps. demo_multi_run = Ret (Inr (), r) \<and> emitted (new_writer demo_sink) ps (q_writer (response_writer r)) \<and>
    (\<exists>a1 a2. client_response byteorder_ref myc_ref 0x20200 False (ps @ [[1, 2, 3]]) = Some ([Outcome a1, Outcome a2], [[1, 2, 3]]) \<and>
       affected_rows a1 = 1 \<and> announces myc_ref (ok_status_flags a1) \<and>
       affected_rows a2 = 2 \<and> \<not> announces myc_ref (ok_status_flags a2))"
proof -
  let ?parts = "[OkPart (default_ok\<lparr>affected_rows := 1\<rparr>), OkPart (default_ok\<lparr>affected_rows := 2\<rparr>)] ::
    (int \<times> nat \<times> nat, (int \<times> nat \<times> nat) \<times> nat \<times> nat \<times> nat \<times> nat) part list"
  obtain r where r: "demo_multi_run = Ret (Inr (), r)" using demo_multi_succeeds by blast
  have q: "has_cap myc_ref (q_capabilities demo_multi) CLIENT_PROTOCOL_41" "ready (q_writer demo_multi)"
    "max_packet_size (packet_builder (q_writer demo_multi)) \<le> usize_max" "last_end demo_multi = None"
    using demo_multi_caps demo_sink_ready by (simp_all add: demo_multi_def query_new_tracked_def new_writer_def new_builder_def)
  have parts: "list_all (proper_part chrono_ref) ?parts" by (simp add: default_ok_def)
  have err: "\<forall>e. Inl e \<noteq> (Inr () :: unit io_result)" by simp
  from response_end_recognised [OF byteorder_ref_spec myc_ref_spec chrono_ref_spec q parts err r [unfolded demo_multi_run_def]] obtain ps
    where ps: "emitted (q_writer demo_multi) ps (q_writer (response_writer r))"
      and read: "\<forall>later. \<exists>as. client_response byteorder_ref myc_ref (q_capabilities demo_multi) (is_bin demo_multi) (ps @ later) = Some (as, later) \<and>
         all_read myc_ref chrono_ref fmt_none (q_capabilities demo_multi) (is_bin demo_multi) (default_status demo_multi) ?parts AllSent as"
    by (elim exE conjE)
  from read [rule_format, of "[[1, 2, 3]]"] obtain as where as: "client_response byteorder_ref myc_ref 0x20200 False (ps @ [[1, 2, 3]]) = Some (as, [[1, 2, 3]])"
    "all_read myc_ref chrono_ref fmt_none 0x20200 False 2 ?parts AllSent as"
    by (auto simp: demo_multi_def query_new_tracked_def simp del: part_ops.simps all_read.simps)
  then obtain a1 a2 where "as = [a1, a2]" and a: "part_read myc_ref chrono_ref fmt_none 0x20200 False 2 True (OkPart (default_ok\<lparr>affected_rows := 1\<rparr>)) a1"
    "\<exists>st. part_read myc_ref chrono_ref fmt_none 0x20200 False st False (OkPart (default_ok\<lparr>affected_rows := 2\<rparr>)) a2"
    by auto
  moreover obtain o1 o2 where "a1 = Outcome o1" "a2 = Outcome o2" using a by (cases a1; cases a2) auto
  ultimately show ?thesis using as(1) r ps announces_flagged [OF myc_ref_spec]
    by (intro exI [of _ r] exI [of _ ps]) (auto simp: ok_view_def demo_multi_def query_new_tracked_def)
qed

end
