(* ===== verification/Spec2Isabelle.thy ===== *)
theory Spec2Isabelle
  imports Framing Commands Params Responses Temporal Conversions Writers Serving Statements Connection Flushing Secure Blocking NomInput Fixture Servers Conformance
    Refusal Challenge PlainCommands MultiResults
begin

text \<open>
  A verification development for \<open>opensrv-mysql\<close>, a server-side implementation of the MySQL/MariaDB
  wire protocol. All sources are under \<open>src/mysql/src/\<close> unless a path says otherwise.

  \<^bold>\<open>The program.\<close> A user implements the trait \<open>AsyncMysqlShim\<close>; the library runs one connection over
  a reader and a writer. It sends a greeting, reads the client's response (inside TLS after a switch,
  if the client asks for it), negotiates an authentication plugin, asks the backend whether to let the
  client in, and then serves commands: each packet is parsed into a command, the command is run against
  the table of prepared statements and handed to a callback of the backend, and the callback answers
  through an object that writes packets. Everything on the wire is cut into frames of at most
  \<open>2^24 - 1\<close> payload bytes with sequence numbers modulo 256.

  \<^bold>\<open>How code becomes definitions.\<close> A struct is a \<open>record\<close>, an enum a \<open>datatype\<close>, a machine integer a
  word, a \<open>Vec<u8>\<close> or a \<open>str\<close> the list of its bytes, a \<open>HashMap\<close> an association list. A function
  that returns \<open>io::Result\<close> and changes its receiver is a function to a result (\<open>Inl\<close> the error,
  \<open>Inr\<close> the value) and the new state; \<open>?\<close> is \<open>and_then\<close>. A panic is the value \<open>Panicked\<close> of the type
  \<open>rust\<close>; no callback and no unwinding follows it. The transports are data: the reader is a list of
  what its reads deliver (bytes, end of file, an error, nothing until the timer fires), the writer a
  script of what its writes and flushes do, with the bytes taken so far. A timeout is an event of
  these lists, which matters only when the call has a time limit. What a future does while it waits
  is not visible to this single-task code, so \<open>async\<close> leaves no trace in the model.

  \<^bold>\<open>Theories and sources.\<close>
  \<^item> Prelude: integers, errors, stateful calls, little-endian bytes. External: the records of operations
    of the crates \<open>nom\<close>, \<open>byteorder\<close>, \<open>mysql_common\<close> and \<open>chrono\<close>, what the sources rely on
    (\<open>nom_spec\<close>, \<open>byteorder_spec\<close>, \<open>myc_spec\<close>, \<open>chrono_spec\<close>) and an instance of each. Protocol: flag
    sets, column types and the structures of \<open>lib.rs\<close> for columns and responses. ErrorCodes:
    \<open>errorcodes.rs\<close>. Text: the functions on strings of the standard library.
  \<^item> PacketWriter (\<open>packet_writer.rs\<close>), PacketReader (\<open>packet_reader.rs\<close>, the locale
    \<open>message_parser\<close> is the contract between its loop and its parsing step), Blocking (the blocking
    variant of the reader and its buffers),
    NomInput (\<open>NomBytes\<close>, with the locale \<open>nom_input\<close>). Framing puts both directions against one wire format and
    interprets the locale. Messages: which packets a piece of code emits, the locale \<open>packet_channel\<close>.
  \<^item> Commands (\<open>commands.rs\<close>), Params (\<open>params.rs\<close>), Values, Conversions and Temporal
    (\<open>value/decode.rs\<close>), Encode (\<open>value/encode.rs\<close>), Writers (\<open>writers.rs\<close> and the metadata checks
    of \<open>lib.rs\<close>), ResultSet (\<open>resultset.rs\<close>). TextProtocol, Rows, Answers and
    MultiResults: values, rows, whole result sets and responses of several of them as a client reads them.
  \<^item> Backend: the trait. A callback is a tree of calls on the object it is given (\<open>program\<close>), so that
    every implementation that returns is an instance; the locale \<open>object_api\<close> carries what each
    method keeps over to every program, and Responses and Callbacks interpret it for the five objects.
  \<^item> Session: the loop \<open>run\<close> of \<open>lib.rs\<close> with one definition per arm. SessionTables: its tables and
    limits. Serving: the specification of answers, which the session refines. Statements, Flushing and
    PlainCommands: the shape of the statement table, long data, sequence errors, when output is flushed, and
    the exact effect of the commands that no callback answers.
  \<^item> Handshake and Login: \<open>init_before_ssl_with_config_and_options\<close>, \<open>init_after_ssl\<close> and the entry
    points of \<open>lib.rs\<close>; Greeting, Challenge, Authentication, Admission and Refusal: what the client reads
    from the greeting, how the challenge comes about, what a successful login consists of, and that
    bad credentials are refused. Connection: whole connections. Transport and
    Secure: \<open>tls.rs\<close>. Buffered: the buffered entry points. Examples and Fixture: the
    servers \<open>serve_*.rs\<close> and \<open>connector_j_fixture.rs\<close> of \<open>src/mysql/examples/\<close>. Servers: their processes,
    a step relation in which the tasks of many connections interleave.

  \<^bold>\<open>What is shown.\<close>
  \<^item> Frames: what is written is read back from any fragmentation; the reader's parsing step accepts
    exactly well-numbered frames; oversized and truncated packets are errors; the blocking reader
    returns what the asynchronous one does.
  \<^item> Parsers: the command parser accepts exactly the encodings of commands; handshake responses,
    execute parameters and values of either protocol are read back; validated parameters never make
    the backend's iterator panic.
  \<^item> Answers: whatever the backend does, a response that counts as complete is a word of a grammar of
    result sets; a client that follows the more-results status stops exactly at its end; its OK, ERR, column and prepare packets are read back by a
    client; a result set is read back as a whole, with every cell denoting the value written.
  \<^item> Sessions: the packets sent after each command are one answer of the protocol to that command with
    the sequence numbers that follow it; the limits on retained data hold in every reachable state;
    answers are flushed before the next read; enough fuel always exists.
  \<^item> Connections: everything sent from the greeting to the end of a connection, in clear text or inside
    TLS, is a conversation of the protocol; a client whose own credentials the backend rejects, whichever
    others it accepts, causes no callback of the command phase; a good client is let in. In a process that serves many connections
    at once, the password of \<open>serve_auth.rs\<close> is needed on each of them, and their connection ids differ.

  \<^bold>\<open>Fuel and bounds.\<close> The command loop takes fuel for the packets it reads. A packet takes at least four
  bytes of input, so a quarter of the bytes received, plus one, suffices, whatever the backend does
  (\<open>connection_ends\<close>, without a hypothesis on the writer). The reader's loops end by themselves, by the
  size of the stream. The search for a challenge is the only other loop that need not end, a
  \<open>partial_function\<close>: it ends whenever the random source comes up with an acceptable byte.
  \<open>usize\<close> has 64 bits; payload sizes and limits are natural numbers with the overflow checks of the
  source.

  \<^bold>\<open>Parameters.\<close> Besides the crates: \<open>fill\<close> (\<open>getrandom\<close>), the digests of \<open>mysql_common\<close>, \<open>accept\<close>
  (the negotiation of \<open>tokio-rustls\<close>: any function from the transport to an error or two streams),
  tokio's buffered reader and writer, the operations of \<open>bytes\<close> and the capacity a \<open>BytesMut\<close> happens to have, the \<open>Debug\<close> renderings and the decimal
  display of floating-point numbers, and the NaN that narrowing to \<open>f32\<close> yields.

  \<^bold>\<open>Not modelled.\<close> Of a backend: a panic or a change of its state in \<open>authenticate\<close> and
  \<open>auth_plugin_for_username\<close>, which take \<open>&self\<close>, a panic in \<open>on_close\<close>, \<open>on_close_cursor\<close> or
  \<open>on_reset_connection\<close>, and implementations of \<open>ToMysqlValue\<close> other than those of the crate. The payload
  of a signalling NaN that hardware may quiet when an \<open>f32\<close> is widened. \<open>ErrorKind\<close> is any 16-bit code;
  where it matters \<open>is_variant\<close> restricts it to the variants of the source. The order in which a hash map is traversed (no result depends on it); callbacks that wait for ever;
  the branch for a completion flag that holds no valid number, which is unreachable; dropping
  an object without its last method, beyond the session's check that the response is complete; the
  duration named in the message of a read timeout; binding sockets,
  loading certificates and printing in the examples; the integration tests. Of the unit tests, those of the
  parsers and parameters are evaluated on the model in Conformance.
\<close>

end
